(* ===== verification/SB_Prelude.thy ===== *)
theory SB_Prelude
  imports Main "HOL-Library.Word"
begin

text \<open>
  Shared vocabulary of the development: errors and results, the fragments of the Go standard
  library (\<open>strings\<close>, \<open>strconv\<close>, \<open>slices\<close>, \<open>encoding/hex\<close>, \<open>net.ParseMAC\<close>) that the
  modelled sources call, and the generic lemmas and fact collections the components share.
  A Go string is a byte sequence, and so is HOL's \<^typ>\<open>string\<close>.
\<close>

unbundle bit_operations_syntax

section \<open>Fact collections\<close>

named_theorems ctx_simps "updates and resets of the connection metadata"
named_theorems rule_simps "unfolding rules of the rule engine"
named_theorems build_simps "unfolding rules of the rule constructors"
named_theorems frame_simps "what an operation leaves unchanged"

section \<open>Errors and results\<close>

text \<open>
  \<open>E.New(parts...)\<close> is \<open>E_New\<close> of the concatenated text, \<open>E.Cause(err, text)\<close> is \<open>E_Cause\<close>,
  and \<open>E.Cause(err, text, i, "]")\<close> keeps the index as a number in \<open>E_CauseAt\<close>. A cause whose
  message is itself an error is \<open>E_CauseErr\<close>, \<open>E.Extend(err, text)\<close> is \<open>E_Extend\<close>. An error made
  by code outside the repository is \<open>E_Ext\<close> with a description, a panic is \<open>E_Panic\<close>.
\<close>

datatype error =
    E_New string
  | E_Cause error string
  | E_CauseAt error string nat
  | E_CauseErr error error
  | E_Extend error string
  | E_Ext string
  | E_Panic string

type_synonym 'a res = "error + 'a"

definition rbind :: "'a res \<Rightarrow> ('a \<Rightarrow> 'b res) \<Rightarrow> 'b res" where
  "rbind r f = (case r of Inl e \<Rightarrow> Inl e | Inr a \<Rightarrow> f a)"

definition cause :: "string \<Rightarrow> 'a res \<Rightarrow> 'a res" where
  "cause s r = (case r of Inl e \<Rightarrow> Inl (E_Cause e s) | Inr a \<Rightarrow> Inr a)"

definition is_ok :: "'a res \<Rightarrow> bool" where
  "is_ok r = (case r of Inl _ \<Rightarrow> False | Inr _ \<Rightarrow> True)"

lemma rbind_simps [simp]:
  "rbind (Inl e) f = Inl e"
  "rbind (Inr a) f = f a"
  by (simp_all add: rbind_def)

lemma cause_simps [simp]:
  "cause s (Inl e) = Inl (E_Cause e s)"
  "cause s (Inr a) = Inr a"
  by (simp_all add: cause_def)

lemma is_ok_simps [simp]:
  "\<not> is_ok (Inl e)"
  "is_ok (Inr a)"
  by (simp_all add: is_ok_def)

lemma rbind_eq_Inr [simp]: "rbind r f = Inr b \<longleftrightarrow> (\<exists>a. r = Inr a \<and> f a = Inr b)"
  by (cases r) auto

lemma cause_eq_Inr [simp]: "cause s r = Inr a \<longleftrightarrow> r = Inr a"
  by (cases r) auto

lemma rbind_cong [fundef_cong]:
  "r = r' \<Longrightarrow> (\<And>a. r' = Inr a \<Longrightarrow> f a = g a) \<Longrightarrow> rbind r f = rbind r' g"
  by (cases r') auto

lemma is_ok_iff: "is_ok r \<longleftrightarrow> (\<exists>a. r = Inr a)"
  by (cases r) auto

section \<open>Strings\<close>

type_synonym byte = "8 word"

definition ascii_lower :: "char \<Rightarrow> char" where
  "ascii_lower c =
     (let n = (of_char c :: nat) in if 65 \<le> n \<and> n \<le> 90 then char_of (n + 32) else c)"

definition is_ascii :: "string \<Rightarrow> bool" where
  "is_ascii s = list_all (\<lambda>c. (of_char c :: nat) < 128) s"

text \<open>
  \<open>strings.ToLower\<close> and \<open>strings.EqualFold\<close> have an ASCII path; the Unicode case tables they use
  beyond it are an argument.
\<close>

definition strings_ToLower :: "(string \<Rightarrow> string) \<Rightarrow> string \<Rightarrow> string" where
  "strings_ToLower uni s = (if is_ascii s then map ascii_lower s else uni s)"

definition strings_EqualFold :: "(string \<Rightarrow> string \<Rightarrow> bool) \<Rightarrow> string \<Rightarrow> string \<Rightarrow> bool" where
  "strings_EqualFold uni s t =
     (if is_ascii s \<and> is_ascii t then map ascii_lower s = map ascii_lower t else uni s t)"

fun has_prefix :: "'a list \<Rightarrow> 'a list \<Rightarrow> bool" where
  "has_prefix s [] = True"
| "has_prefix [] (p # ps) = False"
| "has_prefix (c # s) (p # ps) = (c = p \<and> has_prefix s ps)"

definition has_suffix :: "'a list \<Rightarrow> 'a list \<Rightarrow> bool" where
  "has_suffix s t = has_prefix (rev s) (rev t)"

fun strings_Contains :: "string \<Rightarrow> string \<Rightarrow> bool" where
  "strings_Contains [] t = (t = [])"
| "strings_Contains (c # s) t = (has_prefix (c # s) t \<or> strings_Contains s t)"

fun strings_Join :: "string list \<Rightarrow> string \<Rightarrow> string" where
  "strings_Join [] sep = []"
| "strings_Join [s] sep = s"
| "strings_Join (s # t # ss) sep = s @ sep @ strings_Join (t # ss) sep"

text \<open>\<open>strings.Index(s, c)\<close> for a single byte; \<^const>\<open>None\<close> is -1.\<close>

fun index_byte :: "string \<Rightarrow> char \<Rightarrow> nat option" where
  "index_byte [] c = None"
| "index_byte (d # s) c = (if d = c then Some 0 else map_option Suc (index_byte s c))"

lemma has_prefix_iff: "has_prefix s p \<longleftrightarrow> (\<exists>r. s = p @ r)"
  by (induction s p rule: has_prefix.induct) auto

lemma has_suffix_iff: "has_suffix s t \<longleftrightarrow> (\<exists>r. s = r @ t)"
proof
  assume "has_suffix s t"
  then obtain r where "rev s = rev t @ r"
    by (auto simp: has_suffix_def has_prefix_iff)
  then have "s = rev r @ t"
    by (metis rev_append rev_rev_ident)
  then show "\<exists>r. s = r @ t" ..
next
  assume "\<exists>r. s = r @ t"
  then show "has_suffix s t"
    by (auto simp: has_suffix_def has_prefix_iff)
qed

lemma strings_Contains_iff: "strings_Contains s t \<longleftrightarrow> (\<exists>a b. s = a @ t @ b)"
proof (induction s)
  case Nil
  then show ?case by auto
next
  case (Cons c s)
  show ?case
  proof
    assume "strings_Contains (c # s) t"
    then consider "has_prefix (c # s) t" | "strings_Contains s t" by auto
    then show "\<exists>a b. c # s = a @ t @ b"
    proof cases
      case 1
      then show ?thesis by (metis append_Nil has_prefix_iff)
    next
      case 2
      then show ?thesis using Cons.IH by (metis append_Cons)
    qed
  next
    assume "\<exists>a b. c # s = a @ t @ b"
    then obtain a b where ab: "c # s = a @ t @ b" by blast
    show "strings_Contains (c # s) t"
    proof (cases a)
      case Nil
      with ab have "has_prefix (c # s) t" by (simp add: has_prefix_iff)
      then show ?thesis by simp
    next
      case (Cons x a')
      with ab have "s = a' @ t @ b" by simp
      then show ?thesis using \<open>strings_Contains s t = (\<exists>a b. s = a @ t @ b)\<close> by auto
    qed
  qed
qed

section \<open>Numbers in strings\<close>

definition digit_val :: "char \<Rightarrow> nat option" where
  "digit_val c =
     (let n = (of_char c :: nat) in if 48 \<le> n \<and> n \<le> 57 then Some (n - 48) else None)"

fun dec_value :: "nat \<Rightarrow> string \<Rightarrow> nat option" where
  "dec_value acc [] = Some acc"
| "dec_value acc (c # s) =
     (case digit_val c of None \<Rightarrow> None | Some d \<Rightarrow> dec_value (acc * 10 + d) s)"

text \<open>\<open>strconv.ParseUint(s, 10, 16)\<close>.\<close>

definition parse_uint16 :: "string \<Rightarrow> (16 word) res" where
  "parse_uint16 s =
     (if s = [] then Inl (E_Ext ''invalid syntax'')
      else case dec_value 0 s of
             None \<Rightarrow> Inl (E_Ext ''invalid syntax'')
           | Some n \<Rightarrow> if n < 65536 then Inr (of_nat n) else Inl (E_Ext ''value out of range''))"

text \<open>\<open>F.ToString\<close> and \<open>strconv.Itoa\<close> of a number.\<close>

fun dec_string :: "nat \<Rightarrow> string" where
  "dec_string n =
     (if n < 10 then [char_of (48 + n)] else dec_string (n div 10) @ [char_of (48 + n mod 10)])"

declare dec_string.simps [simp del]

definition int_string :: "int \<Rightarrow> string" where
  "int_string i = (if i < 0 then CHR ''-'' # dec_string (nat (- i)) else dec_string (nat i))"

text \<open>
  \<open>strings.TrimSpace\<close>: the ASCII space characters; text with other bytes goes through the Unicode
  tables, an argument.
\<close>

definition is_space :: "char \<Rightarrow> bool" where
  "is_space c = (let n = (of_char c :: nat) in 9 \<le> n \<and> n \<le> 13 \<or> n = 32)"

definition strings_TrimSpace :: "(string \<Rightarrow> string) \<Rightarrow> string \<Rightarrow> string" where
  "strings_TrimSpace uni s =
     (if is_ascii s then rev (dropWhile is_space (rev (dropWhile is_space s))) else uni s)"

definition hex_val :: "char \<Rightarrow> nat option" where
  "hex_val c =
     (let n = (of_char c :: nat) in
      if 48 \<le> n \<and> n \<le> 57 then Some (n - 48)
      else if 97 \<le> n \<and> n \<le> 102 then Some (n - 87)
      else if 65 \<le> n \<and> n \<le> 70 then Some (n - 55)
      else None)"

definition hex_digit :: "nat \<Rightarrow> char" where
  "hex_digit n = (if n < 10 then char_of (48 + n) else char_of (87 + n))"

text \<open>\<open>net.xtoi2\<close>: two hexadecimal digits, then the end of the text or the byte \<open>e\<close>.\<close>

definition xtoi2 :: "string \<Rightarrow> char option \<Rightarrow> byte option" where
  "xtoi2 s e =
     (case s of
        a # b # rest \<Rightarrow>
          (if (case rest of [] \<Rightarrow> False | c # _ \<Rightarrow> Some c \<noteq> e) then None
           else (case (hex_val a, hex_val b) of
                   (Some x, Some y) \<Rightarrow> Some (of_nat (16 * x + y))
                 | _ \<Rightarrow> None))
      | _ \<Rightarrow> None)"

fun mac_bytes_sep :: "nat \<Rightarrow> string \<Rightarrow> char \<Rightarrow> byte list option" where
  "mac_bytes_sep 0 s e = Some []"
| "mac_bytes_sep (Suc n) s e =
     (case xtoi2 s (Some e) of
        None \<Rightarrow> None
      | Some b \<Rightarrow> map_option ((#) b) (mac_bytes_sep n (drop 3 s) e))"

fun mac_bytes_dot :: "nat \<Rightarrow> string \<Rightarrow> char \<Rightarrow> byte list option" where
  "mac_bytes_dot 0 s e = Some []"
| "mac_bytes_dot (Suc n) s e =
     (case (xtoi2 (take 2 s) None, xtoi2 (drop 2 s) (Some e)) of
        (Some a, Some b) \<Rightarrow> map_option (\<lambda>r. a # b # r) (mac_bytes_dot n (drop 5 s) e)
      | _ \<Rightarrow> None)"

text \<open>\<open>net.ParseMAC\<close>; \<^const>\<open>None\<close> is the error.\<close>

definition ParseMAC :: "string \<Rightarrow> byte list option" where
  "ParseMAC s =
     (if length s < 14 then None
      else if s ! 2 = CHR '':'' \<or> s ! 2 = CHR ''-'' then
        (if (length s + 1) mod 3 \<noteq> 0 then None
         else let n = (length s + 1) div 3 in
              if n \<noteq> 6 \<and> n \<noteq> 8 \<and> n \<noteq> 20 then None else mac_bytes_sep n s (s ! 2))
      else if s ! 4 = CHR ''.'' then
        (if (length s + 1) mod 5 \<noteq> 0 then None
         else let n = 2 * (length s + 1) div 5 in
              if n \<noteq> 6 \<and> n \<noteq> 8 \<and> n \<noteq> 20 then None else mac_bytes_dot (n div 2) s (s ! 4))
      else None)"

definition hex_byte :: "byte \<Rightarrow> string" where
  "hex_byte b = [hex_digit (unat b div 16), hex_digit (unat b mod 16)]"

text \<open>\<open>net.HardwareAddr.String\<close>.\<close>

definition HardwareAddr_String :: "byte list \<Rightarrow> string" where
  "HardwareAddr_String bs = strings_Join (map hex_byte bs) '':''"

text \<open>\<open>hex.DecodeString\<close>.\<close>

fun hex_DecodeString :: "string \<Rightarrow> byte list option" where
  "hex_DecodeString [] = Some []"
| "hex_DecodeString [a] = None"
| "hex_DecodeString (a # b # s) =
     (case (hex_val a, hex_val b) of
        (Some x, Some y) \<Rightarrow> map_option ((#) (of_nat (16 * x + y))) (hex_DecodeString s)
      | _ \<Rightarrow> None)"

section \<open>Generic lemmas\<close>

lemma fold_or_bool: "fold (\<lambda>x b. b \<or> P x) xs b \<longleftrightarrow> b \<or> (\<exists>x\<in>set xs. P x)"
  by (induction xs arbitrary: b) auto

lemma list_ex_append_swap: "list_ex P (xs @ ys) = list_ex P (ys @ xs)"
  by auto

lemma parse_uint16_Inr:
  "parse_uint16 s = Inr w \<longleftrightarrow>
     s \<noteq> [] \<and> (\<exists>n. dec_value 0 s = Some n \<and> n < 65536 \<and> w = of_nat n)"
  by (auto simp: parse_uint16_def split: option.splits)

lemma dec_value_append:
  "dec_value a (xs @ ys) = (case dec_value a xs of None \<Rightarrow> None | Some b \<Rightarrow> dec_value b ys)"
  by (induction a xs rule: dec_value.induct) (auto split: option.splits)

lemma digit_val_char: "n < 10 \<Longrightarrow> digit_val (char_of (48 + n)) = Some n"
  by (simp add: digit_val_def Let_def)

lemma dec_value_dec_string: "dec_value 0 (dec_string n) = Some n"
proof (induction n rule: dec_string.induct)
  case (1 n)
  show ?case
  proof (cases "n < 10")
    case True
    then show ?thesis
      by (simp add: dec_string.simps [of n] digit_val_char)
  next
    case False
    then show ?thesis
      using 1 by (simp add: dec_string.simps [of n] dec_value_append digit_val_char)
  qed
qed

lemma dec_string_ne [simp]: "dec_string n \<noteq> []"
  by (subst dec_string.simps) simp

lemma hex_digit_val: "n < 16 \<Longrightarrow> hex_val (hex_digit n) = Some n"
  by (auto simp: hex_val_def hex_digit_def Let_def)

lemma xtoi2_hex_byte:
  assumes "case rest of [] \<Rightarrow> True | c # _ \<Rightarrow> Some c = e"
  shows "xtoi2 (hex_byte b @ rest) e = Some b"
proof -
  have "unat b < 256"
    using unsigned_less [of b] by simp
  then have "unat b div 16 < 16" and "unat b mod 16 < 16"
    by auto
  moreover have "of_nat (16 * (unat b div 16) + unat b mod 16) = b"
    by simp
  ultimately show ?thesis
    using assms by (simp add: xtoi2_def hex_byte_def hex_digit_val split: list.splits)
qed

text \<open>Printing a hardware address of a valid length and parsing it gives the address back.\<close>

lemma HardwareAddr_String_Cons:
  "bs \<noteq> [] \<Longrightarrow> HardwareAddr_String (b # bs) = hex_byte b @ CHR '':'' # HardwareAddr_String bs"
  by (cases bs) (simp_all add: HardwareAddr_String_def)

lemma length_HardwareAddr_String:
  "bs \<noteq> [] \<Longrightarrow> length (HardwareAddr_String bs) = 3 * length bs - 1"
proof (induction bs)
  case (Cons b bs)
  then show ?case
    by (cases "bs = []")
      (auto simp: HardwareAddr_String_Cons, auto simp: HardwareAddr_String_def hex_byte_def)
qed simp

lemma mac_bytes_sep_String:
  "mac_bytes_sep (length bs) (HardwareAddr_String bs) (CHR '':'') = Some bs"
proof (induction bs)
  case (Cons b bs)
  show ?case
  proof (cases "bs = []")
    case True
    then show ?thesis
      using xtoi2_hex_byte [where rest = "[]"] by (simp add: HardwareAddr_String_def)
  next
    case False
    have "drop 3 (hex_byte b @ CHR '':'' # HardwareAddr_String bs) = HardwareAddr_String bs"
      by (simp add: hex_byte_def)
    then show ?thesis
      using Cons False by (simp add: HardwareAddr_String_Cons xtoi2_hex_byte)
  qed
qed simp

lemma ParseMAC_String:
  assumes "length bs = 6 \<or> length bs = 8 \<or> length bs = 20"
  shows "ParseMAC (HardwareAddr_String bs) = Some bs"
proof -
  have ne: "bs \<noteq> []" using assms by auto
  obtain b bs' where bs: "bs = b # bs'"
    using ne by (cases bs) auto
  with assms have ne': "bs' \<noteq> []" by auto
  have "HardwareAddr_String bs ! 2 = CHR '':''"
    by (simp add: bs HardwareAddr_String_Cons [OF ne'] hex_byte_def)
  then show ?thesis
    using assms mac_bytes_sep_String [of bs] length_HardwareAddr_String [OF ne]
    by (auto simp: ParseMAC_def Let_def)
qed

end
