(* ===== verification/Net_Addr.thy ===== *)
theory Net_Addr
  imports SB_Prelude
begin

text \<open>
  Addresses: what the sources use of \<open>net/netip\<close> (\<open>Addr\<close>, \<open>Prefix\<close>) and the fields of
  \<open>M.Socksaddr\<close>. The methods of \<open>M.Socksaddr\<close> belong to another module; they are arguments of the
  definitions that call them (see \<open>Inbound_Context\<close>).
\<close>

section \<open>netip.Addr\<close>

datatype addr =
    AddrZero
  | Addr4 "32 word"
  | Addr6 "128 word" string

type_synonym port = "16 word"

record socksaddr =
  sa_Addr :: addr
  sa_Port :: port
  sa_Fqdn :: string

definition empty_socksaddr :: socksaddr where
  "empty_socksaddr = \<lparr>sa_Addr = AddrZero, sa_Port = 0, sa_Fqdn = []\<rparr>"

fun addr_IsValid :: "addr \<Rightarrow> bool" where
  "addr_IsValid AddrZero = False"
| "addr_IsValid _ = True"

fun addr_Is4 :: "addr \<Rightarrow> bool" where
  "addr_Is4 (Addr4 _) = True"
| "addr_Is4 _ = False"

fun addr_Is6 :: "addr \<Rightarrow> bool" where
  "addr_Is6 (Addr6 _ _) = True"
| "addr_Is6 _ = False"

definition mapped4 :: "32 word \<Rightarrow> 128 word" where
  "mapped4 v = 0xffff00000000 OR ucast v"

text \<open>\<open>Addr.As16\<close>: the zero \<open>Addr\<close> gives all zeroes, an IPv4 address its mapped form.\<close>

fun addr_As16 :: "addr \<Rightarrow> 128 word" where
  "addr_As16 AddrZero = 0"
| "addr_As16 (Addr4 v) = mapped4 v"
| "addr_As16 (Addr6 v _) = v"

fun addr_Is4In6 :: "addr \<Rightarrow> bool" where
  "addr_Is4In6 (Addr6 v _) = (drop_bit 32 v = 0xffff)"
| "addr_Is4In6 _ = False"

fun addr_Unmap :: "addr \<Rightarrow> addr" where
  "addr_Unmap (Addr6 v z) = (if drop_bit 32 v = 0xffff then Addr4 (ucast v) else Addr6 v z)"
| "addr_Unmap a = a"

fun addr_WithZone :: "string \<Rightarrow> addr \<Rightarrow> addr" where
  "addr_WithZone z (Addr6 v _) = Addr6 v z"
| "addr_WithZone z a = a"

fun addr_hasZone :: "addr \<Rightarrow> bool" where
  "addr_hasZone (Addr6 _ z) = (z \<noteq> [])"
| "addr_hasZone _ = False"

text \<open>\<open>Addr.String\<close>: dotted IPv4, IPv6 with the first longest run of zero groups compressed.\<close>

definition string4 :: "32 word \<Rightarrow> string" where
  "string4 v =
     strings_Join (map (\<lambda>k. dec_string (unat (take_bit 8 (drop_bit k v)))) [24, 16, 8, 0]) ''.''"

definition v6u16 :: "128 word \<Rightarrow> nat list" where
  "v6u16 v = map (\<lambda>k. unat (take_bit 16 (drop_bit k v))) [112, 96, 80, 64, 48, 32, 16, 0]"

definition zero_run :: "nat list \<Rightarrow> nat \<Rightarrow> nat" where
  "zero_run gs i = length (takeWhile (\<lambda>g. g = 0) (drop i gs))"

definition longest_zero_run :: "nat list \<Rightarrow> (nat \<times> nat) option" where
  "longest_zero_run gs =
     fold (\<lambda>i best. let l = zero_run gs i in
            if l \<ge> 2 \<and> (case best of None \<Rightarrow> True | Some (_, n) \<Rightarrow> l > n) then Some (i, l) else best)
       [0..<8] None"

fun hex_string :: "nat \<Rightarrow> string" where
  "hex_string n = (if n < 16 then [hex_digit n] else hex_string (n div 16) @ [hex_digit (n mod 16)])"

declare hex_string.simps [simp del]

definition string6 :: "128 word \<Rightarrow> string" where
  "string6 v =
     (let gs = v6u16 v in
      case longest_zero_run gs of
        None \<Rightarrow> strings_Join (map hex_string gs) '':''
      | Some (i, l) \<Rightarrow>
          strings_Join (map hex_string (take i gs)) '':'' @ ''::'' @
          strings_Join (map hex_string (drop (i + l) gs)) '':'')"

definition addr_String :: "addr \<Rightarrow> string" where
  "addr_String a =
     (case a of
        AddrZero \<Rightarrow> ''invalid IP''
      | Addr4 v \<Rightarrow> string4 v
      | Addr6 v z \<Rightarrow>
          (if addr_Is4In6 a then ''::ffff:'' @ string4 (ucast v) else string6 v) @
          (if z = [] then [] else CHR ''%'' # z))"

section \<open>netip.Prefix\<close>

datatype prefix = PrefixZero | Prefix addr nat

fun prefix_IsValid :: "prefix \<Rightarrow> bool" where
  "prefix_IsValid (Prefix (Addr4 _) n) = (n \<le> 32)"
| "prefix_IsValid (Prefix (Addr6 _ _) n) = (n \<le> 128)"
| "prefix_IsValid _ = False"

fun prefix_Bits :: "prefix \<Rightarrow> int" where
  "prefix_Bits (Prefix _ n) = int n"
| "prefix_Bits PrefixZero = -1"

fun prefix_Addr :: "prefix \<Rightarrow> addr" where
  "prefix_Addr (Prefix a _) = a"
| "prefix_Addr PrefixZero = AddrZero"

fun same_bits :: "addr \<Rightarrow> addr \<Rightarrow> nat \<Rightarrow> bool" where
  "same_bits (Addr4 a) (Addr4 b) n = (drop_bit (32 - n) (a XOR b) = 0)"
| "same_bits (Addr6 a _) (Addr6 b _) n = (drop_bit (128 - n) (a XOR b) = 0)"
| "same_bits _ _ _ = False"

definition prefix_Contains :: "prefix \<Rightarrow> addr \<Rightarrow> bool" where
  "prefix_Contains p a =
     (case p of
        PrefixZero \<Rightarrow> False
      | Prefix b n \<Rightarrow> prefix_IsValid p \<and> \<not> addr_hasZone a \<and> same_bits b a n)"

definition prefix_Overlaps :: "prefix \<Rightarrow> prefix \<Rightarrow> bool" where
  "prefix_Overlaps p q =
     (case (p, q) of
        (Prefix a n, Prefix b m) \<Rightarrow>
          prefix_IsValid p \<and> prefix_IsValid q \<and> same_bits a b (min n m)
      | _ \<Rightarrow> False)"

definition prefix_String :: "prefix \<Rightarrow> string" where
  "prefix_String p =
     (if \<not> prefix_IsValid p then ''invalid Prefix''
      else addr_String (prefix_Addr p) @ ''/'' @ int_string (prefix_Bits p))"

lemma addr_Is6_iff: "addr_Is6 a \<longleftrightarrow> addr_IsValid a \<and> \<not> addr_Is4 a"
  by (cases a) auto

lemma addr_Is4_Is6_disjoint: "\<not> (addr_Is4 a \<and> addr_Is6 a)"
  by (cases a) auto

lemma same_bits_sym: "same_bits a b n = same_bits b a n"
  by (cases a; cases b) (simp_all add: xor.commute)

lemma prefix_Overlaps_sym: "prefix_Overlaps p q = prefix_Overlaps q p"
  by (cases p; cases q) (auto simp: prefix_Overlaps_def same_bits_sym min.commute)

end
