(* ===== verification/Ip_Set.thy ===== *)
theory Ip_Set
  imports Net_Addr
begin

text \<open>
  \<open>common/ipset/set.go\<close>: a set of addresses as two sorted arrays of closed ranges, searched by
  \<open>slices.BinarySearchFunc\<close>. A \<open>[16]byte\<close> is the 128-bit word of its big-endian value; \<open>compare16\<close>
  compares the two 64-bit halves as the source does. \<open>netipx.IPSet\<close> is another module's: its
  \<open>Ranges()\<close> is the argument of \<open>FromIPSet\<close>.
\<close>

section \<open>slices.BinarySearchFunc\<close>

function bsearch_loop :: "('a \<Rightarrow> int) \<Rightarrow> 'a list \<Rightarrow> nat \<Rightarrow> nat \<Rightarrow> nat" where
  "bsearch_loop cmp xs i j =
     (if i < j then
        (let h = (i + j) div 2 in
         if cmp (xs ! h) < 0 then bsearch_loop cmp xs (h + 1) j
         else bsearch_loop cmp xs i h)
      else i)"
  by pat_completeness auto
termination
  by (relation "measure (\<lambda>(cmp, xs, i, j). j - i)") auto

declare bsearch_loop.simps [simp del]

definition BinarySearchFunc :: "'a list \<Rightarrow> ('a \<Rightarrow> int) \<Rightarrow> nat \<times> bool" where
  "BinarySearchFunc xs cmp =
     (let i = bsearch_loop cmp xs 0 (length xs)
      in (i, i < length xs \<and> cmp (xs ! i) = 0))"

text \<open>\<open>cmp\<close> is monotone along the list: once it is non-negative it stays so.\<close>

definition cmp_sorted :: "('a \<Rightarrow> int) \<Rightarrow> 'a list \<Rightarrow> bool" where
  "cmp_sorted cmp xs \<longleftrightarrow>
     (\<forall>i j. i \<le> j \<longrightarrow> j < length xs \<longrightarrow> cmp (xs ! j) < 0 \<longrightarrow> cmp (xs ! i) < 0)"

definition split_at :: "('a \<Rightarrow> int) \<Rightarrow> 'a list \<Rightarrow> nat \<Rightarrow> nat \<Rightarrow> bool" where
  "split_at cmp xs lo hi \<longleftrightarrow>
     (\<forall>k < lo. cmp (xs ! k) < 0) \<and> (\<forall>k. hi \<le> k \<longrightarrow> k < length xs \<longrightarrow> 0 \<le> cmp (xs ! k))"

lemma bsearch_loop_split:
  assumes "cmp_sorted cmp xs"
  shows "\<lbrakk>i \<le> j; j \<le> length xs; split_at cmp xs i j\<rbrakk> \<Longrightarrow>
         split_at cmp xs (bsearch_loop cmp xs i j) (bsearch_loop cmp xs i j)"
  using assms
proof (induction cmp xs i j rule: bsearch_loop.induct)
  case (1 cmp xs i j)
  let ?h = "(i + j) div 2"
  consider "\<not> i < j" | "i < j" "cmp (xs ! ?h) < 0" | "i < j" "\<not> cmp (xs ! ?h) < 0" by blast
  then show ?case
  proof cases
    case c: 1
    with "1.prems" show ?thesis by (simp add: bsearch_loop.simps)
  next
    case c: 2
    have hlen: "?h < length xs" using c(1) "1.prems"(2) by linarith
    have "split_at cmp xs (?h + 1) j"
      unfolding split_at_def
    proof (intro conjI allI impI)
      fix k assume "k < ?h + 1"
      then have "k \<le> ?h" by simp
      then show "cmp (xs ! k) < 0"
        using c(2) hlen "1.prems"(4) unfolding cmp_sorted_def by blast
    next
      fix k assume "j \<le> k" "k < length xs"
      then show "0 \<le> cmp (xs ! k)" using "1.prems"(3) by (simp add: split_at_def)
    qed
    moreover have "?h + 1 \<le> j" using c by linarith
    ultimately have "split_at cmp xs (bsearch_loop cmp xs (?h + 1) j) (bsearch_loop cmp xs (?h + 1) j)"
      using "1.IH"(1) [OF c(1) refl c(2)] "1.prems"(2,4) by blast
    moreover have "bsearch_loop cmp xs i j = bsearch_loop cmp xs (?h + 1) j"
      using c by (subst bsearch_loop.simps) (simp add: Let_def)
    ultimately show ?thesis by simp
  next
    case c: 3
    have "split_at cmp xs i ?h"
      unfolding split_at_def
    proof (intro conjI allI impI)
      fix k assume "k < i"
      then show "cmp (xs ! k) < 0" using "1.prems"(3) by (simp add: split_at_def)
    next
      fix k assume "?h \<le> k" "k < length xs"
      then show "0 \<le> cmp (xs ! k)"
        using c(2) "1.prems"(4) unfolding cmp_sorted_def by (meson not_less)
    qed
    moreover have "i \<le> ?h" "?h \<le> length xs" using c "1.prems"(2) by linarith+
    ultimately have "split_at cmp xs (bsearch_loop cmp xs i ?h) (bsearch_loop cmp xs i ?h)"
      using "1.IH"(2) [OF c(1) refl c(2)] "1.prems"(4) by blast
    moreover have "bsearch_loop cmp xs i j = bsearch_loop cmp xs i ?h"
      using c by (subst bsearch_loop.simps) (simp add: Let_def)
    ultimately show ?thesis by simp
  qed
qed

text \<open>
  If at most one element compares equal, as for disjoint ranges, the search finds exactly whether
  there is one.
\<close>

lemma BinarySearchFunc_found:
  assumes "cmp_sorted cmp xs"
    and "\<And>i j. \<lbrakk>i < j; j < length xs; cmp (xs ! j) = 0\<rbrakk> \<Longrightarrow> cmp (xs ! i) < 0"
  shows "snd (BinarySearchFunc xs cmp) \<longleftrightarrow> (\<exists>x \<in> set xs. cmp x = 0)"
proof -
  let ?r = "bsearch_loop cmp xs 0 (length xs)"
  have "split_at cmp xs ?r ?r"
    using bsearch_loop_split [OF assms(1), of 0 "length xs"] by (simp add: split_at_def)
  then have lo: "\<forall>k < ?r. cmp (xs ! k) < 0"
    and hi: "\<forall>k. ?r \<le> k \<longrightarrow> k < length xs \<longrightarrow> 0 \<le> cmp (xs ! k)"
    by (simp_all add: split_at_def)
  have "?r < length xs \<and> cmp (xs ! ?r) = 0" if "x \<in> set xs" "cmp x = 0" for x
  proof -
    obtain k where k: "k < length xs" "xs ! k = x" using \<open>x \<in> set xs\<close> by (auto simp: in_set_conv_nth)
    have "?r \<le> k" using lo k that by (metis less_irrefl linorder_not_le)
    moreover have "\<not> ?r < k"
    proof
      assume "?r < k"
      then have "cmp (xs ! ?r) < 0" using assms(2) k that by blast
      then show False using hi \<open>?r < k\<close> k by (meson le_refl less_trans not_le)
    qed
    ultimately show ?thesis using k that by simp
  qed
  then show ?thesis
    by (auto simp: BinarySearchFunc_def Let_def intro: nth_mem)
qed

section \<open>The set\<close>

record ip_set =
  ranges4 :: "(32 word \<times> 32 word) list"
  ranges6 :: "(128 word \<times> 128 word) list"

definition compare16 :: "128 word \<Rightarrow> 128 word \<Rightarrow> int" where
  "compare16 a b =
     (let aHigh = (ucast (drop_bit 64 a) :: 64 word); bHigh = (ucast (drop_bit 64 b) :: 64 word) in
      if aHigh \<noteq> bHigh then (if aHigh < bHigh then -1 else 1)
      else
        let aLow = (ucast a :: 64 word); bLow = (ucast b :: 64 word) in
        if aLow \<noteq> bLow then (if aLow < bLow then -1 else 1)
        else 0)"

fun FromIPSet_loop :: "(addr \<times> addr) list \<Rightarrow> ip_set \<Rightarrow> ip_set" where
  "FromIPSet_loop [] result = result"
| "FromIPSet_loop ((fr, tt) # rs) result =
     (case (fr, tt) of
        (Addr4 a, Addr4 b) \<Rightarrow> FromIPSet_loop rs (result\<lparr>ranges4 := ranges4 result @ [(a, b)]\<rparr>)
      | _ \<Rightarrow> FromIPSet_loop rs
               (result\<lparr>ranges6 := ranges6 result @ [(addr_As16 fr, addr_As16 tt)]\<rparr>))"

definition FromIPSet :: "(addr \<times> addr) list \<Rightarrow> ip_set" where
  "FromIPSet rs = FromIPSet_loop rs \<lparr>ranges4 = [], ranges6 = []\<rparr>"

text \<open>The two checking loops of \<open>FromRanges\<close>; \<open>prev\<close> is \<open>ranges[i-1]\<close>.\<close>

fun check_ranges4 :: "nat \<Rightarrow> (32 word \<times> 32 word) option \<Rightarrow> (32 word \<times> 32 word) list \<Rightarrow> unit res" where
  "check_ranges4 i prev [] = Inr ()"
| "check_ranges4 i prev ((f, t) # rs) =
     (if f > t then Inl (E_CauseAt (E_New ''ipset: malformed range '') [] i)
      else if (case prev of None \<Rightarrow> False | Some (_, pt) \<Rightarrow> pt \<ge> f)
           then Inl (E_CauseAt (E_New ''ipset: unordered range '') [] i)
           else check_ranges4 (Suc i) (Some (f, t)) rs)"

fun check_ranges6 :: "nat \<Rightarrow> (128 word \<times> 128 word) option \<Rightarrow> (128 word \<times> 128 word) list \<Rightarrow> unit res" where
  "check_ranges6 i prev [] = Inr ()"
| "check_ranges6 i prev ((f, t) # rs) =
     (if compare16 f t > 0 then Inl (E_CauseAt (E_New ''ipset: malformed range '') [] i)
      else if (case prev of None \<Rightarrow> False | Some (_, pt) \<Rightarrow> compare16 pt f \<ge> 0)
           then Inl (E_CauseAt (E_New ''ipset: unordered range '') [] i)
           else check_ranges6 (Suc i) (Some (f, t)) rs)"

definition FromRanges ::
  "(32 word \<times> 32 word) list \<Rightarrow> (128 word \<times> 128 word) list \<Rightarrow> ip_set res" where
  "FromRanges r4 r6 =
     rbind (check_ranges4 0 None r4) (\<lambda>_.
     rbind (check_ranges6 0 None r6) (\<lambda>_.
     Inr \<lparr>ranges4 = r4, ranges6 = r6\<rparr>))"

definition cmp4 :: "32 word \<Rightarrow> 32 word \<times> 32 word \<Rightarrow> int" where
  "cmp4 target r = (if fst r > target then 1 else if snd r < target then -1 else 0)"

definition cmp6 :: "128 word \<Rightarrow> 128 word \<times> 128 word \<Rightarrow> int" where
  "cmp6 target r =
     (if compare16 (fst r) target > 0 then 1 else if compare16 (snd r) target < 0 then -1 else 0)"

definition ipset_Contains :: "ip_set \<Rightarrow> addr \<Rightarrow> bool" where
  "ipset_Contains s a =
     (case a of
        Addr4 v \<Rightarrow> snd (BinarySearchFunc (ranges4 s) (cmp4 v))
      | _ \<Rightarrow> snd (BinarySearchFunc (ranges6 s) (cmp6 (addr_As16 a))))"

section \<open>Correctness\<close>

text \<open>The 64-bit halves decide the order of the whole.\<close>

lemma lex_less_int:
  fixes ah al bh bl :: int
  assumes "0 \<le> al" "al < 2 ^ 64" "0 \<le> bl" "bl < 2 ^ 64"
  shows "ah * 2 ^ 64 + al < bh * 2 ^ 64 + bl \<longleftrightarrow> ah < bh \<or> ah = bh \<and> al < bl"
proof -
  consider "ah < bh" | "ah = bh" | "bh < ah" by linarith
  then show ?thesis
  proof cases
    case 1
    then have "(ah + 1) * 2 ^ 64 \<le> bh * 2 ^ 64" by simp
    with 1 assms show ?thesis by (simp add: algebra_simps)
  next
    case 2
    then show ?thesis by simp
  next
    case 3
    then have "(bh + 1) * 2 ^ 64 \<le> ah * 2 ^ 64" by simp
    with 3 assms show ?thesis by (simp add: algebra_simps)
  qed
qed

lemma uint_drop_bit_64: "uint (drop_bit 64 a) = uint a div 2 ^ 64" for a :: "128 word"
  unfolding unsigned_drop_bit_eq
  by (metis drop_bit_int_def uint_word_of_int_eq word_of_int_uint)

lemma uint_halves:
  fixes a :: "128 word"
  shows "uint a = uint (ucast (drop_bit 64 a) :: 64 word) * 2 ^ 64 + uint (ucast a :: 64 word)"
proof -
  have lo: "uint (ucast a :: 64 word) = uint a mod 2 ^ 64"
    by (simp add: unsigned_ucast_eq take_bit_eq_mod)
  have "uint a < 2 ^ 128"
    using unsigned_less [of a] by simp
  moreover have "(2::int) ^ 128 = 2 ^ 64 * 2 ^ 64"
    by simp
  ultimately have b: "uint a div 2 ^ 64 < 2 ^ 64"
    by (simp add: div_less_iff_less_mult)
  have "uint (ucast (drop_bit 64 a) :: 64 word) = take_bit 64 (uint a div 2 ^ 64)"
    using uint_drop_bit_64 [of a] by (simp only: unsigned_ucast_eq) simp
  also have "\<dots> = uint a div 2 ^ 64"
    using b by (intro take_bit_int_eq_self) (simp_all add: pos_imp_zdiv_nonneg_iff)
  finally have hi: "uint (ucast (drop_bit 64 a) :: 64 word) = uint a div 2 ^ 64" .
  show ?thesis
    unfolding lo hi by simp
qed

lemma compare16_sgn: "compare16 a b = (if a < b then -1 else if b < a then 1 else 0)"
proof -
  define ah al bh bl where "ah = (ucast (drop_bit 64 a) :: 64 word)"
    and "al = (ucast a :: 64 word)" and "bh = (ucast (drop_bit 64 b) :: 64 word)"
    and "bl = (ucast b :: 64 word)"
  have ua: "uint a = uint ah * 2 ^ 64 + uint al" and ub: "uint b = uint bh * 2 ^ 64 + uint bl"
    unfolding ah_def al_def bh_def bl_def by (rule uint_halves)+
  have bnd: "0 \<le> uint al" "uint al < 2 ^ 64" "0 \<le> uint bl" "uint bl < 2 ^ 64"
    using unsigned_less [of al] unsigned_less [of bl] by simp_all
  have lt: "a < b \<longleftrightarrow> ah < bh \<or> ah = bh \<and> al < bl"
    by (simp only: word_less_def word_uint_eq_iff ua ub lex_less_int [OF bnd])
  have gt: "b < a \<longleftrightarrow> bh < ah \<or> bh = ah \<and> bl < al"
    by (simp only: word_less_def word_uint_eq_iff ua ub lex_less_int [OF bnd(3,4,1,2)])
  have "compare16 a b = (if ah \<noteq> bh then (if ah < bh then -1 else 1)
      else if al \<noteq> bl then (if al < bl then -1 else 1) else 0)"
    unfolding compare16_def Let_def ah_def al_def bh_def bl_def by (rule refl)
  then show ?thesis
    unfolding lt gt by auto
qed

lemma compare16_simps:
  "compare16 a b > 0 \<longleftrightarrow> b < a"
  "compare16 a b < 0 \<longleftrightarrow> a < b"
  "compare16 a b \<ge> 0 \<longleftrightarrow> b \<le> a"
  by (auto simp: compare16_sgn)

text \<open>Sorted, disjoint, well-formed ranges: what \<open>FromRanges\<close> checks.\<close>

fun ranges_ok :: "('a::linorder \<times> 'a) list \<Rightarrow> bool" where
  "ranges_ok [] = True"
| "ranges_ok ((f, t) # rs) = (f \<le> t \<and> (\<forall>r \<in> set rs. t < fst r) \<and> ranges_ok rs)"

definition ipset_inv :: "ip_set \<Rightarrow> bool" where
  "ipset_inv s \<longleftrightarrow> ranges_ok (ranges4 s) \<and> ranges_ok (ranges6 s)"

lemma ranges_ok_elem: "ranges_ok rs \<Longrightarrow> r \<in> set rs \<Longrightarrow> fst r \<le> snd r"
  by (induction rs rule: ranges_ok.induct) auto

lemma ranges_ok_nth:
  "ranges_ok rs \<Longrightarrow> i < j \<Longrightarrow> j < length rs \<Longrightarrow> snd (rs ! i) < fst (rs ! j)"
proof (induction rs arbitrary: i j)
  case (Cons r rs)
  then show ?case by (cases r; cases i; cases j) auto
qed simp

definition prev_below :: "('a::linorder \<times> 'a) option \<Rightarrow> ('a \<times> 'a) list \<Rightarrow> bool" where
  "prev_below prev rs = (case prev of None \<Rightarrow> True | Some p \<Rightarrow> (\<forall>r \<in> set rs. snd p < fst r))"

lemma prev_below_simps [simp]:
  "prev_below None rs"
  "prev_below (Some p) rs \<longleftrightarrow> (\<forall>r \<in> set rs. snd p < fst r)"
  by (simp_all add: prev_below_def)

lemma ranges_ok_head_below: "ranges_ok ((f, t) # rs) \<Longrightarrow> x < f \<Longrightarrow> r \<in> set rs \<Longrightarrow> x < fst r"
  by (meson le_less_trans less_trans ranges_ok.simps(2))

lemma check_ranges4_iff:
  "is_ok (check_ranges4 i prev rs) \<longleftrightarrow> ranges_ok rs \<and> prev_below prev rs"
proof (induction i prev rs rule: check_ranges4.induct)
  case (2 i prev f t rs)
  show ?case
  proof (cases "f > t \<or> (case prev of None \<Rightarrow> False | Some (_, pt) \<Rightarrow> pt \<ge> f)")
    case True
    then show ?thesis by (auto split: option.splits)
  next
    case False
    then show ?thesis
      using 2 by (auto split: option.splits dest: ranges_ok_head_below)
  qed
qed (auto simp: prev_below_def split: option.splits)

lemma check_ranges6_iff:
  "is_ok (check_ranges6 i prev rs) \<longleftrightarrow> ranges_ok rs \<and> prev_below prev rs"
proof (induction i prev rs rule: check_ranges6.induct)
  case (2 i prev f t rs)
  show ?case
  proof (cases "f > t \<or> (case prev of None \<Rightarrow> False | Some (_, pt) \<Rightarrow> pt \<ge> f)")
    case True
    then show ?thesis by (auto simp: compare16_simps split: option.splits)
  next
    case False
    then show ?thesis
      using 2 by (auto simp: compare16_simps split: option.splits dest: ranges_ok_head_below)
  qed
qed (auto simp: prev_below_def split: option.splits)

lemma FromRanges_Inr:
  "FromRanges r4 r6 = Inr s \<longleftrightarrow>
     ranges_ok r4 \<and> ranges_ok r6 \<and> s = \<lparr>ranges4 = r4, ranges6 = r6\<rparr>"
  using check_ranges4_iff [of 0 None r4] check_ranges6_iff [of 0 None r6]
  by (auto simp: FromRanges_def is_ok_iff)

text \<open>Search by a comparison that tells on which side of a range the target is.\<close>

definition range_cmp :: "'a::linorder \<Rightarrow> 'a \<times> 'a \<Rightarrow> int" where
  "range_cmp v r = (if fst r > v then 1 else if snd r < v then -1 else 0)"

lemma cmp4_range: "cmp4 v = range_cmp v"
  by (auto simp: fun_eq_iff cmp4_def range_cmp_def)

lemma cmp6_range: "cmp6 v = range_cmp v"
  by (auto simp: fun_eq_iff cmp6_def range_cmp_def compare16_simps)

lemma range_search:
  assumes "ranges_ok rs"
  shows "snd (BinarySearchFunc rs (range_cmp v)) \<longleftrightarrow> (\<exists>r \<in> set rs. fst r \<le> v \<and> v \<le> snd r)"
proof -
  have wf: "fst (rs ! i) \<le> snd (rs ! i)" if "i < length rs" for i
    using assms that ranges_ok_elem by (metis nth_mem)
  have ord: "snd (rs ! i) < fst (rs ! j)" if "i < j" "j < length rs" for i j
    using assms that by (rule ranges_ok_nth)
  have "cmp_sorted (range_cmp v) rs"
    unfolding cmp_sorted_def
  proof (intro allI impI)
    fix i j
    assume ij: "i \<le> j" "j < length rs" and neg: "range_cmp v (rs ! j) < 0"
    then have "snd (rs ! j) < v" by (auto simp: range_cmp_def split: if_splits)
    moreover have "i = j \<or> snd (rs ! i) < fst (rs ! j)"
      using ij ord [of i j] by linarith
    ultimately have "snd (rs ! i) < v"
      using wf [of j] ij(2) by (metis le_less_trans less_trans order.strict_trans2)
    moreover have "fst (rs ! i) \<le> snd (rs ! i)"
      using wf [of i] ij by linarith
    ultimately show "range_cmp v (rs ! i) < 0"
      by (simp add: range_cmp_def not_less)
  qed
  moreover have "range_cmp v (rs ! i) < 0"
    if "i < j" "j < length rs" "range_cmp v (rs ! j) = 0" for i j
  proof -
    have "fst (rs ! j) \<le> v" using that(3) by (simp add: range_cmp_def split: if_splits)
    with ord [OF that(1,2)] have "snd (rs ! i) < v" by (rule less_le_trans)
    moreover have "fst (rs ! i) \<le> snd (rs ! i)" using wf [of i] that(1,2) by linarith
    ultimately show ?thesis by (simp add: range_cmp_def not_less)
  qed
  ultimately have "snd (BinarySearchFunc rs (range_cmp v)) \<longleftrightarrow> (\<exists>r \<in> set rs. range_cmp v r = 0)"
    by (rule BinarySearchFunc_found)
  moreover have "range_cmp v r = 0 \<longleftrightarrow> fst r \<le> v \<and> v \<le> snd r" for r
    by (auto simp: range_cmp_def)
  ultimately show ?thesis by simp
qed

text \<open>
  On a set that \<open>FromRanges\<close> accepts, the binary search decides membership in one of the ranges
  of the address's family. An address that is not IPv4 is looked up by \<open>As16\<close>, the zero \<open>Addr\<close>
  as the all-zero IPv6 address.
\<close>

definition ipset_member :: "ip_set \<Rightarrow> addr \<Rightarrow> bool" where
  "ipset_member s a =
     (case a of
        Addr4 v \<Rightarrow> list_ex (\<lambda>r. fst r \<le> v \<and> v \<le> snd r) (ranges4 s)
      | _ \<Rightarrow> list_ex (\<lambda>r. fst r \<le> addr_As16 a \<and> addr_As16 a \<le> snd r) (ranges6 s))"

lemma ipset_Contains_member: "ipset_inv s \<Longrightarrow> ipset_Contains s a = ipset_member s a"
  by (cases a)
    (simp_all add: ipset_Contains_def ipset_member_def ipset_inv_def cmp4_range cmp6_range
      range_search list_ex_iff)

end
