(* ===== verification/Inbound_Context.thy ===== *)
theory Inbound_Context
  imports Ip_Set
begin

text \<open>
  The connection metadata \<open>adapter.InboundContext\<close> (\<open>adapter/inbound.go\<close>), the part of a DNS
  message the sources read (\<open>dns.Msg\<close> of another module, its fields only), and the record
  \<open>rule_env\<close> of everything the rule items ask of code and state outside this development: methods
  of other modules, platform state and the running services.
\<close>

section \<open>DNS messages\<close>

record rr_header =
  rh_Name :: string
  rh_Rrtype :: "16 word"
  rh_Class :: "16 word"
  rh_Ttl :: "32 word"

datatype svcb_value =
    SVCBIPv4Hint "byte list list"
  | SVCBIPv6Hint "byte list list"
  | SVCBOther

datatype dns_rr =
    RR_A rr_header "byte list"
  | RR_AAAA rr_header "byte list"
  | RR_HTTPS rr_header "svcb_value list"
  | RR_Other rr_header string

fun rr_Header :: "dns_rr \<Rightarrow> rr_header" where
  "rr_Header (RR_A h _) = h"
| "rr_Header (RR_AAAA h _) = h"
| "rr_Header (RR_HTTPS h _) = h"
| "rr_Header (RR_Other h _) = h"

fun rr_with_Header :: "rr_header \<Rightarrow> dns_rr \<Rightarrow> dns_rr" where
  "rr_with_Header h (RR_A _ d) = RR_A h d"
| "rr_with_Header h (RR_AAAA _ d) = RR_AAAA h d"
| "rr_with_Header h (RR_HTTPS _ d) = RR_HTTPS h d"
| "rr_with_Header h (RR_Other _ d) = RR_Other h d"

record dns_question =
  q_Name :: string
  q_Qtype :: "16 word"
  q_Qclass :: "16 word"

record dns_msg =
  msg_Id :: "16 word"
  msg_Response :: bool
  msg_Authoritative :: bool
  msg_RecursionDesired :: bool
  msg_RecursionAvailable :: bool
  msg_Rcode :: int
  msg_Question :: "dns_question list"
  msg_Answer :: "dns_rr list"
  msg_Ns :: "dns_rr list"
  msg_Extra :: "dns_rr list"

definition RcodeSuccess :: int where
  "RcodeSuccess = 0"

text \<open>\<open>DNSResponseAddresses\<close>; \<open>M.AddrFromIP\<close> is the argument \<open>from_ip\<close>.\<close>

definition hint_addresses :: "(byte list \<Rightarrow> addr) \<Rightarrow> svcb_value \<Rightarrow> addr list" where
  "hint_addresses from_ip v =
     (case v of
        SVCBIPv4Hint hs \<Rightarrow> filter addr_IsValid (map (\<lambda>ip. addr_Unmap (from_ip ip)) hs)
      | SVCBIPv6Hint hs \<Rightarrow> filter addr_IsValid (map from_ip hs)
      | SVCBOther \<Rightarrow> [])"

definition record_addresses :: "(byte list \<Rightarrow> addr) \<Rightarrow> dns_rr \<Rightarrow> addr list" where
  "record_addresses from_ip r =
     (case r of
        RR_A _ ip \<Rightarrow> filter addr_IsValid [from_ip ip]
      | RR_AAAA _ ip \<Rightarrow> filter addr_IsValid [from_ip ip]
      | RR_HTTPS _ vs \<Rightarrow> concat (map (hint_addresses from_ip) vs)
      | RR_Other _ _ \<Rightarrow> [])"

definition DNSResponseAddresses :: "(byte list \<Rightarrow> addr) \<Rightarrow> dns_msg option \<Rightarrow> addr list" where
  "DNSResponseAddresses from_ip response =
     (case response of
        None \<Rightarrow> []
      | Some m \<Rightarrow> if msg_Rcode m \<noteq> RcodeSuccess then []
                  else concat (map (record_addresses from_ip) (msg_Answer m)))"

lemma hint_addresses_valid: "list_all addr_IsValid (hint_addresses f v)"
  by (cases v) (auto simp: hint_addresses_def list_all_iff)

lemma record_addresses_valid: "list_all addr_IsValid (record_addresses f r)"
  using hint_addresses_valid [of f]
  by (cases r) (auto simp: record_addresses_def list_all_iff)

lemma DNSResponseAddresses_valid: "list_all addr_IsValid (DNSResponseAddresses f r)"
  using record_addresses_valid [of f]
  by (cases r) (auto simp: DNSResponseAddresses_def list_all_iff)

section \<open>The connection metadata\<close>

record connection_owner =
  co_ProcessID :: "32 word"
  co_UserId :: int
  co_UserName :: string
  co_ProcessPaths :: "string list"
  co_PackageNames :: "string list"

type_synonym iface_type = "8 word"

text \<open>
  What a sniffer fails with: \<open>sniff.ErrNeedMoreData\<close> or an error that wraps it, \<open>os.ErrInvalid\<close>, or
  another error. Joined errors are a list. A fragment of a QUIC client hello is its offset, length and
  bytes.
\<close>

datatype sniff_error = NeedMoreData | ErrInvalid | SniffFailed error

type_synonym quic_fragment = "64 word \<times> 64 word \<times> byte list"

record inbound_context =
  m_Inbound :: string
  m_InboundType :: string
  m_IPVersion :: "8 word"
  m_Network :: string
  m_Source :: socksaddr
  m_Destination :: socksaddr
  m_User :: string
  m_Outbound :: string
  m_RouteRule :: string
  m_RouteOutbound :: string
  m_OutboundChain :: "string list"
  m_Protocol :: string
  m_SniffHost :: string
  m_Client :: string
  m_SnifferNames :: "string list"
  m_SniffContext :: "quic_fragment list option"
  m_SniffError :: "sniff_error list option"
  m_SniffDestination :: socksaddr
  m_CacheIPs :: "addr list"
  m_Domain :: string
  m_InboundDetour :: string
  m_LastInbound :: string
  m_OriginDestination :: socksaddr
  m_RouteOriginalDestination :: socksaddr
  m_UDPDisableDomainUnmapping :: bool
  m_UDPConnect :: bool
  m_UDPTimeout :: int
  m_TLSFragment :: bool
  m_TLSFragmentFallbackDelay :: int
  m_TLSRecordFragment :: bool
  m_TLSSpoof :: string
  m_TLSSpoofMethod :: nat
  m_NetworkStrategy :: "nat option"
  m_NetworkType :: "iface_type list"
  m_FallbackNetworkType :: "iface_type list"
  m_FallbackDelay :: int
  m_DestinationAddresses :: "addr list"
  m_DNSResponse :: "dns_msg option"
  m_NamedDNSResponses :: "(string \<times> dns_msg) list"
  m_DestinationAddressMatchFromResponse :: bool
  m_ProcessInfo :: "connection_owner option"
  m_ProcessInfoResolver :: "connection_owner option option"
  m_SourceMACAddress :: "byte list option"
  m_SourceHostname :: string
  m_QueryType :: "16 word"
  m_QueryClientSubnet :: prefix
  m_QueryDNSSEC :: bool
  m_FakeIP :: bool
  m_PreMatch :: bool
  m_DestOverride :: bool
  m_IPCIDRMatchSource :: bool
  m_IPCIDRAcceptEmpty :: bool
  m_SourceAddressMatch :: bool
  m_SourcePortMatch :: bool
  m_DestinationAddressMatch :: bool
  m_DestinationPortMatch :: bool
  m_DeferredIPCIDRMatchGroups :: "8 word"
  m_IgnoreDestinationIPCIDRMatch :: bool

text \<open>
  A set \<open>ProcessInfoResolver\<close> is the owner it returns; the resolver is memoised, so asking twice
  gives the same answer.
\<close>

definition ResolveProcessInfo :: "inbound_context \<Rightarrow> connection_owner option" where
  "ResolveProcessInfo m =
     (case m_ProcessInfoResolver m of Some owner \<Rightarrow> owner | None \<Rightarrow> m_ProcessInfo m)"

definition ResetRuleMatchCache :: "inbound_context \<Rightarrow> inbound_context" where
  "ResetRuleMatchCache m =
     m\<lparr>m_SourceAddressMatch := False, m_SourcePortMatch := False,
       m_DestinationAddressMatch := False, m_DestinationPortMatch := False,
       m_DeferredIPCIDRMatchGroups := 0\<rparr>"

definition ResetRuleCache :: "inbound_context \<Rightarrow> inbound_context" where
  "ResetRuleCache m =
     ResetRuleMatchCache (m\<lparr>m_IPCIDRMatchSource := False, m_IPCIDRAcceptEmpty := False\<rparr>)"

definition DNSResponseAddressesForMatch :: "(byte list \<Rightarrow> addr) \<Rightarrow> inbound_context \<Rightarrow> addr list" where
  "DNSResponseAddressesForMatch from_ip m = DNSResponseAddresses from_ip (m_DNSResponse m)"

text \<open>The zero value \<open>InboundContext{}\<close>.\<close>

definition empty_context :: inbound_context where
  "empty_context =
     \<lparr>m_Inbound = [], m_InboundType = [], m_IPVersion = 0, m_Network = [],
      m_Source = empty_socksaddr, m_Destination = empty_socksaddr, m_User = [], m_Outbound = [],
      m_RouteRule = [], m_RouteOutbound = [], m_OutboundChain = [],
      m_Protocol = [], m_SniffHost = [], m_Client = [], m_SnifferNames = [], m_SniffContext = None,
      m_SniffError = None, m_SniffDestination = empty_socksaddr,
      m_CacheIPs = [], m_Domain = [], m_InboundDetour = [], m_LastInbound = [],
      m_OriginDestination = empty_socksaddr, m_RouteOriginalDestination = empty_socksaddr,
      m_UDPDisableDomainUnmapping = False, m_UDPConnect = False, m_UDPTimeout = 0,
      m_TLSFragment = False, m_TLSFragmentFallbackDelay = 0, m_TLSRecordFragment = False,
      m_TLSSpoof = [], m_TLSSpoofMethod = 0, m_NetworkStrategy = None, m_NetworkType = [],
      m_FallbackNetworkType = [], m_FallbackDelay = 0, m_DestinationAddresses = [],
      m_DNSResponse = None, m_NamedDNSResponses = [],
      m_DestinationAddressMatchFromResponse = False,
      m_ProcessInfo = None, m_ProcessInfoResolver = None, m_SourceMACAddress = None,
      m_SourceHostname = [], m_QueryType = 0, m_QueryClientSubnet = PrefixZero,
      m_QueryDNSSEC = False, m_FakeIP = False, m_PreMatch = False, m_DestOverride = False,
      m_IPCIDRMatchSource = False, m_IPCIDRAcceptEmpty = False, m_SourceAddressMatch = False,
      m_SourcePortMatch = False, m_DestinationAddressMatch = False, m_DestinationPortMatch = False,
      m_DeferredIPCIDRMatchGroups = 0, m_IgnoreDestinationIPCIDRMatch = False\<rparr>"

lemma ResetRuleCache_idem [simp]: "ResetRuleCache (ResetRuleCache m) = ResetRuleCache m"
  by (simp add: ResetRuleCache_def ResetRuleMatchCache_def)

section \<open>The environment of the rule items\<close>

text \<open>
  Matchers built by other modules are values of these types; what they match is a field of
  \<open>rule_env\<close>. A \<open>Raw\<close> matcher is one read from a binary rule-set, known by a number.
\<close>

datatype domain_matcher = DomainMatcher "string list" "string list" | RawDomainMatcher nat
datatype adguard_matcher = AdGuardMatcher "string list" | RawAdGuardMatcher nat

record network_interface =
  ni_Name :: string
  ni_Addresses :: "prefix list"
  ni_Type :: iface_type
  ni_Expensive :: bool
  ni_Constrained :: bool

record interface_monitor =
  im_DefaultInterface :: "prefix list option"
  im_MyInterfaces :: "string list"

text \<open>What the outbound and DNS transport managers answer for a tag that exists.\<close>

record outbound_info =
  ob_Type :: string
  ob_WithPreferredRoutes :: bool

record transport_info =
  tr_Type :: string
  tr_WithPreferredDomain :: bool
  tr_WithConfiguration :: bool

record rule_env =
  IsDomain :: "socksaddr \<Rightarrow> bool"
  IsIP :: "socksaddr \<Rightarrow> bool"
  IsIPv4 :: "socksaddr \<Rightarrow> bool"
  IsIPv6 :: "socksaddr \<Rightarrow> bool"
  IsValid :: "socksaddr \<Rightarrow> bool"
  IsDomainName :: "string \<Rightarrow> bool"
  IsPublicAddr :: "addr \<Rightarrow> bool"
  AddrFromIP :: "byte list \<Rightarrow> addr"
  uni_ToLower :: "string \<Rightarrow> string"
  uni_EqualFold :: "string \<Rightarrow> string \<Rightarrow> bool"
  uni_TrimSpace :: "string \<Rightarrow> string"
  domain_Match :: "domain_matcher \<Rightarrow> string \<Rightarrow> bool"
  adguard_Match :: "adguard_matcher \<Rightarrow> string \<Rightarrow> bool"
  regexp_Compile :: "string \<Rightarrow> bool"
  regexp_MatchString :: "string \<Rightarrow> string \<Rightarrow> bool"
  dns_IsDuplicate :: "dns_rr \<Rightarrow> dns_rr \<Rightarrow> bool"
  dns_CanonicalName :: "string \<Rightarrow> string"
  dns_RR_String :: "dns_rr \<Rightarrow> string"
  dns_RcodeToString :: "int \<Rightarrow> string"
  dns_TypeToString :: "16 word \<Rightarrow> string option"
  ipset_Ranges :: "prefix list \<Rightarrow> (addr \<times> addr) list res"
  IsAndroid :: bool
  clash_Mode :: "string option"
  DefaultNetworkInterface :: "network_interface option"
  NetworkInterfaces :: "network_interface list"
  WIFI_SSID :: string
  WIFI_BSSID :: string
  InterfaceFinder_Interfaces :: "(string \<times> prefix list) list"
  InterfaceMonitor :: "interface_monitor option"
  om_Outbound :: "string \<Rightarrow> outbound_info option"
  tm_Transport :: "string \<Rightarrow> transport_info option"
  PreferredDomain :: "string \<Rightarrow> inbound_context \<Rightarrow> string \<Rightarrow> bool"
  PreferredAddress :: "string \<Rightarrow> inbound_context \<Rightarrow> addr \<Rightarrow> bool"
  dns_PreferredDomain :: "string \<Rightarrow> string \<Rightarrow> bool"
  dns_ServerAddresses :: "string \<Rightarrow> addr list"
  dns_SearchDomains :: "string \<Rightarrow> string list"

text \<open>
  A concrete environment for examples: a socket address is a domain when it has a name and an
  address otherwise, matchers compare names literally, and no service is running.
\<close>

definition example_env :: rule_env where
  "example_env =
     \<lparr>IsDomain = (\<lambda>s. sa_Fqdn s \<noteq> []),
      IsIP = (\<lambda>s. addr_IsValid (sa_Addr s)),
      IsIPv4 = (\<lambda>s. addr_Is4 (sa_Addr s)),
      IsIPv6 = (\<lambda>s. addr_Is6 (sa_Addr s)),
      IsValid = (\<lambda>s. addr_IsValid (sa_Addr s) \<or> sa_Fqdn s \<noteq> []),
      IsDomainName = (\<lambda>s. s \<noteq> []),
      IsPublicAddr = (\<lambda>_. True),
      AddrFromIP = (\<lambda>bs. case bs of
          [a, b, c, d] \<Rightarrow> Addr4 (word_of_int (((uint a * 256 + uint b) * 256 + uint c) * 256 + uint d))
        | _ \<Rightarrow> AddrZero),
      uni_ToLower = (\<lambda>s. s),
      uni_EqualFold = (=),
      uni_TrimSpace = (\<lambda>s. s),
      domain_Match = (\<lambda>m s. case m of
          DomainMatcher ds ss \<Rightarrow> List.member ds s \<or> list_ex (has_suffix s) ss
        | RawDomainMatcher _ \<Rightarrow> False),
      adguard_Match = (\<lambda>_ _. False),
      regexp_Compile = (\<lambda>_. True),
      regexp_MatchString = (\<lambda>r s. r = s),
      dns_IsDuplicate = (=),
      dns_CanonicalName = (\<lambda>s. s @ ''.''),
      dns_RR_String = (\<lambda>_. ''RR''),
      dns_RcodeToString = (\<lambda>n. if n = 0 then ''NOERROR'' else []),
      dns_TypeToString = (\<lambda>t. if t = 1 then Some ''A'' else None),
      ipset_Ranges = (\<lambda>ps. Inr (map (\<lambda>p. (prefix_Addr p, prefix_Addr p)) ps)),
      IsAndroid = False,
      clash_Mode = None,
      DefaultNetworkInterface = None,
      NetworkInterfaces = [],
      WIFI_SSID = [],
      WIFI_BSSID = [],
      InterfaceFinder_Interfaces = [],
      InterfaceMonitor = None,
      om_Outbound = (\<lambda>_. None),
      tm_Transport = (\<lambda>_. None),
      PreferredDomain = (\<lambda>_ _ _. False),
      PreferredAddress = (\<lambda>_ _ _. False),
      dns_PreferredDomain = (\<lambda>_ _. False),
      dns_ServerAddresses = (\<lambda>_. []),
      dns_SearchDomains = (\<lambda>_. [])\<rparr>"

end
