(* ===== verification/Rule_Item.thy ===== *)
theory Rule_Item
  imports Inbound_Context "HOL-Library.AList"
begin

text \<open>
  The rule items of \<open>route/rule/rule_item_*.go\<close> and \<open>route/rule/rule_*interface_address.go\<close>: their
  constructors, when each matches, how it starts and how it prints. An item whose struct keeps
  a list beside a lookup map filled from it keeps the list; looking a key up is membership. The
  services an item holds (network manager, clash mode, outbounds, DNS transports) are read from
  \<open>rule_env\<close>. An option of type \<open>Prefixable\<close> is the prefix it builds.
\<close>

section \<open>Data\<close>

datatype domain_match_strategy = AsIS | PreferFQDN | PreferSniffHost | FQDNOnly | SniffHostOnly

datatype response_section = ResponseAnswers | ResponseNS | ResponseExtra

text \<open>
  \<open>ClashModeItem\<close> records whether \<open>Start\<close> found the mode manager; \<open>PreferredByItem\<close>,
  \<open>PreferredByDNSItem\<close>, \<open>DNSServerAddressItem\<close> and \<open>DNSSearchDomainItem\<close> keep their tags and, after
  them, the tags \<open>Start\<close> resolved.
\<close>

datatype (plugins only: code) rule_item =
    InboundItem "string list"
  | IPVersionItem bool
  | NetworkItem "string list"
  | AuthUserItem "string list"
  | ProtocolItem "string list"
  | ClientItem "string list"
  | DomainItem domain_matcher string domain_match_strategy
  | DomainKeywordItem "string list" domain_match_strategy
  | DomainRegexItem "string list" string domain_match_strategy
  | AdGuardDomainItem adguard_matcher domain_match_strategy
  | IPCIDRItem ip_set bool string
  | IPIsPrivateItem bool
  | IPAcceptAnyItem
  | PortItem "port list" bool
  | PortRangeItem bool "string list" "(port \<times> port) list"
  | ProcessItem "string list"
  | ProcessPathItem "string list"
  | ProcessPathRegexItem "string list" string
  | PackageNameItem "string list"
  | PackageNameRegexItem "string list" string
  | UserItem "string list"
  | UserIdItem "int list"
  | ClashModeItem bool "string list"
  | NetworkTypeItem "iface_type list"
  | NetworkIsExpensiveItem
  | NetworkIsConstrainedItem
  | WIFISSIDItem "string list"
  | WIFIBSSIDItem "string list" "string list"
  | InterfaceAddressItem "(string \<times> prefix list) list" string
  | NetworkInterfaceAddressItem "(iface_type \<times> prefix list) list" string
  | DefaultInterfaceAddressItem "prefix list"
  | SourceMACAddressItem "string list" "string list"
  | SourceHostnameItem "string list"
  | PreferredByItem "string list" "string list" domain_match_strategy
  | PreferredByDNSItem "string list" "string list"
  | DNSServerAddressItem "string list" "prefix list list" "string list" string
  | DNSSearchDomainItem "string list" "string list list" "string list" string
  | QueryTypeItem "(16 word) list"
  | QueryClientSubnetItem "prefix list"
  | QueryDNSSECItem
  | OutboundItem "string list" "string list" bool
  | DNSResponseRCodeItem int
  | DNSResponseRecordItem string "dns_rr option list" response_section

section \<open>Descriptions\<close>

text \<open>\<open>name=x\<close> for one value, \<open>name=[x y z]\<close> for several; some items cut after three.\<close>

definition describe :: "string \<Rightarrow> string list \<Rightarrow> string" where
  "describe name xs =
     (if length xs = 1 then name @ ''='' @ hd xs
      else name @ ''=['' @ strings_Join xs '' '' @ '']'')"

definition describe3 :: "string \<Rightarrow> string \<Rightarrow> string list \<Rightarrow> string" where
  "describe3 name dots xs =
     (if length xs = 1 then name @ ''='' @ hd xs
      else if length xs > 3 then name @ ''=['' @ strings_Join (take 3 xs) '' '' @ dots @ '']''
      else name @ ''=['' @ strings_Join xs '' '' @ '']'')"

section \<open>Domain items\<close>

text \<open>
  The domain an item looks at. The same \<open>switch\<close> opens the \<open>Match\<close> of \<open>DomainItem\<close>,
  \<open>DomainKeywordItem\<close>, \<open>DomainRegexItem\<close>, \<open>AdGuardDomainItem\<close> and \<open>PreferredByItem\<close>.
\<close>

definition domainHost :: "rule_env \<Rightarrow> domain_match_strategy \<Rightarrow> inbound_context \<Rightarrow> string" where
  "domainHost E strategy m =
     (case strategy of
        PreferFQDN \<Rightarrow>
          (if IsDomain E (m_Destination m) then sa_Fqdn (m_Destination m)
           else if m_SniffHost m \<noteq> [] then m_SniffHost m
           else m_Domain m)
      | FQDNOnly \<Rightarrow>
          (if IsDomain E (m_Destination m) then sa_Fqdn (m_Destination m) else [])
      | SniffHostOnly \<Rightarrow>
          (if m_SniffHost m \<noteq> [] then m_SniffHost m else [])
      | _ \<Rightarrow>
          (if m_SniffHost m \<noteq> [] then m_SniffHost m
           else if IsDomain E (m_Destination m) then sa_Fqdn (m_Destination m)
           else m_Domain m))"

definition DomainItem_description :: "string list \<Rightarrow> string list \<Rightarrow> string" where
  "DomainItem_description domains domainSuffixes =
     (let d = (if domains \<noteq> [] then describe3 ''domain'' ''...'' domains else []) in
      if domainSuffixes \<noteq> [] then
        d @ (if d \<noteq> [] then '' '' else []) @ describe3 ''domain_suffix'' ''...'' domainSuffixes
      else d)"

definition NewDomainItem ::
  "string list \<Rightarrow> string list \<Rightarrow> domain_match_strategy \<Rightarrow> rule_item res" where
  "NewDomainItem domains domainSuffixes strategy =
     (if List.member domains [] then Inl (E_New ''domain: empty item is not allowed'')
      else if List.member domainSuffixes [] then
        Inl (E_New ''domain_suffix: empty item is not allowed'')
      else Inr (DomainItem (DomainMatcher domains domainSuffixes)
                  (DomainItem_description domains domainSuffixes) strategy))"

definition NewRawDomainItem :: "domain_matcher \<Rightarrow> domain_match_strategy \<Rightarrow> rule_item" where
  "NewRawDomainItem matcher strategy = DomainItem matcher ''domain/domain_suffix=<binary>'' strategy"

definition DomainItem_Match ::
  "rule_env \<Rightarrow> domain_matcher \<Rightarrow> domain_match_strategy \<Rightarrow> inbound_context \<Rightarrow> bool" where
  "DomainItem_Match E matcher strategy m =
     (let host = domainHost E strategy m in
      if host = [] then False
      else domain_Match E matcher (strings_ToLower (uni_ToLower E) host))"

definition DomainKeywordItem_Match ::
  "rule_env \<Rightarrow> string list \<Rightarrow> domain_match_strategy \<Rightarrow> inbound_context \<Rightarrow> bool" where
  "DomainKeywordItem_Match E keywords strategy m =
     (let host = domainHost E strategy m in
      if host = [] then False
      else list_ex (strings_Contains (strings_ToLower (uni_ToLower E) host)) keywords)"

definition DomainKeywordItem_String :: "string list \<Rightarrow> string" where
  "DomainKeywordItem_String keywords = describe3 ''domain_keyword'' ''...'' keywords"

text \<open>Compiling the expressions of a regular expression item, from index \<open>i\<close> on.\<close>

fun compile_expressions :: "rule_env \<Rightarrow> nat \<Rightarrow> string list \<Rightarrow> string list res" where
  "compile_expressions E i [] = Inr []"
| "compile_expressions E i (r # rs) =
     (if regexp_Compile E r then rbind (compile_expressions E (Suc i) rs) (\<lambda>ms. Inr (r # ms))
      else Inl (E_CauseAt (E_Ext r) ''parse expression '' i))"

definition NewDomainRegexItem ::
  "rule_env \<Rightarrow> string list \<Rightarrow> domain_match_strategy \<Rightarrow> rule_item res" where
  "NewDomainRegexItem E expressions strategy =
     rbind (compile_expressions E 0 expressions)
       (\<lambda>matchers. Inr (DomainRegexItem matchers (describe3 ''domain_regex'' [] expressions) strategy))"

definition DomainRegexItem_Match ::
  "rule_env \<Rightarrow> string list \<Rightarrow> domain_match_strategy \<Rightarrow> inbound_context \<Rightarrow> bool" where
  "DomainRegexItem_Match E matchers strategy m =
     (let host = domainHost E strategy m in
      if host = [] then False
      else list_ex (\<lambda>r. regexp_MatchString E r (strings_ToLower (uni_ToLower E) host)) matchers)"

definition NewAdGuardDomainItem :: "string list \<Rightarrow> domain_match_strategy \<Rightarrow> rule_item" where
  "NewAdGuardDomainItem ruleLines strategy = AdGuardDomainItem (AdGuardMatcher ruleLines) strategy"

definition AdGuardDomainItem_Match ::
  "rule_env \<Rightarrow> adguard_matcher \<Rightarrow> domain_match_strategy \<Rightarrow> inbound_context \<Rightarrow> bool" where
  "AdGuardDomainItem_Match E matcher strategy m =
     (let host = domainHost E strategy m in
      if host = [] then False
      else adguard_Match E matcher (strings_ToLower (uni_ToLower E) host))"

section \<open>Lists of names\<close>

definition InboundItem_Match :: "string list \<Rightarrow> inbound_context \<Rightarrow> bool" where
  "InboundItem_Match inbounds m = List.member inbounds (m_Inbound m)"

definition InboundItem_String :: "string list \<Rightarrow> string" where
  "InboundItem_String inbounds = describe ''inbound'' inbounds"

definition NetworkItem_Match :: "string list \<Rightarrow> inbound_context \<Rightarrow> bool" where
  "NetworkItem_Match networks m = List.member networks (m_Network m)"

definition NetworkItem_String :: "string list \<Rightarrow> string" where
  "NetworkItem_String networks = describe ''network'' networks"

definition AuthUserItem_Match :: "string list \<Rightarrow> inbound_context \<Rightarrow> bool" where
  "AuthUserItem_Match users m = List.member users (m_User m)"

definition AuthUserItem_String :: "string list \<Rightarrow> string" where
  "AuthUserItem_String users = describe ''auth_user'' users"

definition ProtocolItem_Match :: "string list \<Rightarrow> inbound_context \<Rightarrow> bool" where
  "ProtocolItem_Match protocols m = List.member protocols (m_Protocol m)"

definition ProtocolItem_String :: "string list \<Rightarrow> string" where
  "ProtocolItem_String protocols = describe ''protocol'' protocols"

definition ClientItem_Match :: "string list \<Rightarrow> inbound_context \<Rightarrow> bool" where
  "ClientItem_Match clients m = List.member clients (m_Client m)"

definition ClientItem_String :: "string list \<Rightarrow> string" where
  "ClientItem_String clients = describe ''client'' clients"

definition IPVersionItem_Match :: "rule_env \<Rightarrow> bool \<Rightarrow> inbound_context \<Rightarrow> bool" where
  "IPVersionItem_Match E isIPv6 m \<longleftrightarrow>
     m_IPVersion m \<noteq> 0 \<and> (m_IPVersion m = 6) = isIPv6 \<or>
     IsIP E (m_Destination m) \<and> IsIPv6 E (m_Destination m) = isIPv6"

definition IPVersionItem_String :: "bool \<Rightarrow> string" where
  "IPVersionItem_String isIPv6 = ''ip_version='' @ (if isIPv6 then ''6'' else ''4'')"

definition NewOutboundRule :: "string list \<Rightarrow> rule_item" where
  "NewOutboundRule outbounds =
     OutboundItem outbounds (filter (\<lambda>t. t \<noteq> ''any'') outbounds) (list_ex (\<lambda>t. t = ''any'') outbounds)"

definition OutboundItem_Match :: "string list \<Rightarrow> bool \<Rightarrow> inbound_context \<Rightarrow> bool" where
  "OutboundItem_Match outboundMap matchAny m =
     (if matchAny then m_Outbound m \<noteq> [] else List.member outboundMap (m_Outbound m))"

definition OutboundItem_String :: "string list \<Rightarrow> string" where
  "OutboundItem_String outbounds = describe ''outbound'' outbounds"

text \<open>The map of a MAC item holds the canonical form of what parses, and the text otherwise.\<close>

definition NewSourceMACAddressItem :: "string list \<Rightarrow> rule_item" where
  "NewSourceMACAddressItem addressList =
     SourceMACAddressItem addressList
       (map (\<lambda>a. case ParseMAC a of Some hw \<Rightarrow> HardwareAddr_String hw | None \<Rightarrow> a) addressList)"

definition SourceMACAddressItem_Match :: "string list \<Rightarrow> inbound_context \<Rightarrow> bool" where
  "SourceMACAddressItem_Match addressMap m =
     (case m_SourceMACAddress m of
        None \<Rightarrow> False
      | Some hw \<Rightarrow> List.member addressMap (HardwareAddr_String hw))"

definition SourceMACAddressItem_String :: "string list \<Rightarrow> string" where
  "SourceMACAddressItem_String addresses = describe ''source_mac_address'' addresses"

definition SourceHostnameItem_Match :: "string list \<Rightarrow> inbound_context \<Rightarrow> bool" where
  "SourceHostnameItem_Match hostnames m =
     (if m_SourceHostname m = [] then False else List.member hostnames (m_SourceHostname m))"

definition SourceHostnameItem_String :: "string list \<Rightarrow> string" where
  "SourceHostnameItem_String hostnames = describe ''source_hostname'' hostnames"

section \<open>Ports and addresses\<close>

definition PortItem_Match :: "port list \<Rightarrow> bool \<Rightarrow> inbound_context \<Rightarrow> bool" where
  "PortItem_Match ports isSource m =
     (if isSource then List.member ports (sa_Port (m_Source m))
      else List.member ports (sa_Port (m_Destination m)))"

definition PortItem_String :: "port list \<Rightarrow> bool \<Rightarrow> string" where
  "PortItem_String ports isSource =
     describe (if isSource then ''source_port'' else ''port'') (map (\<lambda>p. dec_string (unat p)) ports)"

definition ErrBadPortRange :: error where
  "ErrBadPortRange = E_New ''bad port range''"

definition parse_range_bound :: "string \<Rightarrow> string \<Rightarrow> port res" where
  "parse_range_bound portRange s =
     (case parse_uint16 s of
        Inl err \<Rightarrow> Inl (E_CauseErr err (E_Extend ErrBadPortRange portRange))
      | Inr v \<Rightarrow> Inr v)"

text \<open>One pass of the loop of \<open>NewPortRangeItem\<close>: \<open>start:end\<close> with either bound left out.\<close>

definition parse_port_range :: "string \<Rightarrow> (port \<times> port) res" where
  "parse_port_range portRange =
     (case index_byte portRange (CHR '':'') of
        None \<Rightarrow> Inl (E_Extend ErrBadPortRange portRange)
      | Some subIndex \<Rightarrow>
          rbind (if subIndex > 0 then parse_range_bound portRange (take subIndex portRange) else Inr 0)
            (\<lambda>start. rbind
              (if subIndex + 1 = length portRange then Inr 0xFFFF
               else parse_range_bound portRange (drop (subIndex + 1) portRange))
              (\<lambda>stop. Inr (start, stop))))"

fun parse_port_ranges :: "string list \<Rightarrow> (port \<times> port) list res" where
  "parse_port_ranges [] = Inr []"
| "parse_port_ranges (r # rs) =
     rbind (parse_port_range r) (\<lambda>x. rbind (parse_port_ranges rs) (\<lambda>xs. Inr (x # xs)))"

definition NewPortRangeItem :: "bool \<Rightarrow> string list \<Rightarrow> rule_item res" where
  "NewPortRangeItem isSource rangeList =
     rbind (parse_port_ranges rangeList)
       (\<lambda>portRangeList. Inr (PortRangeItem isSource rangeList portRangeList))"

definition PortRangeItem_Match :: "bool \<Rightarrow> (port \<times> port) list \<Rightarrow> inbound_context \<Rightarrow> bool" where
  "PortRangeItem_Match isSource portRangeList m =
     (let port = (if isSource then sa_Port (m_Source m) else sa_Port (m_Destination m)) in
      list_ex (\<lambda>(s, e). port \<ge> s \<and> port \<le> e) portRangeList)"

definition PortRangeItem_String :: "bool \<Rightarrow> string list \<Rightarrow> string" where
  "PortRangeItem_String isSource portRanges =
     describe (if isSource then ''source_port_range'' else ''port_range'') portRanges"

definition NewIPCIDRItem :: "rule_env \<Rightarrow> bool \<Rightarrow> prefix list \<Rightarrow> rule_item res" where
  "NewIPCIDRItem E isSource prefixes =
     rbind (ipset_Ranges E prefixes)
       (\<lambda>ranges. Inr (IPCIDRItem (FromIPSet ranges) isSource
          (describe3 (if isSource then ''source_ip_cidr'' else ''ip_cidr'') ''...''
             (map prefix_String prefixes))))"

definition NewRawIPCIDRItem :: "bool \<Rightarrow> ip_set \<Rightarrow> rule_item" where
  "NewRawIPCIDRItem isSource ipSet =
     IPCIDRItem ipSet isSource ((if isSource then ''source_ip_cidr='' else ''ip_cidr='') @ ''<binary>'')"

definition IPCIDRItem_Match :: "rule_env \<Rightarrow> ip_set \<Rightarrow> bool \<Rightarrow> inbound_context \<Rightarrow> bool" where
  "IPCIDRItem_Match E ipSet isSource m =
     (if isSource \<or> m_IPCIDRMatchSource m then ipset_Contains ipSet (sa_Addr (m_Source m))
      else if m_DestinationAddressMatchFromResponse m then
        (let addresses = DNSResponseAddressesForMatch (AddrFromIP E) m in
         if addresses = [] then m_IPCIDRAcceptEmpty m
         else list_ex (ipset_Contains ipSet) addresses)
      else if IsIP E (m_Destination m) then ipset_Contains ipSet (sa_Addr (m_Destination m))
      else if m_DestinationAddresses m \<noteq> [] then
        list_ex (ipset_Contains ipSet) (m_DestinationAddresses m)
      else if m_CacheIPs m \<noteq> [] then list_ex (ipset_Contains ipSet) (m_CacheIPs m)
      else m_IPCIDRAcceptEmpty m)"

definition IPIsPrivateItem_Match :: "rule_env \<Rightarrow> bool \<Rightarrow> inbound_context \<Rightarrow> bool" where
  "IPIsPrivateItem_Match E isSource m =
     (if isSource then \<not> IsPublicAddr E (sa_Addr (m_Source m))
      else if m_DestinationAddressMatchFromResponse m then
        list_ex (\<lambda>a. \<not> IsPublicAddr E a) (DNSResponseAddressesForMatch (AddrFromIP E) m)
      else if addr_IsValid (sa_Addr (m_Destination m)) then
        \<not> IsPublicAddr E (sa_Addr (m_Destination m))
      else if list_ex (\<lambda>a. \<not> IsPublicAddr E a) (m_DestinationAddresses m) then True
      else list_ex (\<lambda>a. \<not> IsPublicAddr E a) (m_CacheIPs m))"

definition IPIsPrivateItem_String :: "bool \<Rightarrow> string" where
  "IPIsPrivateItem_String isSource =
     (if isSource then ''source_ip_is_private=true'' else ''ip_is_private=true'')"

definition IPAcceptAnyItem_Match :: "rule_env \<Rightarrow> inbound_context \<Rightarrow> bool" where
  "IPAcceptAnyItem_Match E m =
     (if m_DestinationAddressMatchFromResponse m
      then DNSResponseAddressesForMatch (AddrFromIP E) m \<noteq> []
      else m_DestinationAddresses m \<noteq> [])"

section \<open>Processes and users\<close>

text \<open>\<open>filepath.Base\<close> of a Unix build.\<close>

definition filepath_Base :: "string \<Rightarrow> string" where
  "filepath_Base path =
     (if path = [] then ''.''
      else let p = rev (dropWhile (\<lambda>c. c = CHR ''/'') (rev path)) in
           let b = rev (takeWhile (\<lambda>c. c \<noteq> CHR ''/'') (rev p)) in
           if b = [] then ''/'' else b)"

definition ProcessItem_Match :: "string list \<Rightarrow> inbound_context \<Rightarrow> bool" where
  "ProcessItem_Match processes m =
     (case ResolveProcessInfo m of
        None \<Rightarrow> False
      | Some info \<Rightarrow> list_ex (\<lambda>p. List.member processes (filepath_Base p)) (co_ProcessPaths info))"

definition ProcessItem_String :: "string list \<Rightarrow> string" where
  "ProcessItem_String processes = describe ''process_name'' processes"

definition ProcessPathItem_Match :: "rule_env \<Rightarrow> string list \<Rightarrow> inbound_context \<Rightarrow> bool" where
  "ProcessPathItem_Match E processes m =
     (if IsAndroid E \<and>
         (case m_ProcessInfo m of
            None \<Rightarrow> False
          | Some info \<Rightarrow> list_ex (List.member processes) (co_PackageNames info))
      then True
      else case ResolveProcessInfo m of
             None \<Rightarrow> False
           | Some info \<Rightarrow>
               if list_ex (List.member processes) (co_ProcessPaths info) then True
               else if IsAndroid E then list_ex (List.member processes) (co_PackageNames info)
               else False)"

definition ProcessPathItem_String :: "string list \<Rightarrow> string" where
  "ProcessPathItem_String processes = describe ''process_path'' processes"

definition NewProcessPathRegexItem :: "rule_env \<Rightarrow> string list \<Rightarrow> rule_item res" where
  "NewProcessPathRegexItem E expressions =
     rbind (compile_expressions E 0 expressions)
       (\<lambda>matchers. Inr (ProcessPathRegexItem matchers (describe3 ''process_path_regex'' [] expressions)))"

definition ProcessPathRegexItem_Match :: "rule_env \<Rightarrow> string list \<Rightarrow> inbound_context \<Rightarrow> bool" where
  "ProcessPathRegexItem_Match E matchers m =
     (case ResolveProcessInfo m of
        None \<Rightarrow> False
      | Some info \<Rightarrow>
          list_ex (\<lambda>r. list_ex (regexp_MatchString E r) (co_ProcessPaths info)) matchers)"

definition PackageNameItem_Match :: "string list \<Rightarrow> inbound_context \<Rightarrow> bool" where
  "PackageNameItem_Match packageNames m =
     (case m_ProcessInfo m of
        None \<Rightarrow> False
      | Some info \<Rightarrow>
          if co_PackageNames info = [] then False
          else list_ex (List.member packageNames) (co_PackageNames info))"

definition PackageNameItem_String :: "string list \<Rightarrow> string" where
  "PackageNameItem_String packageNames = describe ''package_name'' packageNames"

definition NewPackageNameRegexItem :: "rule_env \<Rightarrow> string list \<Rightarrow> rule_item res" where
  "NewPackageNameRegexItem E expressions =
     rbind (compile_expressions E 0 expressions)
       (\<lambda>matchers. Inr (PackageNameRegexItem matchers (describe3 ''package_name_regex'' [] expressions)))"

definition PackageNameRegexItem_Match :: "rule_env \<Rightarrow> string list \<Rightarrow> inbound_context \<Rightarrow> bool" where
  "PackageNameRegexItem_Match E matchers m =
     (case m_ProcessInfo m of
        None \<Rightarrow> False
      | Some info \<Rightarrow>
          if co_PackageNames info = [] then False
          else list_ex (\<lambda>r. list_ex (regexp_MatchString E r) (co_PackageNames info)) matchers)"

definition UserItem_Match :: "string list \<Rightarrow> inbound_context \<Rightarrow> bool" where
  "UserItem_Match users m =
     (case m_ProcessInfo m of
        None \<Rightarrow> False
      | Some info \<Rightarrow> if co_UserName info = [] then False else List.member users (co_UserName info))"

definition UserItem_String :: "string list \<Rightarrow> string" where
  "UserItem_String users = describe ''user'' users"

definition UserIdItem_Match :: "int list \<Rightarrow> inbound_context \<Rightarrow> bool" where
  "UserIdItem_Match userIds m =
     (case m_ProcessInfo m of
        None \<Rightarrow> False
      | Some info \<Rightarrow> if co_UserId info = -1 then False else List.member userIds (co_UserId info))"

definition UserIdItem_String :: "int list \<Rightarrow> string" where
  "UserIdItem_String userIds = describe ''user_id'' (map int_string userIds)"

section \<open>Network state\<close>

definition ClashModeItem_Match :: "rule_env \<Rightarrow> bool \<Rightarrow> string list \<Rightarrow> bool" where
  "ClashModeItem_Match E clashMode modes =
     (if \<not> clashMode then False
      else case clash_Mode E of
             None \<Rightarrow> False
           | Some mode \<Rightarrow> list_ex (\<lambda>md. strings_EqualFold (uni_EqualFold E) mode md) modes)"

definition ClashModeItem_Start :: "rule_env \<Rightarrow> string list \<Rightarrow> rule_item" where
  "ClashModeItem_Start E modes = ClashModeItem (clash_Mode E \<noteq> None) modes"

text \<open>\<open>r.modes[0]\<close> of an empty list panics: \<^const>\<open>None\<close>.\<close>

definition ClashModeItem_String :: "string list \<Rightarrow> string option" where
  "ClashModeItem_String modes =
     (case modes of
        [] \<Rightarrow> None
      | mode # rest \<Rightarrow>
          Some (''clash_mode='' @
            (if rest \<noteq> [] then ''['' @ strings_Join modes '', '' @ '']'' else mode)))"

definition InterfaceTypeWIFI :: iface_type where "InterfaceTypeWIFI = 0"

definition InterfaceType_String :: "iface_type \<Rightarrow> string" where
  "InterfaceType_String t =
     (if t = 0 then ''wifi'' else if t = 1 then ''cellular'' else if t = 2 then ''ethernet''
      else if t = 3 then ''other'' else dec_string (unat t))"

definition NetworkTypeItem_Match :: "rule_env \<Rightarrow> iface_type list \<Rightarrow> bool" where
  "NetworkTypeItem_Match E networkType =
     (if IsAndroid E \<and> NetworkInterfaces E = [] then
        List.member networkType InterfaceTypeWIFI \<and> WIFI_SSID E \<noteq> []
      else case DefaultNetworkInterface E of
             None \<Rightarrow> False
           | Some ni \<Rightarrow> List.member networkType (ni_Type ni))"

definition NetworkTypeItem_String :: "iface_type list \<Rightarrow> string" where
  "NetworkTypeItem_String networkType = describe ''network_type'' (map InterfaceType_String networkType)"

definition NetworkIsExpensiveItem_Match :: "rule_env \<Rightarrow> bool" where
  "NetworkIsExpensiveItem_Match E =
     (case DefaultNetworkInterface E of None \<Rightarrow> False | Some ni \<Rightarrow> ni_Expensive ni)"

definition NetworkIsConstrainedItem_Match :: "rule_env \<Rightarrow> bool" where
  "NetworkIsConstrainedItem_Match E =
     (case DefaultNetworkInterface E of None \<Rightarrow> False | Some ni \<Rightarrow> ni_Constrained ni)"

definition NetworkIsExpensiveItem_String :: string where
  "NetworkIsExpensiveItem_String = ''network_is_expensive=true''"

definition NetworkIsConstrainedItem_String :: string where
  "NetworkIsConstrainedItem_String = ''network_is_expensive=true''"

definition WIFISSIDItem_Match :: "rule_env \<Rightarrow> string list \<Rightarrow> bool" where
  "WIFISSIDItem_Match E ssidList = List.member ssidList (WIFI_SSID E)"

definition WIFISSIDItem_String :: "string list \<Rightarrow> string" where
  "WIFISSIDItem_String ssidList = describe ''wifi_ssid'' ssidList"

definition NormalizeWIFIBSSID :: "rule_env \<Rightarrow> string \<Rightarrow> string" where
  "NormalizeWIFIBSSID E raw =
     (let bssid = strings_TrimSpace (uni_TrimSpace E) raw in
      if bssid = [] then []
      else case ParseMAC bssid of
             Some parsed \<Rightarrow>
               (if length parsed = 6 then HardwareAddr_String parsed
                else if length bssid = 12 then
                  (case hex_DecodeString bssid of Some d \<Rightarrow> HardwareAddr_String d | None \<Rightarrow> bssid)
                else bssid)
           | None \<Rightarrow>
               if length bssid = 12 then
                 (case hex_DecodeString bssid of Some d \<Rightarrow> HardwareAddr_String d | None \<Rightarrow> bssid)
               else bssid)"

definition NewWIFIBSSIDItem :: "rule_env \<Rightarrow> string list \<Rightarrow> rule_item" where
  "NewWIFIBSSIDItem E bssidList = WIFIBSSIDItem bssidList (map (NormalizeWIFIBSSID E) bssidList)"

definition WIFIBSSIDItem_Match :: "rule_env \<Rightarrow> string list \<Rightarrow> bool" where
  "WIFIBSSIDItem_Match E bssidMap = List.member bssidMap (WIFI_BSSID E)"

definition WIFIBSSIDItem_String :: "string list \<Rightarrow> string" where
  "WIFIBSSIDItem_String bssidList = describe ''wifi_bssid'' bssidList"

text \<open>Filling a Go map from the entries of an ordered map, and the entry part of a description.\<close>

definition fill_map :: "('k \<times> 'v) list \<Rightarrow> ('k \<times> 'v) list" where
  "fill_map entries = fold (\<lambda>(k, v) acc. AList.update k v acc) entries []"

definition describe_entries :: "string \<Rightarrow> (string \<times> string list) list \<Rightarrow> string" where
  "describe_entries name entries =
     name @ ''=['' @ strings_Join (map (\<lambda>(k, vs). k @ ''='' @ strings_Join vs '','') entries) '' '' @ '']''"

definition NewInterfaceAddressItem :: "(string \<times> prefix list) list \<Rightarrow> rule_item" where
  "NewInterfaceAddressItem entries =
     InterfaceAddressItem (fill_map entries)
       (describe_entries ''interface_address'' (map (\<lambda>(k, ps). (k, map prefix_String ps)) entries))"

definition InterfaceAddressItem_Match :: "rule_env \<Rightarrow> (string \<times> prefix list) list \<Rightarrow> bool" where
  "InterfaceAddressItem_Match E interfaceAddresses =
     list_all (\<lambda>(ifName, addresses).
       case List.find (\<lambda>it. fst it = ifName) (InterfaceFinder_Interfaces E) of
         None \<Rightarrow> False
       | Some iface \<Rightarrow>
           fst iface \<noteq> [] \<and>
           \<not> list_all (\<lambda>address. list_all (\<lambda>it. \<not> prefix_Overlaps address it) (snd iface)) addresses)
       interfaceAddresses"

definition NewNetworkInterfaceAddressItem :: "(iface_type \<times> prefix list) list \<Rightarrow> rule_item" where
  "NewNetworkInterfaceAddressItem entries =
     NetworkInterfaceAddressItem (fill_map entries)
       (describe_entries ''network_interface_address''
          (map (\<lambda>(k, ps). (InterfaceType_String k, map prefix_String ps)) entries))"

definition NetworkInterfaceAddressItem_Match ::
  "rule_env \<Rightarrow> (iface_type \<times> prefix list) list \<Rightarrow> bool" where
  "NetworkInterfaceAddressItem_Match E interfaceAddresses =
     (let myInterfaces = (case InterfaceMonitor E of None \<Rightarrow> [] | Some im \<Rightarrow> im_MyInterfaces im) in
      list_all (\<lambda>(ifType, addresses).
        list_ex (\<lambda>ni. \<not> List.member myInterfaces (ni_Name ni) \<and> ni_Type ni = ifType \<and>
          list_ex (\<lambda>it. list_ex (\<lambda>p. prefix_Overlaps p it) addresses) (ni_Addresses ni))
          (NetworkInterfaces E))
        interfaceAddresses)"

definition DefaultInterfaceAddressItem_Match :: "rule_env \<Rightarrow> prefix list \<Rightarrow> bool" where
  "DefaultInterfaceAddressItem_Match E interfaceAddresses =
     (case InterfaceMonitor E of
        None \<Rightarrow> False
      | Some im \<Rightarrow>
          (case im_DefaultInterface im of
             None \<Rightarrow> False
           | Some addrs \<Rightarrow>
               list_all (\<lambda>address. \<not> list_all (\<lambda>it. \<not> prefix_Overlaps address it) addrs)
                 interfaceAddresses))"

definition DefaultInterfaceAddressItem_String :: "prefix list \<Rightarrow> string" where
  "DefaultInterfaceAddressItem_String interfaceAddresses =
     describe3 ''default_interface_address'' ''...'' (map prefix_String interfaceAddresses)"

section \<open>Items that start\<close>

text \<open>
  \<open>Start\<close> resolves the tags one by one and stops at the first it cannot use; the tags resolved so
  far stay in the item. The answer is the resolved list and the error, if any.
\<close>

fun PreferredByItem_Start :: "rule_env \<Rightarrow> string list \<Rightarrow> string list \<Rightarrow> string list \<times> error option" where
  "PreferredByItem_Start E [] outbounds = (outbounds, None)"
| "PreferredByItem_Start E (tag # tags) outbounds =
     (case om_Outbound E tag of
        None \<Rightarrow> (outbounds, Some (E_New (''outbound not found: '' @ tag)))
      | Some ob \<Rightarrow>
          if \<not> ob_WithPreferredRoutes ob then
            (outbounds, Some (E_New (''outbound type does not support preferred routes: '' @ ob_Type ob)))
          else PreferredByItem_Start E tags (outbounds @ [tag]))"

definition PreferredByItem_Match ::
  "rule_env \<Rightarrow> string list \<Rightarrow> domain_match_strategy \<Rightarrow> inbound_context \<Rightarrow> bool" where
  "PreferredByItem_Match E outbounds strategy m =
     (let host = domainHost E strategy m in
      if host \<noteq> [] \<and> list_ex (\<lambda>ob. PreferredDomain E ob m host) outbounds then True
      else if IsIP E (m_Destination m) \<and>
              list_ex (\<lambda>ob. PreferredAddress E ob m (sa_Addr (m_Destination m))) outbounds then True
      else if m_DestinationAddresses m \<noteq> [] \<or> m_CacheIPs m \<noteq> [] then
        (if list_ex (\<lambda>a. list_ex (\<lambda>ob. PreferredAddress E ob m a) outbounds) (m_DestinationAddresses m)
         then True
         else list_ex (\<lambda>a. list_ex (\<lambda>ob. PreferredAddress E ob m a) outbounds) (m_CacheIPs m))
      else False)"

definition PreferredByItem_String :: "string list \<Rightarrow> string" where
  "PreferredByItem_String outboundTags = describe ''preferred_by'' outboundTags"

text \<open>The loop the three DNS items share; \<open>ok\<close> is the interface test, \<open>what\<close> the option's name.\<close>

fun transports_Start ::
  "rule_env \<Rightarrow> (transport_info \<Rightarrow> bool) \<Rightarrow> string \<Rightarrow> string list \<Rightarrow> string list \<Rightarrow> string list \<times> error option"
where
  "transports_Start E ok what [] transports = (transports, None)"
| "transports_Start E ok what (tag # tags) transports =
     (case tm_Transport E tag of
        None \<Rightarrow> (transports, Some (E_New (''DNS server not found: '' @ tag)))
      | Some tr \<Rightarrow>
          if \<not> ok tr then
            (transports, Some (E_New (''DNS server type does not support '' @ what @ '': '' @ tr_Type tr)))
          else transports_Start E ok what tags (transports @ [tag]))"

definition PreferredByDNSItem_Start :: "rule_env \<Rightarrow> string list \<Rightarrow> string list \<Rightarrow> string list \<times> error option" where
  "PreferredByDNSItem_Start E = transports_Start E tr_WithPreferredDomain ''preferred_by''"

definition PreferredByDNSItem_Match :: "rule_env \<Rightarrow> string list \<Rightarrow> inbound_context \<Rightarrow> bool" where
  "PreferredByDNSItem_Match E transports m =
     (let host = (if m_Domain m \<noteq> [] then m_Domain m else sa_Fqdn (m_Destination m)) in
      if host = [] then False
      else list_ex (\<lambda>t. dns_PreferredDomain E t (dns_CanonicalName E host)) transports)"

definition PreferredByDNSItem_String :: "string list \<Rightarrow> string" where
  "PreferredByDNSItem_String transportTags = describe ''preferred_by'' transportTags"

definition NewDNSServerAddressItem :: "(string \<times> prefix list) list \<Rightarrow> rule_item" where
  "NewDNSServerAddressItem entries =
     DNSServerAddressItem (map fst entries) (map snd entries) []
       (describe_entries ''dns_server_address'' (map (\<lambda>(k, ps). (k, map prefix_String ps)) entries))"

definition DNSServerAddressItem_Start :: "rule_env \<Rightarrow> string list \<Rightarrow> string list \<Rightarrow> string list \<times> error option" where
  "DNSServerAddressItem_Start E = transports_Start E tr_WithConfiguration ''dns_server_address''"

text \<open>\<open>Start\<close> runs once, so every transport has its entry of \<open>serverAddresses\<close>.\<close>

definition DNSServerAddressItem_Match ::
  "rule_env \<Rightarrow> prefix list list \<Rightarrow> string list \<Rightarrow> bool" where
  "DNSServerAddressItem_Match E serverAddresses transports =
     list_all (\<lambda>(transport, prefixes).
       list_ex (\<lambda>address. list_ex (\<lambda>p. prefix_Contains p (addr_WithZone [] (addr_Unmap address))) prefixes)
         (dns_ServerAddresses E transport))
       (zip transports serverAddresses)"

definition NewDNSSearchDomainItem :: "rule_env \<Rightarrow> (string \<times> string list) list \<Rightarrow> rule_item" where
  "NewDNSSearchDomainItem E entries =
     DNSSearchDomainItem (map fst entries) (map (\<lambda>e. map (dns_CanonicalName E) (snd e)) entries) []
       (describe_entries ''dns_search_domain'' entries)"

definition DNSSearchDomainItem_Start :: "rule_env \<Rightarrow> string list \<Rightarrow> string list \<Rightarrow> string list \<times> error option" where
  "DNSSearchDomainItem_Start E = transports_Start E tr_WithConfiguration ''dns_search_domain''"

definition DNSSearchDomainItem_Match ::
  "rule_env \<Rightarrow> string list list \<Rightarrow> string list \<Rightarrow> bool" where
  "DNSSearchDomainItem_Match E searchDomains transports =
     list_all (\<lambda>(transport, domains).
       list_ex (\<lambda>sd. List.member domains (dns_CanonicalName E sd)) (dns_SearchDomains E transport))
       (zip transports searchDomains)"

section \<open>DNS queries and responses\<close>

definition QueryTypeItem_Match :: "(16 word) list \<Rightarrow> inbound_context \<Rightarrow> bool" where
  "QueryTypeItem_Match types m = (if m_QueryType m = 0 then False else List.member types (m_QueryType m))"

definition DNSQueryTypeToString :: "rule_env \<Rightarrow> 16 word \<Rightarrow> string" where
  "DNSQueryTypeToString E queryType =
     (case dns_TypeToString E queryType of Some name \<Rightarrow> name | None \<Rightarrow> dec_string (unat queryType))"

definition QueryTypeItem_String :: "rule_env \<Rightarrow> (16 word) list \<Rightarrow> string" where
  "QueryTypeItem_String E typeList = describe ''query_type'' (map (DNSQueryTypeToString E) typeList)"

definition QueryClientSubnetItem_Match :: "prefix list \<Rightarrow> inbound_context \<Rightarrow> bool" where
  "QueryClientSubnetItem_Match prefixes m =
     (let clientSubnet = m_QueryClientSubnet m in
      if \<not> prefix_IsValid clientSubnet then False
      else list_ex (\<lambda>p. prefix_Bits clientSubnet \<ge> prefix_Bits p \<and>
                        prefix_Contains p (prefix_Addr clientSubnet)) prefixes)"

definition QueryClientSubnetItem_String :: "prefix list \<Rightarrow> string" where
  "QueryClientSubnetItem_String prefixes = describe ''query_client_subnet'' (map prefix_String prefixes)"

definition QueryDNSSECItem_Match :: "inbound_context \<Rightarrow> bool" where
  "QueryDNSSECItem_Match m = m_QueryDNSSEC m"

definition DNSResponseRCodeItem_Match :: "int \<Rightarrow> inbound_context \<Rightarrow> bool" where
  "DNSResponseRCodeItem_Match rcode m =
     (case m_DNSResponse m of None \<Rightarrow> False | Some r \<Rightarrow> msg_Rcode r = rcode)"

definition DNSResponseRCodeItem_String :: "rule_env \<Rightarrow> int \<Rightarrow> string" where
  "DNSResponseRCodeItem_String E rcode = ''response_rcode='' @ dns_RcodeToString E rcode"

definition DNSRecordOptions_Match :: "rule_env \<Rightarrow> dns_rr option \<Rightarrow> dns_rr \<Rightarrow> bool" where
  "DNSRecordOptions_Match E expected r =
     (case expected of None \<Rightarrow> False | Some rr \<Rightarrow> dns_IsDuplicate E rr r)"

fun response_records :: "response_section \<Rightarrow> dns_msg \<Rightarrow> dns_rr list" where
  "response_records ResponseAnswers r = msg_Answer r"
| "response_records ResponseNS r = msg_Ns r"
| "response_records ResponseExtra r = msg_Extra r"

definition DNSResponseRecordItem_Match ::
  "rule_env \<Rightarrow> dns_rr option list \<Rightarrow> response_section \<Rightarrow> inbound_context \<Rightarrow> bool" where
  "DNSResponseRecordItem_Match E records selector m =
     (case m_DNSResponse m of
        None \<Rightarrow> False
      | Some r \<Rightarrow>
          list_ex (\<lambda>e. list_ex (DNSRecordOptions_Match E e) (response_records selector r)) records)"

definition DNSResponseRecordItem_String :: "rule_env \<Rightarrow> string \<Rightarrow> dns_rr option list \<Rightarrow> string" where
  "DNSResponseRecordItem_String E field records =
     field @ ''=['' @
     strings_Join (map (dns_RR_String E) (List.map_filter (\<lambda>r. r) records)) '' '' @ '']''"

section \<open>Constructors that only keep their arguments\<close>

text \<open>
  The constructors of the remaining items: those with a lookup map fill it with the list they get,
  the others store it. \<open>ClashModeItem\<close>, \<open>PreferredByItem\<close> and \<open>PreferredByDNSItem\<close> have not started.
\<close>

definition NewInboundRule :: "string list \<Rightarrow> rule_item" where
  "NewInboundRule inbounds = InboundItem inbounds"

definition NewIPVersionItem :: "bool \<Rightarrow> rule_item" where
  "NewIPVersionItem isIPv6 = IPVersionItem isIPv6"

definition NewNetworkItem :: "string list \<Rightarrow> rule_item" where
  "NewNetworkItem networks = NetworkItem networks"

definition NewAuthUserItem :: "string list \<Rightarrow> rule_item" where
  "NewAuthUserItem users = AuthUserItem users"

definition NewProtocolItem :: "string list \<Rightarrow> rule_item" where
  "NewProtocolItem protocols = ProtocolItem protocols"

definition NewClientItem :: "string list \<Rightarrow> rule_item" where
  "NewClientItem clients = ClientItem clients"

definition NewIPIsPrivateItem :: "bool \<Rightarrow> rule_item" where
  "NewIPIsPrivateItem isSource = IPIsPrivateItem isSource"

definition NewProcessItem :: "string list \<Rightarrow> rule_item" where
  "NewProcessItem processNameList = ProcessItem processNameList"

definition NewProcessPathItem :: "string list \<Rightarrow> rule_item" where
  "NewProcessPathItem processNameList = ProcessPathItem processNameList"

definition NewPackageNameItem :: "string list \<Rightarrow> rule_item" where
  "NewPackageNameItem packageNameList = PackageNameItem packageNameList"

definition NewUserItem :: "string list \<Rightarrow> rule_item" where
  "NewUserItem users = UserItem users"

definition NewUserIDItem :: "int list \<Rightarrow> rule_item" where
  "NewUserIDItem userIdList = UserIdItem userIdList"

definition NewClashModeItem :: "string list \<Rightarrow> rule_item" where
  "NewClashModeItem modes = ClashModeItem False modes"

definition NewNetworkTypeItem :: "iface_type list \<Rightarrow> rule_item" where
  "NewNetworkTypeItem networkType = NetworkTypeItem networkType"

definition NewWIFISSIDItem :: "string list \<Rightarrow> rule_item" where
  "NewWIFISSIDItem ssidList = WIFISSIDItem ssidList"

definition NewDefaultInterfaceAddressItem :: "prefix list \<Rightarrow> rule_item" where
  "NewDefaultInterfaceAddressItem interfaceAddresses = DefaultInterfaceAddressItem interfaceAddresses"

definition NewSourceHostnameItem :: "string list \<Rightarrow> rule_item" where
  "NewSourceHostnameItem hostnameList = SourceHostnameItem hostnameList"

definition NewPreferredByDNSItem :: "string list \<Rightarrow> rule_item" where
  "NewPreferredByDNSItem transportTags = PreferredByDNSItem transportTags []"

definition NewQueryTypeItem :: "(16 word) list \<Rightarrow> rule_item" where
  "NewQueryTypeItem typeList = QueryTypeItem typeList"

definition NewQueryClientSubnetItem :: "prefix list \<Rightarrow> rule_item" where
  "NewQueryClientSubnetItem prefixes = QueryClientSubnetItem prefixes"

definition NewDNSResponseRCodeItem :: "int \<Rightarrow> rule_item" where
  "NewDNSResponseRCodeItem rcode = DNSResponseRCodeItem rcode"

definition NewDomainKeywordItem :: "string list \<Rightarrow> domain_match_strategy \<Rightarrow> rule_item" where
  "NewDomainKeywordItem keywords strategy = DomainKeywordItem keywords strategy"

definition NewRawAdGuardDomainItem :: "adguard_matcher \<Rightarrow> domain_match_strategy \<Rightarrow> rule_item" where
  "NewRawAdGuardDomainItem matcher strategy = AdGuardDomainItem matcher strategy"

definition NewPortItem :: "bool \<Rightarrow> port list \<Rightarrow> rule_item" where
  "NewPortItem isSource ports = PortItem ports isSource"

definition NewPreferredByItem :: "string list \<Rightarrow> domain_match_strategy \<Rightarrow> rule_item" where
  "NewPreferredByItem outboundTags strategy = PreferredByItem outboundTags [] strategy"

definition NewIPAcceptAnyItem :: rule_item where
  "NewIPAcceptAnyItem = IPAcceptAnyItem"

definition NewNetworkIsExpensiveItem :: rule_item where
  "NewNetworkIsExpensiveItem = NetworkIsExpensiveItem"

definition NewNetworkIsConstrainedItem :: rule_item where
  "NewNetworkIsConstrainedItem = NetworkIsConstrainedItem"

definition NewQueryDNSSECItem :: rule_item where
  "NewQueryDNSSECItem = QueryDNSSECItem"

definition NewDNSResponseRecordItem ::
  "string \<Rightarrow> dns_rr option list \<Rightarrow> response_section \<Rightarrow> rule_item" where
  "NewDNSResponseRecordItem field records selector = DNSResponseRecordItem field records selector"

section \<open>The item interface\<close>

text \<open>\<open>RuleItem.Match\<close>, \<open>Start\<close> where an item has one, and \<open>String\<close>, by the item's type.\<close>

definition RuleItem_Match :: "rule_env \<Rightarrow> rule_item \<Rightarrow> inbound_context \<Rightarrow> bool" where
  "RuleItem_Match E item m =
     (case item of
        InboundItem xs \<Rightarrow> InboundItem_Match xs m
      | IPVersionItem v6 \<Rightarrow> IPVersionItem_Match E v6 m
      | NetworkItem xs \<Rightarrow> NetworkItem_Match xs m
      | AuthUserItem xs \<Rightarrow> AuthUserItem_Match xs m
      | ProtocolItem xs \<Rightarrow> ProtocolItem_Match xs m
      | ClientItem xs \<Rightarrow> ClientItem_Match xs m
      | DomainItem mt d st \<Rightarrow> DomainItem_Match E mt st m
      | DomainKeywordItem ks st \<Rightarrow> DomainKeywordItem_Match E ks st m
      | DomainRegexItem rs d st \<Rightarrow> DomainRegexItem_Match E rs st m
      | AdGuardDomainItem mt st \<Rightarrow> AdGuardDomainItem_Match E mt st m
      | IPCIDRItem s src d \<Rightarrow> IPCIDRItem_Match E s src m
      | IPIsPrivateItem src \<Rightarrow> IPIsPrivateItem_Match E src m
      | IPAcceptAnyItem \<Rightarrow> IPAcceptAnyItem_Match E m
      | PortItem ps src \<Rightarrow> PortItem_Match ps src m
      | PortRangeItem src d rs \<Rightarrow> PortRangeItem_Match src rs m
      | ProcessItem xs \<Rightarrow> ProcessItem_Match xs m
      | ProcessPathItem xs \<Rightarrow> ProcessPathItem_Match E xs m
      | ProcessPathRegexItem rs d \<Rightarrow> ProcessPathRegexItem_Match E rs m
      | PackageNameItem xs \<Rightarrow> PackageNameItem_Match xs m
      | PackageNameRegexItem rs d \<Rightarrow> PackageNameRegexItem_Match E rs m
      | UserItem xs \<Rightarrow> UserItem_Match xs m
      | UserIdItem xs \<Rightarrow> UserIdItem_Match xs m
      | ClashModeItem started ms \<Rightarrow> ClashModeItem_Match E started ms
      | NetworkTypeItem ts \<Rightarrow> NetworkTypeItem_Match E ts
      | NetworkIsExpensiveItem \<Rightarrow> NetworkIsExpensiveItem_Match E
      | NetworkIsConstrainedItem \<Rightarrow> NetworkIsConstrainedItem_Match E
      | WIFISSIDItem xs \<Rightarrow> WIFISSIDItem_Match E xs
      | WIFIBSSIDItem xs keys \<Rightarrow> WIFIBSSIDItem_Match E keys
      | InterfaceAddressItem es d \<Rightarrow> InterfaceAddressItem_Match E es
      | NetworkInterfaceAddressItem es d \<Rightarrow> NetworkInterfaceAddressItem_Match E es
      | DefaultInterfaceAddressItem ps \<Rightarrow> DefaultInterfaceAddressItem_Match E ps
      | SourceMACAddressItem xs keys \<Rightarrow> SourceMACAddressItem_Match keys m
      | SourceHostnameItem xs \<Rightarrow> SourceHostnameItem_Match xs m
      | PreferredByItem tags obs st \<Rightarrow> PreferredByItem_Match E obs st m
      | PreferredByDNSItem tags ts \<Rightarrow> PreferredByDNSItem_Match E ts m
      | DNSServerAddressItem tags pss ts d \<Rightarrow> DNSServerAddressItem_Match E pss ts
      | DNSSearchDomainItem tags dss ts d \<Rightarrow> DNSSearchDomainItem_Match E dss ts
      | QueryTypeItem ts \<Rightarrow> QueryTypeItem_Match ts m
      | QueryClientSubnetItem ps \<Rightarrow> QueryClientSubnetItem_Match ps m
      | QueryDNSSECItem \<Rightarrow> QueryDNSSECItem_Match m
      | OutboundItem xs keys anyOb \<Rightarrow> OutboundItem_Match keys anyOb m
      | DNSResponseRCodeItem rc \<Rightarrow> DNSResponseRCodeItem_Match rc m
      | DNSResponseRecordItem f rs sel \<Rightarrow> DNSResponseRecordItem_Match E rs sel m)"

definition RuleItem_Start :: "rule_env \<Rightarrow> rule_item \<Rightarrow> rule_item \<times> error option" where
  "RuleItem_Start E item =
     (case item of
        ClashModeItem started ms \<Rightarrow> (ClashModeItem_Start E ms, None)
      | PreferredByItem tags obs st \<Rightarrow>
          (let (obs', err) = PreferredByItem_Start E tags obs in (PreferredByItem tags obs' st, err))
      | PreferredByDNSItem tags ts \<Rightarrow>
          (let (ts', err) = PreferredByDNSItem_Start E tags ts in (PreferredByDNSItem tags ts', err))
      | DNSServerAddressItem tags pss ts d \<Rightarrow>
          (let (ts', err) = DNSServerAddressItem_Start E tags ts in (DNSServerAddressItem tags pss ts' d, err))
      | DNSSearchDomainItem tags dss ts d \<Rightarrow>
          (let (ts', err) = DNSSearchDomainItem_Start E tags ts in (DNSSearchDomainItem tags dss ts' d, err))
      | _ \<Rightarrow> (item, None))"

definition RuleItem_String :: "rule_env \<Rightarrow> rule_item \<Rightarrow> string option" where
  "RuleItem_String E item =
     (case item of
        InboundItem xs \<Rightarrow> Some (InboundItem_String xs)
      | IPVersionItem v6 \<Rightarrow> Some (IPVersionItem_String v6)
      | NetworkItem xs \<Rightarrow> Some (NetworkItem_String xs)
      | AuthUserItem xs \<Rightarrow> Some (AuthUserItem_String xs)
      | ProtocolItem xs \<Rightarrow> Some (ProtocolItem_String xs)
      | ClientItem xs \<Rightarrow> Some (ClientItem_String xs)
      | DomainItem mt d st \<Rightarrow> Some d
      | DomainKeywordItem ks st \<Rightarrow> Some (DomainKeywordItem_String ks)
      | DomainRegexItem rs d st \<Rightarrow> Some d
      | AdGuardDomainItem mt st \<Rightarrow> Some ''!adguard_domain_rules=<binary>''
      | IPCIDRItem s src d \<Rightarrow> Some d
      | IPIsPrivateItem src \<Rightarrow> Some (IPIsPrivateItem_String src)
      | IPAcceptAnyItem \<Rightarrow> Some ''ip_accept_any=true''
      | PortItem ps src \<Rightarrow> Some (PortItem_String ps src)
      | PortRangeItem src d rs \<Rightarrow> Some (PortRangeItem_String src d)
      | ProcessItem xs \<Rightarrow> Some (ProcessItem_String xs)
      | ProcessPathItem xs \<Rightarrow> Some (ProcessPathItem_String xs)
      | ProcessPathRegexItem rs d \<Rightarrow> Some d
      | PackageNameItem xs \<Rightarrow> Some (PackageNameItem_String xs)
      | PackageNameRegexItem rs d \<Rightarrow> Some d
      | UserItem xs \<Rightarrow> Some (UserItem_String xs)
      | UserIdItem xs \<Rightarrow> Some (UserIdItem_String xs)
      | ClashModeItem started ms \<Rightarrow> ClashModeItem_String ms
      | NetworkTypeItem ts \<Rightarrow> Some (NetworkTypeItem_String ts)
      | NetworkIsExpensiveItem \<Rightarrow> Some NetworkIsExpensiveItem_String
      | NetworkIsConstrainedItem \<Rightarrow> Some NetworkIsConstrainedItem_String
      | WIFISSIDItem xs \<Rightarrow> Some (WIFISSIDItem_String xs)
      | WIFIBSSIDItem xs keys \<Rightarrow> Some (WIFIBSSIDItem_String xs)
      | InterfaceAddressItem es d \<Rightarrow> Some d
      | NetworkInterfaceAddressItem es d \<Rightarrow> Some d
      | DefaultInterfaceAddressItem ps \<Rightarrow> Some (DefaultInterfaceAddressItem_String ps)
      | SourceMACAddressItem xs keys \<Rightarrow> Some (SourceMACAddressItem_String xs)
      | SourceHostnameItem xs \<Rightarrow> Some (SourceHostnameItem_String xs)
      | PreferredByItem tags obs st \<Rightarrow> Some (PreferredByItem_String tags)
      | PreferredByDNSItem tags ts \<Rightarrow> Some (PreferredByDNSItem_String tags)
      | DNSServerAddressItem tags pss ts d \<Rightarrow> Some d
      | DNSSearchDomainItem tags dss ts d \<Rightarrow> Some d
      | QueryTypeItem ts \<Rightarrow> Some (QueryTypeItem_String E ts)
      | QueryClientSubnetItem ps \<Rightarrow> Some (QueryClientSubnetItem_String ps)
      | QueryDNSSECItem \<Rightarrow> Some ''query_dnssec=true''
      | OutboundItem xs keys anyOb \<Rightarrow> Some (OutboundItem_String xs)
      | DNSResponseRCodeItem rc \<Rightarrow> Some (DNSResponseRCodeItem_String E rc)
      | DNSResponseRecordItem f rs sel \<Rightarrow> Some (DNSResponseRecordItem_String E f rs))"

end
