(* ===== verification/Rule_Action.thy ===== *)
theory Rule_Action
  imports Rule_Item
begin

text \<open>
  Rule actions (\<open>route/rule/rule_action.go\<close>, \<open>common/tlsspoof/spoof.go\<close>): building them from
  their options, printing them, the flood control of \<open>reject\<close>, the sniffers an action selects and
  the answer of \<open>predefined\<close>. Durations are nanoseconds. A nil action is \<open>None\<close>.
\<close>

section \<open>Data\<close>

record route_options =
  ro_OverrideAddress :: socksaddr
  ro_OverridePort :: port
  ro_NetworkStrategy :: "nat option"
  ro_NetworkType :: "iface_type list option"
  ro_FallbackNetworkType :: "iface_type list option"
  ro_FallbackDelay :: int
  ro_UDPDisableDomainUnmapping :: bool
  ro_UDPConnect :: bool
  ro_UDPTimeout :: int
  ro_TLSFragment :: bool
  ro_TLSFragmentFallbackDelay :: int
  ro_TLSRecordFragment :: bool
  ro_TLSSpoof :: string
  ro_TLSSpoofMethod :: nat

record dns_route_options =
  do_Strategy :: nat
  do_Timeout :: int
  do_DisableCache :: bool
  do_DisableOptimisticCache :: bool
  do_RewriteTTL :: "32 word option"
  do_ClientSubnet :: prefix
  do_RemoveClientSubnet :: bool

record reject_action =
  rj_Rcode :: int
  rj_Method :: string
  rj_NoDrop :: bool
  rj_dropCounter :: "int list"

datatype stream_sniffer = TLSClientHello | HTTPHost | StreamDomainNameQuery | BitTorrent | SSH | RDP

datatype packet_sniffer =
  QUICClientHello | QUICShortHeader | DomainNameQuery | STUNMessage | UTP | UDPTracker | DTLSRecord | NTP

record sniff_action =
  sn_SnifferNames :: "string list"
  sn_StreamSniffers :: "stream_sniffer list"
  sn_PacketSniffers :: "packet_sniffer list"
  sn_Timeout :: int

record resolve_action =
  rs_Server :: string
  rs_Timeout :: int
  rs_Strategy :: nat
  rs_DisableCache :: bool
  rs_DisableOptimisticCache :: bool
  rs_RewriteTTL :: "32 word option"
  rs_ClientSubnet :: prefix
  rs_MatchOnly :: bool

record predefined_action =
  pd_Rcode :: int
  pd_Answer :: "dns_rr list"
  pd_Ns :: "dns_rr list"
  pd_Extra :: "dns_rr list"

datatype rule_action =
    RuleActionRoute string route_options
  | RuleActionBypass string route_options
  | RuleActionRouteOptions route_options
  | RuleActionDNSRoute string bool dns_route_options
  | RuleActionEvaluate string string bool dns_route_options
  | RuleActionRespond
  | RuleActionDNSRouteOptions dns_route_options
  | RuleActionDirect string
  | RuleActionReject reject_action
  | RuleActionHijackDNS
  | RuleActionSniff sniff_action
  | RuleActionSniffOverrideDestination
  | RuleActionResolve resolve_action
  | RuleActionPredefined predefined_action

definition action_Type :: "rule_action \<Rightarrow> string" where
  "action_Type a =
     (case a of
        RuleActionRoute _ _ \<Rightarrow> ''route''
      | RuleActionBypass _ _ \<Rightarrow> ''bypass''
      | RuleActionRouteOptions _ \<Rightarrow> ''route-options''
      | RuleActionDNSRoute _ _ _ \<Rightarrow> ''route''
      | RuleActionEvaluate _ _ _ _ \<Rightarrow> ''evaluate''
      | RuleActionRespond \<Rightarrow> ''respond''
      | RuleActionDNSRouteOptions _ \<Rightarrow> ''route-options''
      | RuleActionDirect _ \<Rightarrow> ''direct''
      | RuleActionReject _ \<Rightarrow> ''reject''
      | RuleActionHijackDNS \<Rightarrow> ''hijack-dns''
      | RuleActionSniff _ \<Rightarrow> ''sniff''
      | RuleActionSniffOverrideDestination \<Rightarrow> ''sniff-override-destination''
      | RuleActionResolve _ \<Rightarrow> ''resolve''
      | RuleActionPredefined _ \<Rightarrow> ''predefined'')"

definition IsFinalAction :: "rule_action \<Rightarrow> bool" where
  "IsFinalAction a =
     (\<not> List.member [''sniff'', ''sniff-override-destination'', ''resolve'', ''evaluate''] (action_Type a))"

section \<open>TLS spoof options\<close>

definition ParseMethod :: "string \<Rightarrow> nat res" where
  "ParseMethod s =
     (if s = [] \<or> s = ''wrong-sequence'' then Inr 0
      else if s = ''wrong-checksum'' then Inr 1
      else if s = ''wrong-ack'' then Inr 2
      else if s = ''wrong-md5'' then Inr 3
      else if s = ''wrong-timestamp'' then Inr 4
      else Inl (E_New (''tls_spoof: unknown method: '' @ s)))"

definition ParseOptions :: "bool \<Rightarrow> string \<Rightarrow> string \<Rightarrow> (string \<times> nat) res" where
  "ParseOptions PlatformSupported spoof meth =
     (if spoof = [] then
        (if meth \<noteq> [] then Inl (E_New ''spoof_method requires spoof'') else Inr ([], 0))
      else if \<not> PlatformSupported then Inl (E_New ''tls_spoof is not supported on this platform'')
      else rbind (ParseMethod meth) (\<lambda>parsed. Inr (spoof, parsed)))"

definition Method_String :: "nat \<Rightarrow> string" where
  "Method_String m =
     (if m = 0 then ''wrong-sequence'' else if m = 1 then ''wrong-checksum''
      else if m = 2 then ''wrong-ack'' else if m = 3 then ''wrong-md5''
      else if m = 4 then ''wrong-timestamp'' else ''unknown'')"

section \<open>Durations in text\<close>

text \<open>\<open>time.Duration.String\<close>: the fraction loses its trailing zeroes, the unit follows the size.\<close>

definition frac_string :: "nat \<Rightarrow> nat \<Rightarrow> string" where
  "frac_string prec v =
     (let digits = map (\<lambda>i. char_of (48 + v div 10 ^ i mod 10)) (rev [0..<prec]);
          kept = rev (dropWhile (\<lambda>c. c = CHR ''0'') (rev digits))
      in if kept = [] then [] else CHR ''.'' # kept)"

definition Duration_String :: "int \<Rightarrow> string" where
  "Duration_String d =
     (let u = nat \<bar>d\<bar>;
          body =
            (if u = 0 then ''0s''
             else if u < 1000 then dec_string u @ ''ns''
             else if u < 1000000 then dec_string (u div 1000) @ frac_string 3 u @ [char_of (194::nat), char_of (181::nat)] @ ''s''
             else if u < 1000000000 then dec_string (u div 1000000) @ frac_string 6 u @ ''ms''
             else let s = u div 1000000000; m = s div 60; h = m div 60 in
                  (if h > 0 then dec_string h @ ''h'' else []) @
                  (if m > 0 then dec_string (m mod 60) @ ''m'' else []) @
                  dec_string (s mod 60) @ frac_string 9 u @ ''s'')
      in if d < 0 then CHR ''-'' # body else body)"


section \<open>Options\<close>

record raw_route_options =
  rr_OverrideAddress :: string
  rr_OverridePort :: port
  rr_NetworkStrategy :: "nat option"
  rr_FallbackDelay :: "32 word"
  rr_UDPDisableDomainUnmapping :: bool
  rr_UDPConnect :: bool
  rr_UDPTimeout :: int
  rr_TLSFragment :: bool
  rr_TLSFragmentFallbackDelay :: int
  rr_TLSRecordFragment :: bool
  rr_TLSSpoof :: string
  rr_TLSSpoofMethod :: string

text \<open>
  The dialer options that a description prints; the others are only handed to \<open>dialer.New\<close> and are
  one opaque value.
\<close>

record direct_options =
  dl_BindInterface :: string
  dl_Inet4BindAddress :: "addr option"
  dl_Inet6BindAddress :: "addr option"
  dl_RoutingMark :: "32 word"
  dl_ReuseAddr :: bool
  dl_ConnectTimeout :: int
  dl_TCPFastOpen :: bool
  dl_TCPMultiPath :: bool
  dl_UDPFragment :: "bool option"
  dl_DomainStrategy :: nat
  dl_FallbackDelay :: int
  dl_others :: nat

record reject_options =
  rjo_Method :: string
  rjo_NoDrop :: bool

record sniff_options =
  sno_Sniffer :: "string list"
  sno_Timeout :: int

record resolve_options =
  rso_Server :: string
  rso_Timeout :: int
  rso_Strategy :: nat
  rso_DisableCache :: bool
  rso_DisableOptimisticCache :: bool
  rso_RewriteTTL :: "32 word option"
  rso_ClientSubnet :: "prefix option"
  rso_MatchOnly :: bool

record rule_action_options =
  ra_Action :: string
  ra_RouteOutbound :: string
  ra_RouteOptions :: raw_route_options
  ra_RouteOptionsOptions :: raw_route_options
  ra_DirectOptions :: direct_options
  ra_BypassOutbound :: string
  ra_BypassOptions :: raw_route_options
  ra_RejectOptions :: reject_options
  ra_SniffOptions :: sniff_options
  ra_ResolveOptions :: resolve_options

record abstract_dns_route_options =
  ado_Timeout :: int
  ado_Strategy :: nat
  ado_DisableCache :: bool
  ado_DisableOptimisticCache :: bool
  ado_RewriteTTL :: "32 word option"
  ado_ClientSubnet :: "prefix option"
  ado_RemoveClientSubnet :: bool

record dns_reject_options =
  djo_Rcode :: "int option"
  djo_Method :: string
  djo_NoDrop :: bool

record dns_predefined_options =
  dpo_Rcode :: "int option"
  dpo_Answer :: "dns_rr list"
  dpo_Ns :: "dns_rr list"
  dpo_Extra :: "dns_rr list"

record dns_rule_action_options =
  da_Action :: string
  da_Race :: bool
  da_RouteServer :: string
  da_RouteSpeculative :: bool
  da_RouteOptions :: abstract_dns_route_options
  da_EvaluateServer :: string
  da_EvaluateTag :: string
  da_EvaluateSpeculative :: bool
  da_EvaluateOptions :: abstract_dns_route_options
  da_RouteOptionsOptions :: abstract_dns_route_options
  da_DNSRejectOptions :: dns_reject_options
  da_PredefinedOptions :: dns_predefined_options

text \<open>
  What building and printing actions asks of code outside the model: whether the platform can spoof
  (a constant per build), \<open>M.ParseSocksaddrHostPort\<close> and \<open>Socksaddr.AddrString\<close>, and the error of
  \<open>dialer.New\<close>.
\<close>

record action_env =
  PlatformSupported :: bool
  ParseSocksaddrHostPort :: "string \<Rightarrow> port \<Rightarrow> socksaddr"
  AddrString :: "socksaddr \<Rightarrow> string"
  dialer_New :: "direct_options \<Rightarrow> error option"

section \<open>Building actions\<close>

definition NetworkStrategy_String :: "nat \<Rightarrow> string" where
  "NetworkStrategy_String s =
     (if s = 0 then ''default'' else if s = 1 then ''fallback'' else if s = 2 then ''hybrid''
      else dec_string s)"

text \<open>\<open>DomainStrategy.String\<close> panics on a value that is not one of the five strategies.\<close>

definition DomainStrategy_String :: "nat \<Rightarrow> string res" where
  "DomainStrategy_String s =
     (if s = 0 then Inr [] else if s = 1 then Inr ''prefer_ipv4''
      else if s = 2 then Inr ''prefer_ipv6'' else if s = 3 then Inr ''ipv4_only''
      else if s = 4 then Inr ''ipv6_only'' else Inl (E_Panic ''unknown domain strategy''))"

definition newRuleActionRouteOptions :: "action_env \<Rightarrow> raw_route_options \<Rightarrow> route_options res" where
  "newRuleActionRouteOptions A options =
     rbind (ParseOptions (PlatformSupported A) (rr_TLSSpoof options) (rr_TLSSpoofMethod options))
       (\<lambda>(spoof, spoofMethod). Inr
         \<lparr>ro_OverrideAddress = ParseSocksaddrHostPort A (rr_OverrideAddress options) 0,
          ro_OverridePort = rr_OverridePort options,
          ro_NetworkStrategy = rr_NetworkStrategy options,
          ro_NetworkType = None, ro_FallbackNetworkType = None,
          ro_FallbackDelay = uint (rr_FallbackDelay options),
          ro_UDPDisableDomainUnmapping = rr_UDPDisableDomainUnmapping options,
          ro_UDPConnect = rr_UDPConnect options,
          ro_UDPTimeout = rr_UDPTimeout options,
          ro_TLSFragment = rr_TLSFragment options,
          ro_TLSFragmentFallbackDelay = rr_TLSFragmentFallbackDelay options,
          ro_TLSRecordFragment = rr_TLSRecordFragment options,
          ro_TLSSpoof = spoof,
          ro_TLSSpoofMethod = spoofMethod\<rparr>)"

definition Direct_Descriptions :: "direct_options \<Rightarrow> string list res" where
  "Direct_Descriptions d =
     rbind (if dl_DomainStrategy d \<noteq> 0
            then rbind (DomainStrategy_String (dl_DomainStrategy d)) (\<lambda>s. Inr [''domain_strategy='' @ s])
            else Inr []) (\<lambda>strategy. Inr (
       (if dl_BindInterface d \<noteq> [] then [''bind_interface='' @ dl_BindInterface d] else []) @
       (case dl_Inet4BindAddress d of
          None \<Rightarrow> [] | Some a \<Rightarrow> [''inet4_bind_address='' @ addr_String a]) @
       (case dl_Inet6BindAddress d of
          None \<Rightarrow> [] | Some a \<Rightarrow> [''inet6_bind_address='' @ addr_String a]) @
       (if dl_RoutingMark d \<noteq> 0 then [''routing_mark=0x'' @ hex_string (unat (dl_RoutingMark d))] else []) @
       (if dl_ReuseAddr d then [''reuse_addr''] else []) @
       (if dl_ConnectTimeout d \<noteq> 0 then [''connect_timeout='' @ Duration_String (dl_ConnectTimeout d)] else []) @
       (if dl_TCPFastOpen d then [''tcp_fast_open''] else []) @
       (if dl_TCPMultiPath d then [''tcp_multi_path''] else []) @
       (case dl_UDPFragment d of
          None \<Rightarrow> [] | Some b \<Rightarrow> [''udp_fragment='' @ (if b then ''true'' else ''false'')]) @
       strategy @
       (if dl_FallbackDelay d \<noteq> 0 then [''fallback_delay='' @ Duration_String (dl_FallbackDelay d)] else [])))"

fun direct_description :: "string list \<Rightarrow> string" where
  "direct_description [] = []"
| "direct_description [a] = ''('' @ a @ '')''"
| "direct_description [a, b] = ''('' @ a @ '','' @ b @ '')''"
| "direct_description (a # b # _ # _) = ''('' @ a @ '','' @ b @ '',...)''"

definition newDirectAction :: "action_env \<Rightarrow> direct_options \<Rightarrow> rule_action res" where
  "newDirectAction A d =
     (case dialer_New A d of
        Some e \<Rightarrow> Inl e
      | None \<Rightarrow> rbind (Direct_Descriptions d) (\<lambda>ds. Inr (RuleActionDirect (direct_description ds))))"

text \<open>
  \<open>RuleActionSniff.build\<close>: one pass over the names; the accumulator is the two sniffer lists and
  \<open>quicEnabled\<close>.
\<close>

fun sniffers_loop ::
  "string list \<Rightarrow> stream_sniffer list \<Rightarrow> packet_sniffer list \<Rightarrow> bool \<Rightarrow>
   (stream_sniffer list \<times> packet_sniffer list \<times> bool) res" where
  "sniffers_loop [] ss ps quic = Inr (ss, ps, quic)"
| "sniffers_loop (name # names) ss ps quic =
     (if name = ''tls'' then sniffers_loop names (ss @ [TLSClientHello]) ps quic
      else if name = ''http'' then sniffers_loop names (ss @ [HTTPHost]) ps quic
      else if name = ''quic'' then sniffers_loop names ss (ps @ [QUICClientHello]) True
      else if name = ''dns'' then
        sniffers_loop names (ss @ [StreamDomainNameQuery]) (ps @ [DomainNameQuery]) quic
      else if name = ''stun'' then sniffers_loop names ss (ps @ [STUNMessage]) quic
      else if name = ''bittorrent'' then
        sniffers_loop names (ss @ [BitTorrent]) (ps @ [UTP, UDPTracker]) quic
      else if name = ''dtls'' then sniffers_loop names ss (ps @ [DTLSRecord]) quic
      else if name = ''ssh'' then sniffers_loop names (ss @ [SSH]) ps quic
      else if name = ''rdp'' then sniffers_loop names (ss @ [RDP]) ps quic
      else if name = ''ntp'' then sniffers_loop names ss (ps @ [NTP]) quic
      else Inl (E_New (''unknown sniffer: '' @ name)))"

definition RuleActionSniff_build :: "sniff_action \<Rightarrow> sniff_action res" where
  "RuleActionSniff_build r =
     rbind (sniffers_loop (sn_SnifferNames r) (sn_StreamSniffers r) (sn_PacketSniffers r) False)
       (\<lambda>(ss, ps, quic). Inr (r\<lparr>sn_StreamSniffers := ss,
          sn_PacketSniffers := (if quic then ps @ [QUICShortHeader] else ps)\<rparr>))"

text \<open>\<open>Prefixable.Build\<close> and \<open>common.PtrValueOrDefault\<close>: the zero prefix when the option is absent.\<close>

definition subnet_or_zero :: "prefix option \<Rightarrow> prefix" where
  "subnet_or_zero p = (case p of None \<Rightarrow> PrefixZero | Some q \<Rightarrow> q)"

definition NewRuleAction :: "action_env \<Rightarrow> rule_action_options \<Rightarrow> rule_action option res" where
  "NewRuleAction A action =
     (if ra_Action action = [] then Inr None
      else if ra_Action action = ''route'' then
        rbind (newRuleActionRouteOptions A (ra_RouteOptions action))
          (\<lambda>ro. Inr (Some (RuleActionRoute (ra_RouteOutbound action) ro)))
      else if ra_Action action = ''route-options'' then
        rbind (newRuleActionRouteOptions A (ra_RouteOptionsOptions action))
          (\<lambda>ro. Inr (Some (RuleActionRouteOptions ro)))
      else if ra_Action action = ''bypass'' then
        rbind (newRuleActionRouteOptions A (ra_BypassOptions action))
          (\<lambda>ro. Inr (Some (RuleActionBypass (ra_BypassOutbound action) ro)))
      else if ra_Action action = ''direct'' then
        rbind (newDirectAction A (ra_DirectOptions action)) (\<lambda>a. Inr (Some a))
      else if ra_Action action = ''reject'' then
        Inr (Some (RuleActionReject \<lparr>rj_Rcode = 0, rj_Method = rjo_Method (ra_RejectOptions action),
          rj_NoDrop = rjo_NoDrop (ra_RejectOptions action), rj_dropCounter = []\<rparr>))
      else if ra_Action action = ''hijack-dns'' then Inr (Some RuleActionHijackDNS)
      else if ra_Action action = ''sniff'' then
        rbind (RuleActionSniff_build
            \<lparr>sn_SnifferNames = sno_Sniffer (ra_SniffOptions action), sn_StreamSniffers = [],
             sn_PacketSniffers = [], sn_Timeout = sno_Timeout (ra_SniffOptions action)\<rparr>)
          (\<lambda>s. Inr (Some (RuleActionSniff s)))
      else if ra_Action action = ''sniff-override-destination'' then
        Inr (Some RuleActionSniffOverrideDestination)
      else if ra_Action action = ''resolve'' then
        (let o' = ra_ResolveOptions action in
         Inr (Some (RuleActionResolve
           \<lparr>rs_Server = rso_Server o', rs_Timeout = rso_Timeout o', rs_Strategy = rso_Strategy o',
            rs_DisableCache = rso_DisableCache o',
            rs_DisableOptimisticCache = rso_DisableOptimisticCache o',
            rs_RewriteTTL = rso_RewriteTTL o', rs_ClientSubnet = subnet_or_zero (rso_ClientSubnet o'),
            rs_MatchOnly = rso_MatchOnly o'\<rparr>)))
      else Inl (E_Panic (''unknown rule action: '' @ ra_Action action)))"

text \<open>\<open>DNSRCode.Build\<close> and \<open>DNSRejectRCode.Build\<close>.\<close>

definition DNSRCode_Build :: "int option \<Rightarrow> int" where
  "DNSRCode_Build r = (case r of None \<Rightarrow> RcodeSuccess | Some c \<Rightarrow> c)"

definition DNSRejectRCode_Build :: "int option \<Rightarrow> int" where
  "DNSRejectRCode_Build r = (case r of None \<Rightarrow> - 1 | Some c \<Rightarrow> c)"

definition dns_options_of :: "abstract_dns_route_options \<Rightarrow> dns_route_options" where
  "dns_options_of o' =
     \<lparr>do_Strategy = ado_Strategy o', do_Timeout = ado_Timeout o', do_DisableCache = ado_DisableCache o',
      do_DisableOptimisticCache = ado_DisableOptimisticCache o', do_RewriteTTL = ado_RewriteTTL o',
      do_ClientSubnet = subnet_or_zero (ado_ClientSubnet o'),
      do_RemoveClientSubnet = ado_RemoveClientSubnet o'\<rparr>"

definition NewDNSRuleAction :: "dns_rule_action_options \<Rightarrow> rule_action option res" where
  "NewDNSRuleAction action =
     (if da_Action action = [] then Inr None
      else if da_Action action = ''route'' then
        Inr (Some (RuleActionDNSRoute (da_RouteServer action) (da_RouteSpeculative action)
                    (dns_options_of (da_RouteOptions action))))
      else if da_Action action = ''evaluate'' then
        Inr (Some (RuleActionEvaluate (da_EvaluateServer action) (da_EvaluateTag action)
                    (da_EvaluateSpeculative action) (dns_options_of (da_EvaluateOptions action))))
      else if da_Action action = ''respond'' then Inr (Some RuleActionRespond)
      else if da_Action action = ''route-options'' then
        Inr (Some (RuleActionDNSRouteOptions (dns_options_of (da_RouteOptionsOptions action))))
      else if da_Action action = ''reject'' then
        Inr (Some (RuleActionReject
          \<lparr>rj_Rcode = DNSRejectRCode_Build (djo_Rcode (da_DNSRejectOptions action)),
           rj_Method = djo_Method (da_DNSRejectOptions action),
           rj_NoDrop = djo_NoDrop (da_DNSRejectOptions action), rj_dropCounter = []\<rparr>))
      else if da_Action action = ''predefined'' then
        Inr (Some (RuleActionPredefined
          \<lparr>pd_Rcode = DNSRCode_Build (dpo_Rcode (da_PredefinedOptions action)),
           pd_Answer = dpo_Answer (da_PredefinedOptions action),
           pd_Ns = dpo_Ns (da_PredefinedOptions action),
           pd_Extra = dpo_Extra (da_PredefinedOptions action)\<rparr>))
      else Inl (E_Panic (''unknown rule action: '' @ da_Action action)))"

end
