(* ===== verification/Rule_Action_Run.thy ===== *)
theory Rule_Action_Run
  imports Rule_Action
begin

text \<open>
  What rule actions do once built (\<open>route/rule/rule_action.go\<close>) and how their options are checked
  after decoding (\<open>option/rule_action.go\<close>): descriptions, the flood control of \<open>reject\<close>, the answer
  of \<open>predefined\<close>. The JSON decoder is another module; its result is an argument.
\<close>

section \<open>Descriptions\<close>

definition Route_Descriptions :: "rule_env \<Rightarrow> action_env \<Rightarrow> route_options \<Rightarrow> string list" where
  "Route_Descriptions E A r =
     (if IsValid E (ro_OverrideAddress r)
      then [''override-address='' @ AddrString A (ro_OverrideAddress r)] else []) @
     (if 0 < ro_OverridePort r then [''override-port='' @ dec_string (unat (ro_OverridePort r))] else []) @
     (case ro_NetworkStrategy r of
        None \<Rightarrow> [] | Some s \<Rightarrow> [''network-strategy='' @ NetworkStrategy_String s]) @
     (case ro_NetworkType r of
        None \<Rightarrow> []
      | Some ts \<Rightarrow> [''network-type='' @ strings_Join (map InterfaceType_String ts) '','']) @
     (case ro_FallbackNetworkType r of
        None \<Rightarrow> []
      | Some ts \<Rightarrow> [''fallback-network-type='' @ strings_Join (map InterfaceType_String ts) '','']) @
     (if 0 < ro_FallbackDelay r then [''fallback-delay='' @ Duration_String (ro_FallbackDelay r)] else []) @
     (if ro_UDPDisableDomainUnmapping r then [''udp-disable-domain-unmapping''] else []) @
     (if ro_UDPConnect r then [''udp-connect''] else []) @
     (if 0 < ro_UDPTimeout r then [''udp-timeout''] else []) @
     (if ro_TLSFragment r then [''tls-fragment''] else []) @
     (if 0 < ro_TLSFragmentFallbackDelay r
      then [''tls-fragment-fallback-delay='' @ Duration_String (ro_TLSFragmentFallbackDelay r)] else []) @
     (if ro_TLSRecordFragment r then [''tls-record-fragment''] else []) @
     (if ro_TLSSpoof r \<noteq> []
      then [''tls-spoof='' @ ro_TLSSpoof r, ''tls-spoof-method='' @ Method_String (ro_TLSSpoofMethod r)]
      else [])"

definition Route_String :: "rule_env \<Rightarrow> action_env \<Rightarrow> string \<Rightarrow> route_options \<Rightarrow> string" where
  "Route_String E A outbound r =
     ''route('' @ strings_Join (outbound # Route_Descriptions E A r) '','' @ '')''"

definition Bypass_String :: "rule_env \<Rightarrow> action_env \<Rightarrow> string \<Rightarrow> route_options \<Rightarrow> string" where
  "Bypass_String E A outbound r =
     (if outbound = [] then ''bypass()''
      else ''bypass('' @ strings_Join (outbound # Route_Descriptions E A r) '','' @ '')'')"

definition RouteOptions_String :: "rule_env \<Rightarrow> action_env \<Rightarrow> route_options \<Rightarrow> string" where
  "RouteOptions_String E A r = ''route-options('' @ strings_Join (Route_Descriptions E A r) '','' @ '')''"

definition dns_options_description :: "dns_route_options \<Rightarrow> string list" where
  "dns_options_description r =
     (if do_DisableCache r then [''disable-cache''] else []) @
     (if do_DisableOptimisticCache r then [''disable-optimistic-cache''] else []) @
     (case do_RewriteTTL r of None \<Rightarrow> [] | Some t \<Rightarrow> [''rewrite-ttl='' @ dec_string (unat t)]) @
     (if 0 < do_Timeout r then [''timeout='' @ Duration_String (do_Timeout r)] else []) @
     (if prefix_IsValid (do_ClientSubnet r)
      then [''client-subnet='' @ prefix_String (do_ClientSubnet r)] else []) @
     (if do_RemoveClientSubnet r then [''remove-client-subnet''] else [])"

definition formatDNSRouteAction :: "string \<Rightarrow> string \<Rightarrow> bool \<Rightarrow> dns_route_options \<Rightarrow> string" where
  "formatDNSRouteAction action server speculative options =
     action @ ''('' @ strings_Join (server # (if speculative then [''speculative''] else []) @
                                   dns_options_description options) '','' @ '')''"

definition DNSRouteOptions_String :: "dns_route_options \<Rightarrow> string" where
  "DNSRouteOptions_String r = ''route-options('' @ strings_Join (dns_options_description r) '','' @ '')''"

definition Reject_String :: "reject_action \<Rightarrow> string" where
  "Reject_String r =
     (if rj_Method r = ''default'' then ''reject'' else ''reject('' @ rj_Method r @ '')'')"

definition Sniff_String :: "sniff_action \<Rightarrow> string" where
  "Sniff_String r =
     (if sn_SnifferNames r = [] \<and> sn_Timeout r = 0 then ''sniff''
      else if sn_SnifferNames r \<noteq> [] \<and> sn_Timeout r = 0 then
        ''sniff('' @ strings_Join (sn_SnifferNames r) '','' @ '')''
      else if sn_SnifferNames r = [] \<and> 0 < sn_Timeout r then
        ''sniff('' @ Duration_String (sn_Timeout r) @ '')''
      else ''sniff('' @ strings_Join (sn_SnifferNames r) '','' @ '','' @ Duration_String (sn_Timeout r) @ '')'')"

definition Resolve_String :: "resolve_action \<Rightarrow> string res" where
  "Resolve_String r =
     rbind (if rs_Strategy r \<noteq> 0
            then rbind (DomainStrategy_String (rs_Strategy r)) (\<lambda>s. Inr [s]) else Inr [])
       (\<lambda>strategy.
         let options =
           (if rs_Server r \<noteq> [] then [rs_Server r] else []) @ strategy @
           (if rs_DisableCache r then [''disable_cache''] else []) @
           (if rs_DisableOptimisticCache r then [''disable_optimistic_cache''] else []) @
           (case rs_RewriteTTL r of None \<Rightarrow> [] | Some t \<Rightarrow> [''rewrite_ttl='' @ dec_string (unat t)]) @
           (if 0 < rs_Timeout r then [''timeout='' @ Duration_String (rs_Timeout r)] else []) @
           (if prefix_IsValid (rs_ClientSubnet r)
            then [''client_subnet='' @ prefix_String (rs_ClientSubnet r)] else []) @
           (if rs_MatchOnly r then [''match_only''] else [])
         in Inr (if options = [] then ''resolve''
                 else ''resolve('' @ strings_Join options '','' @ '')''))"

definition Predefined_String :: "rule_env \<Rightarrow> predefined_action \<Rightarrow> string" where
  "Predefined_String E r =
     ''predefined('' @ strings_Join (dns_RcodeToString E (pd_Rcode r) # map (dns_RR_String E) (pd_Answer r) @
        map (dns_RR_String E) (pd_Ns r) @ map (dns_RR_String E) (pd_Extra r)) '','' @ '')''"

definition action_String :: "rule_env \<Rightarrow> action_env \<Rightarrow> rule_action \<Rightarrow> string res" where
  "action_String E A a =
     (case a of
        RuleActionRoute ob r \<Rightarrow> Inr (Route_String E A ob r)
      | RuleActionBypass ob r \<Rightarrow> Inr (Bypass_String E A ob r)
      | RuleActionRouteOptions r \<Rightarrow> Inr (RouteOptions_String E A r)
      | RuleActionDNSRoute server spec r \<Rightarrow> Inr (formatDNSRouteAction ''route'' server spec r)
      | RuleActionEvaluate server _ spec r \<Rightarrow> Inr (formatDNSRouteAction ''evaluate'' server spec r)
      | RuleActionRespond \<Rightarrow> Inr ''respond''
      | RuleActionDNSRouteOptions r \<Rightarrow> Inr (DNSRouteOptions_String r)
      | RuleActionDirect description \<Rightarrow> Inr (''direct'' @ description)
      | RuleActionReject r \<Rightarrow> Inr (Reject_String r)
      | RuleActionHijackDNS \<Rightarrow> Inr ''hijack-dns''
      | RuleActionSniff r \<Rightarrow> Inr (Sniff_String r)
      | RuleActionSniffOverrideDestination \<Rightarrow> Inr ''sniff-override-destination''
      | RuleActionResolve r \<Rightarrow> Resolve_String r
      | RuleActionPredefined r \<Rightarrow> Inr (Predefined_String E r))"

section \<open>Flood control of reject\<close>

text \<open>
  \<open>RuleActionReject.Error\<close> at time \<open>now\<close>. \<open>NoError\<close> is the nil error of \<open>reply\<close>; the two others are
  \<open>RejectedError\<close> with its cause.
\<close>

datatype reject_result = RejectedReset | RejectedDrop | NoError

definition dropWindow :: int where
  "dropWindow = 30 * 1000000000"

definition RuleActionReject_Error :: "int \<Rightarrow> reject_action \<Rightarrow> (reject_result \<times> reject_action) res" where
  "RuleActionReject_Error now r =
     (if rj_Method r = ''default'' then
        (if rj_NoDrop r then Inr (RejectedReset, r)
         else
           let counter = filter (\<lambda>t. now - t \<le> dropWindow) (rj_dropCounter r) @ [now];
               r' = r\<lparr>rj_dropCounter := counter\<rparr>
           in Inr (if 50 < length counter then RejectedDrop else RejectedReset, r'))
      else if rj_Method r = ''drop'' then Inr (RejectedDrop, r)
      else if rj_Method r = ''reply'' then Inr (NoError, r)
      else Inl (E_Panic (''unknown reject method: '' @ rj_Method r)))"

definition IsRejected :: "reject_result \<Rightarrow> bool" where
  "IsRejected e = (e \<noteq> NoError)"

text \<open>The results of a sequence of calls at the given times.\<close>

fun reject_calls :: "int list \<Rightarrow> reject_action \<Rightarrow> (reject_result list \<times> reject_action) res" where
  "reject_calls [] r = Inr ([], r)"
| "reject_calls (now # ts) r =
     rbind (RuleActionReject_Error now r) (\<lambda>(e, r'). rbind (reject_calls ts r') (\<lambda>(es, r''). Inr (e # es, r'')))"

section \<open>The predefined answer\<close>

definition rewrite_record :: "dns_question \<Rightarrow> dns_rr \<Rightarrow> dns_rr" where
  "rewrite_record question it =
     (if has_prefix (rh_Name (rr_Header it)) ''*'' then
        (if has_suffix (q_Name question) (drop 1 (rh_Name (rr_Header it)))
         then rr_with_Header ((rr_Header it)\<lparr>rh_Name := q_Name question\<rparr>) it else it)
      else it)"

definition rewriteRecords :: "dns_rr list \<Rightarrow> dns_question \<Rightarrow> dns_rr list" where
  "rewriteRecords records question = map (rewrite_record question) records"

definition RuleActionPredefined_Response :: "predefined_action \<Rightarrow> dns_msg \<Rightarrow> dns_msg res" where
  "RuleActionPredefined_Response r request =
     (case msg_Question request of
        [] \<Rightarrow> Inl (E_Panic ''index out of range'')
      | q # _ \<Rightarrow> Inr
          \<lparr>msg_Id = msg_Id request, msg_Response = True, msg_Authoritative = True,
           msg_RecursionDesired = True, msg_RecursionAvailable = True, msg_Rcode = pd_Rcode r,
           msg_Question = msg_Question request, msg_Answer = rewriteRecords (pd_Answer r) q,
           msg_Ns = rewriteRecords (pd_Ns r) q, msg_Extra = rewriteRecords (pd_Extra r) q\<rparr>)"

section \<open>Checking decoded options\<close>

text \<open>
  Each \<open>UnmarshalJSON\<close> first lets the JSON decoder fill the struct; \<open>decoded\<close> is the result of that.
\<close>

definition RejectActionOptions_UnmarshalJSON :: "reject_options res \<Rightarrow> reject_options res" where
  "RejectActionOptions_UnmarshalJSON decoded =
     rbind decoded (\<lambda>r.
       rbind (if rjo_Method r = [] \<or> rjo_Method r = ''default'' then Inr (r\<lparr>rjo_Method := ''default''\<rparr>)
              else if rjo_Method r = ''drop'' then Inr r
              else if rjo_Method r = ''reply'' then Inr r
              else Inl (E_New (''unknown reject method: '' @ rjo_Method r)))
         (\<lambda>r'. if rjo_Method r' = ''drop'' \<and> rjo_NoDrop r'
               then Inl (E_New ''no_drop is not available in current context'') else Inr r'))"

definition DNSRejectActionOptions_UnmarshalJSON :: "dns_reject_options res \<Rightarrow> dns_reject_options res" where
  "DNSRejectActionOptions_UnmarshalJSON decoded =
     rbind decoded (\<lambda>r.
       rbind (if djo_Method r = [] \<or> djo_Method r = ''default'' then Inr (r\<lparr>djo_Method := ''default''\<rparr>)
              else if djo_Method r = ''drop'' then Inr r
              else Inl (E_New (''unknown reject method: '' @ djo_Method r)))
         (\<lambda>r'. if djo_Method r' = ''drop'' \<and> djo_NoDrop r'
               then Inl (E_New ''no_drop is not available in current context'') else Inr r'))"

definition empty_raw_route_options :: raw_route_options where
  "empty_raw_route_options =
     \<lparr>rr_OverrideAddress = [], rr_OverridePort = 0, rr_NetworkStrategy = None, rr_FallbackDelay = 0,
      rr_UDPDisableDomainUnmapping = False, rr_UDPConnect = False, rr_UDPTimeout = 0,
      rr_TLSFragment = False, rr_TLSFragmentFallbackDelay = 0, rr_TLSRecordFragment = False,
      rr_TLSSpoof = [], rr_TLSSpoofMethod = []\<rparr>"

definition RouteOptionsActionOptions_UnmarshalJSON :: "raw_route_options res \<Rightarrow> raw_route_options res" where
  "RouteOptionsActionOptions_UnmarshalJSON decoded =
     rbind decoded (\<lambda>r.
       if r = empty_raw_route_options then Inl (E_New ''empty route option action'')
       else if rr_TLSFragment r \<and> rr_TLSRecordFragment r
       then Inl (E_New ''`tls_fragment` and `tls_record_fragment` are mutually exclusive'')
       else Inr r)"

text \<open>
  \<open>RuleAction.UnmarshalJSON\<close>: the tag decides which part is decoded next (\<open>excluded\<close>, told the
  part), an action without options must have no unknown fields (\<open>strict\<close>).
\<close>

datatype action_part = PartRoute | PartRouteOptions | PartDirect | PartBypass | PartReject | PartSniff | PartResolve

definition action_part_of :: "string \<Rightarrow> action_part option res" where
  "action_part_of action =
     (if action = ''route'' then Inr (Some PartRoute)
      else if action = ''route-options'' then Inr (Some PartRouteOptions)
      else if action = ''direct'' then Inr (Some PartDirect)
      else if action = ''bypass'' then Inr (Some PartBypass)
      else if action = ''reject'' then Inr (Some PartReject)
      else if action = ''hijack-dns'' then Inr None
      else if action = ''sniff'' then Inr (Some PartSniff)
      else if action = ''sniff-override-destination'' then Inr None
      else if action = ''resolve'' then Inr (Some PartResolve)
      else Inl (E_New (''unknown rule action: '' @ action)))"

definition RuleAction_UnmarshalJSON ::
  "rule_action_options res \<Rightarrow> error option \<Rightarrow> (action_part \<Rightarrow> rule_action_options \<Rightarrow> rule_action_options res) \<Rightarrow>
   rule_action_options res" where
  "RuleAction_UnmarshalJSON decoded strict excluded =
     rbind decoded (\<lambda>r.
       let r' = (if ra_Action r = [] then r\<lparr>ra_Action := ''route''\<rparr> else r) in
       rbind (action_part_of (ra_Action r')) (\<lambda>part.
         case part of
           None \<Rightarrow> (case strict of Some e \<Rightarrow> Inl e | None \<Rightarrow> Inr r')
         | Some p \<Rightarrow> excluded p r'))"

section \<open>Lemmas: options and constructors\<close>

lemma ParseMethod_String: "m \<le> 4 \<Longrightarrow> ParseMethod (Method_String m) = Inr m"
  by (auto simp: ParseMethod_def Method_String_def)

lemma ParseMethod_Inr: "ParseMethod s = Inr m \<Longrightarrow> m \<le> 4 \<and> (s \<noteq> [] \<longrightarrow> Method_String m = s)"
  by (auto simp: ParseMethod_def Method_String_def split: if_splits)

lemma RejectActionOptions_methods:
  assumes "RejectActionOptions_UnmarshalJSON d = Inr r"
  shows "rjo_Method r \<in> {''default'', ''drop'', ''reply''}" "rjo_Method r = ''drop'' \<Longrightarrow> \<not> rjo_NoDrop r"
  using assms by (auto simp: RejectActionOptions_UnmarshalJSON_def split: if_splits)

lemma RuleActionReject_Error_ok:
  "rj_Method r \<in> {''default'', ''drop'', ''reply''} \<Longrightarrow> is_ok (RuleActionReject_Error now r)"
  by (auto simp: RuleActionReject_Error_def Let_def)

lemma RuleActionReject_Error_frame [frame_simps]:
  assumes "RuleActionReject_Error now r = Inr (e, r')"
  shows "rj_Method r' = rj_Method r" "rj_NoDrop r' = rj_NoDrop r" "rj_Rcode r' = rj_Rcode r"
  using assms by (auto simp: RuleActionReject_Error_def Let_def split: if_splits)

text \<open>Which sniffers a name stands for.\<close>

definition stream_sniffers_of :: "string \<Rightarrow> stream_sniffer list" where
  "stream_sniffers_of name =
     (if name = ''tls'' then [TLSClientHello] else if name = ''http'' then [HTTPHost]
      else if name = ''dns'' then [StreamDomainNameQuery] else if name = ''bittorrent'' then [BitTorrent]
      else if name = ''ssh'' then [SSH] else if name = ''rdp'' then [RDP] else [])"

definition packet_sniffers_of :: "string \<Rightarrow> packet_sniffer list" where
  "packet_sniffers_of name =
     (if name = ''quic'' then [QUICClientHello] else if name = ''dns'' then [DomainNameQuery]
      else if name = ''stun'' then [STUNMessage] else if name = ''bittorrent'' then [UTP, UDPTracker]
      else if name = ''dtls'' then [DTLSRecord] else if name = ''ntp'' then [NTP] else [])"

definition known_sniffers :: "string list" where
  "known_sniffers =
     [''tls'', ''http'', ''quic'', ''dns'', ''stun'', ''bittorrent'', ''dtls'', ''ssh'', ''rdp'', ''ntp'']"

lemma sniffers_loop_known:
  "set names \<subseteq> set known_sniffers \<Longrightarrow>
   sniffers_loop names ss ps quic =
     Inr (ss @ concat (map stream_sniffers_of names), ps @ concat (map packet_sniffers_of names),
          quic \<or> ''quic'' \<in> set names)"
proof (induction names arbitrary: ss ps quic)
  case Nil
  then show ?case by simp
next
  case (Cons name names)
  then have "name \<in> set known_sniffers" and IH: "set names \<subseteq> set known_sniffers" by auto
  from this(1) show ?case
    unfolding known_sniffers_def
    by (auto simp: stream_sniffers_of_def packet_sniffers_of_def Cons.IH [OF IH])
qed

lemma sniffers_loop_unknown:
  "set names \<subseteq> set known_sniffers \<Longrightarrow> bad \<notin> set known_sniffers \<Longrightarrow>
   sniffers_loop (names @ bad # rest) ss ps quic = Inl (E_New (''unknown sniffer: '' @ bad))"
proof (induction names arbitrary: ss ps quic)
  case Nil
  then show ?case by (simp add: known_sniffers_def)
next
  case (Cons name names)
  then have "name \<in> set known_sniffers" and IH: "set names \<subseteq> set known_sniffers" by auto
  from this(1) show ?case
    unfolding known_sniffers_def by (auto simp: Cons.IH [OF IH Cons.prems(2)])
qed

lemma packet_sniffers_of_short: "QUICShortHeader \<notin> set (packet_sniffers_of name)"
  by (simp add: packet_sniffers_of_def)

section \<open>Lemmas: flood control\<close>

text \<open>
  The specification: a call is dropped when more than 50 calls, itself included, happened within
  the window ending now.
\<close>

definition flood_result :: "int list \<Rightarrow> int \<Rightarrow> reject_result" where
  "flood_result history now =
     (if 50 < length (filter (\<lambda>t. now - t \<le> dropWindow) (history @ [now])) then RejectedDrop
      else RejectedReset)"

fun flood_results :: "int list \<Rightarrow> int list \<Rightarrow> reject_result list" where
  "flood_results history [] = []"
| "flood_results history (t # ts) = flood_result history t # flood_results (history @ [t]) ts"

text \<open>The counter forgets only times that no later call can see.\<close>

definition counter_tracks :: "int \<Rightarrow> int list \<Rightarrow> int list \<Rightarrow> bool" where
  "counter_tracks from counter history \<longleftrightarrow>
     (\<forall>now\<ge>from. filter (\<lambda>t. now - t \<le> dropWindow) counter = filter (\<lambda>t. now - t \<le> dropWindow) history)"

lemma counter_tracks_step:
  assumes "counter_tracks from counter history" "from \<le> now"
  shows "counter_tracks now (filter (\<lambda>t. now - t \<le> dropWindow) counter @ [now]) (history @ [now])"
  unfolding counter_tracks_def
proof (intro allI impI)
  fix later assume "now \<le> later"
  then have "(\<lambda>t. later - t \<le> dropWindow \<and> now - t \<le> dropWindow) = (\<lambda>t. later - t \<le> dropWindow)"
    by auto
  moreover have "filter (\<lambda>t. later - t \<le> dropWindow) counter = filter (\<lambda>t. later - t \<le> dropWindow) history"
    using assms \<open>now \<le> later\<close> by (simp add: counter_tracks_def)
  ultimately show "filter (\<lambda>t. later - t \<le> dropWindow) (filter (\<lambda>t. now - t \<le> dropWindow) counter @ [now]) =
    filter (\<lambda>t. later - t \<le> dropWindow) (history @ [now])"
    by (simp add: conj_commute)
qed

lemma reject_calls_flood:
  assumes "rj_Method r = ''default''" "\<not> rj_NoDrop r" "counter_tracks from (rj_dropCounter r) history"
    "sorted (from # ts)"
  shows "\<exists>r'. reject_calls ts r = Inr (flood_results history ts, r')"
  using assms
proof (induction ts arbitrary: r history "from")
  case Nil
  then show ?case by simp
next
  case (Cons t ts)
  define counter where "counter = filter (\<lambda>u. t - u \<le> dropWindow) (rj_dropCounter r) @ [t]"
  have "from \<le> t" using Cons.prems by simp
  then have counter: "counter = filter (\<lambda>u. t - u \<le> dropWindow) (history @ [t])"
    using Cons.prems by (simp add: counter_def counter_tracks_def dropWindow_def)
  have "RuleActionReject_Error t r = Inr (flood_result history t, r\<lparr>rj_dropCounter := counter\<rparr>)"
    using Cons.prems counter
    by (simp add: RuleActionReject_Error_def flood_result_def counter_def [symmetric])
  moreover obtain r' where
    "reject_calls ts (r\<lparr>rj_dropCounter := counter\<rparr>) = Inr (flood_results (history @ [t]) ts, r')"
    using Cons.IH [of "r\<lparr>rj_dropCounter := counter\<rparr>" t "history @ [t]"] Cons.prems
      counter_tracks_step [OF Cons.prems(3) \<open>from \<le> t\<close>]
    by (auto simp: counter_def)
  ultimately show ?case by simp
qed

lemma flood_results_nth:
  "i < length ts \<Longrightarrow> flood_results history ts ! i = flood_result (history @ take i ts) (ts ! i)"
proof (induction ts arbitrary: history i)
  case (Cons t ts)
  then show ?case by (cases i) auto
qed simp

lemma length_flood_results [simp]: "length (flood_results history ts) = length ts"
  by (induction ts arbitrary: history) auto

section \<open>Lemmas: the predefined answer\<close>

lemma rr_Header_with [simp]: "rr_Header (rr_with_Header h r) = h"
  by (cases r) auto

lemma rr_with_Header_twice [simp]: "rr_with_Header h (rr_with_Header h' r) = rr_with_Header h r"
  by (cases r) auto

lemma rewrite_record_cases:
  "rewrite_record q r = r \<or> rewrite_record q r = rr_with_Header ((rr_Header r)\<lparr>rh_Name := q_Name q\<rparr>) r"
  by (simp add: rewrite_record_def)

lemma rewrite_record_idem: "rewrite_record q (rewrite_record q r) = rewrite_record q r"
  by (simp add: rewrite_record_def)

lemma rewriteRecords_idem: "rewriteRecords (rewriteRecords rs q) q = rewriteRecords rs q"
  by (simp add: rewriteRecords_def rewrite_record_idem)

lemma length_rewriteRecords [simp]: "length (rewriteRecords rs q) = length rs"
  by (simp add: rewriteRecords_def)

text \<open>A wildcard record that covers the question answers under the name asked for.\<close>

lemma rewrite_record_wildcard:
  "rh_Name (rr_Header r) = CHR ''*'' # suffix \<Longrightarrow> has_suffix (q_Name q) suffix \<Longrightarrow>
   rh_Name (rr_Header (rewrite_record q r)) = q_Name q"
  by (simp add: rewrite_record_def)

section \<open>Lemmas: decoded actions\<close>

definition is_panic :: "'a res \<Rightarrow> bool" where
  "is_panic r = (case r of Inl (E_Panic _) \<Rightarrow> True | _ \<Rightarrow> False)"

lemma is_panic_simps [simp]:
  "is_panic (Inl (E_Panic s))" "\<not> is_panic (Inr a)" "\<not> is_panic (Inl (E_New s))"
  by (simp_all add: is_panic_def)

lemma is_panic_rbind:
  "is_panic (rbind r f) \<longleftrightarrow> is_panic r \<or> (\<exists>a. r = Inr a \<and> is_panic (f a))"
  by (cases r) (auto simp: is_panic_def split: error.splits)

lemma ParseOptions_no_panic: "\<not> is_panic (ParseOptions supported s m)"
  by (auto simp: ParseOptions_def ParseMethod_def is_panic_rbind)

lemma newRuleActionRouteOptions_no_panic: "\<not> is_panic (newRuleActionRouteOptions A o')"
  by (auto simp: newRuleActionRouteOptions_def is_panic_rbind ParseOptions_no_panic split: prod.splits)

lemma sniffers_loop_no_panic: "\<not> is_panic (sniffers_loop names ss ps quic)"
  by (induction names arbitrary: ss ps quic) auto

lemma RuleActionSniff_build_no_panic: "\<not> is_panic (RuleActionSniff_build r)"
  by (auto simp: RuleActionSniff_build_def is_panic_rbind sniffers_loop_no_panic split: prod.splits)

lemma DomainStrategy_String_no_panic: "s \<le> 4 \<Longrightarrow> \<not> is_panic (DomainStrategy_String s)"
  by (auto simp: DomainStrategy_String_def)

lemma Direct_Descriptions_no_panic:
  "dl_DomainStrategy d \<le> 4 \<Longrightarrow> \<not> is_panic (Direct_Descriptions d)"
  using DomainStrategy_String_no_panic [of "dl_DomainStrategy d"]
  unfolding Direct_Descriptions_def is_panic_rbind by (simp add: is_panic_rbind)

lemma newDirectAction_no_panic:
  assumes "dl_DomainStrategy d \<le> 4" "\<And>e. dialer_New A d = Some e \<Longrightarrow> \<not> is_panic (Inl e :: rule_action res)"
  shows "\<not> is_panic (newDirectAction A d)"
  using assms Direct_Descriptions_no_panic [OF assms(1)]
  by (simp add: newDirectAction_def is_panic_rbind split: option.split)

lemmas no_panic = newRuleActionRouteOptions_no_panic RuleActionSniff_build_no_panic
  newDirectAction_no_panic

lemma action_part_of_known:
  "action_part_of a = Inr p \<Longrightarrow>
   a \<in> {''route'', ''route-options'', ''direct'', ''bypass'', ''reject'', ''hijack-dns'', ''sniff'',
        ''sniff-override-destination'', ''resolve''}"
  by (auto simp: action_part_of_def split: if_splits)

lemma NewRuleAction_known_no_panic:
  assumes "is_ok (action_part_of (ra_Action o'))" "\<not> is_panic (newDirectAction A (ra_DirectOptions o'))"
  shows "\<not> is_panic (NewRuleAction A o')"
  using assms
  by (auto simp: NewRuleAction_def action_part_of_def is_panic_rbind no_panic Let_def split: if_splits)

lemma RuleAction_UnmarshalJSON_known:
  assumes "RuleAction_UnmarshalJSON decoded strict excluded = Inr o'"
    "\<And>p r r'. excluded p r = Inr r' \<Longrightarrow> ra_Action r' = ra_Action r"
  shows "is_ok (action_part_of (ra_Action o'))"
proof -
  obtain r p where part: "action_part_of (ra_Action r) = Inr p"
    and o': "(case p of None \<Rightarrow> (case strict of Some e \<Rightarrow> Inl e | None \<Rightarrow> Inr r) | Some q \<Rightarrow> excluded q r) = Inr o'"
    using assms(1) by (auto simp: RuleAction_UnmarshalJSON_def Let_def simp del: if_split_asm)
  from o' have "ra_Action o' = ra_Action r"
    by (auto dest: assms(2) split: option.splits)
  with part show ?thesis by simp
qed

end
