(* ===== verification/Match_State.thy ===== *)
theory Match_State
  imports Rule_Item
begin

text \<open>
  \<open>route/rule/match_state.go\<close>: the bit set of address and port groups a rule requires and has
  satisfied, and the snapshot of the metadata the nested matches save and restore.
\<close>

section \<open>Groups\<close>

type_synonym ruleMatchState = "8 word"

definition ruleMatchSourceAddress :: ruleMatchState where "ruleMatchSourceAddress = 1"
definition ruleMatchSourcePort :: ruleMatchState where "ruleMatchSourcePort = 2"
definition ruleMatchDestinationAddress :: ruleMatchState where "ruleMatchDestinationAddress = 4"
definition ruleMatchDestinationPort :: ruleMatchState where "ruleMatchDestinationPort = 8"

definition state_has :: "ruleMatchState \<Rightarrow> ruleMatchState \<Rightarrow> bool" where
  "state_has s target = (s AND target \<noteq> 0)"

record ruleGroupMatch =
  required :: ruleMatchState
  satisfied :: ruleMatchState

definition empty_groups :: ruleGroupMatch where
  "empty_groups = \<lparr>required = 0, satisfied = 0\<rparr>"

definition groups_done :: "ruleGroupMatch \<Rightarrow> bool" where
  "groups_done g = (required g AND NOT (satisfied g) = 0)"

definition mergeWith :: "ruleGroupMatch \<Rightarrow> ruleGroupMatch \<Rightarrow> ruleGroupMatch" where
  "mergeWith g other =
     \<lparr>required = required g OR required other, satisfied = satisfied g OR satisfied other\<rparr>"

definition require :: "ruleMatchState \<Rightarrow> ruleGroupMatch \<Rightarrow> ruleGroupMatch" where
  "require s g = g\<lparr>required := required g OR s\<rparr>"

definition satisfy :: "ruleMatchState \<Rightarrow> ruleGroupMatch \<Rightarrow> ruleGroupMatch" where
  "satisfy s g = g\<lparr>satisfied := satisfied g OR s\<rparr>"

text \<open>
  One block of \<open>evaluateGroups\<close>: when the rule has items for the group, the group is required,
  and satisfied if the test succeeds.
\<close>

definition evaluateGroup ::
  "ruleMatchState \<Rightarrow> bool \<Rightarrow> (ruleGroupMatch \<Rightarrow> bool) \<Rightarrow> ruleGroupMatch \<Rightarrow> ruleGroupMatch" where
  "evaluateGroup s has_items test g =
     (if has_items then
        (let g' = require s g in if test g' then satisfy s g' else g')
      else g)"

section \<open>Snapshots\<close>

record ruleMatchSnapshot =
  snap_ipCidrMatchSource :: bool
  snap_ipCidrAcceptEmpty :: bool
  snap_deferredIPCIDRMatchGroups :: "8 word"

definition snapshotRuleMatch :: "inbound_context \<Rightarrow> ruleMatchSnapshot" where
  "snapshotRuleMatch m =
     \<lparr>snap_ipCidrMatchSource = m_IPCIDRMatchSource m,
      snap_ipCidrAcceptEmpty = m_IPCIDRAcceptEmpty m,
      snap_deferredIPCIDRMatchGroups = m_DeferredIPCIDRMatchGroups m\<rparr>"

definition restore :: "ruleMatchSnapshot \<Rightarrow> inbound_context \<Rightarrow> inbound_context" where
  "restore s m =
     m\<lparr>m_IPCIDRMatchSource := snap_ipCidrMatchSource s,
       m_IPCIDRAcceptEmpty := snap_ipCidrAcceptEmpty s,
       m_DeferredIPCIDRMatchGroups := snap_deferredIPCIDRMatchGroups s\<rparr>"

section \<open>The four groups as truth values\<close>

definition gmask :: "bool \<Rightarrow> bool \<Rightarrow> bool \<Rightarrow> bool \<Rightarrow> ruleMatchState" where
  "gmask a b c d =
     (if a then 1 else 0) OR (if b then 2 else 0) OR (if c then 4 else 0) OR (if d then 8 else 0)"

lemma gmask_zero [simp]: "gmask a b c d = 0 \<longleftrightarrow> \<not> a \<and> \<not> b \<and> \<not> c \<and> \<not> d"
  by (auto simp: gmask_def)

lemma gmask_or [simp]:
  "gmask a b c d OR gmask a' b' c' d' = gmask (a \<or> a') (b \<or> b') (c \<or> c') (d \<or> d')"
  by (cases a; cases b; cases c; cases d; cases a'; cases b'; cases c'; cases d') (simp_all add: gmask_def)

lemma gmask_diff [simp]:
  "gmask a b c d AND NOT (gmask a' b' c' d') = gmask (a \<and> \<not> a') (b \<and> \<not> b') (c \<and> \<not> c') (d \<and> \<not> d')"
  by (cases a; cases b; cases c; cases d; cases a'; cases b'; cases c'; cases d') (simp_all add: gmask_def)

lemma gmask_bits:
  "ruleMatchSourceAddress = gmask True False False False"
  "ruleMatchSourcePort = gmask False True False False"
  "ruleMatchDestinationAddress = gmask False False True False"
  "ruleMatchDestinationPort = gmask False False False True"
  "0 = gmask False False False False"
  by (simp_all add: gmask_def ruleMatchSourceAddress_def ruleMatchSourcePort_def
      ruleMatchDestinationAddress_def ruleMatchDestinationPort_def)

lemma gmask_and [simp]:
  "gmask a b c d AND gmask a' b' c' d' = gmask (a \<and> a') (b \<and> b') (c \<and> c') (d \<and> d')"
  by (cases a; cases b; cases c; cases d; cases a'; cases b'; cases c'; cases d') (simp_all add: gmask_def)

lemma gmask_inject [simp]:
  "gmask a b c d = gmask a' b' c' d' \<longleftrightarrow> a = a' \<and> b = b' \<and> c = c' \<and> d = d'"
  by (cases a; cases b; cases c; cases d; cases a'; cases b'; cases c'; cases d') (simp_all add: gmask_def)

lemma evaluateGroup_fields:
  "evaluateGroup s c t g =
     \<lparr>required = required g OR (if c then s else 0),
      satisfied = satisfied g OR (if c \<and> t (require s g) then s else 0)\<rparr>"
  by (cases g) (simp add: evaluateGroup_def require_def satisfy_def Let_def)

lemma if_gmask:
  "(if c then ruleMatchSourceAddress else 0) = gmask c False False False"
  "(if c then ruleMatchSourcePort else 0) = gmask False c False False"
  "(if c then ruleMatchDestinationAddress else 0) = gmask False False c False"
  "(if c then ruleMatchDestinationPort else 0) = gmask False False False c"
  by (simp_all add: gmask_bits)

lemma satisfied_require [simp]: "satisfied (require s g) = satisfied g"
  by (simp add: require_def)

text \<open>Merging never loses a satisfied group, and a merge of finished groups is finished.\<close>

lemma mergeWith_done:
  assumes "groups_done g" and "groups_done h"
  shows "groups_done (mergeWith g h)"
proof -
  have "\<not> bit (required g) n \<or> bit (satisfied g) n" "\<not> bit (required h) n \<or> bit (satisfied h) n"
    if "n < 8" for n
    using assms that bit_0_eq
    by (auto simp: groups_done_def bit_eq_iff bit_and_iff bit_not_iff)
  then show ?thesis
    by (auto simp: groups_done_def mergeWith_def bit_and_iff bit_or_iff bit_not_iff
        intro!: bit_eqI)
qed

end
