(* ===== verification/Rule_Match.thy ===== *)
theory Rule_Match
  imports Match_State
begin

text \<open>
  Rule evaluation: \<open>route/rule/rule_abstract.go\<close>, \<open>route/rule/rule_item_rule_set.go\<close>, the matching
  part of \<open>route/rule/rule_set_abstract.go\<close> and the matching methods of the DNS rules in
  \<open>route/rule/rule_dns.go\<close>. Every \<open>Match\<close> gets the metadata by reference, so it is a function from
  the metadata to the answer and the metadata after the call. A method that calls others through
  the \<open>HeadlessRule\<close> or \<open>RuleSet\<close> interface takes their \<open>Match\<close> functions as arguments;
  \<open>hrule_Match\<close> ties the knot over the rule tree.
\<close>

section \<open>Rules\<close>

datatype logical_mode = LogicalTypeAnd | LogicalTypeOr

record rule_set_metadata =
  ContainsProcessRule :: bool
  ContainsWIFIRule :: bool
  ContainsIPCIDRRule :: bool
  ContainsDNSQueryTypeRule :: bool
  ContainsNonIPCIDRRule :: bool

text \<open>
  \<open>allItems\<close> lists the items of all groups in the order they were added; \<open>SetItemRef\<close> is the
  place of the rule's \<open>ruleSetItem\<close>.
\<close>

datatype any_item = PlainItem rule_item | SetItemRef

datatype (plugins only: code size) hrule =
    DefaultHeadlessRule drule
  | DefaultRule drule
  | DefaultDNSRule drule bool string
  | LogicalRule "hrule list" logical_mode bool "64 word"
and drule =
    DRule (items: "rule_item list") (sourceAddressItems: "rule_item list")
      (sourcePortItems: "rule_item list") (destinationAddressItems: "rule_item list")
      (destinationIPCIDRItems: "rule_item list") (destinationPortItems: "rule_item list")
      (allItems: "any_item list") (ruleSetItem: "rule_set_item option")
      (ruleCount: "64 word") (invert: bool)
and rule_set_item =
    RuleSetItem (tagList: "string list") (setList: "rule_set list") (ipCidrMatchSource: bool)
      (ipCidrAcceptEmpty: bool)
and rule_set =
    RuleSet (set_tag: string) (set_rules: "hrule list") (set_Metadata: rule_set_metadata)

type_synonym matcher = "inbound_context \<Rightarrow> bool \<times> inbound_context"

section \<open>Default rules\<close>

definition matchAnyItem :: "rule_env \<Rightarrow> rule_item list \<Rightarrow> inbound_context \<Rightarrow> bool" where
  "matchAnyItem E its m = list_ex (\<lambda>it. RuleItem_Match E it m) its"

text \<open>The loop over \<open>items\<close>, every one of which has to match.\<close>

definition matchItems :: "rule_env \<Rightarrow> rule_item list \<Rightarrow> inbound_context \<Rightarrow> bool" where
  "matchItems E its m = list_all (\<lambda>it. RuleItem_Match E it m) its"

definition destinationIPCIDRMatchesSource :: "drule \<Rightarrow> inbound_context \<Rightarrow> bool" where
  "destinationIPCIDRMatchesSource r m = (m_IPCIDRMatchSource m \<and> destinationIPCIDRItems r \<noteq> [])"

definition destinationIPCIDRMatchesDestination :: "drule \<Rightarrow> inbound_context \<Rightarrow> bool" where
  "destinationIPCIDRMatchesDestination r m =
     (\<not> m_IgnoreDestinationIPCIDRMatch m \<and> \<not> m_IPCIDRMatchSource m \<and> destinationIPCIDRItems r \<noteq> [])"

definition evaluateGroups ::
  "rule_env \<Rightarrow> drule \<Rightarrow> inbound_context \<Rightarrow> ruleGroupMatch \<times> inbound_context" where
  "evaluateGroups E r m =
     (let g1 = evaluateGroup ruleMatchSourceAddress (sourceAddressItems r \<noteq> [])
                 (\<lambda>_. matchAnyItem E (sourceAddressItems r) m) empty_groups;
          g2 = evaluateGroup ruleMatchSourceAddress (destinationIPCIDRMatchesSource r m)
                 (\<lambda>g. \<not> state_has (satisfied g) ruleMatchSourceAddress \<and>
                      matchAnyItem E (destinationIPCIDRItems r) m) g1;
          g3 = evaluateGroup ruleMatchSourcePort (sourcePortItems r \<noteq> [])
                 (\<lambda>_. matchAnyItem E (sourcePortItems r) m) g2;
          g4 = evaluateGroup ruleMatchDestinationAddress (destinationAddressItems r \<noteq> [])
                 (\<lambda>_. matchAnyItem E (destinationAddressItems r) m) g3;
          g5 = evaluateGroup ruleMatchDestinationAddress (destinationIPCIDRMatchesDestination r m)
                 (\<lambda>g. \<not> state_has (satisfied g) ruleMatchDestinationAddress \<and>
                      matchAnyItem E (destinationIPCIDRItems r) m) g4;
          g6 = evaluateGroup ruleMatchDestinationPort (destinationPortItems r \<noteq> [])
                 (\<lambda>_. matchAnyItem E (destinationPortItems r) m) g5;
          m' = (if m_IgnoreDestinationIPCIDRMatch m \<and> \<not> m_IPCIDRMatchSource m \<and>
                   destinationIPCIDRItems r \<noteq> [] \<and> destinationAddressItems r = []
                then m\<lparr>m_DeferredIPCIDRMatchGroups :=
                         m_DeferredIPCIDRMatchGroups m OR ruleMatchDestinationAddress\<rparr>
                else m)
      in (g6, m'))"

definition evaluateForMerge ::
  "rule_env \<Rightarrow> drule \<Rightarrow> inbound_context \<Rightarrow> (ruleGroupMatch \<times> bool) \<times> inbound_context" where
  "evaluateForMerge E r m =
     (let (groups, m') = evaluateGroups E r m in
      if \<not> matchItems E (items r) m' then ((empty_groups, False), m') else ((groups, True), m'))"

section \<open>Rule-sets in a rule\<close>

definition prepareNestedMatch :: "rule_set_item \<Rightarrow> inbound_context \<Rightarrow> inbound_context" where
  "prepareNestedMatch s m =
     (ResetRuleMatchCache m)\<lparr>m_IPCIDRMatchSource := ipCidrMatchSource s,
                             m_IPCIDRAcceptEmpty := ipCidrAcceptEmpty s\<rparr>"

definition mergeableRuleIn :: "hrule list \<Rightarrow> drule option" where
  "mergeableRuleIn rules =
     (case rules of
        [DefaultHeadlessRule r] \<Rightarrow> if invert r \<or> ruleSetItem r \<noteq> None then None else Some r
      | _ \<Rightarrow> None)"

text \<open>
  A rule-set as the rule-set item sees it: its \<open>mergeableRule\<close> and its \<open>Match\<close>. The loops take
  the values of the local variables \<open>matched\<close> and \<open>deferredGroups\<close> as arguments.
\<close>

type_synonym set_view = "drule option \<times> matcher"

fun matchAnyHeadlessRule_loop ::
  "matcher list \<Rightarrow> ruleMatchSnapshot \<Rightarrow> bool \<Rightarrow> 8 word \<Rightarrow> matcher" where
  "matchAnyHeadlessRule_loop [] snap matched deferred m =
     (let m' = restore snap m in
      (matched, if matched
                then m'\<lparr>m_DeferredIPCIDRMatchGroups := m_DeferredIPCIDRMatchGroups m' OR deferred\<rparr>
                else m'))"
| "matchAnyHeadlessRule_loop (f # fs) snap matched deferred m =
     (let (b, m') = f (ResetRuleMatchCache m) in
      if b then
        (if m_DeferredIPCIDRMatchGroups m' = 0 then (True, restore snap m')
         else matchAnyHeadlessRule_loop fs snap True (deferred OR m_DeferredIPCIDRMatchGroups m') m')
      else matchAnyHeadlessRule_loop fs snap matched deferred m')"

definition matchAnyHeadlessRule :: "matcher list \<Rightarrow> matcher" where
  "matchAnyHeadlessRule fs m = matchAnyHeadlessRule_loop fs (snapshotRuleMatch m) False 0 m"

fun matchWithOuterGroups_loop ::
  "rule_env \<Rightarrow> rule_set_item \<Rightarrow> ruleGroupMatch \<Rightarrow> set_view list \<Rightarrow> ruleMatchSnapshot \<Rightarrow>
   bool \<Rightarrow> 8 word \<Rightarrow> matcher" where
  "matchWithOuterGroups_loop E s outer [] snap matched deferred m =
     (let m' = restore snap m in
      (matched, if matched
                then m'\<lparr>m_DeferredIPCIDRMatchGroups := m_DeferredIPCIDRMatchGroups m' OR deferred\<rparr>
                else m'))"
| "matchWithOuterGroups_loop E s outer ((branch, f) # vs) snap matched deferred m =
     (let m1 = prepareNestedMatch s m in
      case branch of
        Some r \<Rightarrow>
          (let ((branchGroups, branchMatched), m2) = evaluateForMerge E r m1 in
           if branchMatched then
             (let merged = mergeWith outer branchGroups in
              if groups_done merged then
                (let branchDeferred = m_DeferredIPCIDRMatchGroups m2 AND NOT (satisfied merged) in
                 if branchDeferred = 0 then
                   (let m3 = restore snap m2 in
                    (True, m3\<lparr>m_DeferredIPCIDRMatchGroups :=
                                m_DeferredIPCIDRMatchGroups m3 AND NOT (satisfied merged)\<rparr>))
                 else matchWithOuterGroups_loop E s outer vs snap True (deferred OR branchDeferred) m2)
              else matchWithOuterGroups_loop E s outer vs snap matched deferred m2)
           else matchWithOuterGroups_loop E s outer vs snap matched deferred m2)
      | None \<Rightarrow>
          if groups_done outer then
            (let (b, m2) = f m1 in
             if b then
               (if m_DeferredIPCIDRMatchGroups m2 = 0 then (True, restore snap m2)
                else matchWithOuterGroups_loop E s outer vs snap True
                       (deferred OR m_DeferredIPCIDRMatchGroups m2) m2)
             else matchWithOuterGroups_loop E s outer vs snap matched deferred m2)
          else matchWithOuterGroups_loop E s outer vs snap matched deferred m1)"

definition matchWithOuterGroups ::
  "rule_env \<Rightarrow> rule_set_item \<Rightarrow> set_view list \<Rightarrow> ruleGroupMatch \<Rightarrow> matcher" where
  "matchWithOuterGroups E s vs outer m =
     matchWithOuterGroups_loop E s outer vs (snapshotRuleMatch m) False 0 m"

fun RuleSetItem_Match_loop :: "rule_set_item \<Rightarrow> matcher list \<Rightarrow> ruleMatchSnapshot \<Rightarrow> matcher" where
  "RuleSetItem_Match_loop s [] snap m = (False, restore snap m)"
| "RuleSetItem_Match_loop s (f # fs) snap m =
     (let (b, m') = f (prepareNestedMatch s m) in
      if b then (True, restore snap m') else RuleSetItem_Match_loop s fs snap m')"

definition RuleSetItem_Match :: "rule_set_item \<Rightarrow> matcher list \<Rightarrow> matcher" where
  "RuleSetItem_Match s fs m = RuleSetItem_Match_loop s fs (snapshotRuleMatch m) m"

definition matchInner :: "rule_env \<Rightarrow> drule \<Rightarrow> set_view list \<Rightarrow> matcher" where
  "matchInner E r vs m =
     (let (groups, m1) = evaluateGroups E r m in
      if \<not> matchItems E (items r) m1 then (False, m1)
      else let (matched, m2) =
                 (case ruleSetItem r of
                    Some s \<Rightarrow> matchWithOuterGroups E s vs groups m1
                  | None \<Rightarrow> (groups_done groups, m1)) in
           (matched, if matched
                     then m2\<lparr>m_DeferredIPCIDRMatchGroups :=
                               m_DeferredIPCIDRMatchGroups m2 AND NOT (satisfied groups)\<rparr>
                     else m2))"

definition abstractDefaultRule_Match :: "rule_env \<Rightarrow> drule \<Rightarrow> set_view list \<Rightarrow> matcher" where
  "abstractDefaultRule_Match E r vs m =
     (if allItems r = [] then (True, m)
      else let (matched, m') = matchInner E r vs m in
           if invert r then
             (if \<not> matched then (True, m'\<lparr>m_DeferredIPCIDRMatchGroups := 0\<rparr>)
              else (m_DeferredIPCIDRMatchGroups m' \<noteq> 0, m'))
           else (matched, m'))"

section \<open>Logical rules\<close>

text \<open>The two loops answer \<open>matched\<close>, \<open>deferredGroups\<close> and the metadata.\<close>

fun logical_and_loop :: "matcher list \<Rightarrow> 8 word \<Rightarrow> inbound_context \<Rightarrow> bool \<times> 8 word \<times> inbound_context" where
  "logical_and_loop [] deferred m = (True, deferred, m)"
| "logical_and_loop (f # fs) deferred m =
     (let (b, m') = f (ResetRuleCache m) in
      if \<not> b then (False, 0, m')
      else logical_and_loop fs (deferred OR m_DeferredIPCIDRMatchGroups m') m')"

fun logical_or_loop ::
  "matcher list \<Rightarrow> bool \<Rightarrow> 8 word \<Rightarrow> inbound_context \<Rightarrow> bool \<times> 8 word \<times> inbound_context" where
  "logical_or_loop [] matched deferred m = (matched, deferred, m)"
| "logical_or_loop (f # fs) matched deferred m =
     (let (b, m') = f (ResetRuleCache m) in
      if b then
        (if m_DeferredIPCIDRMatchGroups m' = 0 then (True, 0, m')
         else logical_or_loop fs True (deferred OR m_DeferredIPCIDRMatchGroups m') m')
      else logical_or_loop fs matched deferred m')"

definition abstractLogicalRule_Match :: "matcher list \<Rightarrow> logical_mode \<Rightarrow> bool \<Rightarrow> matcher" where
  "abstractLogicalRule_Match fs mode neg m =
     (let snap = snapshotRuleMatch m;
          (matched, deferred, m1) =
            (case mode of
               LogicalTypeAnd \<Rightarrow> logical_and_loop fs 0 m
             | LogicalTypeOr \<Rightarrow> logical_or_loop fs False 0 m);
          m2 = restore snap m1;
          m3 = (if matched
                then m2\<lparr>m_DeferredIPCIDRMatchGroups := m_DeferredIPCIDRMatchGroups m2 OR deferred\<rparr>
                else m2)
      in (if neg then (if \<not> matched then True else deferred \<noteq> 0) else matched, m3))"

section \<open>DNS rules\<close>

text \<open>\<open>DefaultDNSRule.matchForMatch\<close>: a \<open>match_response\<close> rule works on a copy of the metadata.\<close>

definition matchForMatch :: "matcher \<Rightarrow> bool \<Rightarrow> bool \<Rightarrow> string \<Rightarrow> matcher" where
  "matchForMatch f neg matchResponse matchResponseTag m =
     (if matchResponse then
        (let response = (if matchResponseTag \<noteq> [] then map_of (m_NamedDNSResponses m) matchResponseTag
                         else m_DNSResponse m) in
         case response of
           None \<Rightarrow> (neg, m)
         | Some _ \<Rightarrow>
             (fst (f (m\<lparr>m_DNSResponse := response,
                        m_DestinationAddressMatchFromResponse := True\<rparr>)), m))
      else f m)"

section \<open>The rule tree\<close>

fun hrule_Match :: "rule_env \<Rightarrow> hrule \<Rightarrow> matcher"
  and drule_Match :: "rule_env \<Rightarrow> drule \<Rightarrow> matcher"
  and set_view :: "rule_env \<Rightarrow> rule_set \<Rightarrow> set_view"
where
  "hrule_Match E (DefaultHeadlessRule r) = drule_Match E r"
| "hrule_Match E (DefaultRule r) = drule_Match E r"
| "hrule_Match E (DefaultDNSRule r matchResponse tag) =
     matchForMatch (drule_Match E r) (invert r) matchResponse tag"
| "hrule_Match E (LogicalRule rules mode neg n) =
     abstractLogicalRule_Match (map (\<lambda>r. hrule_Match E r) rules) mode neg"
| "drule_Match E (DRule its sa sp da dc dp al None n neg) =
     abstractDefaultRule_Match E (DRule its sa sp da dc dp al None n neg) []"
| "drule_Match E (DRule its sa sp da dc dp al (Some (RuleSetItem ts sl src acc)) n neg) =
     abstractDefaultRule_Match E (DRule its sa sp da dc dp al (Some (RuleSetItem ts sl src acc)) n neg)
       (map (\<lambda>s. set_view E s) sl)"
| "set_view E (RuleSet tag rules md) =
     (mergeableRuleIn rules, matchAnyHeadlessRule (map (\<lambda>r. hrule_Match E r) rules))"

end
