(* ===== verification/Rule_Semantics.thy ===== *)
theory Rule_Semantics
  imports Rule_Match
begin

text \<open>
  What the rule engine computes. \<open>hrule_sem\<close> gives a rule its truth value without bit sets,
  snapshots, early returns or changes of the metadata; \<open>exact\<close> says that a \<open>Match\<close> function
  computes such a truth value and leaves the metadata as it was. The engine is exact on every
  rule tree (\<open>hrule_exact\<close>), one lemma per method.
\<close>

section \<open>Declarative semantics\<close>

datatype group = SourceAddress | SourcePort | DestinationAddress | DestinationPort

definition all_groups :: "group list" where
  "all_groups = [SourceAddress, SourcePort, DestinationAddress, DestinationPort]"

text \<open>The destination IP-CIDR items count for the source group under \<open>ip_cidr_match_source\<close>.\<close>

fun group_items :: "group \<Rightarrow> drule \<Rightarrow> inbound_context \<Rightarrow> rule_item list" where
  "group_items SourceAddress r m =
     sourceAddressItems r @ (if m_IPCIDRMatchSource m then destinationIPCIDRItems r else [])"
| "group_items SourcePort r m = sourcePortItems r"
| "group_items DestinationAddress r m =
     destinationAddressItems r @
     (if m_IgnoreDestinationIPCIDRMatch m \<or> m_IPCIDRMatchSource m then [] else destinationIPCIDRItems r)"
| "group_items DestinationPort r m = destinationPortItems r"

text \<open>A rule merged with others satisfies a group when any item of any of them matches.\<close>

definition groups_hold :: "rule_env \<Rightarrow> (drule \<times> inbound_context) list \<Rightarrow> bool" where
  "groups_hold E ps =
     list_all (\<lambda>g. list_ex (\<lambda>(r, m). group_items g r m \<noteq> []) ps \<longrightarrow>
                   list_ex (\<lambda>(r, m). matchAnyItem E (group_items g r m) m) ps) all_groups"

type_synonym set_sem = "drule option \<times> (inbound_context \<Rightarrow> bool)"

text \<open>A rule-set of one plain default rule is merged with the rule that uses it.\<close>

definition set_item_sem ::
  "rule_env \<Rightarrow> drule \<Rightarrow> rule_set_item \<Rightarrow> set_sem list \<Rightarrow> inbound_context \<Rightarrow> bool" where
  "set_item_sem E r s Ps m =
     list_ex (\<lambda>(branch, P).
        let m' = prepareNestedMatch s m in
        case branch of
          Some b \<Rightarrow> matchItems E (items b) m' \<and> groups_hold E [(r, m), (b, m')]
        | None \<Rightarrow> groups_hold E [(r, m)] \<and> P m') Ps"

definition default_sem :: "rule_env \<Rightarrow> drule \<Rightarrow> set_sem list \<Rightarrow> inbound_context \<Rightarrow> bool" where
  "default_sem E r Ps m \<longleftrightarrow>
     allItems r = [] \<or>
     (matchItems E (items r) m \<and>
      (case ruleSetItem r of None \<Rightarrow> groups_hold E [(r, m)] | Some s \<Rightarrow> set_item_sem E r s Ps m))
     \<noteq> invert r"

definition logical_sem :: "(inbound_context \<Rightarrow> bool) list \<Rightarrow> logical_mode \<Rightarrow> bool \<Rightarrow> inbound_context \<Rightarrow> bool" where
  "logical_sem Ps mode neg m \<longleftrightarrow>
     (case mode of
        LogicalTypeAnd \<Rightarrow> list_all (\<lambda>P. P (ResetRuleCache m)) Ps
      | LogicalTypeOr \<Rightarrow> list_ex (\<lambda>P. P (ResetRuleCache m)) Ps) \<noteq> neg"

definition response_sem ::
  "(inbound_context \<Rightarrow> bool) \<Rightarrow> bool \<Rightarrow> bool \<Rightarrow> string \<Rightarrow> inbound_context \<Rightarrow> bool" where
  "response_sem P neg matchResponse tag m \<longleftrightarrow>
     (if matchResponse then
        (case (if tag \<noteq> [] then map_of (m_NamedDNSResponses m) tag else m_DNSResponse m) of
           None \<Rightarrow> neg
         | Some r \<Rightarrow> P (m\<lparr>m_DNSResponse := Some r, m_DestinationAddressMatchFromResponse := True\<rparr>))
      else P m)"

fun hrule_sem :: "rule_env \<Rightarrow> hrule \<Rightarrow> inbound_context \<Rightarrow> bool"
  and drule_sem :: "rule_env \<Rightarrow> drule \<Rightarrow> inbound_context \<Rightarrow> bool"
  and rule_set_sem :: "rule_env \<Rightarrow> rule_set \<Rightarrow> set_sem"
where
  "hrule_sem E (DefaultHeadlessRule r) = drule_sem E r"
| "hrule_sem E (DefaultRule r) = drule_sem E r"
| "hrule_sem E (DefaultDNSRule r matchResponse tag) =
     response_sem (drule_sem E r) (invert r) matchResponse tag"
| "hrule_sem E (LogicalRule rules mode neg n) =
     logical_sem (map (\<lambda>r. hrule_sem E r) rules) mode neg"
| "drule_sem E (DRule its sa sp da dc dp al None n neg) =
     default_sem E (DRule its sa sp da dc dp al None n neg) []"
| "drule_sem E (DRule its sa sp da dc dp al (Some (RuleSetItem ts sl src acc)) n neg) =
     default_sem E (DRule its sa sp da dc dp al (Some (RuleSetItem ts sl src acc)) n neg)
       (map (\<lambda>s. rule_set_sem E s) sl)"
| "rule_set_sem E (RuleSet tag rules md) =
     (mergeableRuleIn rules, \<lambda>m. list_ex (\<lambda>r. hrule_sem E r m) rules)"

section \<open>Group evaluation\<close>

definition defers :: "drule \<Rightarrow> inbound_context \<Rightarrow> bool" where
  "defers r m = (m_IgnoreDestinationIPCIDRMatch m \<and> \<not> m_IPCIDRMatchSource m \<and>
     destinationIPCIDRItems r \<noteq> [] \<and> destinationAddressItems r = [])"

abbreviation needs :: "group \<Rightarrow> drule \<Rightarrow> inbound_context \<Rightarrow> bool" where
  "needs g r m \<equiv> group_items g r m \<noteq> []"

abbreviation meets :: "rule_env \<Rightarrow> group \<Rightarrow> drule \<Rightarrow> inbound_context \<Rightarrow> bool" where
  "meets E g r m \<equiv> matchAnyItem E (group_items g r m) m"

definition group_mask :: "(group \<Rightarrow> bool) \<Rightarrow> ruleMatchState" where
  "group_mask P = gmask (P SourceAddress) (P SourcePort) (P DestinationAddress) (P DestinationPort)"

lemma matchAnyItem_simps [simp]:
  "matchAnyItem E [] m = False"
  "matchAnyItem E (xs @ ys) m = (matchAnyItem E xs m \<or> matchAnyItem E ys m)"
  by (auto simp: matchAnyItem_def)

lemma fst_evaluateGroups:
  "fst (evaluateGroups E r m) =
     \<lparr>required = group_mask (\<lambda>g. needs g r m), satisfied = group_mask (\<lambda>g. meets E g r m)\<rparr>"
proof -
  let ?any = "\<lambda>its. matchAnyItem E its m"
  let ?src = "destinationIPCIDRMatchesSource r m" and ?dst = "destinationIPCIDRMatchesDestination r m"
  have "fst (evaluateGroups E r m) =
     \<lparr>required = gmask (sourceAddressItems r \<noteq> [] \<or> ?src) (sourcePortItems r \<noteq> [])
        (destinationAddressItems r \<noteq> [] \<or> ?dst) (destinationPortItems r \<noteq> []),
      satisfied =
        gmask (sourceAddressItems r \<noteq> [] \<and> ?any (sourceAddressItems r) \<or> ?src \<and> ?any (destinationIPCIDRItems r))
          (sourcePortItems r \<noteq> [] \<and> ?any (sourcePortItems r))
          (destinationAddressItems r \<noteq> [] \<and> ?any (destinationAddressItems r) \<or>
           ?dst \<and> ?any (destinationIPCIDRItems r))
          (destinationPortItems r \<noteq> [] \<and> ?any (destinationPortItems r))\<rparr>"
    by (simp add: evaluateGroups_def Let_def evaluateGroup_fields if_gmask empty_groups_def
        gmask_bits state_has_def)
  then show ?thesis
    by (auto simp: group_mask_def destinationIPCIDRMatchesSource_def
        destinationIPCIDRMatchesDestination_def)
qed

lemma snd_evaluateGroups:
  "snd (evaluateGroups E r m) =
     (if defers r m
      then m\<lparr>m_DeferredIPCIDRMatchGroups := m_DeferredIPCIDRMatchGroups m OR ruleMatchDestinationAddress\<rparr>
      else m)"
  by (simp add: evaluateGroups_def Let_def defers_def)

lemma groups_done_mask:
  "groups_done \<lparr>required = group_mask P, satisfied = group_mask Q\<rparr> \<longleftrightarrow> (\<forall>g. P g \<longrightarrow> Q g)"
proof
  assume a: "groups_done \<lparr>required = group_mask P, satisfied = group_mask Q\<rparr>"
  show "\<forall>g. P g \<longrightarrow> Q g"
  proof
    fix g
    show "P g \<longrightarrow> Q g"
      using a by (cases g) (auto simp: groups_done_def group_mask_def)
  qed
qed (auto simp: groups_done_def group_mask_def)

lemma all_groups_iff: "list_all P all_groups \<longleftrightarrow> (\<forall>g. P g)"
proof
  assume a: "list_all P all_groups"
  show "\<forall>g. P g"
  proof
    fix g
    show "P g" using a by (cases g) (auto simp: all_groups_def)
  qed
qed (simp add: all_groups_def)

lemma groups_done_own: "groups_done (fst (evaluateGroups E r m)) = groups_hold E [(r, m)]"
  by (simp add: fst_evaluateGroups groups_done_mask groups_hold_def all_groups_iff)

lemma group_mask_or: "group_mask P OR group_mask Q = group_mask (\<lambda>g. P g \<or> Q g)"
  by (simp add: group_mask_def)

lemma groups_done_merged:
  "groups_done (mergeWith (fst (evaluateGroups E r m)) (fst (evaluateGroups E b m'))) =
   groups_hold E [(r, m), (b, m')]"
  by (simp add: fst_evaluateGroups mergeWith_def group_mask_or groups_done_mask groups_hold_def
      all_groups_iff)

section \<open>Clean metadata\<close>

text \<open>The metadata as \<open>ResetRuleCache\<close> and the nested resets leave it before every \<open>Match\<close>.\<close>

definition clean :: "inbound_context \<Rightarrow> bool" where
  "clean m \<longleftrightarrow> \<not> m_SourceAddressMatch m \<and> \<not> m_SourcePortMatch m \<and> \<not> m_DestinationAddressMatch m \<and>
     \<not> m_DestinationPortMatch m \<and> m_DeferredIPCIDRMatchGroups m = 0"

definition exact :: "matcher \<Rightarrow> (inbound_context \<Rightarrow> bool) \<Rightarrow> bool" where
  "exact f P \<longleftrightarrow> (\<forall>m. clean m \<and> \<not> m_IgnoreDestinationIPCIDRMatch m \<longrightarrow> f m = (P m, m))"

lemma clean_reset [ctx_simps]:
  "clean (ResetRuleMatchCache m)"
  "clean (ResetRuleCache m)"
  "clean (prepareNestedMatch s m)"
  by (simp_all add: clean_def ResetRuleCache_def ResetRuleMatchCache_def prepareNestedMatch_def)

lemma clean_resets:
  assumes "clean m"
  shows "ResetRuleMatchCache m = m"
    and "ResetRuleCache (ResetRuleCache m) = ResetRuleCache m"
    and "restore (snapshotRuleMatch m) m = m"
    and "restore (snapshotRuleMatch m) (prepareNestedMatch s m) = m"
    and "restore (snapshotRuleMatch m) (ResetRuleCache m) = m"
  using assms
  by (auto simp: clean_def ResetRuleMatchCache_def prepareNestedMatch_def ResetRuleCache_def
      restore_def snapshotRuleMatch_def intro!: inbound_context.equality)

lemma prepare_idem [ctx_simps]:
  "prepareNestedMatch s (prepareNestedMatch s m) = prepareNestedMatch s m"
  by (simp add: prepareNestedMatch_def ResetRuleMatchCache_def)

lemma ignore_reset [ctx_simps]:
  "m_IgnoreDestinationIPCIDRMatch (ResetRuleMatchCache m) = m_IgnoreDestinationIPCIDRMatch m"
  "m_IgnoreDestinationIPCIDRMatch (ResetRuleCache m) = m_IgnoreDestinationIPCIDRMatch m"
  "m_IgnoreDestinationIPCIDRMatch (prepareNestedMatch s m) = m_IgnoreDestinationIPCIDRMatch m"
  by (simp_all add: ResetRuleMatchCache_def ResetRuleCache_def prepareNestedMatch_def)

lemma deferred_clean [ctx_simps]: "clean m \<Longrightarrow> m_DeferredIPCIDRMatchGroups m = 0"
  by (simp add: clean_def)

section \<open>Each method is exact\<close>

lemma exactD:
  "exact f P \<Longrightarrow> clean m \<Longrightarrow> \<not> m_IgnoreDestinationIPCIDRMatch m \<Longrightarrow> f m = (P m, m)"
  by (simp add: exact_def)

lemma matchAnyHeadlessRule_exact:
  assumes "list_all2 exact fs Ps"
  shows "exact (matchAnyHeadlessRule fs) (\<lambda>m. list_ex (\<lambda>P. P m) Ps)"
proof -
  have "matchAnyHeadlessRule_loop fs (snapshotRuleMatch m) False 0 m = (list_ex (\<lambda>P. P m) Ps, m)"
    if "clean m" "\<not> m_IgnoreDestinationIPCIDRMatch m" for m
    using assms
  proof (induction fs Ps rule: list_all2_induct)
    case Nil
    then show ?case using that by (simp add: clean_resets Let_def)
  next
    case (Cons f fs P Ps)
    then show ?case
      using that by (simp add: clean_resets exactD Let_def ctx_simps)
  qed
  then show ?thesis
    by (simp add: exact_def matchAnyHeadlessRule_def)
qed

lemma evaluateGroups_exact:
  "\<not> m_IgnoreDestinationIPCIDRMatch m \<Longrightarrow> evaluateGroups E r m = (fst (evaluateGroups E r m), m)"
  by (rule prod_eqI) (simp_all add: snd_evaluateGroups defers_def)

lemma evaluateForMerge_exact:
  "\<not> m_IgnoreDestinationIPCIDRMatch m \<Longrightarrow>
   evaluateForMerge E r m =
     ((if matchItems E (items r) m then (fst (evaluateGroups E r m), True) else (empty_groups, False)), m)"
  by (subst evaluateForMerge_def, subst evaluateGroups_exact) auto

definition exact_view :: "set_view \<Rightarrow> set_sem \<Rightarrow> bool" where
  "exact_view v p \<longleftrightarrow> fst v = fst p \<and> exact (snd v) (snd p)"

lemma matchWithOuterGroups_loop_exact:
  assumes "list_all2 exact_view vs Ps" and "clean m" and "\<not> m_IgnoreDestinationIPCIDRMatch m"
    and "m' = m \<or> m' = prepareNestedMatch s m"
  shows "matchWithOuterGroups_loop E s (fst (evaluateGroups E r m)) vs (snapshotRuleMatch m) False 0 m' =
     (set_item_sem E r s Ps m, m)"
  using assms
proof (induction vs Ps arbitrary: m' rule: list_all2_induct)
  case Nil
  then show ?case by (auto simp: clean_resets set_item_sem_def Let_def)
next
  case (Cons v vs p Ps)
  obtain branch f where v: "v = (branch, f)" by (cases v)
  obtain P where p: "p = (branch, P)" and f: "exact f P"
    using Cons.hyps(1) by (cases p) (auto simp: v exact_view_def)
  let ?n = "prepareNestedMatch s m"
  have n: "prepareNestedMatch s m' = ?n"
    using Cons.prems by (auto simp: ctx_simps)
  have IH: "matchWithOuterGroups_loop E s (fst (evaluateGroups E r m)) vs (snapshotRuleMatch m) False 0 ?n =
      (set_item_sem E r s Ps m, m)"
    using Cons.IH [of ?n] Cons.prems by simp
  have ig: "\<not> m_IgnoreDestinationIPCIDRMatch ?n" using Cons.prems by (simp add: ctx_simps)
  show ?case
  proof (cases branch)
    case None
    then show ?thesis
      using Cons.prems IH exactD [OF f, of ?n] ig
      by (simp add: v p n ctx_simps clean_resets groups_done_own set_item_sem_def Let_def)
  next
    case (Some b)
    then show ?thesis
      using Cons.prems IH ig
      by (simp add: v p n ctx_simps clean_resets evaluateForMerge_exact groups_done_merged
          set_item_sem_def Let_def deferred_clean [OF clean_reset(3)])
  qed
qed

lemma matchInner_exact:
  assumes "list_all2 exact_view vs Ps" and "clean m" and "\<not> m_IgnoreDestinationIPCIDRMatch m"
  shows "matchInner E r vs m =
     (matchItems E (items r) m \<and>
      (case ruleSetItem r of None \<Rightarrow> groups_hold E [(r, m)] | Some s \<Rightarrow> set_item_sem E r s Ps m), m)"
proof (cases "ruleSetItem r")
  case None
  then show ?thesis
    using assms by (subst matchInner_def, subst evaluateGroups_exact)
      (auto simp: groups_done_own ctx_simps)
next
  case (Some s)
  then show ?thesis
    using assms matchWithOuterGroups_loop_exact [OF assms, of m s E r]
    by (subst matchInner_def, subst evaluateGroups_exact)
      (auto simp: matchWithOuterGroups_def ctx_simps)
qed

lemma abstractDefaultRule_exact:
  assumes "list_all2 exact_view vs Ps"
  shows "exact (abstractDefaultRule_Match E r vs) (default_sem E r Ps)"
  using matchInner_exact [OF assms]
  by (auto simp: exact_def abstractDefaultRule_Match_def default_sem_def ctx_simps Let_def)

lemma logical_and_loop_exact:
  assumes "list_all2 exact fs Ps" and "\<not> m_IgnoreDestinationIPCIDRMatch m"
    and "m' = m \<or> m' = ResetRuleCache m"
  shows "\<exists>m''. logical_and_loop fs 0 m' = (list_all (\<lambda>P. P (ResetRuleCache m)) Ps, 0, m'') \<and>
     (m'' = m' \<or> m'' = ResetRuleCache m)"
  using assms
proof (induction fs Ps arbitrary: m' rule: list_all2_induct)
  case (Cons f fs P Ps)
  have r: "ResetRuleCache m' = ResetRuleCache m"
    using Cons.prems by auto
  have "f (ResetRuleCache m) = (P (ResetRuleCache m), ResetRuleCache m)"
    using Cons.hyps Cons.prems by (simp add: exactD ctx_simps)
  then show ?case
    using Cons.IH [of "ResetRuleCache m"] Cons.prems by (auto simp: r ctx_simps)
qed simp

lemma logical_or_loop_exact:
  assumes "list_all2 exact fs Ps" and "\<not> m_IgnoreDestinationIPCIDRMatch m"
    and "m' = m \<or> m' = ResetRuleCache m"
  shows "\<exists>m''. logical_or_loop fs False 0 m' = (list_ex (\<lambda>P. P (ResetRuleCache m)) Ps, 0, m'') \<and>
     (m'' = m' \<or> m'' = ResetRuleCache m)"
  using assms
proof (induction fs Ps arbitrary: m' rule: list_all2_induct)
  case (Cons f fs P Ps)
  have r: "ResetRuleCache m' = ResetRuleCache m"
    using Cons.prems by auto
  have "f (ResetRuleCache m) = (P (ResetRuleCache m), ResetRuleCache m)"
    using Cons.hyps Cons.prems by (simp add: exactD ctx_simps)
  then show ?case
    using Cons.IH [of "ResetRuleCache m"] Cons.prems by (auto simp: r ctx_simps)
qed simp

lemma abstractLogicalRule_exact:
  assumes "list_all2 exact fs Ps"
  shows "exact (abstractLogicalRule_Match fs mode neg) (logical_sem Ps mode neg)"
  unfolding exact_def
proof (intro allI impI)
  fix m
  assume m: "clean m \<and> \<not> m_IgnoreDestinationIPCIDRMatch m"
  then show "abstractLogicalRule_Match fs mode neg m = (logical_sem Ps mode neg m, m)"
    using logical_and_loop_exact [OF assms, of m m] logical_or_loop_exact [OF assms, of m m]
    by (cases mode)
      (auto simp: abstractLogicalRule_Match_def logical_sem_def clean_resets Let_def ctx_simps)
qed

lemma matchForMatch_exact:
  assumes "exact f P"
  shows "exact (matchForMatch f neg mr tag) (response_sem P neg mr tag)"
  using assms
  by (auto simp: exact_def matchForMatch_def response_sem_def clean_def split: option.splits)

lemma list_all2_map_same: "(\<And>x. x \<in> set xs \<Longrightarrow> R (f x) (g x)) \<Longrightarrow> list_all2 R (map f xs) (map g xs)"
  by (simp add: list.rel_map list_all2_same)

lemma rule_tree_exact:
  "exact (hrule_Match E r) (hrule_sem E r)"
  "exact (drule_Match E d) (drule_sem E d)"
  "exact_view (set_view E s) (rule_set_sem E s)"
proof (induction E r and E d and E s rule: hrule_sem_drule_sem_rule_set_sem.induct)
  case (4 E rules mode neg n)
  then show ?case
    by (simp add: abstractLogicalRule_exact list_all2_map_same)
next
  case (7 E tag rules md)
  then have "list_all2 exact (map (hrule_Match E) rules) (map (hrule_sem E) rules)"
    by (intro list_all2_map_same)
  then show ?case
    using matchAnyHeadlessRule_exact by (fastforce simp: exact_view_def list_ex_iff)
qed (auto intro: matchForMatch_exact abstractDefaultRule_exact list_all2_map_same)

end
