(* ===== verification/Rule_PreMatch.thy ===== *)
theory Rule_PreMatch
  imports Rule_Semantics
begin

text \<open>
  The legacy address filter of DNS rules (\<open>route/rule/rule_dns.go\<close>): \<open>LegacyPreMatch\<close> decides,
  before a query is sent, whether a rule may apply, leaving the destination IP-CIDR items open;
  \<open>MatchAddressLimit\<close> decides again with the response. The pre-match answer is three-valued: no
  match, a match with nothing deferred, or a match with the destination address group deferred.
  The lemmas here show what the first two promise of \<open>MatchAddressLimit\<close>.
\<close>

section \<open>Operations\<close>

definition ContainsDestinationIPCIDRRule :: "rule_set_item \<Rightarrow> bool" where
  "ContainsDestinationIPCIDRRule s =
     (if ipCidrMatchSource s then False
      else list_ex (\<lambda>rs. ContainsIPCIDRRule (set_Metadata rs)) (setList s))"

definition DefaultDNSRule_WithAddressLimit :: "drule \<Rightarrow> bool" where
  "DefaultDNSRule_WithAddressLimit r =
     (if destinationIPCIDRItems r \<noteq> [] then True
      else case ruleSetItem r of None \<Rightarrow> False | Some s \<Rightarrow> ContainsDestinationIPCIDRRule s)"

text \<open>Rules that are not DNS rules are skipped by the type test of \<open>LogicalDNSRule.WithAddressLimit\<close>.\<close>

fun WithAddressLimit :: "hrule \<Rightarrow> bool" where
  "WithAddressLimit (DefaultDNSRule r mr tag) = DefaultDNSRule_WithAddressLimit r"
| "WithAddressLimit (LogicalRule rules mode neg n) = list_ex (\<lambda>r. WithAddressLimit r) rules"
| "WithAddressLimit (DefaultHeadlessRule r) = False"
| "WithAddressLimit (DefaultRule r) = False"

definition MatchResponseTags :: "string \<Rightarrow> string list" where
  "MatchResponseTags matchResponseTag = (if matchResponseTag = [] then [] else [matchResponseTag])"

definition DefaultDNSRule_LegacyPreMatch :: "rule_env \<Rightarrow> drule \<Rightarrow> bool \<Rightarrow> matcher" where
  "DefaultDNSRule_LegacyPreMatch E r matchResponse m =
     (if matchResponse then (False, m)
      else let (b, m') = drule_Match E r (m\<lparr>m_IgnoreDestinationIPCIDRMatch := True\<rparr>) in
           (b, m'\<lparr>m_IgnoreDestinationIPCIDRMatch := False\<rparr>))"

definition LogicalDNSRule_LegacyPreMatch ::
  "rule_env \<Rightarrow> hrule list \<Rightarrow> logical_mode \<Rightarrow> bool \<Rightarrow> matcher" where
  "LogicalDNSRule_LegacyPreMatch E rules mode neg m =
     (let (b, m') = abstractLogicalRule_Match (map (hrule_Match E) rules) mode neg
                      (m\<lparr>m_IgnoreDestinationIPCIDRMatch := True\<rparr>) in
      (b, m'\<lparr>m_IgnoreDestinationIPCIDRMatch := False\<rparr>))"

text \<open>Both \<open>MatchAddressLimit\<close> methods match a reset copy of the metadata that holds the response.\<close>

definition address_limit_context :: "inbound_context \<Rightarrow> dns_msg option \<Rightarrow> inbound_context" where
  "address_limit_context m response =
     (ResetRuleCache m)\<lparr>m_DNSResponse := response, m_DestinationAddressMatchFromResponse := True\<rparr>"

definition DefaultDNSRule_MatchAddressLimit ::
  "rule_env \<Rightarrow> drule \<Rightarrow> inbound_context \<Rightarrow> dns_msg option \<Rightarrow> bool" where
  "DefaultDNSRule_MatchAddressLimit E r m response =
     fst (drule_Match E r (address_limit_context m response))"

definition LogicalDNSRule_MatchAddressLimit ::
  "rule_env \<Rightarrow> hrule list \<Rightarrow> logical_mode \<Rightarrow> bool \<Rightarrow> inbound_context \<Rightarrow> dns_msg option \<Rightarrow> bool" where
  "LogicalDNSRule_MatchAddressLimit E rules mode neg m response =
     fst (abstractLogicalRule_Match (map (hrule_Match E) rules) mode neg (address_limit_context m response))"

section \<open>Rules the pre-match is meant for\<close>

text \<open>Items that look at neither the response nor the addresses a response would give.\<close>

definition response_free :: "rule_item \<Rightarrow> bool" where
  "response_free it =
     (case it of
        IPCIDRItem s src d \<Rightarrow> src
      | IPIsPrivateItem src \<Rightarrow> src
      | IPAcceptAnyItem \<Rightarrow> False
      | DNSResponseRCodeItem rc \<Rightarrow> False
      | DNSResponseRecordItem f rs sel \<Rightarrow> False
      | PreferredByItem tags obs st \<Rightarrow> False
      | _ \<Rightarrow> True)"

definition is_IPCIDRItem :: "rule_item \<Rightarrow> bool" where
  "is_IPCIDRItem it = (case it of IPCIDRItem s src d \<Rightarrow> True | _ \<Rightarrow> False)"

text \<open>Some rule below has destination IP-CIDR items.\<close>

fun h_filters :: "hrule \<Rightarrow> bool" and d_filters :: "drule \<Rightarrow> bool" and s_filters :: "rule_set \<Rightarrow> bool"
where
  "h_filters (DefaultHeadlessRule r) = d_filters r"
| "h_filters (DefaultRule r) = d_filters r"
| "h_filters (DefaultDNSRule r mr tag) = d_filters r"
| "h_filters (LogicalRule rules mode neg n) = list_ex (\<lambda>r. h_filters r) rules"
| "d_filters (DRule its sa sp da dc dp al None n neg) = (dc \<noteq> [])"
| "d_filters (DRule its sa sp da dc dp al (Some (RuleSetItem ts sl src acc)) n neg) =
     (dc \<noteq> [] \<or> list_ex (\<lambda>s. s_filters s) sl)"
| "s_filters (RuleSet tag rules md) = list_ex (\<lambda>r. h_filters r) rules"

definition plain_items_ok :: "drule \<Rightarrow> bool" where
  "plain_items_ok r =
     list_all response_free (items r @ sourceAddressItems r @ sourcePortItems r @
       destinationAddressItems r @ destinationPortItems r)"

definition branch_domains :: "rule_set \<Rightarrow> bool" where
  "branch_domains s =
     (case mergeableRuleIn (set_rules s) of None \<Rightarrow> False | Some b \<Rightarrow> destinationAddressItems b \<noteq> [])"

text \<open>
  A rule the two-step filter handles: it does not mix destination address items (domains) with
  destination IP-CIDR items in one group, directly or by merging, and only destination IP-CIDR
  items look at the response. Rules inside a rule-set (\<open>nested\<close>) have only \<open>IPCIDRItem\<close>s there.
\<close>

fun legacy_h :: "bool \<Rightarrow> hrule \<Rightarrow> bool" and legacy_d :: "bool \<Rightarrow> drule \<Rightarrow> bool"
  and legacy_s :: "rule_set \<Rightarrow> bool"
where
  "legacy_h nested (DefaultHeadlessRule r) = legacy_d nested r"
| "legacy_h nested (DefaultRule r) = legacy_d nested r"
| "legacy_h nested (DefaultDNSRule r mr tag) = (\<not> mr \<and> legacy_d nested r)"
| "legacy_h nested (LogicalRule rules mode neg n) = list_all (\<lambda>r. legacy_h False r) rules"
| "legacy_d nested (DRule its sa sp da dc dp al None n neg) =
     (plain_items_ok (DRule its sa sp da dc dp al None n neg) \<and>
      (nested \<longrightarrow> list_all is_IPCIDRItem dc) \<and> (da = [] \<or> dc = []))"
| "legacy_d nested (DRule its sa sp da dc dp al (Some (RuleSetItem ts sl src acc)) n neg) =
     (plain_items_ok (DRule its sa sp da dc dp al (Some (RuleSetItem ts sl src acc)) n neg) \<and>
      (nested \<longrightarrow> list_all is_IPCIDRItem dc) \<and> (da = [] \<or> dc = []) \<and>
      (da = [] \<or> \<not> list_ex s_filters sl) \<and> (dc = [] \<or> \<not> list_ex branch_domains sl) \<and>
      list_all (\<lambda>s. legacy_s s) sl)"
| "legacy_s (RuleSet tag rules md) = list_all (\<lambda>r. legacy_h True r) rules"

section \<open>Items that do not depend on the response\<close>

definition response_context :: "dns_msg option \<Rightarrow> inbound_context \<Rightarrow> inbound_context" where
  "response_context response m =
     m\<lparr>m_DNSResponse := response, m_DestinationAddressMatchFromResponse := True,
       m_IgnoreDestinationIPCIDRMatch := False\<rparr>"

lemmas item_match_defs =
  InboundItem_Match_def IPVersionItem_Match_def NetworkItem_Match_def AuthUserItem_Match_def
  ProtocolItem_Match_def ClientItem_Match_def DomainItem_Match_def DomainKeywordItem_Match_def
  DomainRegexItem_Match_def AdGuardDomainItem_Match_def IPCIDRItem_Match_def
  IPIsPrivateItem_Match_def PortItem_Match_def PortRangeItem_Match_def ProcessItem_Match_def
  ProcessPathItem_Match_def ProcessPathRegexItem_Match_def PackageNameItem_Match_def
  PackageNameRegexItem_Match_def UserItem_Match_def UserIdItem_Match_def
  SourceMACAddressItem_Match_def SourceHostnameItem_Match_def PreferredByDNSItem_Match_def
  QueryTypeItem_Match_def QueryClientSubnetItem_Match_def QueryDNSSECItem_Match_def
  OutboundItem_Match_def

lemma response_context_sel [ctx_simps]:
  "m_Inbound (response_context response m) = m_Inbound m"
  "m_IPVersion (response_context response m) = m_IPVersion m"
  "m_Network (response_context response m) = m_Network m"
  "m_Source (response_context response m) = m_Source m"
  "m_Destination (response_context response m) = m_Destination m"
  "m_User (response_context response m) = m_User m"
  "m_Outbound (response_context response m) = m_Outbound m"
  "m_Protocol (response_context response m) = m_Protocol m"
  "m_SniffHost (response_context response m) = m_SniffHost m"
  "m_Client (response_context response m) = m_Client m"
  "m_Domain (response_context response m) = m_Domain m"
  "m_ProcessInfo (response_context response m) = m_ProcessInfo m"
  "m_SourceMACAddress (response_context response m) = m_SourceMACAddress m"
  "m_SourceHostname (response_context response m) = m_SourceHostname m"
  "m_QueryType (response_context response m) = m_QueryType m"
  "m_QueryClientSubnet (response_context response m) = m_QueryClientSubnet m"
  "m_QueryDNSSEC (response_context response m) = m_QueryDNSSEC m"
  "m_IPCIDRMatchSource (response_context response m) = m_IPCIDRMatchSource m"
  "\<not> m_IgnoreDestinationIPCIDRMatch (response_context response m)"
  by (simp_all add: response_context_def)

lemma domainHost_context [ctx_simps]:
  "domainHost E st (response_context response m) = domainHost E st m"
  "domainHost E st (m\<lparr>m_DeferredIPCIDRMatchGroups := d\<rparr>) = domainHost E st m"
  by (simp_all add: domainHost_def ctx_simps split: domain_match_strategy.split)

lemma ResolveProcessInfo_context [ctx_simps]:
  "ResolveProcessInfo (response_context response m) = ResolveProcessInfo m"
  "ResolveProcessInfo (m\<lparr>m_DeferredIPCIDRMatchGroups := d\<rparr>) = ResolveProcessInfo m"
  by (simp_all add: response_context_def ResolveProcessInfo_def split: option.split)

lemma response_free_item:
  assumes "response_free it"
  shows "RuleItem_Match E it (response_context response (m\<lparr>m_DeferredIPCIDRMatchGroups := d\<rparr>)) =
         RuleItem_Match E it m"
    and "RuleItem_Match E it (m\<lparr>m_DeferredIPCIDRMatchGroups := d\<rparr>) = RuleItem_Match E it m"
proof -
  show "RuleItem_Match E it (response_context response (m\<lparr>m_DeferredIPCIDRMatchGroups := d\<rparr>)) =
        RuleItem_Match E it m"
    using assms
    by (cases it) (simp_all add: RuleItem_Match_def response_free_def item_match_defs ctx_simps)
  show "RuleItem_Match E it (m\<lparr>m_DeferredIPCIDRMatchGroups := d\<rparr>) = RuleItem_Match E it m"
    using assms
    by (cases it) (simp_all add: RuleItem_Match_def response_free_def item_match_defs ctx_simps)
qed

lemma response_free_context:
  "response_free it \<Longrightarrow> RuleItem_Match E it (response_context response m) = RuleItem_Match E it m"
  using response_free_item(1) [where d = "m_DeferredIPCIDRMatchGroups m" and m = m] by simp

lemma source_ipcidr_item:
  "is_IPCIDRItem it \<Longrightarrow> m_IPCIDRMatchSource m \<Longrightarrow>
   RuleItem_Match E it (response_context response m) = RuleItem_Match E it m"
  by (cases it)
    (simp_all add: RuleItem_Match_def is_IPCIDRItem_def response_context_def IPCIDRItem_Match_def)

lemma matchAnyItem_context:
  "list_all response_free its \<Longrightarrow> matchAnyItem E its (response_context response m) = matchAnyItem E its m"
  by (induction its) (auto simp: matchAnyItem_def response_free_context)

lemma matchAnyItem_source:
  "list_all is_IPCIDRItem its \<Longrightarrow> m_IPCIDRMatchSource m \<Longrightarrow>
   matchAnyItem E its (response_context response m) = matchAnyItem E its m"
  by (induction its) (auto simp: matchAnyItem_def source_ipcidr_item)

lemma matchItems_context:
  "list_all response_free its \<Longrightarrow>
   matchItems E its (response_context response m) = matchItems E its m"
  "list_all response_free its \<Longrightarrow>
   matchItems E its (m\<lparr>m_DeferredIPCIDRMatchGroups := d\<rparr>) = matchItems E its m"
  by (induction its) (auto simp: matchItems_def response_free_context response_free_item)

section \<open>Groups before and after the response\<close>

text \<open>What \<open>legacy_d\<close> says of one default rule on its own.\<close>

definition separated :: "bool \<Rightarrow> drule \<Rightarrow> bool" where
  "separated nested r \<longleftrightarrow> plain_items_ok r \<and>
     (nested \<longrightarrow> list_all is_IPCIDRItem (destinationIPCIDRItems r)) \<and>
     (destinationAddressItems r = [] \<or> destinationIPCIDRItems r = [])"

lemma legacy_d_separated: "legacy_d nested r \<Longrightarrow> separated nested r"
proof (cases r)
  case (DRule its sa sp da dc dp al rsi n neg)
  assume "legacy_d nested r"
  then show ?thesis
    by (cases rsi; (cases "the rsi")?) (auto simp: DRule separated_def)
qed

lemma group_items_context:
  assumes "separated nested r" and "m_IgnoreDestinationIPCIDRMatch m" and "nested \<or> \<not> m_IPCIDRMatchSource m"
    and "g \<noteq> DestinationAddress \<or> \<not> defers r m"
  shows "group_items g r (response_context response m) = group_items g r m"
    and "meets E g r (response_context response m) = meets E g r m"
proof -
  show i: "group_items g r (response_context response m) = group_items g r m"
    using assms by (cases g) (auto simp: defers_def separated_def ctx_simps)
  show "meets E g r (response_context response m) = meets E g r m"
    using assms unfolding i
    by (cases g)
      (auto simp: separated_def plain_items_ok_def matchAnyItem_context matchAnyItem_source)
qed

lemma defers_group:
  "defers r m \<Longrightarrow> group_items DestinationAddress r m = []"
  by (simp add: defers_def)

section \<open>Three-valued answers\<close>

text \<open>The deferred groups are the destination address group or nothing.\<close>

definition df :: "bool \<Rightarrow> 8 word" where
  "df x = gmask False False x False"

lemma df_simps [simp]:
  "df x = 0 \<longleftrightarrow> \<not> x"
  "df x OR df y = df (x \<or> y)"
  "df x AND NOT (group_mask Q) = df (x \<and> \<not> Q DestinationAddress)"
  by (auto simp: df_def group_mask_def)

lemma df_bits: "0 = df False" "ruleMatchDestinationAddress = df True"
  by (simp_all add: df_def gmask_bits)

abbreviation with_df :: "bool \<Rightarrow> inbound_context \<Rightarrow> inbound_context" where
  "with_df x m \<equiv> m\<lparr>m_DeferredIPCIDRMatchGroups := df x\<rparr>"

text \<open>
  \<open>b\<close> is the answer, \<open>x\<close> tells whether it is deferred, \<open>p\<close> is the truth once the response is
  there, \<open>fl\<close> whether there is anything to defer.
\<close>

definition tv :: "bool \<Rightarrow> bool \<Rightarrow> bool \<Rightarrow> bool \<Rightarrow> bool" where
  "tv fl b x p \<longleftrightarrow> (\<not> b \<longrightarrow> \<not> p) \<and> (b \<and> \<not> x \<longrightarrow> p) \<and> (b \<and> x \<longrightarrow> fl)"

definition pre_context :: "bool \<Rightarrow> inbound_context \<Rightarrow> bool" where
  "pre_context nested m \<longleftrightarrow>
     clean m \<and> m_IgnoreDestinationIPCIDRMatch m \<and> (nested \<or> \<not> m_IPCIDRMatchSource m)"

definition sound :: "dns_msg option \<Rightarrow> bool \<Rightarrow> bool \<Rightarrow> matcher \<Rightarrow> (inbound_context \<Rightarrow> bool) \<Rightarrow> bool" where
  "sound response nested fl f P \<longleftrightarrow>
     (\<forall>m. pre_context nested m \<longrightarrow>
          (\<exists>b x. f m = (b, with_df x m) \<and> tv fl b x (P (response_context response m))))"

lemma soundE:
  assumes "sound response nested fl f P" and "pre_context nested m"
  obtains b x where "f m = (b, with_df x m)" and "tv fl b x (P (response_context response m))"
  using assms by (auto simp: sound_def)

lemma tv_mono: "tv fl b x p \<Longrightarrow> (fl \<longrightarrow> fl') \<Longrightarrow> tv fl' b x p"
  by (auto simp: tv_def)

lemma sound_mono:
  assumes "sound response nested fl f P" and "fl \<longrightarrow> fl'"
  shows "sound response nested fl' f P"
  using assms(1) tv_mono [OF _ assms(2)] unfolding sound_def by blast

lemma sound_nested: "sound response True fl f P \<Longrightarrow> sound response nested fl f P"
  by (auto simp: sound_def pre_context_def)

lemma resets_with_df:
  assumes "clean m"
  shows "ResetRuleMatchCache (with_df x m) = m"
    and "ResetRuleCache (with_df x m) = ResetRuleCache m"
    and "prepareNestedMatch s (with_df x m) = prepareNestedMatch s m"
    and "with_df False m = m"
    and "restore (snapshotRuleMatch m) (with_df x m) = m"
    and "restore (snapshotRuleMatch m) (with_df x (ResetRuleCache m)) = m"
    and "restore (snapshotRuleMatch (with_df y m)) (with_df x (prepareNestedMatch s m)) = with_df y m"
    and "restore (snapshotRuleMatch (with_df y m)) (with_df x m) = with_df y m"
  using assms
  by (auto simp: clean_def ResetRuleMatchCache_def prepareNestedMatch_def ResetRuleCache_def
      restore_def snapshotRuleMatch_def df_def gmask_def intro!: inbound_context.equality)

lemma response_context_reset [ctx_simps]:
  "response_context response (ResetRuleCache m) = ResetRuleCache (response_context response m)"
  "response_context response (prepareNestedMatch s m) =
     prepareNestedMatch s (response_context response m)"
  by (simp_all add: response_context_def ResetRuleCache_def ResetRuleMatchCache_def
      prepareNestedMatch_def)

lemma pre_context_reset:
  assumes "pre_context nested m"
  shows "pre_context False (ResetRuleCache m)" and "pre_context True (prepareNestedMatch s m)"
    and "clean m"
  using assms
  by (simp_all add: pre_context_def ctx_simps)
    (simp add: ResetRuleCache_def ResetRuleMatchCache_def)

lemma final_df:
  "clean m \<Longrightarrow>
   (if y then m\<lparr>m_DeferredIPCIDRMatchGroups := m_DeferredIPCIDRMatchGroups m OR df y\<rparr> else m) = with_df y m"
  by (cases y) (simp_all add: resets_with_df deferred_clean)

lemma matchAnyHeadlessRule_loop_sound:
  assumes "list_all2 (sound response nested fl) fs Ps" and "pre_context nested m" and "y \<longrightarrow> fl"
  shows "\<exists>b z. matchAnyHeadlessRule_loop fs (snapshotRuleMatch m) y (df y) (with_df x m) = (b, with_df z m)
      \<and> tv fl b z (list_ex (\<lambda>P. P (response_context response m)) Ps) \<and> (y \<longrightarrow> b)"
  using assms
proof (induction fs Ps arbitrary: x y rule: list_all2_induct)
  case Nil
  have c: "clean m" using Nil by (simp add: pre_context_def)
  show ?case
    using Nil by (auto simp: resets_with_df [OF c] final_df [OF c] tv_def Let_def)
next
  case (Cons f fs P Ps)
  have c: "clean m" using Cons.prems by (simp add: pre_context_def)
  obtain b z where f: "f m = (b, with_df z m)" and t: "tv fl b z (P (response_context response m))"
    using Cons.hyps(1) Cons.prems(1) by (rule soundE)
  consider (no) "\<not> b" | (definite) "b" "\<not> z" | (deferred) "b" "z" by blast
  then show ?case
  proof cases
    case no
    then have step: "matchAnyHeadlessRule_loop (f # fs) (snapshotRuleMatch m) y (df y) (with_df x m) =
        matchAnyHeadlessRule_loop fs (snapshotRuleMatch m) y (df y) (with_df z m)"
      by (simp add: f resets_with_df [OF c])
    have "\<not> P (response_context response m)" using no t by (simp add: tv_def)
    then show ?thesis
      using Cons.IH [of y z] Cons.prems unfolding step by simp
  next
    case definite
    then show ?thesis
      using t by (intro exI [of _ True] exI [of _ False])
        (simp add: f resets_with_df [OF c] clean_resets [OF c] deferred_clean [OF c] tv_def)
  next
    case deferred
    then have step: "matchAnyHeadlessRule_loop (f # fs) (snapshotRuleMatch m) y (df y) (with_df x m) =
        matchAnyHeadlessRule_loop fs (snapshotRuleMatch m) True (df True) (with_df z m)"
      by (simp add: f resets_with_df [OF c])
    have "fl" using deferred t by (simp add: tv_def)
    then obtain b' z' where
      "matchAnyHeadlessRule_loop fs (snapshotRuleMatch m) True (df True) (with_df z m) = (b', with_df z' m)"
      "tv fl b' z' (list_ex (\<lambda>P. P (response_context response m)) Ps)" "b'"
      using Cons.IH [of True z] Cons.prems by blast
    then show ?thesis
      unfolding step by (auto simp: tv_def)
  qed
qed

lemma matchAnyHeadlessRule_sound:
  assumes "list_all2 (sound response nested fl) fs Ps"
  shows "sound response nested fl (matchAnyHeadlessRule fs) (\<lambda>m. list_ex (\<lambda>P. P m) Ps)"
  unfolding sound_def
proof (intro allI impI)
  fix m
  assume m: "pre_context nested m"
  then have c: "with_df False m = m" by (simp add: pre_context_def resets_with_df)
  show "\<exists>b x. matchAnyHeadlessRule fs m = (b, with_df x m) \<and>
      tv fl b x (list_ex (\<lambda>P. P (response_context response m)) Ps)"
    using matchAnyHeadlessRule_loop_sound [OF assms m, of False False]
    unfolding matchAnyHeadlessRule_def c df_bits(1) by blast
qed

text \<open>The loop of a logical rule starts every sub-rule from the reset metadata.\<close>

definition loop_state :: "inbound_context \<Rightarrow> inbound_context \<Rightarrow> bool" where
  "loop_state m m' \<longleftrightarrow> ResetRuleCache m' = ResetRuleCache m \<and> restore (snapshotRuleMatch m) m' = m"

lemma loop_state_intros:
  assumes "clean m"
  shows "loop_state m m" and "loop_state m (with_df z (ResetRuleCache m))"
  using assms
  by (simp_all add: loop_state_def clean_resets resets_with_df ctx_simps)

lemma logical_or_loop_sound:
  assumes "list_all2 (sound response False fl) fs Ps" and "pre_context nested m" and "y \<longrightarrow> fl"
    and "loop_state m m'"
  shows "\<exists>b z m''. logical_or_loop fs y (df y) m' = (b, df z, m'') \<and> loop_state m m'' \<and>
      tv fl b z (list_ex (\<lambda>P. P (ResetRuleCache (response_context response m))) Ps) \<and> (y \<longrightarrow> b)"
  using assms
proof (induction fs Ps arbitrary: m' y rule: list_all2_induct)
  case Nil
  then show ?case by (auto simp: tv_def)
next
  case (Cons f fs P Ps)
  let ?m = "ResetRuleCache m" and ?p = "P (ResetRuleCache (response_context response m))"
  have r: "ResetRuleCache m' = ?m" using Cons.prems by (simp add: loop_state_def)
  have c: "clean m" using Cons.prems by (simp add: pre_context_def)
  obtain b z where f: "f ?m = (b, with_df z ?m)" and t: "tv fl b z ?p"
    using Cons.hyps(1) pre_context_reset(1) [OF Cons.prems(1)] soundE by (metis response_context_reset(1))
  consider (no) "\<not> b" | (definite) "b" "\<not> z" | (deferred) "b" "z" by blast
  then show ?case
  proof cases
    case no
    then have step: "logical_or_loop (f # fs) y (df y) m' = logical_or_loop fs y (df y) (with_df z ?m)"
      by (simp add: f r)
    have "\<not> ?p" using no t by (simp add: tv_def)
    then show ?thesis
      using Cons.IH [of y "with_df z ?m"] Cons.prems loop_state_intros(2) [OF c, of z]
      unfolding step by simp
  next
    case definite
    then have step: "logical_or_loop (f # fs) y (df y) m' = (True, df False, with_df z ?m)"
      by (simp add: f r df_bits(1) [symmetric])
    show ?thesis
      using definite t loop_state_intros(2) [OF c, of z] unfolding step
      by (intro exI [of _ True] exI [of _ False] exI [of _ "with_df z ?m"]) (simp add: tv_def)
  next
    case deferred
    then have step: "logical_or_loop (f # fs) y (df y) m' = logical_or_loop fs True (df True) (with_df z ?m)"
      by (simp add: f r)
    have "fl" using deferred t by (simp add: tv_def)
    then obtain b' z' m'' where
      "logical_or_loop fs True (df True) (with_df z ?m) = (b', df z', m'')" "loop_state m m''"
      "tv fl b' z' (list_ex (\<lambda>P. P (ResetRuleCache (response_context response m))) Ps)" "b'"
      using Cons.IH [of True "with_df z ?m"] Cons.prems loop_state_intros(2) [OF c, of z] by blast
    then show ?thesis
      unfolding step by (intro exI [of _ b'] exI [of _ z'] exI [of _ m'']) (auto simp: tv_def)
  qed
qed

lemma logical_and_loop_sound:
  assumes "list_all2 (sound response False fl) fs Ps" and "pre_context nested m" and "y \<longrightarrow> fl"
    and "loop_state m m'"
  shows "\<exists>b z m''. logical_and_loop fs (df y) m' = (b, df z, m'') \<and> loop_state m m'' \<and>
      tv fl b z (list_all (\<lambda>P. P (ResetRuleCache (response_context response m))) Ps) \<and>
      (y \<and> b \<longrightarrow> z)"
  using assms
proof (induction fs Ps arbitrary: m' y rule: list_all2_induct)
  case Nil
  then show ?case by (auto simp: tv_def)
next
  case (Cons f fs P Ps)
  let ?m = "ResetRuleCache m" and ?p = "P (ResetRuleCache (response_context response m))"
  have r: "ResetRuleCache m' = ?m" using Cons.prems by (simp add: loop_state_def)
  have c: "clean m" using Cons.prems by (simp add: pre_context_def)
  obtain b z where f: "f ?m = (b, with_df z ?m)" and t: "tv fl b z ?p"
    using Cons.hyps(1) pre_context_reset(1) [OF Cons.prems(1)] soundE by (metis response_context_reset(1))
  show ?case
  proof (cases b)
    case False
    then have step: "logical_and_loop (f # fs) (df y) m' = (False, df False, with_df z ?m)"
      by (simp add: f r df_bits(1) [symmetric])
    show ?thesis
      using False t loop_state_intros(2) [OF c, of z] unfolding step
      by (intro exI [of _ False] exI [of _ "with_df z ?m"]) (simp add: tv_def)
  next
    case True
    then have step: "logical_and_loop (f # fs) (df y) m' = logical_and_loop fs (df (y \<or> z)) (with_df z ?m)"
      by (simp add: f r)
    have "y \<or> z \<longrightarrow> fl" using True t Cons.prems by (auto simp: tv_def)
    then obtain b' z' m'' where
      "logical_and_loop fs (df (y \<or> z)) (with_df z ?m) = (b', df z', m'')" "loop_state m m''"
      "tv fl b' z' (list_all (\<lambda>P. P (ResetRuleCache (response_context response m))) Ps)"
      "(y \<or> z) \<and> b' \<longrightarrow> z'"
      using Cons.IH [of "y \<or> z" "with_df z ?m"] Cons.prems loop_state_intros(2) [OF c, of z] by blast
    then show ?thesis
      using t True unfolding step
      by (intro exI [of _ b'] exI [of _ z'] exI [of _ m'']) (auto simp: tv_def)
  qed
qed

lemma clean_or_df:
  "clean m \<Longrightarrow> m\<lparr>m_DeferredIPCIDRMatchGroups := m_DeferredIPCIDRMatchGroups m OR df z\<rparr> = with_df z m"
  by (simp add: deferred_clean)

lemma abstractLogicalRule_sound:
  assumes "list_all2 (sound response False fl) fs Ps"
  shows "sound response nested fl (abstractLogicalRule_Match fs mode neg) (logical_sem Ps mode neg)"
  unfolding sound_def
proof (intro allI impI)
  fix m
  assume m: "pre_context nested m"
  then have c: "clean m" by (simp add: pre_context_def)
  let ?p = "logical_sem Ps mode False (response_context response m)"
  obtain b z m'' where
    l: "(case mode of LogicalTypeAnd \<Rightarrow> logical_and_loop fs (df False) m
         | LogicalTypeOr \<Rightarrow> logical_or_loop fs False (df False) m) = (b, df z, m'')"
    and s: "loop_state m m''" and t: "tv fl b z ?p"
    using logical_and_loop_sound [OF assms m, of False m] logical_or_loop_sound [OF assms m, of False m]
      loop_state_intros(1) [OF c]
    by (cases mode) (auto simp: logical_sem_def)
  have run: "abstractLogicalRule_Match fs mode neg m =
      (if neg then (if \<not> b then True else z) else b, if b then with_df z m else with_df False m)"
    using s l [folded df_bits(1)]
    by (simp add: abstractLogicalRule_Match_def Let_def loop_state_def clean_or_df [OF c]
        resets_with_df [OF c])
  have sem: "logical_sem Ps mode neg (response_context response m) \<longleftrightarrow> ?p \<noteq> neg"
    by (auto simp: logical_sem_def)
  show "\<exists>b x. abstractLogicalRule_Match fs mode neg m = (b, with_df x m) \<and>
      tv fl b x (logical_sem Ps mode neg (response_context response m))"
    unfolding run sem using t
    by (intro exI [of _ "if neg then (if \<not> b then True else z) else b"] exI [of _ "b \<and> z"])
      (cases neg; cases b; simp add: tv_def)
qed

section \<open>Default rules before and after the response\<close>

lemma groups_hold_single:
  "groups_hold E [(r, m)] \<longleftrightarrow> (\<forall>g. needs g r m \<longrightarrow> meets E g r m)"
  "groups_hold E [(r, m), (b, n)] \<longleftrightarrow> (\<forall>g. needs g r m \<or> needs g b n \<longrightarrow> meets E g r m \<or> meets E g b n)"
  by (auto simp: groups_hold_def all_groups_iff)

lemma ignored_group:
  "m_IgnoreDestinationIPCIDRMatch m \<Longrightarrow> group_items DestinationAddress r m = destinationAddressItems r"
  by simp

lemma meets_needs: "meets E g r m \<Longrightarrow> needs g r m"
  by (auto simp: matchAnyItem_def)

lemma own_groups_context:
  assumes "separated nested r" and "pre_context nested m"
  shows "\<not> groups_hold E [(r, m)] \<Longrightarrow> \<not> groups_hold E [(r, response_context response m)]"
    and "groups_hold E [(r, m)] \<Longrightarrow> \<not> defers r m \<Longrightarrow> groups_hold E [(r, response_context response m)]"
proof -
  note ctx = group_items_context [OF assms(1), of m]
  have ig: "m_IgnoreDestinationIPCIDRMatch m" "nested \<or> \<not> m_IPCIDRMatchSource m"
    using assms(2) by (simp_all add: pre_context_def)
  show "\<not> groups_hold E [(r, m)] \<Longrightarrow> \<not> groups_hold E [(r, response_context response m)]"
  proof -
    assume "\<not> groups_hold E [(r, m)]"
    then obtain g where g: "needs g r m" "\<not> meets E g r m"
      unfolding groups_hold_single by blast
    then have "g \<noteq> DestinationAddress \<or> \<not> defers r m"
      using defers_group by blast
    then show ?thesis
      using g ctx [OF ig] unfolding groups_hold_single by metis
  qed
  show "groups_hold E [(r, m)] \<Longrightarrow> \<not> defers r m \<Longrightarrow> groups_hold E [(r, response_context response m)]"
    using ctx [OF ig] unfolding groups_hold_single by metis
qed

text \<open>A rule and a branch that do not mix domains with IP-CIDR items.\<close>

definition unmixed :: "drule \<Rightarrow> drule \<Rightarrow> bool" where
  "unmixed r b \<longleftrightarrow> (destinationAddressItems r = [] \<or> destinationIPCIDRItems b = []) \<and>
     (destinationIPCIDRItems r = [] \<or> destinationAddressItems b = [])"

lemma merged_groups_context:
  assumes "separated nested r" and "pre_context nested m" and "separated True b" and "pre_context True n"
    and "unmixed r b"
  shows "\<not> groups_hold E [(r, m), (b, n)] \<Longrightarrow>
      \<not> groups_hold E [(r, response_context response m), (b, response_context response n)]"
    and "groups_hold E [(r, m), (b, n)] \<Longrightarrow> \<not> defers r m \<Longrightarrow> \<not> defers b n \<Longrightarrow>
      groups_hold E [(r, response_context response m), (b, response_context response n)]"
proof -
  have ig: "m_IgnoreDestinationIPCIDRMatch m" "nested \<or> \<not> m_IPCIDRMatchSource m"
    and ign: "m_IgnoreDestinationIPCIDRMatch n" "True \<or> \<not> m_IPCIDRMatchSource n"
    using assms(2,4) by (simp_all add: pre_context_def)
  note cr = group_items_context [OF assms(1) ig] and cb = group_items_context [OF assms(3) ign]
  show "\<not> groups_hold E [(r, response_context response m), (b, response_context response n)]"
    if "\<not> groups_hold E [(r, m), (b, n)]"
  proof -
    obtain g where g: "needs g r m \<or> needs g b n" "\<not> meets E g r m" "\<not> meets E g b n"
      using \<open>\<not> groups_hold E [(r, m), (b, n)]\<close> unfolding groups_hold_single by blast
    have "g \<noteq> DestinationAddress \<or> \<not> defers r m" and "g \<noteq> DestinationAddress \<or> \<not> defers b n"
      using g(1) assms(5) ig ign by (auto simp: defers_def unmixed_def)
    then show ?thesis
      using g cr cb unfolding groups_hold_single by metis
  qed
  show "groups_hold E [(r, response_context response m), (b, response_context response n)]"
    if "groups_hold E [(r, m), (b, n)]" "\<not> defers r m" "\<not> defers b n"
    using cr cb that unfolding groups_hold_single by metis
qed

lemma evaluateGroups_pre:
  "clean m \<Longrightarrow> evaluateGroups E r m = (fst (evaluateGroups E r m), with_df (defers r m) m)"
  by (rule prod_eqI)
    (simp_all add: snd_evaluateGroups df_bits(2) clean_or_df resets_with_df)

lemma evaluateForMerge_pre:
  assumes "clean n" and "separated nested b"
  shows "evaluateForMerge E b n =
     (if matchItems E (items b) n then (fst (evaluateGroups E b n), True) else (empty_groups, False),
      with_df (defers b n) n)"
  using assms(2)
  by (subst evaluateForMerge_def, subst evaluateGroups_pre [OF assms(1)])
    (simp add: separated_def plain_items_ok_def matchItems_context)

lemma satisfied_groups [simp]:
  "satisfied (fst (evaluateGroups E r m)) = group_mask (\<lambda>g. meets E g r m)"
  "satisfied (mergeWith (fst (evaluateGroups E r m)) (fst (evaluateGroups E b n))) =
     group_mask (\<lambda>g. meets E g r m \<or> meets E g b n)"
  by (simp_all add: fst_evaluateGroups mergeWith_def group_mask_or)

text \<open>The loop over the rule-sets of a rule.\<close>

definition sound_view :: "dns_msg option \<Rightarrow> bool \<Rightarrow> drule \<Rightarrow> set_view \<Rightarrow> set_sem \<Rightarrow> bool" where
  "sound_view response fl r v p \<longleftrightarrow> fst v = fst p \<and> sound response True fl (snd v) (snd p) \<and>
     (\<forall>b. fst v = Some b \<longrightarrow> separated True b \<and> unmixed r b \<and> (destinationIPCIDRItems b \<noteq> [] \<longrightarrow> fl))"

definition set_state :: "rule_set_item \<Rightarrow> inbound_context \<Rightarrow> bool \<Rightarrow> inbound_context \<Rightarrow> bool" where
  "set_state s m own m' \<longleftrightarrow> prepareNestedMatch s m' = prepareNestedMatch s m \<and>
     restore (snapshotRuleMatch (with_df own m)) m' = with_df own m"

lemma set_state_intros:
  assumes "clean m"
  shows "set_state s m own (with_df own m)" and "set_state s m own (with_df x (prepareNestedMatch s m))"
  using assms
  by (simp_all add: set_state_def resets_with_df clean_reset prepare_idem)

text \<open>What the loop promises: \<open>z\<close> is what remains deferred after the rule's own groups.\<close>

definition set_answer :: "bool \<Rightarrow> bool \<Rightarrow> bool \<Rightarrow> bool \<Rightarrow> bool \<Rightarrow> bool \<Rightarrow> bool" where
  "set_answer fl own y b z S \<longleftrightarrow> (\<not> b \<longrightarrow> \<not> S) \<and> (b \<and> \<not> z \<longrightarrow> S) \<and> (b \<and> z \<longrightarrow> fl \<or> own) \<and> (y \<longrightarrow> b)"

lemma set_item_sem_Cons:
  "set_item_sem E r s ((branch, P) # Ps) m \<longleftrightarrow>
     (case branch of
        Some b \<Rightarrow> matchItems E (items b) (prepareNestedMatch s m) \<and>
                  groups_hold E [(r, m), (b, prepareNestedMatch s m)]
      | None \<Rightarrow> groups_hold E [(r, m)] \<and> P (prepareNestedMatch s m)) \<or>
     set_item_sem E r s Ps m"
  by (simp add: set_item_sem_def Let_def)

lemma matchWithOuterGroups_loop_sound:
  assumes "list_all2 (sound_view response fl r) vs Ps" and "pre_context nested m"
    and "separated nested r" and "destinationAddressItems r = [] \<or> \<not> fl" and "y \<longrightarrow> fl"
    and "set_state s m (defers r m) m'"
  shows "\<exists>b z. matchWithOuterGroups_loop E s (fst (evaluateGroups E r m)) vs
        (snapshotRuleMatch (with_df (defers r m) m)) y (df y) m' = (b, with_df z m) \<and>
      set_answer fl (defers r m) y b (z \<and> \<not> meets E DestinationAddress r m)
        (set_item_sem E r s Ps (response_context response m))"
  using assms
proof (induction vs Ps arbitrary: m' y rule: list_all2_induct)
  case Nil
  have ig: "m_IgnoreDestinationIPCIDRMatch m" using Nil.prems(1) by (simp add: pre_context_def)
  have nm: "\<not> meets E DestinationAddress r m" if fl
    using Nil.prems(3) that unfolding ignored_group [OF ig] by simp
  have "restore (snapshotRuleMatch (with_df (defers r m) m)) m' = with_df (defers r m) m"
    using Nil.prems(5) by (simp add: set_state_def)
  then have run: "matchWithOuterGroups_loop E s (fst (evaluateGroups E r m)) []
        (snapshotRuleMatch (with_df (defers r m) m)) y (df y) m' = (y, with_df (defers r m \<or> y) m)"
    by (cases y) (simp_all add: Let_def)
  have "set_answer fl (defers r m) y y ((defers r m \<or> y) \<and> \<not> meets E DestinationAddress r m)
        (set_item_sem E r s [] (response_context response m))"
    using nm Nil.prems(4) by (cases y) (simp_all add: set_answer_def set_item_sem_def del: group_items.simps)
  then show ?case unfolding run by blast
next
  case (Cons v vs p Ps)
  let ?own = "defers r m" and ?n = "prepareNestedMatch s m" and ?M = "response_context response m"
  let ?loop = "matchWithOuterGroups_loop E s (fst (evaluateGroups E r m))"
  let ?snap = "snapshotRuleMatch (with_df ?own m)"
  have c: "clean m" and ig: "m_IgnoreDestinationIPCIDRMatch m"
    using Cons.prems(1) by (simp_all add: pre_context_def)
  have n: "pre_context True ?n" by (rule pre_context_reset(2) [OF Cons.prems(1)])
  obtain branch f where v: "v = (branch, f)" by (cases v)
  obtain P where p: "p = (branch, P)"
    using Cons.hyps(1) by (cases p) (simp add: v sound_view_def)
  have prep: "prepareNestedMatch s m' = ?n" using Cons.prems(5) by (simp add: set_state_def)
  have own_meets: "\<not> meets E DestinationAddress r m" if "?own"
    using that defers_group meets_needs by blast
  have rst: "restore ?snap (with_df x ?n) = with_df ?own m" for x
    by (rule resets_with_df(7) [OF c])
  have goon: "\<exists>b z. ?loop vs ?snap y' (df y') (with_df x ?n) = (b, with_df z m) \<and>
      set_answer fl ?own y' b (z \<and> \<not> meets E DestinationAddress r m) (set_item_sem E r s Ps ?M)"
    if "y' \<longrightarrow> fl" for y' x
    using Cons.IH [of y' "with_df x ?n"] Cons.prems set_state_intros(2) [OF c, of s ?own x] that by blast
  have skip: ?case
    if step: "?loop (v # vs) ?snap y (df y) m' = ?loop vs ?snap y (df y) (with_df x ?n)"
      and no: "set_item_sem E r s (p # Ps) ?M = set_item_sem E r s Ps ?M" for x
    using goon [OF Cons.prems(4)] unfolding step no by blast
  have later: ?case
    if step: "?loop (v # vs) ?snap y (df y) m' = ?loop vs ?snap True (df True) (with_df x ?n)" and fl for x
    using goon [of True x] \<open>fl\<close> unfolding step p set_item_sem_Cons set_answer_def by blast
  have stop: ?case
    if step: "?loop (v # vs) ?snap y (df y) m' = (True, with_df ?own m)"
      and yes: "\<not> ?own \<Longrightarrow> set_item_sem E r s (p # Ps) ?M"
    using own_meets yes unfolding step set_answer_def by blast
  show ?case
  proof (cases branch)
    case None
    have "sound response True fl f P"
      using Cons.hyps(1) by (simp add: v p sound_view_def)
    then obtain bf z where f: "f ?n = (bf, with_df z ?n)" and t: "tv fl bf z (P (prepareNestedMatch s ?M))"
      using soundE [OF _ n] by (metis response_context_reset(2))
    have sem: "set_item_sem E r s (p # Ps) ?M \<longleftrightarrow>
        groups_hold E [(r, ?M)] \<and> P (prepareNestedMatch s ?M) \<or> set_item_sem E r s Ps ?M"
      by (simp add: p None set_item_sem_Cons)
    note own = own_groups_context [OF Cons.prems(2,1), of E response]
    consider (out) "\<not> groups_hold E [(r, m)]" | (no) "groups_hold E [(r, m)]" "\<not> bf"
      | (definite) "groups_hold E [(r, m)]" "bf" "\<not> z" | (deferred) "groups_hold E [(r, m)]" "bf" "z"
      by blast
    then show ?thesis
    proof cases
      case out
      show ?thesis
        using own(1) [OF out] sem
        by (intro skip [of False]) (simp_all add: v None prep groups_done_own out resets_with_df clean_reset)
    next
      case no
      show ?thesis
        using no t sem by (intro skip [of z]) (simp_all add: v None prep groups_done_own f tv_def)
    next
      case definite
      show ?thesis
        using definite t own(2) sem
        by (intro stop) (simp_all add: v None prep groups_done_own f tv_def rst)
    next
      case deferred
      show ?thesis
        using deferred t by (intro later [of z]) (simp_all add: v None prep groups_done_own f tv_def)
    qed
  next
    case (Some b)
    have b: "separated True b" "unmixed r b" "destinationIPCIDRItems b \<noteq> [] \<longrightarrow> fl"
      using Cons.hyps(1) by (simp_all add: v p Some sound_view_def)
    have ign: "m_IgnoreDestinationIPCIDRMatch ?n" and cn: "clean ?n"
      using n by (simp_all add: pre_context_def)
    have N: "response_context response ?n = prepareNestedMatch s ?M"
      by (rule response_context_reset(2))
    let ?it = "matchItems E (items b) ?n" and ?gh = "groups_hold E [(r, m), (b, ?n)]"
    have it: "matchItems E (items b) (prepareNestedMatch s ?M) = ?it"
      using b(1) matchItems_context(1) [of "items b" E response ?n]
      by (simp add: N separated_def plain_items_ok_def)
    have sem: "set_item_sem E r s (p # Ps) ?M \<longleftrightarrow>
        ?it \<and> groups_hold E [(r, ?M), (b, prepareNestedMatch s ?M)] \<or> set_item_sem E r s Ps ?M"
      by (simp add: p Some set_item_sem_Cons it)
    note merged = merged_groups_context [OF Cons.prems(2,1) b(1) n b(2), of E response, unfolded N]
    let ?open = "defers b ?n \<and> \<not> (meets E DestinationAddress r m \<or> meets E DestinationAddress b ?n)"
    note run = evaluateForMerge_pre [OF cn b(1), of E] groups_done_merged
    consider (items) "\<not> ?it" | (groups) "?it" "\<not> ?gh" | (definite) "?it" "?gh" "\<not> ?open"
      | (deferred) "?it" "?gh" "?open"
      by blast
    then show ?thesis
    proof cases
      case items
      show ?thesis
        using items sem by (intro skip [of "defers b ?n"]) (simp_all add: v Some prep run)
    next
      case groups
      show ?thesis
        using groups merged(1) sem
        by (intro skip [of "defers b ?n"]) (simp_all add: v Some prep run del: group_items.simps)
    next
      case definite
      have nb: "\<not> defers b ?n"
        using definite(3) b(2) ig ign meets_needs [of E DestinationAddress]
        by (auto simp: defers_def unmixed_def)
      have mb: "\<not> meets E DestinationAddress b ?n" if "?own"
        using that b(2) ign by (auto simp: defers_def unmixed_def)
      have left: "(?own \<and> \<not> (meets E DestinationAddress r m \<or> meets E DestinationAddress b ?n)) = ?own"
        using own_meets mb by blast
      show ?thesis
        using definite nb merged(2) sem left
        by (intro stop) (simp_all add: v Some prep run rst Let_def del: group_items.simps)
    next
      case deferred
      have fl using deferred(3) b(3) by (auto simp: defers_def)
      then show ?thesis
        using deferred
        by (intro later [of "defers b ?n"]) (simp_all add: v Some prep run Let_def del: group_items.simps)
    qed
  qed
qed

lemma matchInner_sound:
  assumes "list_all2 (sound_view response fl r) vs Ps" and "pre_context nested m"
    and "separated nested r" and "destinationAddressItems r = [] \<or> \<not> fl"
  shows "\<exists>b z. matchInner E r vs m = (b, with_df z m) \<and>
     tv (fl \<or> destinationIPCIDRItems r \<noteq> []) b z
       (matchItems E (items r) (response_context response m) \<and>
        (case ruleSetItem r of
           None \<Rightarrow> groups_hold E [(r, response_context response m)]
         | Some s \<Rightarrow> set_item_sem E r s Ps (response_context response m)))"
proof -
  let ?M = "response_context response m" and ?own = "defers r m"
  have c: "clean m" and ig: "m_IgnoreDestinationIPCIDRMatch m"
    using assms(2) by (simp_all add: pre_context_def)
  have own_dc: "?own \<Longrightarrow> destinationIPCIDRItems r \<noteq> []" by (simp add: defers_def)
  have own_meets: "?own \<Longrightarrow> \<not> meets E DestinationAddress r m"
    using defers_group meets_needs by blast
  have it: "matchItems E (items r) ?M = matchItems E (items r) m"
      "matchItems E (items r) (with_df x m) = matchItems E (items r) m" for x
    using assms(3) by (simp_all add: separated_def plain_items_ok_def matchItems_context)
  note groups = own_groups_context [OF assms(3,2), of E response]
  show ?thesis
  proof (cases "matchItems E (items r) m")
    case False
    then have "matchInner E r vs m = (False, with_df ?own m)"
      by (subst matchInner_def, subst evaluateGroups_pre [OF c]) (simp add: it)
    then show ?thesis
      using False by (intro exI [of _ False] exI [of _ ?own]) (simp add: tv_def it)
  next
    case True
    show ?thesis
    proof (cases "ruleSetItem r")
      case None
      have "matchInner E r vs m = (groups_hold E [(r, m)], with_df ?own m)"
        using True own_meets
        by (subst matchInner_def, subst evaluateGroups_pre [OF c])
          (cases "groups_hold E [(r, m)]"; cases "?own";
            simp add: it None groups_done_own del: group_items.simps)
      then show ?thesis
        using True groups own_dc
        unfolding tv_def it None option.case by blast
    next
      case (Some s)
      obtain b z where
        run: "matchWithOuterGroups_loop E s (fst (evaluateGroups E r m)) vs
            (snapshotRuleMatch (with_df ?own m)) False (df False) (with_df ?own m) = (b, with_df z m)"
        and ans: "set_answer fl ?own False b (z \<and> \<not> meets E DestinationAddress r m)
            (set_item_sem E r s Ps ?M)"
        using matchWithOuterGroups_loop_sound [OF assms(1,2,3,4), of False s "with_df ?own m"]
          set_state_intros(1) [OF c] by blast
      let ?z = "if b then z \<and> \<not> meets E DestinationAddress r m else z"
      have inner: "matchInner E r vs m = (b, with_df ?z m)"
        using True
        by (subst matchInner_def, subst evaluateGroups_pre [OF c])
          (cases b; simp add: it Some matchWithOuterGroups_def run [folded df_bits(1)] del: group_items.simps)
      have "tv (fl \<or> destinationIPCIDRItems r \<noteq> []) b ?z (set_item_sem E r s Ps ?M)"
      proof (cases b)
        case True
        show ?thesis
          using ans own_dc unfolding tv_def set_answer_def if_P [OF True] by blast
      next
        case False
        then show ?thesis
          using ans unfolding tv_def set_answer_def by blast
      qed
      then show ?thesis
        using True inner unfolding it Some option.case by (simp only: simp_thms) blast
    qed
  qed
qed

lemma abstractDefaultRule_sound:
  assumes "list_all2 (sound_view response fl r) vs Ps" and "separated nested r"
    and "destinationAddressItems r = [] \<or> \<not> fl"
  shows "sound response nested (fl \<or> destinationIPCIDRItems r \<noteq> []) (abstractDefaultRule_Match E r vs)
    (default_sem E r Ps)"
  unfolding sound_def
proof (intro allI impI)
  fix m
  assume m: "pre_context nested m"
  then have c: "clean m" by (simp add: pre_context_def)
  let ?fl = "fl \<or> destinationIPCIDRItems r \<noteq> []" and ?M = "response_context response m"
  let ?p = "matchItems E (items r) ?M \<and> (case ruleSetItem r of
      None \<Rightarrow> groups_hold E [(r, ?M)] | Some s \<Rightarrow> set_item_sem E r s Ps ?M)"
  obtain b z where run: "matchInner E r vs m = (b, with_df z m)" and t: "tv ?fl b z ?p"
    using matchInner_sound [OF assms(1) m assms(2,3)] by blast
  show "\<exists>b x. abstractDefaultRule_Match E r vs m = (b, with_df x m) \<and> tv ?fl b x (default_sem E r Ps ?M)"
  proof (cases "allItems r = []")
    case True
    then show ?thesis
      by (intro exI [of _ True] exI [of _ False])
        (simp add: abstractDefaultRule_Match_def default_sem_def tv_def resets_with_df [OF c])
  next
    case False
    let ?b = "if invert r then (if \<not> b then True else z) else b"
    let ?z = "if invert r \<and> \<not> b then False else z"
    have "abstractDefaultRule_Match E r vs m = (?b, with_df ?z m)"
      using False by (cases b) (simp_all add: abstractDefaultRule_Match_def run df_bits(1) [symmetric])
    moreover have "tv ?fl ?b ?z (default_sem E r Ps ?M)"
    proof -
      have "default_sem E r Ps ?M \<longleftrightarrow> ?p \<noteq> invert r"
        using False by (simp add: default_sem_def)
      then show ?thesis
        using t unfolding tv_def by (cases "invert r"; cases b) simp_all
    qed
    ultimately show ?thesis by blast
  qed
qed

lemma legacy_mergeable:
  assumes "mergeableRuleIn rules = Some b"
  shows "rules = [DefaultHeadlessRule b]" and "ruleSetItem b = None"
  using assms by (auto simp: mergeableRuleIn_def split: list.splits hrule.splits if_splits)

lemma d_filters_own: "destinationIPCIDRItems b \<noteq> [] \<Longrightarrow> d_filters b"
proof (cases b)
  case (DRule its sa sp da dc dp al rsi n neg)
  assume "destinationIPCIDRItems b \<noteq> []"
  then show ?thesis
    by (cases rsi; (cases "the rsi")?) (auto simp: DRule)
qed

lemma sound_view_set:
  assumes "sound response True (s_filters s) (snd (set_view E s)) (snd (rule_set_sem E s))"
    and "legacy_s s" and "s_filters s \<longrightarrow> fl" and "destinationAddressItems r = [] \<or> \<not> s_filters s"
    and "destinationIPCIDRItems r = [] \<or> \<not> branch_domains s"
  shows "sound_view response fl r (set_view E s) (rule_set_sem E s)"
proof (cases s)
  case (RuleSet tag rules md)
  have "separated True b \<and> unmixed r b \<and> (destinationIPCIDRItems b \<noteq> [] \<longrightarrow> fl)"
    if "mergeableRuleIn rules = Some b" for b
  proof -
    have rules: "rules = [DefaultHeadlessRule b]" by (rule legacy_mergeable(1) [OF that])
    have "legacy_d True b" using assms(2) by (simp add: RuleSet rules)
    moreover have f: "destinationIPCIDRItems b \<noteq> [] \<longrightarrow> s_filters s"
      using d_filters_own by (simp add: RuleSet rules)
    moreover have "unmixed r b"
      using assms(4,5) f that by (auto simp: unmixed_def branch_domains_def RuleSet)
    ultimately show ?thesis
      using assms(3) legacy_d_separated by blast
  qed
  then show ?thesis
    using sound_mono [OF assms(1,3)] by (simp add: sound_view_def RuleSet)
qed

lemma rule_tree_sound:
  "legacy_h nested r \<Longrightarrow> sound response nested (h_filters r) (hrule_Match E r) (hrule_sem E r)"
  "legacy_d nested d \<Longrightarrow> sound response nested (d_filters d) (drule_Match E d) (drule_sem E d)"
  "legacy_s s \<Longrightarrow> sound response True (s_filters s) (snd (set_view E s)) (snd (rule_set_sem E s))"
proof (induction nested r and nested d and s rule: legacy_h_legacy_d_legacy_s.induct)
  case (3 nested r mr tag)
  then show ?case by (simp add: sound_def matchForMatch_def response_sem_def)
next
  case (4 nested rules mode neg n)
  have "sound response False (list_ex h_filters rules) (hrule_Match E r) (hrule_sem E r)" if "r \<in> set rules" for r
  proof (rule sound_mono)
    show "sound response False (h_filters r) (hrule_Match E r) (hrule_sem E r)"
      using 4 that by (simp add: list_all_iff)
  qed (use that in \<open>auto simp: list_ex_iff\<close>)
  then show ?case
    by (simp add: abstractLogicalRule_sound list_all2_map_same)
next
  case (5 nested its sa sp da dc dp al n neg)
  let ?r = "DRule its sa sp da dc dp al None n neg"
  have "sound response nested (False \<or> destinationIPCIDRItems ?r \<noteq> []) (abstractDefaultRule_Match E ?r [])
      (default_sem E ?r [])"
    by (rule abstractDefaultRule_sound) (use legacy_d_separated [OF 5] in simp_all)
  then show ?case by simp
next
  case (6 nested its sa sp da dc dp al ts sl src acc n neg)
  let ?r = "DRule its sa sp da dc dp al (Some (RuleSetItem ts sl src acc)) n neg"
  have "sound_view response (list_ex s_filters sl) ?r (set_view E s) (rule_set_sem E s)" if "s \<in> set sl" for s
  proof (rule sound_view_set)
    show "sound response True (s_filters s) (snd (set_view E s)) (snd (rule_set_sem E s))"
      using 6 that by (simp add: list_all_iff)
  qed (use 6(2) that in \<open>auto simp: list_all_iff list_ex_iff\<close>)
  then have "list_all2 (sound_view response (list_ex s_filters sl) ?r)
      (map (\<lambda>s. set_view E s) sl) (map (\<lambda>s. rule_set_sem E s) sl)"
    by (rule list_all2_map_same)
  then have "sound response nested (list_ex s_filters sl \<or> dc \<noteq> [])
      (abstractDefaultRule_Match E ?r (map (\<lambda>s. set_view E s) sl))
      (default_sem E ?r (map (\<lambda>s. rule_set_sem E s) sl))"
    using abstractDefaultRule_sound [of response _ ?r _ _ nested E] legacy_d_separated [OF 6(2)] 6(2)
    by simp
  then show ?case by (simp add: disj_commute)
next
  case (7 tag rules md)
  have "sound response True (list_ex h_filters rules) (hrule_Match E r) (hrule_sem E r)" if "r \<in> set rules" for r
  proof (rule sound_mono)
    show "sound response True (h_filters r) (hrule_Match E r) (hrule_sem E r)"
      using 7 that by (simp add: list_all_iff)
  qed (use that in \<open>auto simp: list_ex_iff\<close>)
  then have "list_all2 (sound response True (list_ex h_filters rules)) (map (hrule_Match E) rules)
      (map (hrule_sem E) rules)"
    by (intro list_all2_map_same)
  from matchAnyHeadlessRule_sound [OF this] show ?case
    by (simp add: list_ex_iff)
qed simp_all

section \<open>The two steps of the DNS router\<close>

text \<open>The router resets the rule cache before \<open>LegacyPreMatch\<close>.\<close>

lemma address_limit_response:
  assumes "\<not> m_IgnoreDestinationIPCIDRMatch m"
  shows "response_context response ((ResetRuleCache m)\<lparr>m_IgnoreDestinationIPCIDRMatch := True\<rparr>) =
         address_limit_context (ResetRuleCache m) response"
    and "pre_context False ((ResetRuleCache m)\<lparr>m_IgnoreDestinationIPCIDRMatch := True\<rparr>)"
    and "clean (address_limit_context (ResetRuleCache m) response)"
    and "\<not> m_IgnoreDestinationIPCIDRMatch (address_limit_context (ResetRuleCache m) response)"
    and "((ResetRuleCache m)\<lparr>m_IgnoreDestinationIPCIDRMatch := True, m_DeferredIPCIDRMatchGroups := d,
           m_IgnoreDestinationIPCIDRMatch := False\<rparr>) =
         (ResetRuleCache m)\<lparr>m_DeferredIPCIDRMatchGroups := d\<rparr>"
  using assms
  by (auto simp: response_context_def address_limit_context_def ResetRuleCache_def
      ResetRuleMatchCache_def pre_context_def clean_def intro!: inbound_context.equality)

lemma exact_address_limit:
  assumes "exact f P" and "\<not> m_IgnoreDestinationIPCIDRMatch m"
  shows "fst (f (address_limit_context (ResetRuleCache m) response)) =
         P (address_limit_context (ResetRuleCache m) response)"
  using assms address_limit_response(3,4) [OF assms(2), of response] by (simp add: exactD)

lemma prematch_sound:
  assumes "sound response False fl f P" and "exact f P" and "\<not> m_IgnoreDestinationIPCIDRMatch m"
  obtains b z where
    "(let (b, m') = f ((ResetRuleCache m)\<lparr>m_IgnoreDestinationIPCIDRMatch := True\<rparr>) in
      (b, m'\<lparr>m_IgnoreDestinationIPCIDRMatch := False\<rparr>)) = (b, with_df z (ResetRuleCache m))"
    "tv fl b z (fst (f (address_limit_context (ResetRuleCache m) response)))"
proof -
  let ?m = "(ResetRuleCache m)\<lparr>m_IgnoreDestinationIPCIDRMatch := True\<rparr>"
  obtain b z where f: "f ?m = (b, with_df z ?m)" and t: "tv fl b z (P (response_context response ?m))"
    using soundE [OF assms(1) address_limit_response(2) [OF assms(3)]] by blast
  show thesis
  proof (rule that [of b z])
    show "(let (b, m') = f ?m in (b, m'\<lparr>m_IgnoreDestinationIPCIDRMatch := False\<rparr>)) =
        (b, with_df z (ResetRuleCache m))"
      unfolding f using address_limit_response(5) [OF assms(3)] by simp
    show "tv fl b z (fst (f (address_limit_context (ResetRuleCache m) response)))"
      using t exact_address_limit [OF assms(2,3)] address_limit_response(1) [OF assms(3)] by simp
  qed
qed

lemma DefaultDNSRule_prematch:
  assumes "legacy_d False r" and "\<not> m_IgnoreDestinationIPCIDRMatch m"
  obtains b z where
    "DefaultDNSRule_LegacyPreMatch E r False (ResetRuleCache m) = (b, with_df z (ResetRuleCache m))"
    "tv (d_filters r) b z (DefaultDNSRule_MatchAddressLimit E r (ResetRuleCache m) response)"
  using prematch_sound [OF rule_tree_sound(2) [OF assms(1), of response E] rule_tree_exact(2) [of E r] assms(2),
      of thesis]
  unfolding DefaultDNSRule_LegacyPreMatch_def DefaultDNSRule_MatchAddressLimit_def if_False
  by blast

lemma LogicalDNSRule_prematch:
  assumes "list_all (legacy_h False) rules" and "\<not> m_IgnoreDestinationIPCIDRMatch m"
  obtains b z where
    "LogicalDNSRule_LegacyPreMatch E rules mode neg (ResetRuleCache m) = (b, with_df z (ResetRuleCache m))"
    "tv (list_ex h_filters rules) b z
       (LogicalDNSRule_MatchAddressLimit E rules mode neg (ResetRuleCache m) response)"
proof -
  let ?r = "LogicalRule rules mode neg 0"
  have "legacy_h False ?r" using assms(1) by (simp add: list_all_iff)
  note s = rule_tree_sound(1) [OF this, of response E] and e = rule_tree_exact(1) [of E ?r]
  show thesis
    using prematch_sound [OF s e assms(2), of thesis] that
    unfolding LogicalDNSRule_LegacyPreMatch_def LogicalDNSRule_MatchAddressLimit_def
    by (simp add: list_ex_iff)
qed

end
