(* ===== verification/Rule_Options.thy ===== *)
theory Rule_Options
  imports Rule_Action_Run Rule_PreMatch
begin

text \<open>
  Rule options (\<open>option/rule.go\<close>, \<open>option/rule_set.go\<close>, \<open>option/rule_dns.go\<close>,
  \<open>option/rule_nested.go\<close>): what a configuration says of a rule before it is built. The three structs
  of default rules share most of their fields, so they are one record and its extensions. A nil and
  an empty list are the same list here; \<open>reflect.DeepEqual\<close>, which can tell them apart, reads
  \<open>emptyIPCIDR\<close> (\<open>ip_cidr\<close> was given as an empty list) and \<open>emptyLists\<close> (another list was). A typed map that was not given is \<open>None\<close>.
\<close>

section \<open>Default rules\<close>

record match_options =
  mo_emptyLists :: bool
  mo_emptyIPCIDR :: bool
  mo_Network :: "string list"
  mo_Domain :: "string list"
  mo_DomainSuffix :: "string list"
  mo_DomainKeyword :: "string list"
  mo_DomainRegex :: "string list"
  mo_SourceIPCIDR :: "prefix list"
  mo_IPCIDR :: "prefix list"
  mo_SourcePort :: "port list"
  mo_SourcePortRange :: "string list"
  mo_Port :: "port list"
  mo_PortRange :: "string list"
  mo_ProcessName :: "string list"
  mo_ProcessPath :: "string list"
  mo_ProcessPathRegex :: "string list"
  mo_PackageName :: "string list"
  mo_PackageNameRegex :: "string list"
  mo_NetworkType :: "iface_type list"
  mo_NetworkIsExpensive :: bool
  mo_NetworkIsConstrained :: bool
  mo_WIFISSID :: "string list"
  mo_WIFIBSSID :: "string list"
  mo_NetworkInterfaceAddress :: "(iface_type \<times> prefix list) list option"
  mo_DefaultInterfaceAddress :: "prefix list"
  mo_Invert :: bool

text \<open>\<open>DefaultHeadlessRule\<close>.\<close>

record headless_options = match_options +
  ho_QueryType :: "(16 word) list"
  ho_DomainMatchStrategy :: domain_match_strategy
  ho_DomainMatcher :: "domain_matcher option"
  ho_SourceIPSet :: "ip_set option"
  ho_IPSet :: "ip_set option"
  ho_AdGuardDomain :: "string list"
  ho_AdGuardDomainMatcher :: "adguard_matcher option"

text \<open>The further fields that \<open>RawDefaultRule\<close> and \<open>RawDefaultDNSRule\<close> share.\<close>

record rule_match_options = match_options +
  mo_Inbound :: "string list"
  mo_IPVersion :: int
  mo_AuthUser :: "string list"
  mo_Protocol :: "string list"
  mo_Geosite :: "string list"
  mo_SourceGeoIP :: "string list"
  mo_GeoIP :: "string list"
  mo_SourceIPIsPrivate :: bool
  mo_IPIsPrivate :: bool
  mo_User :: "string list"
  mo_UserID :: "int list"
  mo_ClashMode :: "string list"
  mo_InterfaceAddress :: "(string \<times> prefix list) list option"
  mo_SourceMACAddress :: "string list"
  mo_SourceHostname :: "string list"
  mo_PreferredBy :: "string list"
  mo_DNSServerAddress :: "(string \<times> prefix list) list option"
  mo_DNSSearchDomain :: "(string \<times> string list) list option"
  mo_RuleSet :: "string list"
  mo_RuleSetIPCIDRMatchSource :: bool
  mo_Deprecated_RulesetIPCIDRMatchSource :: bool

text \<open>\<open>RawDefaultRule\<close>.\<close>

record default_rule_options = rule_match_options +
  do_Client :: "string list"
  do_DomainMatchStrategy :: domain_match_strategy

text \<open>\<open>RawDefaultDNSRule\<close>; \<open>MatchResponse\<close> is \<open>None\<close> or whether it is enabled and its tag.\<close>

record dns_default_options = rule_match_options +
  dd_QueryType :: "(16 word) list"
  dd_QueryClientSubnet :: "prefix list"
  dd_QueryDNSSEC :: bool
  dd_Outbound :: "string list"
  dd_MatchResponse :: "(bool \<times> string) option"
  dd_IPAcceptAny :: bool
  dd_ResponseRcode :: "int option"
  dd_ResponseAnswer :: "dns_rr option list"
  dd_ResponseNs :: "dns_rr option list"
  dd_ResponseExtra :: "dns_rr option list"
  dd_RuleSetIPCIDRAcceptEmpty :: bool

section \<open>Rule trees\<close>

text \<open>
  \<open>option.HeadlessRule\<close>, \<open>option.Rule\<close> and \<open>option.DNSRule\<close>: a type tag, the options of a default rule
  and those of a logical rule, of which the tag selects one.
\<close>

datatype (plugins only: code size) headless_rule_options =
    HeadlessRuleOpts (hr_Type: string) (hr_Default: headless_options) (hr_Logical: headless_logical_options)
and headless_logical_options =
    HeadlessLogicalOpts (hl_Mode: string) (hl_Rules: "headless_rule_options list")
      (hl_DomainMatchStrategy: domain_match_strategy) (hl_Invert: bool)

datatype (plugins only: code size) rule_options =
    RuleOpts (ru_Type: string) (ru_Default: default_rule_options) (ru_DefaultAction: rule_action_options)
      (ru_Logical: logical_rule_options)
and logical_rule_options =
    LogicalOpts (lo_Mode: string) (lo_Rules: "rule_options list")
      (lo_DomainMatchStrategy: domain_match_strategy) (lo_Invert: bool) (lo_Action: rule_action_options)

datatype (plugins only: code size) dns_rule_options =
    DNSRuleOpts (dr_Type: string) (dr_Default: dns_default_options)
      (dr_DefaultAction: dns_rule_action_options) (dr_Logical: dns_logical_rule_options)
and dns_logical_rule_options =
    DNSLogicalOpts (dlo_Mode: string) (dlo_Rules: "dns_rule_options list") (dlo_Invert: bool)
      (dlo_Action: dns_rule_action_options)

section \<open>Zero values\<close>

definition zero_match_options :: match_options where
  "zero_match_options =
     \<lparr>mo_emptyLists = False, mo_emptyIPCIDR = False, mo_Network = [], mo_Domain = [], mo_DomainSuffix = [], mo_DomainKeyword = [],
      mo_DomainRegex = [], mo_SourceIPCIDR = [], mo_IPCIDR = [], mo_SourcePort = [],
      mo_SourcePortRange = [], mo_Port = [], mo_PortRange = [], mo_ProcessName = [], mo_ProcessPath = [],
      mo_ProcessPathRegex = [], mo_PackageName = [], mo_PackageNameRegex = [], mo_NetworkType = [],
      mo_NetworkIsExpensive = False, mo_NetworkIsConstrained = False, mo_WIFISSID = [], mo_WIFIBSSID = [],
      mo_NetworkInterfaceAddress = None, mo_DefaultInterfaceAddress = [], mo_Invert = False\<rparr>"

definition zero_headless_options :: headless_options where
  "zero_headless_options =
     match_options.extend zero_match_options (headless_options.fields [] AsIS None None None [] None)"

definition zero_rule_match_options :: rule_match_options where
  "zero_rule_match_options =
     match_options.extend zero_match_options
       (rule_match_options.fields [] 0 [] [] [] [] [] False False [] [] [] None [] [] [] None None []
          False False)"

definition zero_default_rule_options :: default_rule_options where
  "zero_default_rule_options =
     rule_match_options.extend zero_rule_match_options (default_rule_options.fields [] AsIS)"

definition zero_dns_default_options :: dns_default_options where
  "zero_dns_default_options =
     rule_match_options.extend zero_rule_match_options
       (dns_default_options.fields [] [] False [] None False None [] [] [] False)"

definition zero_direct_options :: direct_options where
  "zero_direct_options =
     \<lparr>dl_BindInterface = [], dl_Inet4BindAddress = None, dl_Inet6BindAddress = None, dl_RoutingMark = 0,
      dl_ReuseAddr = False, dl_ConnectTimeout = 0, dl_TCPFastOpen = False, dl_TCPMultiPath = False,
      dl_UDPFragment = None, dl_DomainStrategy = 0, dl_FallbackDelay = 0, dl_others = 0\<rparr>"

definition zero_rule_action :: rule_action_options where
  "zero_rule_action =
     \<lparr>ra_Action = [], ra_RouteOutbound = [], ra_RouteOptions = empty_raw_route_options,
      ra_RouteOptionsOptions = empty_raw_route_options, ra_DirectOptions = zero_direct_options,
      ra_BypassOutbound = [], ra_BypassOptions = empty_raw_route_options,
      ra_RejectOptions = \<lparr>rjo_Method = [], rjo_NoDrop = False\<rparr>,
      ra_SniffOptions = \<lparr>sno_Sniffer = [], sno_Timeout = 0\<rparr>,
      ra_ResolveOptions = \<lparr>rso_Server = [], rso_Timeout = 0, rso_Strategy = 0, rso_DisableCache = False,
        rso_DisableOptimisticCache = False, rso_RewriteTTL = None, rso_ClientSubnet = None,
        rso_MatchOnly = False\<rparr>\<rparr>"

definition zero_abstract_dns_route :: abstract_dns_route_options where
  "zero_abstract_dns_route =
     \<lparr>ado_Timeout = 0, ado_Strategy = 0, ado_DisableCache = False, ado_DisableOptimisticCache = False,
      ado_RewriteTTL = None, ado_ClientSubnet = None, ado_RemoveClientSubnet = False\<rparr>"

definition zero_dns_rule_action :: dns_rule_action_options where
  "zero_dns_rule_action =
     \<lparr>da_Action = [], da_Race = False, da_RouteServer = [], da_RouteSpeculative = False,
      da_RouteOptions = zero_abstract_dns_route, da_EvaluateServer = [], da_EvaluateTag = [],
      da_EvaluateSpeculative = False, da_EvaluateOptions = zero_abstract_dns_route,
      da_RouteOptionsOptions = zero_abstract_dns_route,
      da_DNSRejectOptions = \<lparr>djo_Rcode = None, djo_Method = [], djo_NoDrop = False\<rparr>,
      da_PredefinedOptions = \<lparr>dpo_Rcode = None, dpo_Answer = [], dpo_Ns = [], dpo_Extra = []\<rparr>\<rparr>"

section \<open>Validity\<close>

text \<open>\<open>IsValid\<close> of default rules: anything but \<open>invert\<close> is set, the action included.\<close>

definition DefaultHeadlessRule_IsValid :: "headless_options \<Rightarrow> bool" where
  "DefaultHeadlessRule_IsValid r = (r \<noteq> zero_headless_options\<lparr>mo_Invert := mo_Invert r\<rparr>)"

definition DefaultRule_IsValid :: "default_rule_options \<Rightarrow> rule_action_options \<Rightarrow> bool" where
  "DefaultRule_IsValid r action =
     (\<not> (r = zero_default_rule_options\<lparr>mo_Invert := mo_Invert r\<rparr> \<and> action = zero_rule_action))"

definition DefaultDNSRule_IsValid :: "dns_default_options \<Rightarrow> dns_rule_action_options \<Rightarrow> bool" where
  "DefaultDNSRule_IsValid r action =
     (\<not> (r = zero_dns_default_options\<lparr>mo_Invert := mo_Invert r\<rparr> \<and> action = zero_dns_rule_action))"

text \<open>
  \<open>IsValid\<close> of rule trees; the method panics on an unknown type. \<open>Rule\<close> and \<open>DNSRule\<close>, unlike
  \<open>HeadlessRule\<close>, know only the spelt-out type \<open>default\<close>.
\<close>

fun HeadlessRule_IsValid :: "headless_rule_options \<Rightarrow> bool res"
  and LogicalHeadlessRule_IsValid :: "headless_logical_options \<Rightarrow> bool res"
  and headless_all_valid :: "headless_rule_options list \<Rightarrow> bool res" where
  "HeadlessRule_IsValid (HeadlessRuleOpts t d l) =
     (if t = ''default'' \<or> t = [] then Inr (DefaultHeadlessRule_IsValid d)
      else if t = ''logical'' then LogicalHeadlessRule_IsValid l
      else Inl (E_Panic (''unknown rule type: '' @ t)))"
| "LogicalHeadlessRule_IsValid (HeadlessLogicalOpts mode rules s neg) =
     (if rules = [] then Inr False else headless_all_valid rules)"
| "headless_all_valid [] = Inr True"
| "headless_all_valid (r # rs) =
     rbind (HeadlessRule_IsValid r) (\<lambda>ok. if ok then headless_all_valid rs else Inr False)"

fun Rule_IsValid :: "rule_options \<Rightarrow> bool res"
  and LogicalRule_IsValid :: "logical_rule_options \<Rightarrow> bool res"
  and rule_all_valid :: "rule_options list \<Rightarrow> bool res" where
  "Rule_IsValid (RuleOpts t d a l) =
     (if t = ''default'' then Inr (DefaultRule_IsValid d a)
      else if t = ''logical'' then LogicalRule_IsValid l
      else Inl (E_Panic (''unknown rule type: '' @ t)))"
| "LogicalRule_IsValid (LogicalOpts mode rules s neg a) =
     (if rules = [] then Inr False else rule_all_valid rules)"
| "rule_all_valid [] = Inr True"
| "rule_all_valid (r # rs) =
     rbind (Rule_IsValid r) (\<lambda>ok. if ok then rule_all_valid rs else Inr False)"

fun DNSRule_IsValid :: "dns_rule_options \<Rightarrow> bool res"
  and LogicalDNSRule_IsValid :: "dns_logical_rule_options \<Rightarrow> bool res"
  and dns_all_valid :: "dns_rule_options list \<Rightarrow> bool res" where
  "DNSRule_IsValid (DNSRuleOpts t d a l) =
     (if t = ''default'' then Inr (DefaultDNSRule_IsValid d a)
      else if t = ''logical'' then LogicalDNSRule_IsValid l
      else Inl (E_Panic (''unknown DNS rule type: '' @ t)))"
| "LogicalDNSRule_IsValid (DNSLogicalOpts mode rules neg a) =
     (if rules = [] then Inr False else dns_all_valid rules)"
| "dns_all_valid [] = Inr True"
| "dns_all_valid (r # rs) =
     rbind (DNSRule_IsValid r) (\<lambda>ok. if ok then dns_all_valid rs else Inr False)"

section \<open>Nested rules have no action\<close>

definition ruleHasConfiguredAction :: "rule_options \<Rightarrow> bool" where
  "ruleHasConfiguredAction r =
     (if ru_Type r = [] \<or> ru_Type r = ''default'' then ru_DefaultAction r \<noteq> zero_rule_action
      else if ru_Type r = ''logical'' then lo_Action (ru_Logical r) \<noteq> zero_rule_action
      else False)"

definition dnsRuleHasConfiguredAction :: "dns_rule_options \<Rightarrow> bool" where
  "dnsRuleHasConfiguredAction r =
     (if dr_Type r = [] \<or> dr_Type r = ''default'' then dr_DefaultAction r \<noteq> zero_dns_rule_action
      else if dr_Type r = ''logical'' then dlo_Action (dr_Logical r) \<noteq> zero_dns_rule_action
      else False)"

definition RouteRuleActionNestedUnsupported :: error where
  "RouteRuleActionNestedUnsupported = E_New ''rule action is not supported in nested rules''"

definition DNSRuleActionNestedUnsupported :: error where
  "DNSRuleActionNestedUnsupported = E_New ''DNS rule action is not supported in nested rules''"

text \<open>\<open>validateNoNestedRuleActions\<close>; the loop over the sub rules runs from index \<open>i\<close> on.\<close>

fun validateNoNestedRuleActions :: "rule_options \<Rightarrow> bool \<Rightarrow> error option"
  and validate_logical :: "logical_rule_options \<Rightarrow> error option"
  and validate_sub_rules :: "nat \<Rightarrow> rule_options list \<Rightarrow> error option" where
  "validateNoNestedRuleActions (RuleOpts t d a l) nested =
     (if nested \<and> ruleHasConfiguredAction (RuleOpts t d a l) then Some RouteRuleActionNestedUnsupported
      else if t \<noteq> ''logical'' then None
      else validate_logical l)"
| "validate_logical (LogicalOpts mode rules s neg a) = validate_sub_rules 0 rules"
| "validate_sub_rules i [] = None"
| "validate_sub_rules i (r # rs) =
     (case validateNoNestedRuleActions r True of
        Some e \<Rightarrow> Some (E_CauseAt e ''sub rule['' i)
      | None \<Rightarrow> validate_sub_rules (Suc i) rs)"

fun validateNoNestedDNSRuleActions :: "dns_rule_options \<Rightarrow> bool \<Rightarrow> error option"
  and validate_dns_logical :: "dns_logical_rule_options \<Rightarrow> error option"
  and validate_dns_sub_rules :: "nat \<Rightarrow> dns_rule_options list \<Rightarrow> error option" where
  "validateNoNestedDNSRuleActions (DNSRuleOpts t d a l) nested =
     (if nested \<and> dnsRuleHasConfiguredAction (DNSRuleOpts t d a l) then Some DNSRuleActionNestedUnsupported
      else if t \<noteq> ''logical'' then None
      else validate_dns_logical l)"
| "validate_dns_logical (DNSLogicalOpts mode rules neg a) = validate_dns_sub_rules 0 rules"
| "validate_dns_sub_rules i [] = None"
| "validate_dns_sub_rules i (r # rs) =
     (case validateNoNestedDNSRuleActions r True of
        Some e \<Rightarrow> Some (E_CauseAt e ''sub rule['' i)
      | None \<Rightarrow> validate_dns_sub_rules (Suc i) rs)"

end
