(* ===== verification/Rule_Build.thy ===== *)
theory Rule_Build
  imports Rule_Options
begin

text \<open>
  Rule constructors: \<open>route/rule/rule_default.go\<close>, \<open>rule_headless.go\<close> and \<open>rule_dns.go\<close>. A constructor
  is a sequence of steps on the rule under construction, one per condition of the options; a step
  that fails ends the construction with its error. Each block of a constructor is a list of steps.
\<close>

section \<open>The rule under construction\<close>

record rule_builder =
  rb_items :: "rule_item list"
  rb_sourceAddressItems :: "rule_item list"
  rb_sourcePortItems :: "rule_item list"
  rb_destinationAddressItems :: "rule_item list"
  rb_destinationIPCIDRItems :: "rule_item list"
  rb_destinationPortItems :: "rule_item list"
  rb_allItems :: "any_item list"
  rb_ruleSetItem :: "rule_set_item option"

definition empty_builder :: rule_builder where
  "empty_builder =
     \<lparr>rb_items = [], rb_sourceAddressItems = [], rb_sourcePortItems = [], rb_destinationAddressItems = [],
      rb_destinationIPCIDRItems = [], rb_destinationPortItems = [], rb_allItems = [],
      rb_ruleSetItem = None\<rparr>"

datatype builder_group =
  Items | SourceAddress | SourcePort | DestinationAddress | DestinationIPCIDR | DestinationPort

fun append_item :: "builder_group \<Rightarrow> rule_item \<Rightarrow> rule_builder \<Rightarrow> rule_builder" where
  "append_item Items it b = b\<lparr>rb_items := rb_items b @ [it], rb_allItems := rb_allItems b @ [PlainItem it]\<rparr>"
| "append_item SourceAddress it b =
     b\<lparr>rb_sourceAddressItems := rb_sourceAddressItems b @ [it], rb_allItems := rb_allItems b @ [PlainItem it]\<rparr>"
| "append_item SourcePort it b =
     b\<lparr>rb_sourcePortItems := rb_sourcePortItems b @ [it], rb_allItems := rb_allItems b @ [PlainItem it]\<rparr>"
| "append_item DestinationAddress it b =
     b\<lparr>rb_destinationAddressItems := rb_destinationAddressItems b @ [it],
       rb_allItems := rb_allItems b @ [PlainItem it]\<rparr>"
| "append_item DestinationIPCIDR it b =
     b\<lparr>rb_destinationIPCIDRItems := rb_destinationIPCIDRItems b @ [it],
       rb_allItems := rb_allItems b @ [PlainItem it]\<rparr>"
| "append_item DestinationPort it b =
     b\<lparr>rb_destinationPortItems := rb_destinationPortItems b @ [it],
       rb_allItems := rb_allItems b @ [PlainItem it]\<rparr>"

text \<open>
  A step: under a condition, make an item and append it to its group and to \<open>allItems\<close>; return an
  error; or set the rule-set item.
\<close>

datatype build_step =
    Add builder_group bool "rule_item res"
  | Fail bool error
  | AddRuleSet bool rule_set_item

fun run_step :: "build_step \<Rightarrow> rule_builder \<Rightarrow> rule_builder res" where
  "run_step (Add g c item) b = (if c then rbind item (\<lambda>it. Inr (append_item g it b)) else Inr b)"
| "run_step (Fail c e) b = (if c then Inl e else Inr b)"
| "run_step (AddRuleSet c s) b =
     Inr (if c then b\<lparr>rb_ruleSetItem := Some s, rb_allItems := rb_allItems b @ [SetItemRef]\<rparr> else b)"

fun run_steps :: "build_step list \<Rightarrow> rule_builder \<Rightarrow> rule_builder res" where
  "run_steps [] b = Inr b"
| "run_steps (s # ss) b = rbind (run_step s b) (run_steps ss)"

definition build_drule :: "rule_builder \<Rightarrow> 64 word \<Rightarrow> bool \<Rightarrow> drule" where
  "build_drule b count neg =
     DRule (rb_items b) (rb_sourceAddressItems b) (rb_sourcePortItems b) (rb_destinationAddressItems b)
       (rb_destinationIPCIDRItems b) (rb_destinationPortItems b) (rb_allItems b) (rb_ruleSetItem b) count neg"

text \<open>
  What the context provides: the router's default domain match strategy, when there is a router, and
  whether there is a network manager.
\<close>

record build_env =
  be_Router :: "domain_match_strategy option"
  be_NetworkManager :: bool

definition effective_strategy :: "build_env \<Rightarrow> domain_match_strategy \<Rightarrow> domain_match_strategy" where
  "effective_strategy B s =
     (case be_Router B of None \<Rightarrow> s | Some d \<Rightarrow> if s = AsIS then d else s)"

text \<open>\<open>options.M != nil && options.M.Size() > 0\<close>, and the entries of the map.\<close>

definition map_given :: "('k \<times> 'v) list option \<Rightarrow> bool" where
  "map_given m = (case m of None \<Rightarrow> False | Some es \<Rightarrow> es \<noteq> [])"

definition map_entries :: "('k \<times> 'v) list option \<Rightarrow> ('k \<times> 'v) list" where
  "map_entries m = (case m of None \<Rightarrow> [] | Some es \<Rightarrow> es)"

definition NewRuleSetItem :: "string list \<Rightarrow> bool \<Rightarrow> bool \<Rightarrow> rule_set_item" where
  "NewRuleSetItem tags matchSource acceptEmpty = RuleSetItem tags [] matchSource acceptEmpty"

definition removed_geosite :: error where
  "removed_geosite = E_New ''geosite database is deprecated in sing-box 1.8.0 and removed in sing-box 1.12.0''"

definition removed_geoip :: error where
  "removed_geoip = E_New ''geoip database is deprecated in sing-box 1.8.0 and removed in sing-box 1.12.0''"

definition removed_match_source :: error where
  "removed_match_source =
     E_New ''rule_set_ipcidr_match_source is deprecated in sing-box 1.10.0 and removed in sing-box 1.11.0''"

section \<open>Headless rules\<close>

text \<open>An item from text options, or else one from a binary rule-set's matcher.\<close>

definition add_or_raw :: "builder_group \<Rightarrow> bool \<Rightarrow> rule_item res \<Rightarrow> rule_item option \<Rightarrow> build_step" where
  "add_or_raw g c item raw =
     (if c then Add g True item
      else case raw of None \<Rightarrow> Add g False item | Some it \<Rightarrow> Add g True (Inr it))"

definition headless_domain_steps :: "rule_env \<Rightarrow> domain_match_strategy \<Rightarrow> headless_options \<Rightarrow> build_step list" where
  "headless_domain_steps E st opts =
     [Add Items (ho_QueryType opts \<noteq> []) (Inr (NewQueryTypeItem (ho_QueryType opts))),
      Add Items (mo_Network opts \<noteq> []) (Inr (NewNetworkItem (mo_Network opts))),
      add_or_raw DestinationAddress (mo_Domain opts \<noteq> [] \<or> mo_DomainSuffix opts \<noteq> [])
        (NewDomainItem (mo_Domain opts) (mo_DomainSuffix opts) st)
        (map_option (\<lambda>dm. NewRawDomainItem dm st) (ho_DomainMatcher opts)),
      Add DestinationAddress (mo_DomainKeyword opts \<noteq> []) (Inr (NewDomainKeywordItem (mo_DomainKeyword opts) st)),
      Add DestinationAddress (mo_DomainRegex opts \<noteq> [])
        (cause ''domain_regex'' (NewDomainRegexItem E (mo_DomainRegex opts) st))]"

definition headless_address_steps :: "rule_env \<Rightarrow> headless_options \<Rightarrow> build_step list" where
  "headless_address_steps E opts =
     [add_or_raw SourceAddress (mo_SourceIPCIDR opts \<noteq> [])
        (cause ''source_ip_cidr'' (NewIPCIDRItem E True (mo_SourceIPCIDR opts)))
        (map_option (NewRawIPCIDRItem True) (ho_SourceIPSet opts)),
      add_or_raw DestinationIPCIDR (mo_IPCIDR opts \<noteq> [])
        (cause ''ipcidr'' (NewIPCIDRItem E False (mo_IPCIDR opts)))
        (map_option (NewRawIPCIDRItem False) (ho_IPSet opts)),
      Add SourcePort (mo_SourcePort opts \<noteq> []) (Inr (NewPortItem True (mo_SourcePort opts))),
      Add SourcePort (mo_SourcePortRange opts \<noteq> [])
        (cause ''source_port_range'' (NewPortRangeItem True (mo_SourcePortRange opts))),
      Add DestinationPort (mo_Port opts \<noteq> []) (Inr (NewPortItem False (mo_Port opts))),
      Add DestinationPort (mo_PortRange opts \<noteq> [])
        (cause ''port_range'' (NewPortRangeItem False (mo_PortRange opts)))]"

definition headless_process_steps :: "rule_env \<Rightarrow> headless_options \<Rightarrow> build_step list" where
  "headless_process_steps E opts =
     [Add Items (mo_ProcessName opts \<noteq> []) (Inr (NewProcessItem (mo_ProcessName opts))),
      Add Items (mo_ProcessPath opts \<noteq> []) (Inr (NewProcessPathItem (mo_ProcessPath opts))),
      Add Items (mo_ProcessPathRegex opts \<noteq> [])
        (cause ''process_path_regex'' (NewProcessPathRegexItem E (mo_ProcessPathRegex opts))),
      Add Items (mo_PackageName opts \<noteq> []) (Inr (NewPackageNameItem (mo_PackageName opts))),
      Add Items (mo_PackageNameRegex opts \<noteq> [])
        (cause ''package_name_regex'' (NewPackageNameRegexItem E (mo_PackageNameRegex opts)))]"

definition headless_network_steps ::
  "rule_env \<Rightarrow> bool \<Rightarrow> domain_match_strategy \<Rightarrow> headless_options \<Rightarrow> build_step list" where
  "headless_network_steps E nm st opts =
     [Add Items (nm \<and> mo_NetworkType opts \<noteq> []) (Inr (NewNetworkTypeItem (mo_NetworkType opts))),
      Add Items (nm \<and> mo_NetworkIsExpensive opts) (Inr NewNetworkIsExpensiveItem),
      Add Items (nm \<and> mo_NetworkIsConstrained opts) (Inr NewNetworkIsConstrainedItem),
      Add Items (nm \<and> mo_WIFISSID opts \<noteq> []) (Inr (NewWIFISSIDItem (mo_WIFISSID opts))),
      Add Items (nm \<and> mo_WIFIBSSID opts \<noteq> []) (Inr (NewWIFIBSSIDItem E (mo_WIFIBSSID opts))),
      Add Items (nm \<and> map_given (mo_NetworkInterfaceAddress opts))
        (Inr (NewNetworkInterfaceAddressItem (map_entries (mo_NetworkInterfaceAddress opts)))),
      Add Items (nm \<and> mo_DefaultInterfaceAddress opts \<noteq> [])
        (Inr (NewDefaultInterfaceAddressItem (mo_DefaultInterfaceAddress opts))),
      add_or_raw DestinationAddress (ho_AdGuardDomain opts \<noteq> [])
        (Inr (NewAdGuardDomainItem (ho_AdGuardDomain opts) st))
        (map_option (\<lambda>am. NewRawAdGuardDomainItem am st) (ho_AdGuardDomainMatcher opts))]"

definition headless_ruleCount :: "rule_builder \<Rightarrow> 64 word" where
  "headless_ruleCount b =
     (if length (rb_allItems b) = length (rb_destinationAddressItems b) + length (rb_destinationIPCIDRItems b)
      then of_nat (length (rb_destinationAddressItems b) + length (rb_destinationIPCIDRItems b))
      else if length (rb_allItems b) = length (rb_sourceAddressItems b)
      then of_nat (length (rb_sourceAddressItems b))
      else if length (rb_allItems b) = length (rb_sourcePortItems b)
      then of_nat (length (rb_sourcePortItems b))
      else if length (rb_allItems b) = length (rb_destinationPortItems b)
      then of_nat (length (rb_destinationPortItems b))
      else 1)"

definition NewDefaultHeadlessRule :: "rule_env \<Rightarrow> build_env \<Rightarrow> headless_options \<Rightarrow> drule res" where
  "NewDefaultHeadlessRule E B opts =
     (let st = effective_strategy B (ho_DomainMatchStrategy opts) in
      rbind (run_steps (headless_domain_steps E st opts @ headless_address_steps E opts @
                        headless_process_steps E opts @
                        headless_network_steps E (be_NetworkManager B) st opts) empty_builder)
        (\<lambda>b. Inr (build_drule b (headless_ruleCount b) (mo_Invert opts))))"

definition parse_mode :: "string \<Rightarrow> logical_mode res" where
  "parse_mode mode =
     (if mode = ''and'' then Inr LogicalTypeAnd else if mode = ''or'' then Inr LogicalTypeOr
      else Inl (E_New (''unknown logical mode: '' @ mode)))"

text \<open>A sub rule without a strategy of its own takes over the one of the logical rule.\<close>

fun headless_inherit :: "domain_match_strategy \<Rightarrow> headless_rule_options \<Rightarrow> headless_rule_options" where
  "headless_inherit st (HeadlessRuleOpts t d (HeadlessLogicalOpts mode rules s neg)) =
     (if t = ''logical''
      then HeadlessRuleOpts t d (HeadlessLogicalOpts mode rules (if s = AsIS then st else s) neg)
      else HeadlessRuleOpts t
             (if ho_DomainMatchStrategy d = AsIS then d\<lparr>ho_DomainMatchStrategy := st\<rparr> else d)
             (HeadlessLogicalOpts mode rules s neg))"

lemma size_headless_inherit [simp]: "size (headless_inherit st r) = size r"
  by (induction st r rule: headless_inherit.induct) simp

text \<open>\<open>NewHeadlessRule\<close>, \<open>NewLogicalHeadlessRule\<close> and its loop over the sub rules from index \<open>i\<close> on.\<close>

function NewHeadlessRule :: "rule_env \<Rightarrow> build_env \<Rightarrow> headless_rule_options \<Rightarrow> hrule res"
  and NewLogicalHeadlessRule :: "rule_env \<Rightarrow> build_env \<Rightarrow> headless_logical_options \<Rightarrow> hrule res"
  and headless_sub_rules ::
    "rule_env \<Rightarrow> build_env \<Rightarrow> domain_match_strategy \<Rightarrow> nat \<Rightarrow> headless_rule_options list \<Rightarrow> hrule list res"
where
  "NewHeadlessRule E B (HeadlessRuleOpts t d l) =
     (if t = [] \<or> t = ''default'' then
        (if \<not> DefaultHeadlessRule_IsValid d then Inl (E_New ''missing conditions'')
         else rbind (NewDefaultHeadlessRule E B d) (\<lambda>r. Inr (DefaultHeadlessRule r)))
      else if t = ''logical'' then
        rbind (LogicalHeadlessRule_IsValid l) (\<lambda>ok.
          if \<not> ok then Inl (E_New ''missing conditions'') else NewLogicalHeadlessRule E B l)
      else Inl (E_New (''unknown rule type: '' @ t)))"
| "NewLogicalHeadlessRule E B (HeadlessLogicalOpts mode rules s neg) =
     rbind (parse_mode mode) (\<lambda>mode'.
       rbind (headless_sub_rules E B (effective_strategy B s) 0 rules)
         (\<lambda>rs. Inr (LogicalRule rs mode' neg 1)))"
| "headless_sub_rules E B st i [] = Inr []"
| "headless_sub_rules E B st i (r # rs) =
     (case NewHeadlessRule E B (headless_inherit st r) of
        Inl e \<Rightarrow> Inl (E_CauseAt e ''sub rule['' i)
      | Inr rule \<Rightarrow> rbind (headless_sub_rules E B st (Suc i) rs) (\<lambda>rules. Inr (rule # rules)))"
  by pat_completeness auto
termination
  by (relation "measure (\<lambda>x. case x of
        Inl (E, B, r) \<Rightarrow> size r
      | Inr (Inl (E, B, l)) \<Rightarrow> size l
      | Inr (Inr (E, B, st, i, rs)) \<Rightarrow> size_list size rs)") auto

section \<open>Route rules\<close>

text \<open>A route rule: what it matches, its action, and the flag \<open>ChangeStatus\<close> toggles.\<close>

record route_rule =
  rt_Rule :: hrule
  rt_Action :: "rule_action option"
  rt_disabled :: bool

definition new_route_rule :: "hrule \<Rightarrow> rule_action option \<Rightarrow> route_rule" where
  "new_route_rule r a = \<lparr>rt_Rule = r, rt_Action = a, rt_disabled = False\<rparr>"

definition ChangeStatus :: "route_rule \<Rightarrow> route_rule" where
  "ChangeStatus r = r\<lparr>rt_disabled := \<not> rt_disabled r\<rparr>"

definition ip_version_steps :: "int \<Rightarrow> build_step list" where
  "ip_version_steps v =
     [Fail (0 < v \<and> v \<noteq> 4 \<and> v \<noteq> 6) (E_New (''invalid ip version: '' @ int_string v)),
      Add Items (0 < v) (Inr (NewIPVersionItem (v = 6)))]"

definition default_basic_steps :: "default_rule_options \<Rightarrow> build_step list" where
  "default_basic_steps opts =
     Add Items (mo_Inbound opts \<noteq> []) (Inr (NewInboundRule (mo_Inbound opts))) #
     ip_version_steps (mo_IPVersion opts) @
     [Add Items (mo_Network opts \<noteq> []) (Inr (NewNetworkItem (mo_Network opts))),
      Add Items (mo_AuthUser opts \<noteq> []) (Inr (NewAuthUserItem (mo_AuthUser opts))),
      Add Items (mo_Protocol opts \<noteq> []) (Inr (NewProtocolItem (mo_Protocol opts))),
      Add Items (do_Client opts \<noteq> []) (Inr (NewClientItem (do_Client opts)))]"

definition default_domain_steps ::
  "rule_env \<Rightarrow> domain_match_strategy \<Rightarrow> default_rule_options \<Rightarrow> build_step list" where
  "default_domain_steps E st opts =
     [Add DestinationAddress (mo_Domain opts \<noteq> [] \<or> mo_DomainSuffix opts \<noteq> [])
        (NewDomainItem (mo_Domain opts) (mo_DomainSuffix opts) st),
      Add DestinationAddress (mo_DomainKeyword opts \<noteq> []) (Inr (NewDomainKeywordItem (mo_DomainKeyword opts) st)),
      Add DestinationAddress (mo_DomainRegex opts \<noteq> []) (NewDomainRegexItem E (mo_DomainRegex opts) st),
      Fail (mo_Geosite opts \<noteq> []) removed_geosite,
      Fail (mo_SourceGeoIP opts \<noteq> []) removed_geoip,
      Fail (mo_GeoIP opts \<noteq> []) removed_geoip]"

definition default_address_steps :: "rule_env \<Rightarrow> default_rule_options \<Rightarrow> build_step list" where
  "default_address_steps E opts =
     [Add SourceAddress (mo_SourceIPCIDR opts \<noteq> [])
        (cause ''source_ip_cidr'' (NewIPCIDRItem E True (mo_SourceIPCIDR opts))),
      Add SourceAddress (mo_SourceIPIsPrivate opts) (Inr (NewIPIsPrivateItem True)),
      Add DestinationIPCIDR (mo_IPCIDR opts \<noteq> [])
        (cause ''ipcidr'' (NewIPCIDRItem E False (mo_IPCIDR opts))),
      Add DestinationIPCIDR (mo_IPIsPrivate opts) (Inr (NewIPIsPrivateItem False)),
      Add SourcePort (mo_SourcePort opts \<noteq> []) (Inr (NewPortItem True (mo_SourcePort opts))),
      Add SourcePort (mo_SourcePortRange opts \<noteq> [])
        (cause ''source_port_range'' (NewPortRangeItem True (mo_SourcePortRange opts))),
      Add DestinationPort (mo_Port opts \<noteq> []) (Inr (NewPortItem False (mo_Port opts))),
      Add DestinationPort (mo_PortRange opts \<noteq> [])
        (cause ''port_range'' (NewPortRangeItem False (mo_PortRange opts)))]"

definition default_process_steps :: "rule_env \<Rightarrow> default_rule_options \<Rightarrow> build_step list" where
  "default_process_steps E opts =
     [Add Items (mo_ProcessName opts \<noteq> []) (Inr (NewProcessItem (mo_ProcessName opts))),
      Add Items (mo_ProcessPath opts \<noteq> []) (Inr (NewProcessPathItem (mo_ProcessPath opts))),
      Add Items (mo_ProcessPathRegex opts \<noteq> [])
        (cause ''process_path_regex'' (NewProcessPathRegexItem E (mo_ProcessPathRegex opts))),
      Add Items (mo_PackageName opts \<noteq> []) (Inr (NewPackageNameItem (mo_PackageName opts))),
      Add Items (mo_PackageNameRegex opts \<noteq> [])
        (cause ''package_name_regex'' (NewPackageNameRegexItem E (mo_PackageNameRegex opts))),
      Add Items (mo_User opts \<noteq> []) (Inr (NewUserItem (mo_User opts))),
      Add Items (mo_UserID opts \<noteq> []) (Inr (NewUserIDItem (mo_UserID opts))),
      Add Items (mo_ClashMode opts \<noteq> []) (Inr (NewClashModeItem (mo_ClashMode opts)))]"

definition default_network_steps :: "rule_env \<Rightarrow> default_rule_options \<Rightarrow> build_step list" where
  "default_network_steps E opts =
     [Add Items (mo_NetworkType opts \<noteq> []) (Inr (NewNetworkTypeItem (mo_NetworkType opts))),
      Add Items (mo_NetworkIsExpensive opts) (Inr NewNetworkIsExpensiveItem),
      Add Items (mo_NetworkIsConstrained opts) (Inr NewNetworkIsConstrainedItem),
      Add Items (mo_WIFISSID opts \<noteq> []) (Inr (NewWIFISSIDItem (mo_WIFISSID opts))),
      Add Items (mo_WIFIBSSID opts \<noteq> []) (Inr (NewWIFIBSSIDItem E (mo_WIFIBSSID opts))),
      Add Items (map_given (mo_InterfaceAddress opts))
        (Inr (NewInterfaceAddressItem (map_entries (mo_InterfaceAddress opts)))),
      Add Items (map_given (mo_NetworkInterfaceAddress opts))
        (Inr (NewNetworkInterfaceAddressItem (map_entries (mo_NetworkInterfaceAddress opts)))),
      Add Items (mo_DefaultInterfaceAddress opts \<noteq> [])
        (Inr (NewDefaultInterfaceAddressItem (mo_DefaultInterfaceAddress opts)))]"

definition default_tail_steps ::
  "rule_env \<Rightarrow> domain_match_strategy \<Rightarrow> default_rule_options \<Rightarrow> build_step list" where
  "default_tail_steps E st opts =
     [Add Items (mo_SourceMACAddress opts \<noteq> []) (Inr (NewSourceMACAddressItem (mo_SourceMACAddress opts))),
      Add Items (mo_SourceHostname opts \<noteq> []) (Inr (NewSourceHostnameItem (mo_SourceHostname opts))),
      Add Items (mo_PreferredBy opts \<noteq> []) (Inr (NewPreferredByItem (mo_PreferredBy opts) st)),
      Add Items (map_given (mo_DNSServerAddress opts))
        (Inr (NewDNSServerAddressItem (map_entries (mo_DNSServerAddress opts)))),
      Add Items (map_given (mo_DNSSearchDomain opts))
        (Inr (NewDNSSearchDomainItem E (map_entries (mo_DNSSearchDomain opts)))),
      Fail (mo_RuleSet opts \<noteq> [] \<and> mo_Deprecated_RulesetIPCIDRMatchSource opts) removed_match_source,
      AddRuleSet (mo_RuleSet opts \<noteq> [])
        (NewRuleSetItem (mo_RuleSet opts) (mo_RuleSetIPCIDRMatchSource opts) False)]"

definition NewDefaultRule ::
  "rule_env \<Rightarrow> action_env \<Rightarrow> build_env \<Rightarrow> default_rule_options \<Rightarrow> rule_action_options \<Rightarrow> route_rule res" where
  "NewDefaultRule E A B opts act =
     rbind (cause ''action'' (NewRuleAction A act)) (\<lambda>action.
       let st = effective_strategy B (do_DomainMatchStrategy opts) in
       rbind (run_steps (default_basic_steps opts @ default_domain_steps E st opts @
                         default_address_steps E opts @ default_process_steps E opts @
                         default_network_steps E opts @ default_tail_steps E st opts) empty_builder)
         (\<lambda>b. Inr (new_route_rule (DefaultRule (build_drule b 0 (mo_Invert opts))) action)))"

fun rule_inherit :: "domain_match_strategy \<Rightarrow> rule_options \<Rightarrow> rule_options" where
  "rule_inherit st (RuleOpts t d a (LogicalOpts mode rules s neg la)) =
     (if t = ''logical''
      then RuleOpts t d a (LogicalOpts mode rules (if s = AsIS then st else s) neg la)
      else RuleOpts t
             (if do_DomainMatchStrategy d = AsIS then d\<lparr>do_DomainMatchStrategy := st\<rparr> else d) a
             (LogicalOpts mode rules s neg la))"

lemma size_rule_inherit [simp]: "size (rule_inherit st r) = size r"
  by (induction st r rule: rule_inherit.induct) simp

text \<open>An action that routes needs an outbound, when the caller asks for the check.\<close>

definition outbound_missing :: "rule_action_options \<Rightarrow> bool \<Rightarrow> bool" where
  "outbound_missing act checkOutbound =
     ((ra_Action act = [] \<or> ra_Action act = ''route'') \<and> ra_RouteOutbound act = [] \<and> checkOutbound)"

function NewRule ::
    "rule_env \<Rightarrow> action_env \<Rightarrow> build_env \<Rightarrow> rule_options \<Rightarrow> bool \<Rightarrow> route_rule res"
  and NewLogicalRule :: "rule_env \<Rightarrow> action_env \<Rightarrow> build_env \<Rightarrow> logical_rule_options \<Rightarrow> route_rule res"
  and new_sub_rules ::
    "rule_env \<Rightarrow> action_env \<Rightarrow> build_env \<Rightarrow> domain_match_strategy \<Rightarrow> nat \<Rightarrow> rule_options list \<Rightarrow> hrule list res"
where
  "NewRule E A B (RuleOpts t d a l) checkOutbound =
     (if t = [] \<or> t = ''default'' then
        (if \<not> DefaultRule_IsValid d a then Inl (E_New ''missing conditions'')
         else if outbound_missing a checkOutbound then Inl (E_New ''missing outbound field'')
         else NewDefaultRule E A B d a)
      else if t = ''logical'' then
        rbind (LogicalRule_IsValid l) (\<lambda>ok.
          if \<not> ok then Inl (E_New ''missing conditions'')
          else if outbound_missing (lo_Action l) checkOutbound then Inl (E_New ''missing outbound field'')
          else NewLogicalRule E A B l)
      else Inl (E_New (''unknown rule type: '' @ t)))"
| "NewLogicalRule E A B (LogicalOpts mode rules s neg act) =
     rbind (cause ''action'' (NewRuleAction A act)) (\<lambda>action.
       rbind (parse_mode mode) (\<lambda>mode'.
         rbind (new_sub_rules E A B (effective_strategy B s) 0 rules)
           (\<lambda>rs. Inr (new_route_rule (LogicalRule rs mode' neg 0) action))))"
| "new_sub_rules E A B st i [] = Inr []"
| "new_sub_rules E A B st i (r # rs) =
     (case validateNoNestedRuleActions r True of
        Some e \<Rightarrow> Inl (E_CauseAt e ''sub rule['' i)
      | None \<Rightarrow>
          (case NewRule E A B (rule_inherit st r) False of
             Inl e \<Rightarrow> Inl (E_CauseAt e ''sub rule['' i)
           | Inr rule \<Rightarrow> rbind (new_sub_rules E A B st (Suc i) rs) (\<lambda>rules. Inr (rt_Rule rule # rules))))"
  by pat_completeness auto
termination
  by (relation "measure (\<lambda>x. case x of
        Inl (E, A, B, r, c) \<Rightarrow> size r
      | Inr (Inl (E, A, B, l)) \<Rightarrow> size l
      | Inr (Inr (E, A, B, st, i, rs)) \<Rightarrow> size_list size rs)") auto

end
