(* ===== verification/Rule_Build_DNS.thy ===== *)
theory Rule_Build_DNS
  imports Rule_Build
begin

text \<open>
  DNS rule constructors (\<open>route/rule/rule_dns.go\<close>). Domains of DNS rules always use the strategy
  \<open>AsIS\<close>. Reporting a deprecated option only logs.
\<close>

section \<open>Default DNS rules\<close>

text \<open>
  A DNS rule: what it matches, its action, the tags of the responses it reads and whether it reads
  the unnamed one, whether it races, and the flag \<open>ChangeStatus\<close> toggles.
\<close>

record dns_rule =
  dn_Rule :: hrule
  dn_Action :: "rule_action option"
  dn_matchResponseTags :: "string list"
  dn_matchResponseAnonymous :: bool
  dn_race :: bool
  dn_disabled :: bool

definition IsEnabled :: "(bool \<times> string) option \<Rightarrow> bool" where
  "IsEnabled m = (case m of None \<Rightarrow> False | Some (enabled, tag) \<Rightarrow> enabled)"

definition ResponseTag :: "(bool \<times> string) option \<Rightarrow> string" where
  "ResponseTag m = (case m of None \<Rightarrow> [] | Some (enabled, tag) \<Rightarrow> tag)"

definition validateDNSRuleAction :: "dns_rule_action_options \<Rightarrow> error option" where
  "validateDNSRuleAction action =
     (if da_Action action = ''reject'' \<and> djo_Method (da_DNSRejectOptions action) = ''reply''
      then Some (E_New ''reject method `reply` is not supported for DNS rules'')
      else
        let routeOptions =
          (if da_Action action = [] \<or> da_Action action = ''route'' then da_RouteOptions action
           else if da_Action action = ''evaluate'' then da_EvaluateOptions action
           else if da_Action action = ''route-options'' then da_RouteOptionsOptions action
           else zero_abstract_dns_route)
        in if ado_RemoveClientSubnet routeOptions \<and> ado_ClientSubnet routeOptions \<noteq> None
           then Some (E_New ''`client_subnet` and `remove_client_subnet` are mutually exclusive'')
           else if da_Race action then
             (if \<not> List.member [[], ''route'', ''respond'', ''reject'', ''predefined''] (da_Action action)
              then Some (E_New ''`race` requires a final action'')
              else if da_RouteSpeculative action
              then Some (E_New ''`race` and `speculative` cannot be combined on the same rule'')
              else None)
           else None)"

definition dns_basic_steps :: "dns_default_options \<Rightarrow> build_step list" where
  "dns_basic_steps opts =
     Add Items (mo_Inbound opts \<noteq> []) (Inr (NewInboundRule (mo_Inbound opts))) #
     ip_version_steps (mo_IPVersion opts) @
     [Add Items (dd_QueryType opts \<noteq> []) (Inr (NewQueryTypeItem (dd_QueryType opts))),
      Add Items (dd_QueryClientSubnet opts \<noteq> []) (Inr (NewQueryClientSubnetItem (dd_QueryClientSubnet opts))),
      Add Items (dd_QueryDNSSEC opts) (Inr NewQueryDNSSECItem),
      Add Items (mo_Network opts \<noteq> []) (Inr (NewNetworkItem (mo_Network opts))),
      Add Items (mo_AuthUser opts \<noteq> []) (Inr (NewAuthUserItem (mo_AuthUser opts))),
      Add Items (mo_Protocol opts \<noteq> []) (Inr (NewProtocolItem (mo_Protocol opts)))]"

definition dns_domain_steps :: "rule_env \<Rightarrow> dns_default_options \<Rightarrow> build_step list" where
  "dns_domain_steps E opts =
     [Add DestinationAddress (mo_Domain opts \<noteq> [] \<or> mo_DomainSuffix opts \<noteq> [])
        (NewDomainItem (mo_Domain opts) (mo_DomainSuffix opts) AsIS),
      Add DestinationAddress (mo_DomainKeyword opts \<noteq> []) (Inr (NewDomainKeywordItem (mo_DomainKeyword opts) AsIS)),
      Add DestinationAddress (mo_DomainRegex opts \<noteq> [])
        (cause ''domain_regex'' (NewDomainRegexItem E (mo_DomainRegex opts) AsIS)),
      Fail (mo_Geosite opts \<noteq> []) removed_geosite,
      Fail (mo_SourceGeoIP opts \<noteq> []) removed_geoip,
      Fail (mo_GeoIP opts \<noteq> []) removed_geoip]"

definition dns_address_steps :: "rule_env \<Rightarrow> dns_default_options \<Rightarrow> build_step list" where
  "dns_address_steps E opts =
     [Add SourceAddress (mo_SourceIPCIDR opts \<noteq> [])
        (cause ''source_ip_cidr'' (NewIPCIDRItem E True (mo_SourceIPCIDR opts))),
      Add DestinationIPCIDR (mo_IPCIDR opts \<noteq> [])
        (cause ''ip_cidr'' (NewIPCIDRItem E False (mo_IPCIDR opts))),
      Add SourceAddress (mo_SourceIPIsPrivate opts) (Inr (NewIPIsPrivateItem True)),
      Add DestinationIPCIDR (mo_IPIsPrivate opts) (Inr (NewIPIsPrivateItem False)),
      Add DestinationIPCIDR (dd_IPAcceptAny opts) (Inr NewIPAcceptAnyItem)]"

definition dns_response_steps :: "dns_default_options \<Rightarrow> build_step list" where
  "dns_response_steps opts =
     [case dd_ResponseRcode opts of
        None \<Rightarrow> Fail False (E_New [])
      | Some rcode \<Rightarrow> Add Items True (Inr (NewDNSResponseRCodeItem rcode)),
      Add Items (dd_ResponseAnswer opts \<noteq> [])
        (Inr (NewDNSResponseRecordItem ''response_answer'' (dd_ResponseAnswer opts) ResponseAnswers)),
      Add Items (dd_ResponseNs opts \<noteq> [])
        (Inr (NewDNSResponseRecordItem ''response_ns'' (dd_ResponseNs opts) ResponseNS)),
      Add Items (dd_ResponseExtra opts \<noteq> [])
        (Inr (NewDNSResponseRecordItem ''response_extra'' (dd_ResponseExtra opts) ResponseExtra))]"

definition dns_port_steps :: "dns_default_options \<Rightarrow> build_step list" where
  "dns_port_steps opts =
     [Add SourcePort (mo_SourcePort opts \<noteq> []) (Inr (NewPortItem True (mo_SourcePort opts))),
      Add SourcePort (mo_SourcePortRange opts \<noteq> [])
        (cause ''source_port_range'' (NewPortRangeItem True (mo_SourcePortRange opts))),
      Add DestinationPort (mo_Port opts \<noteq> []) (Inr (NewPortItem False (mo_Port opts))),
      Add DestinationPort (mo_PortRange opts \<noteq> [])
        (cause ''port_range'' (NewPortRangeItem False (mo_PortRange opts)))]"

definition dns_process_steps :: "rule_env \<Rightarrow> dns_default_options \<Rightarrow> build_step list" where
  "dns_process_steps E opts =
     [Add Items (mo_ProcessName opts \<noteq> []) (Inr (NewProcessItem (mo_ProcessName opts))),
      Add Items (mo_ProcessPath opts \<noteq> []) (Inr (NewProcessPathItem (mo_ProcessPath opts))),
      Add Items (mo_ProcessPathRegex opts \<noteq> [])
        (cause ''process_path_regex'' (NewProcessPathRegexItem E (mo_ProcessPathRegex opts))),
      Add Items (mo_PackageName opts \<noteq> []) (Inr (NewPackageNameItem (mo_PackageName opts))),
      Add Items (mo_PackageNameRegex opts \<noteq> [])
        (cause ''package_name_regex'' (NewPackageNameRegexItem E (mo_PackageNameRegex opts))),
      Add Items (mo_User opts \<noteq> []) (Inr (NewUserItem (mo_User opts))),
      Add Items (mo_UserID opts \<noteq> []) (Inr (NewUserIDItem (mo_UserID opts))),
      Add Items (dd_Outbound opts \<noteq> []) (Inr (NewOutboundRule (dd_Outbound opts))),
      Add Items (mo_ClashMode opts \<noteq> []) (Inr (NewClashModeItem (mo_ClashMode opts)))]"

definition dns_network_steps :: "rule_env \<Rightarrow> dns_default_options \<Rightarrow> build_step list" where
  "dns_network_steps E opts =
     [Add Items (mo_NetworkType opts \<noteq> []) (Inr (NewNetworkTypeItem (mo_NetworkType opts))),
      Add Items (mo_NetworkIsExpensive opts) (Inr NewNetworkIsExpensiveItem),
      Add Items (mo_NetworkIsConstrained opts) (Inr NewNetworkIsConstrainedItem),
      Add Items (mo_WIFISSID opts \<noteq> []) (Inr (NewWIFISSIDItem (mo_WIFISSID opts))),
      Add Items (mo_WIFIBSSID opts \<noteq> []) (Inr (NewWIFIBSSIDItem E (mo_WIFIBSSID opts))),
      Add Items (map_given (mo_InterfaceAddress opts))
        (Inr (NewInterfaceAddressItem (map_entries (mo_InterfaceAddress opts)))),
      Add Items (map_given (mo_NetworkInterfaceAddress opts))
        (Inr (NewNetworkInterfaceAddressItem (map_entries (mo_NetworkInterfaceAddress opts)))),
      Add Items (mo_DefaultInterfaceAddress opts \<noteq> [])
        (Inr (NewDefaultInterfaceAddressItem (mo_DefaultInterfaceAddress opts)))]"

definition accept_empty_deprecated :: error where
  "accept_empty_deprecated = E_New (''Legacy `rule_set_ip_cidr_accept_empty` DNS rule item is deprecated in sing-box 1.14.0 and will be removed in sing-box 1.16.0, checkout documentation for migration: '' @
     ''https://sing-box.sagernet.org/migration/#migrate-address-filter-fields-to-response-matching'')"

definition dns_tail_steps :: "rule_env \<Rightarrow> bool \<Rightarrow> dns_default_options \<Rightarrow> build_step list" where
  "dns_tail_steps E legacyDNSMode opts =
     [Add Items (mo_SourceMACAddress opts \<noteq> []) (Inr (NewSourceMACAddressItem (mo_SourceMACAddress opts))),
      Add Items (mo_SourceHostname opts \<noteq> []) (Inr (NewSourceHostnameItem (mo_SourceHostname opts))),
      Add Items (mo_PreferredBy opts \<noteq> []) (Inr (NewPreferredByDNSItem (mo_PreferredBy opts))),
      Add Items (map_given (mo_DNSServerAddress opts))
        (Inr (NewDNSServerAddressItem (map_entries (mo_DNSServerAddress opts)))),
      Add Items (map_given (mo_DNSSearchDomain opts))
        (Inr (NewDNSSearchDomainItem E (map_entries (mo_DNSSearchDomain opts)))),
      Fail (dd_RuleSetIPCIDRAcceptEmpty opts \<and> \<not> legacyDNSMode) accept_empty_deprecated,
      Fail (mo_RuleSet opts \<noteq> [] \<and> mo_Deprecated_RulesetIPCIDRMatchSource opts) removed_match_source,
      AddRuleSet (mo_RuleSet opts \<noteq> [])
        (NewRuleSetItem (mo_RuleSet opts) (mo_RuleSetIPCIDRMatchSource opts) (dd_RuleSetIPCIDRAcceptEmpty opts))]"

definition dns_steps :: "rule_env \<Rightarrow> bool \<Rightarrow> dns_default_options \<Rightarrow> build_step list" where
  "dns_steps E legacyDNSMode opts =
     dns_basic_steps opts @ dns_domain_steps E opts @ dns_address_steps E opts @ dns_response_steps opts @
     dns_port_steps opts @ dns_process_steps E opts @ dns_network_steps E opts @
     dns_tail_steps E legacyDNSMode opts"

definition NewDefaultDNSRule ::
  "rule_env \<Rightarrow> dns_default_options \<Rightarrow> dns_rule_action_options \<Rightarrow> bool \<Rightarrow> dns_rule res" where
  "NewDefaultDNSRule E opts act legacyDNSMode =
     rbind (NewDNSRuleAction act) (\<lambda>action.
       rbind (run_steps (dns_steps E legacyDNSMode opts) empty_builder) (\<lambda>b.
         let tag = ResponseTag (dd_MatchResponse opts); mr = IsEnabled (dd_MatchResponse opts) in
         Inr \<lparr>dn_Rule = DefaultDNSRule (build_drule b 0 (mo_Invert opts)) mr tag, dn_Action = action,
              dn_matchResponseTags = MatchResponseTags tag,
              dn_matchResponseAnonymous = (mr \<and> tag = []), dn_race = da_Race act, dn_disabled = False\<rparr>))"

section \<open>DNS rule trees\<close>

text \<open>\<open>common.Uniq\<close> keeps the first of equal elements.\<close>

definition uniq :: "'a list \<Rightarrow> 'a list" where
  "uniq xs = rev (remdups (rev xs))"

definition server_missing :: "dns_rule_action_options \<Rightarrow> bool \<Rightarrow> bool" where
  "server_missing act checkServer =
     (checkServer \<and>
      (if da_Action act = [] \<or> da_Action act = ''route'' then da_RouteServer act = []
       else if da_Action act = ''evaluate'' then da_EvaluateServer act = [] else False))"

text \<open>The checks of \<open>NewDNSRule\<close> that default and logical rules share.\<close>

definition check_dns_action :: "dns_rule_action_options \<Rightarrow> bool \<Rightarrow> error option" where
  "check_dns_action act checkServer =
     (if \<not> checkServer \<and> da_Action act = ''evaluate''
      then Some (E_New (da_Action act @ '' is only allowed on top-level DNS rules''))
      else validateDNSRuleAction act)"

function NewDNSRule :: "rule_env \<Rightarrow> dns_rule_options \<Rightarrow> bool \<Rightarrow> bool \<Rightarrow> dns_rule res"
  and NewLogicalDNSRule :: "rule_env \<Rightarrow> dns_logical_rule_options \<Rightarrow> bool \<Rightarrow> dns_rule res"
  and new_dns_sub_rules :: "rule_env \<Rightarrow> bool \<Rightarrow> nat \<Rightarrow> dns_rule_options list \<Rightarrow> dns_rule list res"
where
  "NewDNSRule E (DNSRuleOpts t d a l) checkServer legacyDNSMode =
     (if t = [] \<or> t = ''default'' then
        (if \<not> DefaultDNSRule_IsValid d a then Inl (E_New ''missing conditions'')
         else case check_dns_action a checkServer of
           Some e \<Rightarrow> Inl e
         | None \<Rightarrow>
             if da_Race a \<and> \<not> IsEnabled (dd_MatchResponse d) then Inl (E_New ''`race` requires `match_response`'')
             else if server_missing a checkServer then Inl (E_New ''missing server field'')
             else NewDefaultDNSRule E d a legacyDNSMode)
      else if t = ''logical'' then
        rbind (LogicalDNSRule_IsValid l) (\<lambda>ok.
          if \<not> ok then Inl (E_New ''missing conditions'')
          else case check_dns_action (dlo_Action l) checkServer of
            Some e \<Rightarrow> Inl e
          | None \<Rightarrow>
              if server_missing (dlo_Action l) checkServer then Inl (E_New ''missing server field'')
              else NewLogicalDNSRule E l legacyDNSMode)
      else Inl (E_New (''unknown rule type: '' @ t)))"
| "NewLogicalDNSRule E (DNSLogicalOpts mode rules neg act) legacyDNSMode =
     rbind (NewDNSRuleAction act) (\<lambda>action.
       rbind (parse_mode mode) (\<lambda>mode'.
         rbind (new_dns_sub_rules E legacyDNSMode 0 rules) (\<lambda>rs.
           let tags = uniq (concat (map dn_matchResponseTags rs));
               anonymous = list_ex dn_matchResponseAnonymous rs
           in if da_Race act \<and> tags = [] \<and> \<not> anonymous
              then Inl (E_New ''`race` requires `match_response` in sub-rules'')
              else Inr \<lparr>dn_Rule = LogicalRule (map dn_Rule rs) mode' neg 0, dn_Action = action,
                        dn_matchResponseTags = tags, dn_matchResponseAnonymous = anonymous,
                        dn_race = da_Race act, dn_disabled = False\<rparr>)))"
| "new_dns_sub_rules E legacyDNSMode i [] = Inr []"
| "new_dns_sub_rules E legacyDNSMode i (r # rs) =
     (case validateNoNestedDNSRuleActions r True of
        Some e \<Rightarrow> Inl (E_CauseAt e ''sub rule['' i)
      | None \<Rightarrow>
          (case NewDNSRule E r False legacyDNSMode of
             Inl e \<Rightarrow> Inl (E_CauseAt e ''sub rule['' i)
           | Inr rule \<Rightarrow> rbind (new_dns_sub_rules E legacyDNSMode (Suc i) rs) (\<lambda>rules. Inr (rule # rules))))"
  by pat_completeness auto
termination
  by (relation "measure (\<lambda>x. case x of
        Inl (E, r, c, m) \<Rightarrow> size r
      | Inr (Inl (E, l, m)) \<Rightarrow> size l
      | Inr (Inr (E, m, i, rs)) \<Rightarrow> size_list size rs)") auto

end
