(* ===== verification/Rule_Build_Facts.thy ===== *)
theory Rule_Build_Facts
  imports Rule_Build_DNS
begin

text \<open>
  What the constructors guarantee of the rules they build: every item is in the group its type
  belongs to, \<open>allItems\<close> holds exactly the items of the groups, nested rules carry no action, and a
  racing DNS rule reads a response.
\<close>

section \<open>The group of an item\<close>

definition item_group :: "rule_item \<Rightarrow> builder_group" where
  "item_group it =
     (case it of
        DomainItem mt d st \<Rightarrow> DestinationAddress
      | DomainKeywordItem ks st \<Rightarrow> DestinationAddress
      | DomainRegexItem ms d st \<Rightarrow> DestinationAddress
      | AdGuardDomainItem mt st \<Rightarrow> DestinationAddress
      | IPCIDRItem s src d \<Rightarrow> if src then SourceAddress else DestinationIPCIDR
      | IPIsPrivateItem src \<Rightarrow> if src then SourceAddress else DestinationIPCIDR
      | IPAcceptAnyItem \<Rightarrow> DestinationIPCIDR
      | PortItem ps src \<Rightarrow> if src then SourcePort else DestinationPort
      | PortRangeItem src rs ps \<Rightarrow> if src then SourcePort else DestinationPort
      | _ \<Rightarrow> Items)"

lemmas item_constructors =
  NewInboundRule_def NewIPVersionItem_def NewNetworkItem_def NewAuthUserItem_def NewProtocolItem_def
  NewClientItem_def NewDomainKeywordItem_def NewIPIsPrivateItem_def NewIPAcceptAnyItem_def
  NewPortItem_def NewProcessItem_def NewProcessPathItem_def NewPackageNameItem_def NewUserItem_def
  NewUserIDItem_def NewClashModeItem_def NewNetworkTypeItem_def NewNetworkIsExpensiveItem_def
  NewNetworkIsConstrainedItem_def NewWIFISSIDItem_def NewWIFIBSSIDItem_def NewInterfaceAddressItem_def
  NewNetworkInterfaceAddressItem_def NewDefaultInterfaceAddressItem_def NewSourceMACAddressItem_def
  NewSourceHostnameItem_def NewPreferredByItem_def NewPreferredByDNSItem_def NewDNSServerAddressItem_def
  NewDNSSearchDomainItem_def NewQueryTypeItem_def NewQueryClientSubnetItem_def NewQueryDNSSECItem_def
  NewOutboundRule_def NewDNSResponseRCodeItem_def NewDNSResponseRecordItem_def NewRawDomainItem_def
  NewRawIPCIDRItem_def NewAdGuardDomainItem_def NewRawAdGuardDomainItem_def

lemmas fallible_constructors =
  NewDomainItem_def NewDomainRegexItem_def NewIPCIDRItem_def NewPortRangeItem_def
  NewProcessPathRegexItem_def NewPackageNameRegexItem_def

text \<open>\<open>item_ok P g item\<close>: an item the step makes belongs to group \<open>g\<close> and satisfies \<open>P\<close>.\<close>

definition item_ok :: "(rule_item \<Rightarrow> bool) \<Rightarrow> builder_group \<Rightarrow> rule_item res \<Rightarrow> bool" where
  "item_ok P g item \<longleftrightarrow> (\<forall>it. item = Inr it \<longrightarrow> item_group it = g \<and> P it)"

lemma item_ok_Inr [simp]: "item_ok P g (Inr it) \<longleftrightarrow> item_group it = g \<and> P it"
  by (simp add: item_ok_def)

lemma item_ok_mono: "item_ok P g item \<Longrightarrow> (\<And>it. P it \<Longrightarrow> Q it) \<Longrightarrow> item_ok Q g item"
  by (simp add: item_ok_def)

lemma item_ok_cause [simp]: "item_ok P g (cause s item) \<longleftrightarrow> item_ok P g item"
  by (simp add: item_ok_def)

fun step_ok :: "(rule_item \<Rightarrow> bool) \<Rightarrow> build_step \<Rightarrow> bool" where
  "step_ok P (Add g c item) = (c \<longrightarrow> item_ok P g item)"
| "step_ok P (Fail c e) = True"
| "step_ok P (AddRuleSet c s) = True"

lemma step_ok_add_or_raw [simp]:
  "step_ok P (add_or_raw g c item raw) \<longleftrightarrow>
     (if c then item_ok P g item else case raw of None \<Rightarrow> True | Some it \<Rightarrow> item_group it = g \<and> P it)"
  by (simp add: add_or_raw_def split: option.split)

section \<open>The invariant of the builder\<close>

definition plain_items :: "any_item list \<Rightarrow> rule_item list" where
  "plain_items xs = concat (map (\<lambda>x. case x of PlainItem it \<Rightarrow> [it] | SetItemRef \<Rightarrow> []) xs)"

lemma plain_items_simps [simp]:
  "plain_items [] = []"
  "plain_items (xs @ [PlainItem it]) = plain_items xs @ [it]"
  "plain_items (xs @ [SetItemRef]) = plain_items xs"
  by (simp_all add: plain_items_def)

fun group_items :: "builder_group \<Rightarrow> drule \<Rightarrow> rule_item list" where
  "group_items Items r = items r"
| "group_items SourceAddress r = sourceAddressItems r"
| "group_items SourcePort r = sourcePortItems r"
| "group_items DestinationAddress r = destinationAddressItems r"
| "group_items DestinationIPCIDR r = destinationIPCIDRItems r"
| "group_items DestinationPort r = destinationPortItems r"

text \<open>
  A well-formed default rule: each group has exactly those of the items that belong to it, in the
  order of \<open>allItems\<close>, and \<open>allItems\<close> has the place of the rule-set item iff there is one.
\<close>

definition drule_wf :: "drule \<Rightarrow> bool" where
  "drule_wf r \<longleftrightarrow>
     (\<forall>g. group_items g r = filter (\<lambda>it. item_group it = g) (plain_items (allItems r))) \<and>
     (SetItemRef \<in> set (allItems r) \<longleftrightarrow> ruleSetItem r \<noteq> None)"

definition builder_wf :: "(rule_item \<Rightarrow> bool) \<Rightarrow> rule_builder \<Rightarrow> bool" where
  "builder_wf P b \<longleftrightarrow> drule_wf (build_drule b 0 False) \<and> list_all P (plain_items (rb_allItems b))"

lemma all_builder_group:
  "(\<forall>g. Q g) \<longleftrightarrow>
     Q Items \<and> Q SourceAddress \<and> Q SourcePort \<and> Q DestinationAddress \<and> Q DestinationIPCIDR \<and> Q DestinationPort"
  by (metis builder_group.exhaust)

lemma builder_wf_iff:
  "builder_wf P b \<longleftrightarrow>
     rb_items b = filter (\<lambda>it. item_group it = Items) (plain_items (rb_allItems b)) \<and>
     rb_sourceAddressItems b = filter (\<lambda>it. item_group it = SourceAddress) (plain_items (rb_allItems b)) \<and>
     rb_sourcePortItems b = filter (\<lambda>it. item_group it = SourcePort) (plain_items (rb_allItems b)) \<and>
     rb_destinationAddressItems b =
       filter (\<lambda>it. item_group it = DestinationAddress) (plain_items (rb_allItems b)) \<and>
     rb_destinationIPCIDRItems b =
       filter (\<lambda>it. item_group it = DestinationIPCIDR) (plain_items (rb_allItems b)) \<and>
     rb_destinationPortItems b =
       filter (\<lambda>it. item_group it = DestinationPort) (plain_items (rb_allItems b)) \<and>
     (SetItemRef \<in> set (rb_allItems b) \<longleftrightarrow> rb_ruleSetItem b \<noteq> None) \<and>
     list_all P (plain_items (rb_allItems b))"
  by (simp add: builder_wf_def drule_wf_def all_builder_group build_drule_def conj_assoc)

lemma builder_wf_empty: "builder_wf P empty_builder"
  by (simp add: builder_wf_iff empty_builder_def)

lemma builder_wf_append:
  "builder_wf P b \<Longrightarrow> item_group it = g \<Longrightarrow> P it \<Longrightarrow> builder_wf P (append_item g it b)"
  unfolding builder_wf_iff by (cases g) simp_all

lemma builder_wf_set_item:
  "builder_wf P b \<Longrightarrow>
   builder_wf P (b\<lparr>rb_ruleSetItem := Some s, rb_allItems := rb_allItems b @ [SetItemRef]\<rparr>)"
  unfolding builder_wf_iff by simp

lemma run_step_wf:
  assumes "run_step s b = Inr b'" "step_ok P s" "builder_wf P b"
  shows "builder_wf P b'"
proof (cases s)
  case (Add g c item)
  with assms show ?thesis
    by (auto simp: item_ok_def split: if_splits intro: builder_wf_append)
next
  case (Fail c e)
  with assms show ?thesis by (auto split: if_splits)
next
  case (AddRuleSet c t)
  with assms show ?thesis by (auto intro: builder_wf_set_item)
qed

lemma run_steps_wf:
  "run_steps ss b = Inr b' \<Longrightarrow> list_all (step_ok P) ss \<Longrightarrow> builder_wf P b \<Longrightarrow> builder_wf P b'"
  by (induction ss arbitrary: b) (auto dest: run_step_wf)

section \<open>Headless rules\<close>

definition headless_item :: "rule_item \<Rightarrow> bool" where
  "headless_item it =
     (if item_group it = DestinationIPCIDR then is_IPCIDRItem it else response_free it)"

lemmas item_simps = item_constructors item_group_def headless_item_def is_IPCIDRItem_def response_free_def

lemma fallible_headless [simp]:
  "item_ok headless_item DestinationAddress (NewDomainItem ds ss st)"
  "item_ok headless_item DestinationAddress (NewDomainRegexItem E rs st)"
  "item_ok headless_item SourceAddress (NewIPCIDRItem E True ps)"
  "item_ok headless_item DestinationIPCIDR (NewIPCIDRItem E False ps)"
  "item_ok headless_item SourcePort (NewPortRangeItem True rs)"
  "item_ok headless_item DestinationPort (NewPortRangeItem False rs)"
  "item_ok headless_item Items (NewProcessPathRegexItem E rs)"
  "item_ok headless_item Items (NewPackageNameRegexItem E rs)"
  by (auto simp: item_ok_def fallible_constructors item_simps split: if_splits)

lemma headless_domain_steps_ok: "list_all (step_ok headless_item) (headless_domain_steps E st opts)"
  by (simp add: headless_domain_steps_def item_simps split: option.split)

lemma headless_address_steps_ok: "list_all (step_ok headless_item) (headless_address_steps E opts)"
  by (simp add: headless_address_steps_def item_simps split: option.split)

lemma headless_process_steps_ok: "list_all (step_ok headless_item) (headless_process_steps E opts)"
  by (simp add: headless_process_steps_def item_simps)

lemma headless_network_steps_ok: "list_all (step_ok headless_item) (headless_network_steps E nm st opts)"
  by (simp add: headless_network_steps_def item_simps split: option.split)

lemma NewDefaultHeadlessRule_wf:
  assumes "NewDefaultHeadlessRule E B opts = Inr r"
  shows "drule_wf r \<and> list_all headless_item (plain_items (allItems r)) \<and> invert r = mo_Invert opts"
proof -
  let ?st = "effective_strategy B (ho_DomainMatchStrategy opts)"
  let ?steps = "headless_domain_steps E ?st opts @ headless_address_steps E opts @
                headless_process_steps E opts @ headless_network_steps E (be_NetworkManager B) ?st opts"
  obtain b where b: "run_steps ?steps empty_builder = Inr b"
    and r: "r = build_drule b (headless_ruleCount b) (mo_Invert opts)"
    using assms by (auto simp: NewDefaultHeadlessRule_def Let_def)
  have "builder_wf headless_item b"
    by (rule run_steps_wf [OF b]) (simp_all add: headless_domain_steps_ok headless_address_steps_ok
        headless_process_steps_ok headless_network_steps_ok builder_wf_empty)
  then show ?thesis
    by (simp add: r builder_wf_iff drule_wf_def all_builder_group build_drule_def)
qed

section \<open>DNS rules\<close>

text \<open>Without response conditions, only destination IP items of a DNS rule look at the response.\<close>

definition dns_item :: "rule_item \<Rightarrow> bool" where
  "dns_item it = (item_group it \<noteq> DestinationIPCIDR \<longrightarrow> response_free it)"

lemma headless_dns_item: "headless_item it \<Longrightarrow> dns_item it"
  by (simp add: headless_item_def dns_item_def split: if_splits)

lemmas fallible_dns [simp] = fallible_headless [THEN item_ok_mono, OF headless_dns_item]

lemmas dns_item_simps = item_constructors item_group_def dns_item_def response_free_def

definition no_response_options :: "dns_default_options \<Rightarrow> bool" where
  "no_response_options opts \<longleftrightarrow>
     dd_ResponseRcode opts = None \<and> dd_ResponseAnswer opts = [] \<and> dd_ResponseNs opts = [] \<and>
     dd_ResponseExtra opts = []"

lemma dns_basic_steps_ok: "list_all (step_ok dns_item) (dns_basic_steps opts)"
  by (simp add: dns_basic_steps_def ip_version_steps_def dns_item_simps)

lemma dns_domain_steps_ok: "list_all (step_ok dns_item) (dns_domain_steps E opts)"
  by (simp add: dns_domain_steps_def dns_item_simps)

lemma dns_address_steps_ok: "list_all (step_ok dns_item) (dns_address_steps E opts)"
  by (simp add: dns_address_steps_def dns_item_simps)

lemma dns_port_steps_ok: "list_all (step_ok dns_item) (dns_port_steps opts)"
  by (simp add: dns_port_steps_def dns_item_simps)

lemma dns_process_steps_ok: "list_all (step_ok dns_item) (dns_process_steps E opts)"
  by (simp add: dns_process_steps_def dns_item_simps)

lemma dns_network_steps_ok: "list_all (step_ok dns_item) (dns_network_steps E opts)"
  by (simp add: dns_network_steps_def dns_item_simps)

lemma dns_tail_steps_ok: "list_all (step_ok dns_item) (dns_tail_steps E legacy opts)"
  by (simp add: dns_tail_steps_def dns_item_simps)

lemma dns_response_steps_ok:
  "no_response_options opts \<Longrightarrow> list_all (step_ok dns_item) (dns_response_steps opts)"
  by (simp add: dns_response_steps_def no_response_options_def)

lemma dns_response_steps_grouped: "list_all (step_ok (\<lambda>it. True)) (dns_response_steps opts)"
  by (simp add: dns_response_steps_def item_constructors item_group_def split: option.split)

lemma step_ok_mono: "step_ok P s \<Longrightarrow> (\<And>it. P it \<Longrightarrow> Q it) \<Longrightarrow> step_ok Q s"
  by (cases s) (auto intro: item_ok_mono)

lemmas dns_steps_ok = dns_basic_steps_ok dns_domain_steps_ok dns_address_steps_ok dns_port_steps_ok
  dns_process_steps_ok dns_network_steps_ok dns_tail_steps_ok

lemma dns_steps_grouped: "list_all (step_ok (\<lambda>it. True)) (dns_steps E legacy opts)"
proof -
  have "list_all (step_ok dns_item) ss \<Longrightarrow> list_all (step_ok (\<lambda>it. True)) ss" for ss
    by (auto simp: list_all_iff intro: step_ok_mono)
  then show ?thesis
    by (simp add: dns_steps_def dns_steps_ok dns_response_steps_grouped)
qed

lemma NewDefaultDNSRule_drule:
  assumes "NewDefaultDNSRule E opts act legacy = Inr r"
  obtains b where "run_steps (dns_steps E legacy opts) empty_builder = Inr b"
    "dn_Rule r = DefaultDNSRule (build_drule b 0 (mo_Invert opts)) (IsEnabled (dd_MatchResponse opts))
       (ResponseTag (dd_MatchResponse opts))"
    "dn_race r = da_Race act" "NewDNSRuleAction act = Inr (dn_Action r)"
    "dn_matchResponseTags r = MatchResponseTags (ResponseTag (dd_MatchResponse opts))"
    "dn_matchResponseAnonymous r \<longleftrightarrow>
       IsEnabled (dd_MatchResponse opts) \<and> ResponseTag (dd_MatchResponse opts) = []"
  using assms that by (auto simp: NewDefaultDNSRule_def Let_def)

section \<open>Route rules\<close>

lemma default_steps_grouped:
  "list_all (step_ok (\<lambda>it. True)) (default_basic_steps opts)"
  "list_all (step_ok (\<lambda>it. True)) (default_domain_steps E st opts)"
  "list_all (step_ok (\<lambda>it. True)) (default_address_steps E opts)"
  "list_all (step_ok (\<lambda>it. True)) (default_process_steps E opts)"
  "list_all (step_ok (\<lambda>it. True)) (default_network_steps E opts)"
  "list_all (step_ok (\<lambda>it. True)) (default_tail_steps E st opts)"
  using fallible_headless [THEN item_ok_mono, of "\<lambda>it. True"]
  by (simp_all add: default_basic_steps_def default_domain_steps_def default_address_steps_def
      default_process_steps_def default_network_steps_def default_tail_steps_def ip_version_steps_def
      item_constructors item_group_def)

lemma NewDefaultRule_wf:
  assumes "NewDefaultRule E A B opts act = Inr r"
  obtains d where "rt_Rule r = DefaultRule d" "drule_wf d" "invert d = mo_Invert opts" "\<not> rt_disabled r"
    "NewRuleAction A act = Inr (rt_Action r)"
proof -
  let ?st = "effective_strategy B (do_DomainMatchStrategy opts)"
  obtain b where b: "run_steps (default_basic_steps opts @ default_domain_steps E ?st opts @
       default_address_steps E opts @ default_process_steps E opts @ default_network_steps E opts @
       default_tail_steps E ?st opts) empty_builder = Inr b"
    and r: "rt_Rule r = DefaultRule (build_drule b 0 (mo_Invert opts))" "\<not> rt_disabled r"
      "NewRuleAction A act = Inr (rt_Action r)"
    using assms by (auto simp: NewDefaultRule_def Let_def new_route_rule_def)
  have "builder_wf (\<lambda>it. True) b"
    by (rule run_steps_wf [OF b]) (simp_all add: default_steps_grouped builder_wf_empty)
  with r show ?thesis
    by (intro that [of "build_drule b 0 (mo_Invert opts)"])
       (simp_all add: builder_wf_iff drule_wf_def all_builder_group build_drule_def)
qed

section \<open>Nested rules\<close>

lemma new_sub_rules_validated:
  "new_sub_rules E A B st i rules = Inr rs \<Longrightarrow> validate_sub_rules i rules = None"
proof (induction rules arbitrary: i rs)
  case (Cons r rules)
  then show ?case by (auto split: option.splits sum.splits)
qed simp

lemma NewRule_validated:
  assumes "NewRule E A B r c = Inr rule"
  shows "validateNoNestedRuleActions r False = None"
proof (cases r)
  case (RuleOpts t d a l)
  show ?thesis
  proof (cases "t = ''logical''")
    case True
    with assms RuleOpts have built: "NewLogicalRule E A B l = Inr rule"
      by (auto split: if_splits)
    show ?thesis
    proof (cases l)
      case (LogicalOpts mode rules s neg act)
      with built show ?thesis
        using True RuleOpts by (auto dest: new_sub_rules_validated)
    qed
  qed (use RuleOpts in simp)
qed

lemma new_dns_sub_rules_validated:
  "new_dns_sub_rules E legacy i rules = Inr rs \<Longrightarrow> validate_dns_sub_rules i rules = None"
proof (induction rules arbitrary: i rs)
  case (Cons r rules)
  then show ?case by (auto split: option.splits sum.splits)
qed simp

lemma NewDNSRule_validated:
  assumes "NewDNSRule E r c legacy = Inr rule"
  shows "validateNoNestedDNSRuleActions r False = None"
proof (cases r)
  case (DNSRuleOpts t d a l)
  show ?thesis
  proof (cases "t = ''logical''")
    case True
    with assms DNSRuleOpts have built: "NewLogicalDNSRule E l legacy = Inr rule"
      by (auto split: if_splits option.splits)
    show ?thesis
    proof (cases l)
      case (DNSLogicalOpts mode rules neg act)
      with built show ?thesis
        using True DNSRuleOpts by (auto simp: Let_def split: if_splits dest: new_dns_sub_rules_validated)
    qed
  qed (use DNSRuleOpts in simp)
qed

section \<open>Racing DNS rules\<close>

definition reads_response :: "dns_rule \<Rightarrow> bool" where
  "reads_response r \<longleftrightarrow> dn_matchResponseTags r \<noteq> [] \<or> dn_matchResponseAnonymous r"

lemma IsEnabled_reads:
  "NewDefaultDNSRule E opts act legacy = Inr r \<Longrightarrow> IsEnabled (dd_MatchResponse opts) \<Longrightarrow> reads_response r"
  by (elim NewDefaultDNSRule_drule) (auto simp: reads_response_def MatchResponseTags_def)

lemma race_action_final:
  "validateDNSRuleAction act = None \<Longrightarrow> da_Race act \<Longrightarrow> NewDNSRuleAction act = Inr (Some a) \<Longrightarrow>
   IsFinalAction a"
  by (auto simp: validateDNSRuleAction_def NewDNSRuleAction_def IsFinalAction_def action_Type_def Let_def
      split: if_splits)

lemma NewLogicalDNSRule_race:
  assumes "NewLogicalDNSRule E l legacy = Inr r"
  shows "dn_race r = da_Race (dlo_Action l)" "NewDNSRuleAction (dlo_Action l) = Inr (dn_Action r)"
    "dn_race r \<Longrightarrow> reads_response r" "distinct (dn_matchResponseTags r)"
proof -
  obtain mode rules neg act where l: "l = DNSLogicalOpts mode rules neg act" by (cases l)
  show "dn_race r = da_Race (dlo_Action l)" "NewDNSRuleAction (dlo_Action l) = Inr (dn_Action r)"
    "dn_race r \<Longrightarrow> reads_response r" "distinct (dn_matchResponseTags r)"
    using assms unfolding l
    by (auto simp: Let_def reads_response_def uniq_def split: if_splits)
qed

lemma NewDNSRule_cases:
  assumes "NewDNSRule E r c legacy = Inr rule"
  obtains (default) d a l where "r = DNSRuleOpts (dr_Type r) d a l" "validateDNSRuleAction a = None"
      "\<not> da_Race a \<or> IsEnabled (dd_MatchResponse d)" "NewDefaultDNSRule E d a legacy = Inr rule"
  | (logical) d a l where "r = DNSRuleOpts (dr_Type r) d a l" "validateDNSRuleAction (dlo_Action l) = None"
      "NewLogicalDNSRule E l legacy = Inr rule"
proof -
  obtain t d a l where r: "r = DNSRuleOpts t d a l" by (cases r)
  with assms show ?thesis
    using default [of d a l] logical [of d a l]
    by (auto simp: check_dns_action_def split: if_splits option.splits)
qed

lemma NewDNSRule_race:
  assumes "NewDNSRule E r c legacy = Inr rule" "dn_race rule"
  shows "reads_response rule \<and> (\<forall>a. dn_Action rule = Some a \<longrightarrow> IsFinalAction a)"
  using assms(1)
proof (cases rule: NewDNSRule_cases)
  case (default d a l)
  from default(4) have "da_Race a" "NewDNSRuleAction a = Inr (dn_Action rule)"
    using assms(2) by (auto elim: NewDefaultDNSRule_drule)
  with default show ?thesis
    by (auto intro: IsEnabled_reads dest: race_action_final)
next
  case (logical d a l)
  with NewLogicalDNSRule_race [OF logical(3)] assms(2) show ?thesis
    by (auto dest: race_action_final)
qed

section \<open>Rules for the legacy pre-match\<close>

fun builder_items :: "builder_group \<Rightarrow> rule_builder \<Rightarrow> rule_item list" where
  "builder_items Items b = rb_items b"
| "builder_items SourceAddress b = rb_sourceAddressItems b"
| "builder_items SourcePort b = rb_sourcePortItems b"
| "builder_items DestinationAddress b = rb_destinationAddressItems b"
| "builder_items DestinationIPCIDR b = rb_destinationIPCIDRItems b"
| "builder_items DestinationPort b = rb_destinationPortItems b"

fun step_adds :: "builder_group \<Rightarrow> build_step \<Rightarrow> bool" where
  "step_adds g (Add h c item) = (c \<and> h = g)"
| "step_adds g (Fail c e) = False"
| "step_adds g (AddRuleSet c s) = False"

fun step_sets :: "build_step \<Rightarrow> bool" where
  "step_sets (AddRuleSet c s) = c"
| "step_sets s = False"

lemma run_steps_group:
  "run_steps ss b = Inr b' \<Longrightarrow> \<not> list_ex (step_adds g) ss \<Longrightarrow> builder_items g b' = builder_items g b"
proof (induction ss arbitrary: b)
  case (Cons s ss)
  then obtain b1 where b1: "run_step s b = Inr b1" "run_steps ss b1 = Inr b'" by auto
  from b1(1) Cons.prems(2) have "builder_items g b1 = builder_items g b"
  proof (cases s)
    case (Add h c item)
    with b1(1) Cons.prems(2) show ?thesis by (cases h; cases g) (auto split: if_splits)
  qed (cases g; auto split: if_splits)+
  with Cons b1(2) show ?case by simp
qed simp

lemma run_steps_no_sets:
  "run_steps ss b = Inr b' \<Longrightarrow> \<not> list_ex step_sets ss \<Longrightarrow> rb_ruleSetItem b' = rb_ruleSetItem b"
proof (induction ss arbitrary: b)
  case (Cons s ss)
  then obtain b1 where b1: "run_step s b = Inr b1" "run_steps ss b1 = Inr b'" by auto
  from b1(1) Cons.prems(2) have "rb_ruleSetItem b1 = rb_ruleSetItem b"
  proof (cases s)
    case (Add h c item)
    with b1(1) show ?thesis by (cases h) (auto split: if_splits)
  qed (auto split: if_splits)
  with Cons b1(2) show ?case by simp
qed simp

definition domain_options :: "dns_default_options \<Rightarrow> bool" where
  "domain_options opts \<longleftrightarrow>
     mo_Domain opts \<noteq> [] \<or> mo_DomainSuffix opts \<noteq> [] \<or> mo_DomainKeyword opts \<noteq> [] \<or> mo_DomainRegex opts \<noteq> []"

definition ip_options :: "dns_default_options \<Rightarrow> bool" where
  "ip_options opts \<longleftrightarrow> mo_IPCIDR opts \<noteq> [] \<or> mo_IPIsPrivate opts \<or> dd_IPAcceptAny opts"

lemmas dns_step_lists = dns_steps_def dns_basic_steps_def ip_version_steps_def dns_domain_steps_def
  dns_address_steps_def dns_response_steps_def dns_port_steps_def dns_process_steps_def
  dns_network_steps_def dns_tail_steps_def

lemma dns_steps_domains: "list_ex (step_adds DestinationAddress) (dns_steps E legacy opts) \<longleftrightarrow> domain_options opts"
  by (auto simp: dns_step_lists domain_options_def split: option.split)

lemma dns_steps_ips: "list_ex (step_adds DestinationIPCIDR) (dns_steps E legacy opts) \<longleftrightarrow> ip_options opts"
  by (auto simp: dns_step_lists ip_options_def split: option.split)

lemma dns_steps_sets: "list_ex step_sets (dns_steps E legacy opts) \<longleftrightarrow> mo_RuleSet opts \<noteq> []"
  by (auto simp: dns_step_lists split: option.split)

lemma dns_builder_groups:
  assumes "run_steps (dns_steps E legacy opts) empty_builder = Inr b"
  shows "no_response_options opts \<Longrightarrow> plain_items_ok (build_drule b 0 neg)"
    "\<not> domain_options opts \<Longrightarrow> rb_destinationAddressItems b = []"
    "\<not> ip_options opts \<Longrightarrow> rb_destinationIPCIDRItems b = []"
    "mo_RuleSet opts = [] \<Longrightarrow> rb_ruleSetItem b = None"
proof -
  assume "no_response_options opts"
  then have "builder_wf dns_item b"
    by (intro run_steps_wf [OF assms(1)])
       (simp_all add: dns_steps_def dns_steps_ok dns_response_steps_ok builder_wf_empty)
  then show "plain_items_ok (build_drule b 0 neg)"
    by (auto simp: builder_wf_iff plain_items_ok_def build_drule_def list_all_iff dns_item_def)
next
  show "\<not> domain_options opts \<Longrightarrow> rb_destinationAddressItems b = []"
    using run_steps_group [OF assms(1), of DestinationAddress] by (simp add: dns_steps_domains empty_builder_def)
  show "\<not> ip_options opts \<Longrightarrow> rb_destinationIPCIDRItems b = []"
    using run_steps_group [OF assms(1), of DestinationIPCIDR] by (simp add: dns_steps_ips empty_builder_def)
  show "mo_RuleSet opts = [] \<Longrightarrow> rb_ruleSetItem b = None"
    using run_steps_no_sets [OF assms(1)] by (simp add: dns_steps_sets empty_builder_def)
qed

lemma dns_builder_legacy:
  assumes "run_steps (dns_steps E legacy opts) empty_builder = Inr b" "no_response_options opts"
    "mo_RuleSet opts = []" "\<not> (domain_options opts \<and> ip_options opts)"
  shows "legacy_d False (build_drule b 0 neg)"
  using dns_builder_groups [OF assms(1)] assms(2-4) by (auto simp: build_drule_def)

text \<open>Rule-set rules that do not mix domains with addresses are rules the pre-match is meant for.\<close>

fun unmixed_h :: "hrule \<Rightarrow> bool" where
  "unmixed_h (DefaultHeadlessRule r) = (destinationAddressItems r = [] \<or> destinationIPCIDRItems r = [])"
| "unmixed_h (DefaultRule r) = True"
| "unmixed_h (DefaultDNSRule r mr tag) = True"
| "unmixed_h (LogicalRule rules mode neg n) = list_all unmixed_h rules"

lemmas headless_step_lists = headless_domain_steps_def headless_address_steps_def
  headless_process_steps_def headless_network_steps_def

lemma NewDefaultHeadlessRule_no_sets:
  assumes "NewDefaultHeadlessRule E B opts = Inr r"
  shows "ruleSetItem r = None"
proof -
  have "\<not> step_sets (add_or_raw g c item raw)" for g c item raw
    by (simp add: add_or_raw_def split: option.split)
  then show ?thesis
    using assms
    by (auto simp: NewDefaultHeadlessRule_def Let_def build_drule_def headless_step_lists empty_builder_def
        simp del: run_steps.simps dest!: run_steps_no_sets)
qed

lemma NewDefaultHeadlessRule_legacy:
  assumes "NewDefaultHeadlessRule E B opts = Inr r" "destinationAddressItems r = [] \<or> destinationIPCIDRItems r = []"
  shows "legacy_d nested r"
proof -
  have wf: "drule_wf r" "list_all headless_item (plain_items (allItems r))"
    using NewDefaultHeadlessRule_wf [OF assms(1)] by auto
  then have "plain_items_ok r" "list_all is_IPCIDRItem (destinationIPCIDRItems r)"
    by (auto simp: drule_wf_def all_builder_group plain_items_ok_def list_all_iff headless_item_def)
  then show ?thesis
    using NewDefaultHeadlessRule_no_sets [OF assms(1)] assms(2) by (cases r) simp
qed

lemma headless_legacy:
  "NewHeadlessRule E B o' = Inr h \<Longrightarrow> unmixed_h h \<Longrightarrow> legacy_h nested h"
  "NewLogicalHeadlessRule E B l = Inr h \<Longrightarrow> unmixed_h h \<Longrightarrow> legacy_h nested h"
  "headless_sub_rules E B st i os = Inr hs \<Longrightarrow> list_all unmixed_h hs \<Longrightarrow> list_all (legacy_h False) hs"
proof (induction E B o' and E B l and E B st i os arbitrary: h nested and h nested and hs
    rule: NewHeadlessRule_NewLogicalHeadlessRule_headless_sub_rules.induct)
  case (1 E B t d l)
  then show ?case
    by (auto split: if_splits intro: NewDefaultHeadlessRule_legacy)
next
  case (2 E B mode rules s neg)
  then show ?case by auto
next
  case (3 E B st i)
  then show ?case by simp
next
  case (4 E B st i r rs)
  then show ?case by (auto split: sum.splits)
qed

end
