(* ===== verification/Rule_Set.thy ===== *)
theory Rule_Set
  imports Rule_Build_Facts
begin

text \<open>
  Rule-sets: \<open>route/rule/rule_set.go\<close>, \<open>rule_set_abstract.go\<close>, \<open>rule_set_local.go\<close> and the options of
  \<open>option/rule_set.go\<close>. The state is \<open>abstractRuleSet\<close>; \<open>refs\<close> is a 32-bit counter. Decoding the file
  formats, the file system and the update validator of the DNS router are arguments.
\<close>

section \<open>State\<close>

record set_state =
  ss_tag :: string
  ss_sType :: string
  ss_path :: string
  ss_format :: string
  ss_rules :: "hrule list"
  ss_ruleCount :: "64 word"
  ss_metadata :: rule_set_metadata
  ss_lastUpdated :: int
  ss_callbacks :: "nat list"
  ss_refs :: "32 word"

definition empty_set_metadata :: rule_set_metadata where
  "empty_set_metadata =
     \<lparr>ContainsProcessRule = False, ContainsWIFIRule = False, ContainsIPCIDRRule = False,
      ContainsDNSQueryTypeRule = False, ContainsNonIPCIDRRule = False\<rparr>"

definition new_set_state :: "string \<Rightarrow> string \<Rightarrow> string \<Rightarrow> set_state" where
  "new_set_state tag sType format =
     \<lparr>ss_tag = tag, ss_sType = sType, ss_path = [], ss_format = format, ss_rules = [], ss_ruleCount = 0,
      ss_metadata = empty_set_metadata, ss_lastUpdated = 0, ss_callbacks = [], ss_refs = 0\<rparr>"

definition setUpdatedTime :: "int \<Rightarrow> set_state \<Rightarrow> set_state" where
  "setUpdatedTime t s = s\<lparr>ss_lastUpdated := t\<rparr>"

definition IncRef :: "set_state \<Rightarrow> set_state" where
  "IncRef s = s\<lparr>ss_refs := ss_refs s + 1\<rparr>"

definition DecRef :: "set_state \<Rightarrow> set_state res" where
  "DecRef s =
     (let refs = ss_refs s - 1 in
      if sint refs < 0 then Inl (E_Panic ''rule-set: negative refs'') else Inr (s\<lparr>ss_refs := refs\<rparr>))"

definition Cleanup :: "set_state \<Rightarrow> set_state" where
  "Cleanup s = (if ss_refs s = 0 then s\<lparr>ss_rules := []\<rparr> else s)"

definition RegisterCallback :: "nat \<Rightarrow> set_state \<Rightarrow> set_state" where
  "RegisterCallback callback s = s\<lparr>ss_callbacks := ss_callbacks s @ [callback]\<rparr>"

definition UnregisterCallback :: "nat \<Rightarrow> set_state \<Rightarrow> set_state" where
  "UnregisterCallback callback s = s\<lparr>ss_callbacks := remove1 callback (ss_callbacks s)\<rparr>"

section \<open>Metadata\<close>

definition isProcessHeadlessRule :: "headless_options \<Rightarrow> bool" where
  "isProcessHeadlessRule r =
     (mo_ProcessName r \<noteq> [] \<or> mo_ProcessPath r \<noteq> [] \<or> mo_ProcessPathRegex r \<noteq> [] \<or> mo_PackageName r \<noteq> [] \<or>
      mo_PackageNameRegex r \<noteq> [])"

definition isWIFINetworkType :: "iface_type list \<Rightarrow> bool" where
  "isWIFINetworkType networkType = List.member networkType InterfaceTypeWIFI"

definition isWIFIHeadlessRule :: "rule_env \<Rightarrow> headless_options \<Rightarrow> bool" where
  "isWIFIHeadlessRule E r =
     (mo_WIFISSID r \<noteq> [] \<or> mo_WIFIBSSID r \<noteq> [] \<or> (IsAndroid E \<and> isWIFINetworkType (mo_NetworkType r)))"

definition isIPCIDRHeadlessRule :: "headless_options \<Rightarrow> bool" where
  "isIPCIDRHeadlessRule r = (mo_IPCIDR r \<noteq> [] \<or> ho_IPSet r \<noteq> None)"

definition isDNSQueryTypeHeadlessRule :: "headless_options \<Rightarrow> bool" where
  "isDNSQueryTypeHeadlessRule r = (ho_QueryType r \<noteq> [])"

definition isNonIPCIDRHeadlessRule :: "headless_options \<Rightarrow> bool" where
  "isNonIPCIDRHeadlessRule r =
     (r \<noteq> zero_headless_options\<lparr>mo_IPCIDR := mo_IPCIDR r, mo_emptyIPCIDR := mo_emptyIPCIDR r,
            ho_IPSet := ho_IPSet r, mo_Invert := mo_Invert r\<rparr>)"

fun HasHeadlessRule :: "(headless_options \<Rightarrow> bool) \<Rightarrow> headless_rule_options list \<Rightarrow> bool"
  and has_headless_logical :: "(headless_options \<Rightarrow> bool) \<Rightarrow> headless_logical_options \<Rightarrow> bool"
  and has_headless_one :: "(headless_options \<Rightarrow> bool) \<Rightarrow> headless_rule_options \<Rightarrow> bool" where
  "HasHeadlessRule cond [] = False"
| "HasHeadlessRule cond (r # rs) = (if has_headless_one cond r then True else HasHeadlessRule cond rs)"
| "has_headless_one cond (HeadlessRuleOpts t d l) =
     (if t = ''default'' then cond d else if t = ''logical'' then has_headless_logical cond l else False)"
| "has_headless_logical cond (HeadlessLogicalOpts mode rules s neg) = HasHeadlessRule cond rules"

definition buildRuleSetMetadata :: "rule_env \<Rightarrow> headless_rule_options list \<Rightarrow> rule_set_metadata" where
  "buildRuleSetMetadata E rules =
     \<lparr>ContainsProcessRule = HasHeadlessRule isProcessHeadlessRule rules,
      ContainsWIFIRule = HasHeadlessRule (isWIFIHeadlessRule E) rules,
      ContainsIPCIDRRule = HasHeadlessRule isIPCIDRHeadlessRule rules,
      ContainsDNSQueryTypeRule = HasHeadlessRule isDNSQueryTypeHeadlessRule rules,
      ContainsNonIPCIDRRule = HasHeadlessRule isNonIPCIDRHeadlessRule rules\<rparr>"

section \<open>Loading rules\<close>

type_synonym set_validator = "(string \<Rightarrow> rule_set_metadata \<Rightarrow> error option) option"

definition validateRuleSetMetadataUpdate :: "set_validator \<Rightarrow> string \<Rightarrow> rule_set_metadata \<Rightarrow> error option" where
  "validateRuleSetMetadataUpdate validator tag md =
     (case validator of None \<Rightarrow> None | Some v \<Rightarrow> v tag md)"

fun hrule_RuleCount :: "hrule \<Rightarrow> 64 word" where
  "hrule_RuleCount (DefaultHeadlessRule r) = ruleCount r"
| "hrule_RuleCount (DefaultRule r) = ruleCount r"
| "hrule_RuleCount (DefaultDNSRule r mr tag) = ruleCount r"
| "hrule_RuleCount (LogicalRule rs mode neg n) = n"

text \<open>The loop of \<open>reloadRules\<close> from index \<open>i\<close> on, with the rules and the count so far.\<close>

fun build_set_rules ::
  "rule_env \<Rightarrow> build_env \<Rightarrow> nat \<Rightarrow> 64 word \<Rightarrow> headless_rule_options list \<Rightarrow> (hrule list \<times> 64 word) res" where
  "build_set_rules E B i count [] = Inr ([], count)"
| "build_set_rules E B i count (o' # os) =
     (case NewHeadlessRule E B o' of
        Inl e \<Rightarrow> Inl (E_CauseAt e ''parse rule_set.rules.['' i)
      | Inr rule \<Rightarrow>
          rbind (build_set_rules E B (Suc i) (count + hrule_RuleCount rule) os)
            (\<lambda>(rules, n). Inr (rule # rules, n)))"

text \<open>\<open>reloadRules\<close> answers the new state and the callbacks it calls, in order.\<close>

definition reloadRules ::
  "rule_env \<Rightarrow> build_env \<Rightarrow> set_validator \<Rightarrow> headless_rule_options list \<Rightarrow> set_state \<Rightarrow> (set_state \<times> nat list) res" where
  "reloadRules E B validator os s =
     rbind (build_set_rules E B 0 0 os) (\<lambda>(rules, count).
       let md = buildRuleSetMetadata E os in
       case validateRuleSetMetadataUpdate validator (ss_tag s) md of
         Some e \<Rightarrow> Inl e
       | None \<Rightarrow> Inr (s\<lparr>ss_rules := rules, ss_ruleCount := count, ss_metadata := md\<rparr>, ss_callbacks s))"

record set_compat =
  sc_Version :: "8 word"
  sc_Rules :: "headless_rule_options list"

definition Upgrade :: "set_compat \<Rightarrow> headless_rule_options list res" where
  "Upgrade r =
     (if List.member [1, 2, 3, 4, 5] (sc_Version r) then Inr (sc_Rules r)
      else Inl (E_New (''unknown rule-set version: '' @ dec_string (unat (sc_Version r)))))"

text \<open>What loading a rule-set asks of decoders: the JSON decoder and \<open>srs.Read\<close>.\<close>

record 'c set_loader =
  json_Unmarshal :: "'c \<Rightarrow> set_compat res"
  srs_Read :: "'c \<Rightarrow> set_compat res"

definition loadBytes ::
  "rule_env \<Rightarrow> build_env \<Rightarrow> set_validator \<Rightarrow> 'c set_loader \<Rightarrow> 'c \<Rightarrow> set_state \<Rightarrow> (set_state \<times> nat list) res" where
  "loadBytes E B validator L content s =
     rbind (if ss_format s = ''source'' then json_Unmarshal L content
            else if ss_format s = ''binary'' then srs_Read L content
            else Inl (E_New (''unknown rule-set format: '' @ ss_format s)))
       (\<lambda>ruleSet. rbind (Upgrade ruleSet) (\<lambda>os. reloadRules E B validator os s))"

fun extractIPSetFromRule :: "hrule \<Rightarrow> ip_set list res" and extract_all :: "hrule list \<Rightarrow> ip_set list res" where
  "extractIPSetFromRule (DefaultHeadlessRule r) =
     Inr (concat (map (\<lambda>it. case it of IPCIDRItem s src d \<Rightarrow> [s] | _ \<Rightarrow> []) (destinationIPCIDRItems r)))"
| "extractIPSetFromRule (LogicalRule rules mode neg n) = extract_all rules"
| "extractIPSetFromRule (DefaultRule r) = Inl (E_Panic ''unexpected rule type'')"
| "extractIPSetFromRule (DefaultDNSRule r mr tag) = Inl (E_Panic ''unexpected rule type'')"
| "extract_all [] = Inr []"
| "extract_all (r # rs) =
     rbind (extractIPSetFromRule r) (\<lambda>xs. rbind (extract_all rs) (\<lambda>ys. Inr (xs @ ys)))"

definition ExtractIPSet :: "set_state \<Rightarrow> ip_set list res" where
  "ExtractIPSet s = extract_all (ss_rules s)"

text \<open>The rule-set as the rules that refer to it see it.\<close>

definition view_of :: "set_state \<Rightarrow> rule_set" where
  "view_of s = RuleSet (ss_tag s) (ss_rules s) (ss_metadata s)"

section \<open>Options and local rule-sets\<close>

function replace_all :: "'a list \<Rightarrow> 'a list \<Rightarrow> 'a list \<Rightarrow> 'a list" where
  "replace_all old new [] = []"
| "replace_all old new (c # s) =
     (if old \<noteq> [] \<and> has_prefix (c # s) old then new @ replace_all old new (drop (length old) (c # s))
      else c # replace_all old new s)"
  by pat_completeness auto
termination
  by (relation "measure (\<lambda>(old, new, s). length s)") auto

record remote_options =
  rmo_URL :: string
  rmo_InitialPath :: string
  rmo_HTTPClient :: bool
  rmo_UpdateInterval :: int
  rmo_DownloadDetour :: string

record set_options =
  so_Type :: string
  so_Tag :: "string list"
  so_Format :: string
  so_Path :: string
  so_InlineRules :: "headless_rule_options list"
  so_Remote :: remote_options

text \<open>\<open>ruleSetDefaultFormat\<close>; \<open>urlPath\<close> is the path \<open>url.Parse\<close> finds, when it succeeds.\<close>

fun filepath_Ext_rev :: "string \<Rightarrow> string \<Rightarrow> string" where
  "filepath_Ext_rev [] acc = []"
| "filepath_Ext_rev (c # cs) acc =
     (if c = CHR ''/'' then [] else if c = CHR ''.'' then c # acc else filepath_Ext_rev cs (c # acc))"

definition filepath_Ext :: "string \<Rightarrow> string" where
  "filepath_Ext path = filepath_Ext_rev (rev path) []"

definition ruleSetDefaultFormat :: "(string \<Rightarrow> string option) \<Rightarrow> string \<Rightarrow> string" where
  "ruleSetDefaultFormat urlPath path =
     (let p = (case urlPath path of None \<Rightarrow> path | Some q \<Rightarrow> q) in
      if filepath_Ext p = ''.json'' then ''source'' else if filepath_Ext p = ''.srs'' then ''binary'' else [])"

definition tag_placeholder :: string where
  "tag_placeholder = ''{tag}''"

text \<open>The format part and the placeholder part of \<open>RuleSet.UnmarshalJSON\<close>.\<close>

definition check_set_format :: "(string \<Rightarrow> string option) \<Rightarrow> set_options \<Rightarrow> set_options res" where
  "check_set_format urlPath r =
     (if so_Type r \<noteq> ''inline'' then
        (let format = (if so_Format r = [] then
                         (if so_Type r = ''local'' then ruleSetDefaultFormat urlPath (so_Path r)
                          else if so_Type r = ''remote'' then ruleSetDefaultFormat urlPath (rmo_URL (so_Remote r))
                          else so_Format r)
                       else so_Format r) in
         if format = [] then Inl (E_New ''missing format'')
         else if format = ''source'' \<or> format = ''binary'' then Inr (r\<lparr>so_Format := format\<rparr>)
         else Inl (E_New (''unknown rule-set format: '' @ format)))
      else Inr (r\<lparr>so_Format := ''source'', so_Path := []\<rparr>))"

definition check_set_tags :: "set_options \<Rightarrow> error option" where
  "check_set_tags r =
     (if length (so_Tag r) > 1 then
        (if so_Type r = ''inline'' then Some (E_New ''inline rule-set does not support multiple tags'')
         else if so_Type r = ''local'' then
           (if \<not> strings_Contains (so_Path r) tag_placeholder
            then Some (E_New ''missing {tag} placeholder in path'') else None)
         else if so_Type r = ''remote'' then
           (if \<not> strings_Contains (rmo_URL (so_Remote r)) tag_placeholder
            then Some (E_New ''missing {tag} placeholder in url'')
            else if so_Path r \<noteq> [] \<and> \<not> strings_Contains (so_Path r) tag_placeholder
            then Some (E_New ''missing {tag} placeholder in path'')
            else if rmo_InitialPath (so_Remote r) \<noteq> [] \<and>
                    \<not> strings_Contains (rmo_InitialPath (so_Remote r)) tag_placeholder
            then Some (E_New ''missing {tag} placeholder in initial_path'') else None)
         else None)
      else None)"

text \<open>
  \<open>RuleSet.UnmarshalJSON\<close>: \<open>decoded\<close> is what the JSON decoder makes of the common fields, \<open>excluded\<close> decodes
  the rest of an inline or remote rule-set, or checks that a local one has no other fields.
\<close>

definition RuleSet_UnmarshalJSON ::
  "(string \<Rightarrow> string option) \<Rightarrow> set_options res \<Rightarrow> (set_options \<Rightarrow> set_options res) \<Rightarrow> set_options res" where
  "RuleSet_UnmarshalJSON urlPath decoded excluded =
     rbind decoded (\<lambda>r.
       if so_Tag r = [] \<or> List.member (so_Tag r) [] then Inl (E_New ''missing tag'')
       else
         let t = (if so_Type r = [] then ''inline'' else so_Type r) in
         if t \<noteq> ''inline'' \<and> t \<noteq> ''local'' \<and> t \<noteq> ''remote'' then Inl (E_New (''unknown rule-set type: '' @ t))
         else
           rbind (excluded (r\<lparr>so_Type := t\<rparr>)) (\<lambda>r1.
             rbind (check_set_format urlPath r1) (\<lambda>r2.
               if so_Type r2 = ''remote'' \<and> so_Path r2 \<noteq> [] \<and> rmo_InitialPath (so_Remote r2) \<noteq> []
               then Inl (E_New ''rule-set path and initial_path are mutually exclusive'')
               else case check_set_tags r2 of Some e \<Rightarrow> Inl e | None \<Rightarrow> Inr r2)))"

text \<open>
  The file system of a local rule-set: \<open>filemanager.BasePath\<close> and \<open>filepath.Abs\<close> together, \<open>Stat\<close>,
  opening and reading a file, and the modification time of an open file.
\<close>

datatype path_status = PathMissing | PathError error | PathDir | PathFile

record set_files =
  fs_Abs :: "string \<Rightarrow> string"
  fs_Stat :: "string \<Rightarrow> path_status"
  fs_Read :: "string \<Rightarrow> byte list res"
  fs_ModTime :: "string \<Rightarrow> int res"

definition getPath :: "set_files \<Rightarrow> string \<Rightarrow> set_state \<Rightarrow> string res" where
  "getPath F path s =
     (let p = (if path = [] then
                 (if ss_format s = ''source'' \<or> ss_format s = [] then ss_tag s @ ''.json''
                  else if ss_format s = ''binary'' then ss_tag s @ ''.srs'' else ss_tag s)
               else path);
          q = fs_Abs F p
      in case fs_Stat F q of
           PathDir \<Rightarrow> Inl (E_New (''rule_set path is a directory: '' @ q))
         | PathError e \<Rightarrow> Inl (E_Cause e ''check rule-set path'')
         | PathMissing \<Rightarrow> Inr q
         | PathFile \<Rightarrow> Inr q)"

text \<open>\<open>reloadFile\<close> may load the rules and then fail on \<open>Stat\<close>: the state comes back with the error.\<close>

definition reloadFile ::
  "rule_env \<Rightarrow> build_env \<Rightarrow> set_validator \<Rightarrow> byte list set_loader \<Rightarrow> set_files \<Rightarrow> string \<Rightarrow> set_state \<Rightarrow>
   set_state \<times> error option" where
  "reloadFile E B validator L F path s =
     (case fs_Read F path of
        Inl e \<Rightarrow> (s, Some e)
      | Inr content \<Rightarrow>
          (case loadBytes E B validator L content s of
             Inl e \<Rightarrow> (s, Some e)
           | Inr (s', callbacks) \<Rightarrow>
               (case fs_ModTime F path of
                  Inl e \<Rightarrow> (s', Some e)
                | Inr t \<Rightarrow> (setUpdatedTime t s', None))))"

definition NewLocalRuleSet ::
  "rule_env \<Rightarrow> build_env \<Rightarrow> set_validator \<Rightarrow> byte list set_loader \<Rightarrow> set_files \<Rightarrow> error option \<Rightarrow> string \<Rightarrow>
   set_options \<Rightarrow> set_state res" where
  "NewLocalRuleSet E B validator L F watcherErr tag opts =
     (let s = new_set_state tag (so_Type opts) (so_Format opts) in
      if so_Type opts = ''inline'' then
        (if so_InlineRules opts = [] then Inl (E_New ''empty inline rule-set'')
         else rbind (reloadRules E B validator (so_InlineRules opts) s) (\<lambda>(s', callbacks). Inr s'))
      else
        rbind (getPath F (replace_all tag_placeholder tag (so_Path opts)) s) (\<lambda>path.
          case reloadFile E B validator L F path (s\<lparr>ss_path := path\<rparr>) of
            (s', Some e) \<Rightarrow> Inl e
          | (s', None) \<Rightarrow> (case watcherErr of Some e \<Rightarrow> Inl e | None \<Rightarrow> Inr s')))"

definition LocalRuleSet_Close :: "set_state \<Rightarrow> set_state" where
  "LocalRuleSet_Close s = s\<lparr>ss_rules := []\<rparr>"

section \<open>Lemmas: the metadata describes the rules\<close>

text \<open>The types a decoded rule-set uses: spelt out, at every level.\<close>

fun typed_h :: "headless_rule_options \<Rightarrow> bool" and typed_l :: "headless_logical_options \<Rightarrow> bool" where
  "typed_h (HeadlessRuleOpts t d l) = (t = ''default'' \<or> t = ''logical'' \<and> typed_l l)"
| "typed_l (HeadlessLogicalOpts mode rules s neg) = list_all typed_h rules"

lemma step_adds_add_or_raw [simp]:
  "step_adds g (add_or_raw h c item raw) \<longleftrightarrow> g = h \<and> (c \<or> raw \<noteq> None)"
  by (auto simp: add_or_raw_def split: option.split)

lemma run_steps_appends:
  "run_steps ss b = Inr b' \<Longrightarrow> \<exists>its. builder_items g b' = builder_items g b @ its"
proof (induction ss arbitrary: b)
  case (Cons s ss)
  then obtain b1 where b1: "run_step s b = Inr b1" "run_steps ss b1 = Inr b'" by auto
  have "\<exists>its. builder_items g b1 = builder_items g b @ its"
  proof (cases s)
    case (Add h c item)
    with b1(1) show ?thesis by (cases h; cases g) (auto split: if_splits)
  next
    case (Fail c e)
    with b1(1) show ?thesis by (auto split: if_splits)
  next
    case (AddRuleSet c t)
    with b1(1) show ?thesis by (cases g) auto
  qed
  moreover from Cons.IH [OF b1(2)] obtain its where "builder_items g b' = builder_items g b1 @ its" by blast
  ultimately show ?case by auto
qed simp

lemma run_steps_adds:
  "run_steps ss b = Inr b' \<Longrightarrow> list_ex (step_adds g) ss \<Longrightarrow> builder_items g b' \<noteq> []"
proof (induction ss arbitrary: b)
  case (Cons s ss)
  then obtain b1 where b1: "run_step s b = Inr b1" "run_steps ss b1 = Inr b'" by auto
  show ?case
  proof (cases "list_ex (step_adds g) ss")
    case True
    with Cons.IH b1(2) show ?thesis by blast
  next
    case False
    with Cons.prems(2) obtain item where "s = Add g True item" by (cases s) auto
    with b1(1) have "builder_items g b1 \<noteq> []" by (cases g) auto
    with run_steps_appends [OF b1(2), of g] show ?thesis by auto
  qed
qed simp

lemma NewDefaultHeadlessRule_filters:
  assumes "NewDefaultHeadlessRule E B opts = Inr r"
  shows "destinationIPCIDRItems r \<noteq> [] \<longleftrightarrow> isIPCIDRHeadlessRule opts"
proof -
  let ?st = "effective_strategy B (ho_DomainMatchStrategy opts)"
  let ?steps = "headless_domain_steps E ?st opts @ headless_address_steps E opts @
                headless_process_steps E opts @ headless_network_steps E (be_NetworkManager B) ?st opts"
  obtain b where b: "run_steps ?steps empty_builder = Inr b"
    and r: "r = build_drule b (headless_ruleCount b) (mo_Invert opts)"
    using assms by (auto simp: NewDefaultHeadlessRule_def Let_def)
  have adds: "list_ex (step_adds DestinationIPCIDR) ?steps \<longleftrightarrow> isIPCIDRHeadlessRule opts"
    by (auto simp: headless_step_lists isIPCIDRHeadlessRule_def)
  show ?thesis
    using run_steps_adds [OF b, of DestinationIPCIDR] run_steps_group [OF b, of DestinationIPCIDR] adds
    by (auto simp: r build_drule_def empty_builder_def)
qed

lemma d_filters_no_sets: "ruleSetItem r = None \<Longrightarrow> d_filters r \<longleftrightarrow> destinationIPCIDRItems r \<noteq> []"
  by (cases r) simp

lemma headless_filters:
  "NewHeadlessRule E B o' = Inr h \<Longrightarrow> typed_h o' \<Longrightarrow> h_filters h = has_headless_one isIPCIDRHeadlessRule o'"
  "NewLogicalHeadlessRule E B l = Inr h \<Longrightarrow> typed_l l \<Longrightarrow> h_filters h = has_headless_logical isIPCIDRHeadlessRule l"
  "headless_sub_rules E B st i os = Inr hs \<Longrightarrow> list_all typed_h os \<Longrightarrow>
   list_ex h_filters hs = HasHeadlessRule isIPCIDRHeadlessRule os"
proof (induction E B o' and E B l and E B st i os arbitrary: h and h and hs
    rule: NewHeadlessRule_NewLogicalHeadlessRule_headless_sub_rules.induct)
  case (1 E B t d l)
  then show ?case
    by (auto simp: d_filters_no_sets NewDefaultHeadlessRule_no_sets NewDefaultHeadlessRule_filters split: if_splits)
next
  case (2 E B mode rules s neg)
  then show ?case by auto
next
  case (3 E B st i)
  then show ?case by simp
next
  case (4 E B st i r rs)
  have "typed_h (headless_inherit st r) = typed_h r"
    by (induction st r rule: headless_inherit.induct) simp
  moreover have "has_headless_one isIPCIDRHeadlessRule (headless_inherit st r) = has_headless_one isIPCIDRHeadlessRule r"
    by (induction st r rule: headless_inherit.induct) (simp add: isIPCIDRHeadlessRule_def)
  ultimately show ?case
    using 4 by (auto split: sum.splits)
qed

lemma build_set_rules_filters:
  "build_set_rules E B i n os = Inr (hs, n') \<Longrightarrow> list_all typed_h os \<Longrightarrow>
   list_ex h_filters hs = HasHeadlessRule isIPCIDRHeadlessRule os"
  by (induction os arbitrary: i n hs n') (auto simp: headless_filters(1) split: sum.splits prod.splits)

lemma reloadRules_result:
  assumes "reloadRules E B validator os s = Inr (s', cbs)"
  obtains rules n where "build_set_rules E B 0 0 os = Inr (rules, n)" "cbs = ss_callbacks s"
    "s' = s\<lparr>ss_rules := rules, ss_ruleCount := n, ss_metadata := buildRuleSetMetadata E os\<rparr>"
    "validateRuleSetMetadataUpdate validator (ss_tag s) (buildRuleSetMetadata E os) = None"
  using assms that by (auto simp: reloadRules_def Let_def split: option.splits)

lemma reloadRules_metadata:
  assumes "reloadRules E B validator os s = Inr (s', cbs)" "list_all typed_h os"
  shows "ContainsIPCIDRRule (ss_metadata s') \<longleftrightarrow> s_filters (view_of s')"
  using assms(1)
proof (rule reloadRules_result)
  fix rules n
  assume "build_set_rules E B 0 0 os = Inr (rules, n)"
    "s' = s\<lparr>ss_rules := rules, ss_ruleCount := n, ss_metadata := buildRuleSetMetadata E os\<rparr>"
  with assms(2) show ?thesis
    by (simp add: view_of_def buildRuleSetMetadata_def build_set_rules_filters)
qed

end
