(* ===== verification/Rule_Set_Refs.thy ===== *)
theory Rule_Set_Refs
  imports Rule_Set
begin

text \<open>
  Reference counting of rule-sets: \<open>RuleSetItem.Start\<close> and \<open>Close\<close> (\<open>route/rule/rule_item_rule_set.go\<close>)
  take and return references through the interface \<open>adapter.RuleSet\<close>, while the router cleans up and
  reloads the same rule-sets (\<open>route/router.go\<close>). An item refers to its rule-sets by their tags, under
  which the router's map holds them. The loops below call \<open>IncRef\<close> and \<open>DecRef\<close> through arguments; the
  locale \<open>ref_counted\<close> is what they rely on.
\<close>

section \<open>The loops of an item\<close>

fun close_loop :: "('s \<Rightarrow> 's res) \<Rightarrow> string list \<Rightarrow> (string \<rightharpoonup> 's) \<Rightarrow> (string \<rightharpoonup> 's) res" where
  "close_loop dec [] sets = Inr sets"
| "close_loop dec (t # ts) sets =
     (case sets t of
        None \<Rightarrow> close_loop dec ts sets
      | Some s \<Rightarrow> rbind (dec s) (\<lambda>s'. close_loop dec ts (sets(t \<mapsto> s'))))"

text \<open>\<open>Start\<close> after its first \<open>Close\<close>: the error, the new \<open>setList\<close> and the rule-sets.\<close>

fun start_loop ::
  "('s \<Rightarrow> 's) \<Rightarrow> ('s \<Rightarrow> 's res) \<Rightarrow> string list \<Rightarrow> string list \<Rightarrow> (string \<rightharpoonup> 's) \<Rightarrow>
   (error option \<times> string list \<times> (string \<rightharpoonup> 's)) res" where
  "start_loop inc dec [] acc sets = Inr (None, acc, sets)"
| "start_loop inc dec (t # ts) acc sets =
     (case sets t of
        None \<Rightarrow> rbind (close_loop dec acc sets)
                 (\<lambda>sets'. Inr (Some (E_New (''rule-set not found: '' @ t)), [], sets'))
      | Some s \<Rightarrow> start_loop inc dec ts (acc @ [t]) (sets(t \<mapsto> inc s)))"

record ref_item =
  ri_tagList :: "string list"
  ri_setList :: "string list"

definition RuleSetItem_Close ::
  "('s \<Rightarrow> 's res) \<Rightarrow> ref_item \<Rightarrow> (string \<rightharpoonup> 's) \<Rightarrow> (ref_item \<times> (string \<rightharpoonup> 's)) res" where
  "RuleSetItem_Close dec it sets =
     rbind (close_loop dec (ri_setList it) sets) (\<lambda>sets'. Inr (it\<lparr>ri_setList := []\<rparr>, sets'))"

definition RuleSetItem_Start ::
  "('s \<Rightarrow> 's) \<Rightarrow> ('s \<Rightarrow> 's res) \<Rightarrow> ref_item \<Rightarrow> (string \<rightharpoonup> 's) \<Rightarrow>
   (error option \<times> ref_item \<times> (string \<rightharpoonup> 's)) res" where
  "RuleSetItem_Start inc dec it sets =
     rbind (RuleSetItem_Close dec it sets) (\<lambda>(it', sets').
       rbind (start_loop inc dec (ri_tagList it') [] sets')
         (\<lambda>(e, setList, sets''). Inr (e, it'\<lparr>ri_setList := setList\<rparr>, sets'')))"

section \<open>The contract of a counted object\<close>

locale ref_counted =
  fixes inc :: "'s \<Rightarrow> 's" and dec :: "'s \<Rightarrow> 's res" and refs :: "'s \<Rightarrow> nat" and limit :: nat
    and content :: "'s \<Rightarrow> 'b"
  assumes inc_refs: "Suc (refs s) < limit \<Longrightarrow> refs (inc s) = Suc (refs s)"
    and dec_refs: "refs s = Suc n \<Longrightarrow> refs s < limit \<Longrightarrow> \<exists>s'. dec s = Inr s' \<and> refs s' = n"
    and inc_content: "content (inc s) = content s"
    and dec_content: "dec s = Inr s' \<Longrightarrow> content s' = content s"
begin

text \<open>\<open>counts N sets\<close>: the counter of every rule-set is what \<open>N\<close> says.\<close>

definition counts :: "(string \<Rightarrow> nat) \<Rightarrow> (string \<rightharpoonup> 's) \<Rightarrow> bool" where
  "counts N sets \<longleftrightarrow> (\<forall>t s. sets t = Some s \<longrightarrow> refs s = N t)"

definition same_content :: "(string \<rightharpoonup> 's) \<Rightarrow> (string \<rightharpoonup> 's) \<Rightarrow> bool" where
  "same_content sets sets' \<longleftrightarrow> (\<forall>t. map_option content (sets t) = map_option content (sets' t))"

lemma same_content_refl [simp]: "same_content sets sets"
  by (simp add: same_content_def)

lemma same_content_trans: "same_content a b \<Longrightarrow> same_content b c \<Longrightarrow> same_content a c"
  by (simp add: same_content_def)

lemma same_content_dom: "same_content a b \<Longrightarrow> dom a = dom b"
  unfolding same_content_def by (metis dom_map_option_comp comp_apply ext)

lemma same_content_upd: "sets t = Some s \<Longrightarrow> content s' = content s \<Longrightarrow> same_content sets (sets(t \<mapsto> s'))"
  by (simp add: same_content_def)

text \<open>Returning the references of a list takes the list off the counts.\<close>

lemma close_loop_ok:
  assumes "counts (\<lambda>t. N t + count_list ts t) sets" "\<And>t. N t + count_list ts t < limit" "set ts \<subseteq> dom sets"
  shows "\<exists>sets'. close_loop dec ts sets = Inr sets' \<and> counts N sets' \<and> same_content sets sets'"
  using assms
proof (induction ts arbitrary: sets)
  case Nil
  then show ?case by simp
next
  case (Cons t ts)
  then obtain s where s: "sets t = Some s" by auto
  then have "refs s = Suc (N t + count_list ts t)"
    using Cons.prems(1) by (simp add: counts_def)
  moreover have "Suc (N t + count_list ts t) < limit"
    using Cons.prems(2) [of t] by simp
  ultimately obtain s' where s': "dec s = Inr s'" "refs s' = N t + count_list ts t"
    using dec_refs by metis
  have counts: "counts (\<lambda>u. N u + count_list ts u) (sets(t \<mapsto> s'))"
    using Cons.prems(1) s' by (auto simp: counts_def split: if_splits)
  have limit: "N u + count_list ts u < limit" for u
    using Cons.prems(2) [of u] by (simp split: if_splits)
  have dom: "set ts \<subseteq> dom (sets(t \<mapsto> s'))"
    using Cons.prems(3) by auto
  obtain sets' where "close_loop dec ts (sets(t \<mapsto> s')) = Inr sets'" "counts N sets'"
    "same_content (sets(t \<mapsto> s')) sets'"
    using Cons.IH [OF counts limit dom] by blast
  with s s' show ?case
    using same_content_trans [OF same_content_upd [of sets t s s', OF s dec_content [OF s'(1)]]] by auto
qed

text \<open>Starting either takes one reference per tag or returns those it took.\<close>

lemma start_loop_ok:
  assumes "counts (\<lambda>t. N t + count_list acc t) sets" "\<And>t. N t + count_list acc t + count_list ts t < limit"
    "set acc \<subseteq> dom sets"
  shows "\<exists>e ys sets'. start_loop inc dec ts acc sets = Inr (e, ys, sets') \<and>
      counts (\<lambda>t. N t + count_list ys t) sets' \<and> same_content sets sets' \<and>
      ys = (if e = None then acc @ ts else []) \<and> (e = None \<longleftrightarrow> set ts \<subseteq> dom sets)"
  using assms
proof (induction ts arbitrary: acc sets)
  case Nil
  then show ?case by simp
next
  case (Cons t ts)
  show ?case
  proof (cases "sets t")
    case None
    have "N u + count_list acc u < limit" for u
      using Cons.prems(2) [of u] by simp
    then obtain sets' where "close_loop dec acc sets = Inr sets'" "counts N sets'" "same_content sets sets'"
      using close_loop_ok [OF Cons.prems(1) _ Cons.prems(3)] by blast
    with None show ?thesis by auto
  next
    case (Some s)
    have lim: "Suc (N t + count_list acc t) < limit"
      using Cons.prems(2) [of t] by simp
    have "refs s = N t + count_list acc t"
      using Some Cons.prems(1) by (simp add: counts_def)
    then have "refs (inc s) = Suc (N t + count_list acc t)"
      using inc_refs [of s] lim by simp
    then have counts: "counts (\<lambda>u. N u + count_list (acc @ [t]) u) (sets(t \<mapsto> inc s))"
      using Cons.prems(1) by (auto simp: counts_def split: if_splits)
    have limit: "N u + count_list (acc @ [t]) u + count_list ts u < limit" for u
      using Cons.prems(2) [of u] by (simp split: if_splits)
    have dom: "set (acc @ [t]) \<subseteq> dom (sets(t \<mapsto> inc s))"
      using Cons.prems(3) by auto
    from Cons.IH [OF counts limit dom] obtain e ys sets' where ih:
      "start_loop inc dec ts (acc @ [t]) (sets(t \<mapsto> inc s)) = Inr (e, ys, sets')"
      "counts (\<lambda>u. N u + count_list ys u) sets'" "same_content (sets(t \<mapsto> inc s)) sets'"
      "ys = (if e = None then (acc @ [t]) @ ts else [])" "e = None \<longleftrightarrow> set ts \<subseteq> dom (sets(t \<mapsto> inc s))"
      by blast
    have "dom (sets(t \<mapsto> inc s)) = dom sets" "t \<in> dom sets"
      using Some by auto
    moreover have "same_content sets sets'"
      using same_content_trans [OF same_content_upd [of sets t s "inc s", OF Some inc_content] ih(3)] .
    ultimately show ?thesis
      using ih(1,2,4,5) Some by (intro exI [of _ e] exI [of _ ys] exI [of _ sets']) simp
  qed
qed

end

section \<open>Rule-sets keep the contract\<close>

definition refs_of :: "set_state \<Rightarrow> nat" where
  "refs_of s = unat (ss_refs s)"

definition ref_limit :: nat where
  "ref_limit = 2 ^ 31"

lemma sint_small: "n < 2 ^ 31 \<Longrightarrow> sint (of_nat n :: 32 word) = int n"
  by (simp add: signed_of_nat signed_take_bit_int_eq_self)

lemma unat_Suc_pred:
  assumes "unat (w :: 32 word) = Suc n" "Suc n < 2 ^ 31"
  shows "w - 1 = of_nat n"
proof -
  have "w = of_nat (Suc n)"
    using assms by (simp add: word_unat_eq_iff unat_of_nat del: of_nat_Suc)
  then show ?thesis by simp
qed

lemma DecRef_ok:
  assumes "refs_of s = Suc n" "refs_of s < ref_limit"
  shows "DecRef s = Inr (s\<lparr>ss_refs := of_nat n\<rparr>)"
  using assms unat_Suc_pred [of "ss_refs s" n]
  by (simp add: refs_of_def ref_limit_def DecRef_def Let_def sint_small)

interpretation set_refs: ref_counted IncRef DecRef refs_of ref_limit ss_rules
proof
  fix s :: set_state and n :: nat
  show "Suc (refs_of s) < ref_limit \<Longrightarrow> refs_of (IncRef s) = Suc (refs_of s)"
    by (simp add: refs_of_def IncRef_def ref_limit_def unat_word_ariths)
  show "refs_of s = Suc n \<Longrightarrow> refs_of s < ref_limit \<Longrightarrow> \<exists>s'. DecRef s = Inr s' \<and> refs_of s' = n"
    by (auto simp: DecRef_ok refs_of_def ref_limit_def unat_of_nat)
next
  fix s s' :: set_state
  show "ss_rules (IncRef s) = ss_rules s" by (simp add: IncRef_def)
  show "DecRef s = Inr s' \<Longrightarrow> ss_rules s' = ss_rules s"
    by (auto simp: DecRef_def Let_def split: if_splits)
qed

section \<open>The router's rule-sets over time\<close>

record sets_state =
  st_sets :: "string \<rightharpoonup> set_state"
  st_items :: "ref_item list"

definition item_Start :: "ref_item \<Rightarrow> (string \<rightharpoonup> set_state) \<Rightarrow> (error option \<times> ref_item \<times> (string \<rightharpoonup> set_state)) res" where
  "item_Start = RuleSetItem_Start IncRef DecRef"

definition item_Close :: "ref_item \<Rightarrow> (string \<rightharpoonup> set_state) \<Rightarrow> (ref_item \<times> (string \<rightharpoonup> set_state)) res" where
  "item_Close = RuleSetItem_Close DecRef"

text \<open>One step: an item starts or closes, a rule-set is cleaned up or reloads its rules.\<close>

inductive sets_step :: "rule_env \<Rightarrow> build_env \<Rightarrow> set_validator \<Rightarrow> sets_state \<Rightarrow> sets_state \<Rightarrow> bool"
  for E B validator where
  start: "i < length (st_items st) \<Longrightarrow> item_Start (st_items st ! i) (st_sets st) = Inr (e, it, sets) \<Longrightarrow>
     sets_step E B validator st (st\<lparr>st_sets := sets, st_items := (st_items st)[i := it]\<rparr>)"
| close: "i < length (st_items st) \<Longrightarrow> item_Close (st_items st ! i) (st_sets st) = Inr (it, sets) \<Longrightarrow>
     sets_step E B validator st (st\<lparr>st_sets := sets, st_items := (st_items st)[i := it]\<rparr>)"
| cleanup: "st_sets st t = Some s \<Longrightarrow>
     sets_step E B validator st (st\<lparr>st_sets := (st_sets st)(t \<mapsto> Cleanup s)\<rparr>)"
| reload: "st_sets st t = Some s \<Longrightarrow> reloadRules E B validator os s = Inr (s', callbacks) \<Longrightarrow>
     sets_step E B validator st (st\<lparr>st_sets := (st_sets st)(t \<mapsto> s')\<rparr>)"

text \<open>Before anything has started; the total number of tags fits the counter.\<close>

definition sets_init :: "sets_state \<Rightarrow> bool" where
  "sets_init st \<longleftrightarrow>
     (\<forall>t s. st_sets st t = Some s \<longrightarrow> ss_refs s = 0) \<and> (\<forall>it\<in>set (st_items st). ri_setList it = []) \<and>
     sum_list (map (\<lambda>it. length (ri_tagList it)) (st_items st)) < ref_limit"

inductive sets_reachable :: "rule_env \<Rightarrow> build_env \<Rightarrow> set_validator \<Rightarrow> sets_state \<Rightarrow> bool"
  for E B validator where
  init: "sets_init st \<Longrightarrow> sets_reachable E B validator st"
| step: "sets_reachable E B validator st \<Longrightarrow> sets_step E B validator st st' \<Longrightarrow> sets_reachable E B validator st'"

section \<open>The invariant\<close>

definition item_refs :: "ref_item list \<Rightarrow> string \<Rightarrow> nat" where
  "item_refs its t = sum_list (map (\<lambda>it. count_list (ri_setList it) t) its)"

definition tag_total :: "ref_item list \<Rightarrow> nat" where
  "tag_total its = sum_list (map (\<lambda>it. length (ri_tagList it)) its)"

definition items_ok :: "(string \<rightharpoonup> set_state) \<Rightarrow> ref_item list \<Rightarrow> bool" where
  "items_ok sets its \<longleftrightarrow>
     (\<forall>it\<in>set its. set (ri_setList it) \<subseteq> dom sets \<and> (ri_setList it = ri_tagList it \<or> ri_setList it = []))"

definition sets_inv :: "sets_state \<Rightarrow> bool" where
  "sets_inv st \<longleftrightarrow>
     set_refs.counts (item_refs (st_items st)) (st_sets st) \<and> items_ok (st_sets st) (st_items st) \<and>
     tag_total (st_items st) < ref_limit"

lemma item_refs_update:
  "i < length its \<Longrightarrow>
   item_refs (its[i := x]) t + count_list (ri_setList (its ! i)) t = item_refs its t + count_list (ri_setList x) t"
  unfolding item_refs_def
proof (induction its arbitrary: i)
  case (Cons it its)
  then show ?case by (cases i) (auto simp: add.assoc add.left_commute)
qed simp

lemma tag_total_update:
  "i < length its \<Longrightarrow> ri_tagList x = ri_tagList (its ! i) \<Longrightarrow> tag_total (its[i := x]) = tag_total its"
  unfolding tag_total_def
proof (induction its arbitrary: i)
  case (Cons it its)
  then show ?case by (cases i) auto
qed simp

lemma item_refs_le:
  "(\<forall>it\<in>set its. ri_setList it = ri_tagList it \<or> ri_setList it = []) \<Longrightarrow> item_refs its t \<le> tag_total its"
  unfolding item_refs_def tag_total_def
proof (induction its)
  case (Cons it its)
  then have "count_list (ri_setList it) t \<le> length (ri_tagList it)"
    by (auto intro: count_le_length)
  with Cons show ?case by fastforce
qed simp

lemma items_ok_update:
  "items_ok sets its \<Longrightarrow> set (ri_setList x) \<subseteq> dom sets \<Longrightarrow> ri_setList x = ri_tagList x \<or> ri_setList x = [] \<Longrightarrow>
   items_ok sets (its[i := x])"
  by (auto simp: items_ok_def dest!: set_update_subset_insert [THEN subsetD])

lemma item_Close_ok:
  assumes "sets_inv st" "i < length (st_items st)"
  defines "it \<equiv> (st_items st ! i)\<lparr>ri_setList := []\<rparr>"
  shows "\<exists>sets. item_Close (st_items st ! i) (st_sets st) = Inr (it, sets) \<and>
     set_refs.same_content (st_sets st) sets \<and>
     sets_inv (st\<lparr>st_sets := sets, st_items := (st_items st)[i := it]\<rparr>)"
proof -
  let ?its = "(st_items st)[i := it]"
  let ?xs = "ri_setList (st_items st ! i)"
  have split: "item_refs ?its t + count_list ?xs t = item_refs (st_items st) t" for t
    using item_refs_update [OF assms(2), of it t] by (simp add: it_def)
  have ok: "items_ok (st_sets st) (st_items st)" "tag_total (st_items st) < ref_limit"
    using assms(1) by (auto simp: sets_inv_def)
  then have "item_refs (st_items st) t < ref_limit" for t
    using item_refs_le [of "st_items st" t] by (auto simp: items_ok_def)
  moreover have "set ?xs \<subseteq> dom (st_sets st)"
    using ok(1) nth_mem [OF assms(2)] unfolding items_ok_def by blast
  moreover have "set_refs.counts (\<lambda>t. item_refs ?its t + count_list ?xs t) (st_sets st)"
    unfolding split using assms(1) by (simp add: sets_inv_def)
  ultimately obtain sets where sets: "close_loop DecRef ?xs (st_sets st) = Inr sets"
    "set_refs.counts (item_refs ?its) sets" "set_refs.same_content (st_sets st) sets"
    using set_refs.close_loop_ok [of "item_refs ?its" ?xs "st_sets st"] by (auto simp: split)
  have "items_ok sets ?its"
    using items_ok_update [OF ok(1), of it i] set_refs.same_content_dom [OF sets(3)]
    by (auto simp: items_ok_def it_def)
  moreover have "tag_total ?its < ref_limit"
    using ok(2) tag_total_update [OF assms(2), of it] by (simp add: it_def)
  ultimately show ?thesis
    using sets by (auto simp: item_Close_def RuleSetItem_Close_def it_def sets_inv_def)
qed

text \<open>Taking one reference per tag stays below the limit.\<close>

lemma start_bound:
  assumes "sets_inv st" "i < length (st_items st)"
  shows "item_refs ((st_items st)[i := (st_items st ! i)\<lparr>ri_setList := []\<rparr>]) t +
    count_list (ri_tagList (st_items st ! i)) t < ref_limit"
proof -
  let ?it = "st_items st ! i"
  let ?full = "(st_items st)[i := ?it\<lparr>ri_setList := ri_tagList ?it\<rparr>]"
  have "item_refs ?full t = item_refs ((st_items st)[i := ?it\<lparr>ri_setList := []\<rparr>]) t + count_list (ri_tagList ?it) t"
    using item_refs_update [of i "(st_items st)[i := ?it\<lparr>ri_setList := []\<rparr>]" "?it\<lparr>ri_setList := ri_tagList ?it\<rparr>" t]
      assms(2) by simp
  moreover have "item_refs ?full t \<le> tag_total ?full"
    using assms(1)
    by (intro item_refs_le) (auto simp: sets_inv_def items_ok_def dest!: set_update_subset_insert [THEN subsetD])
  moreover have "tag_total ?full < ref_limit"
    using tag_total_update [OF assms(2)] assms(1) by (simp add: sets_inv_def)
  ultimately show ?thesis by simp
qed

lemma item_Start_ok:
  assumes "sets_inv st" "i < length (st_items st)"
  shows "\<exists>e it sets. item_Start (st_items st ! i) (st_sets st) = Inr (e, it, sets) \<and>
     set_refs.same_content (st_sets st) sets \<and>
     sets_inv (st\<lparr>st_sets := sets, st_items := (st_items st)[i := it]\<rparr>) \<and>
     (e = None \<longleftrightarrow> set (ri_tagList (st_items st ! i)) \<subseteq> dom (st_sets st)) \<and>
     ri_setList it = (if e = None then ri_tagList (st_items st ! i) else [])"
proof -
  define it0 where "it0 = (st_items st ! i)\<lparr>ri_setList := []\<rparr>"
  let ?its = "(st_items st)[i := it0]"
  let ?ts = "ri_tagList (st_items st ! i)"
  obtain sets0 where close: "item_Close (st_items st ! i) (st_sets st) = Inr (it0, sets0)"
    and same0: "set_refs.same_content (st_sets st) sets0"
    and inv0: "sets_inv (st\<lparr>st_sets := sets0, st_items := ?its\<rparr>)"
    using item_Close_ok [OF assms] by (auto simp: it0_def)
  have ok: "items_ok sets0 ?its" "tag_total ?its < ref_limit" "set_refs.counts (item_refs ?its) sets0"
    using inv0 by (auto simp: sets_inv_def)
  have bound: "item_refs ?its t + count_list ?ts t < ref_limit" for t
    using start_bound [OF assms] by (simp add: it0_def)
  have counts0: "set_refs.counts (\<lambda>t. item_refs ?its t + count_list [] t) sets0"
    using ok(3) by simp
  have bound0: "item_refs ?its t + count_list [] t + count_list ?ts t < ref_limit" for t
    using bound [of t] by simp
  have "\<exists>e ys sets. start_loop IncRef DecRef ?ts [] sets0 = Inr (e, ys, sets) \<and>
    set_refs.counts (\<lambda>t. item_refs ?its t + count_list ys t) sets \<and> set_refs.same_content sets0 sets \<and>
    ys = (if e = None then ?ts else []) \<and> (e = None \<longleftrightarrow> set ?ts \<subseteq> dom sets0)"
    using set_refs.start_loop_ok [OF counts0 bound0] unfolding append_Nil by simp
  then obtain e ys sets where start: "start_loop IncRef DecRef ?ts [] sets0 = Inr (e, ys, sets)"
    "set_refs.counts (\<lambda>t. item_refs ?its t + count_list ys t) sets" "set_refs.same_content sets0 sets"
    "ys = (if e = None then ?ts else [])" "e = None \<longleftrightarrow> set ?ts \<subseteq> dom sets0"
    by blast
  define it where "it = it0\<lparr>ri_setList := ys\<rparr>"
  have dom: "dom sets = dom (st_sets st)" "dom sets0 = dom (st_sets st)"
    using set_refs.same_content_dom [OF start(3)] set_refs.same_content_dom [OF same0] by auto
  have "item_refs ((st_items st)[i := it]) = (\<lambda>t. item_refs ?its t + count_list ys t)"
    using item_refs_update [of i ?its it] assms(2) by (auto simp: it_def it0_def)
  moreover have "items_ok sets ((st_items st)[i := it])"
  proof -
    have "items_ok sets ?its" using ok(1) dom by (simp add: items_ok_def)
    moreover have "set ys \<subseteq> dom sets" using start(4,5) dom by auto
    ultimately have "items_ok sets (?its[i := it])"
      using start(4) items_ok_update [of sets ?its it i] by (simp add: it_def it0_def)
    then show ?thesis by simp
  qed
  moreover have "tag_total ((st_items st)[i := it]) < ref_limit"
    using ok(2) tag_total_update [OF assms(2), of it] tag_total_update [OF assms(2), of it0]
    by (simp add: it_def it0_def)
  ultimately have "sets_inv (st\<lparr>st_sets := sets, st_items := (st_items st)[i := it]\<rparr>)"
    using start(2) by (simp add: sets_inv_def)
  moreover have "item_Start (st_items st ! i) (st_sets st) = Inr (e, it, sets)"
    using close start(1) by (simp add: item_Start_def item_Close_def RuleSetItem_Start_def it_def it0_def)
  ultimately show ?thesis
    using start(4,5) dom same0 start(3) set_refs.same_content_trans [OF same0 start(3)]
    by (intro exI [of _ e] exI [of _ it] exI [of _ sets]) (auto simp: it_def)
qed

lemma sets_inv_init: "sets_init st \<Longrightarrow> sets_inv st"
  by (auto simp: sets_init_def sets_inv_def set_refs.counts_def item_refs_def items_ok_def tag_total_def
      refs_of_def intro!: sum_list_0 [symmetric])

text \<open>A change of one rule-set that keeps its counter keeps the invariant.\<close>

lemma sets_inv_set_update:
  assumes "sets_inv st" "st_sets st t = Some s" "ss_refs s' = ss_refs s"
  shows "sets_inv (st\<lparr>st_sets := (st_sets st)(t \<mapsto> s')\<rparr>)"
proof -
  have "dom ((st_sets st)(t \<mapsto> s')) = dom (st_sets st)"
    using assms(2) by auto
  then show ?thesis
    using assms by (auto simp: sets_inv_def set_refs.counts_def items_ok_def refs_of_def)
qed

lemma sets_step_inv: "sets_step E B validator st st' \<Longrightarrow> sets_inv st \<Longrightarrow> sets_inv st'"
proof (induction rule: sets_step.induct)
  case (start i st e it sets)
  then show ?case using item_Start_ok [of st i] by auto
next
  case (close i st it sets)
  then show ?case using item_Close_ok [of st i] by auto
next
  case (cleanup st t s)
  then show ?case by (intro sets_inv_set_update [of st t s]) (simp_all add: Cleanup_def)
next
  case (reload st t s os s' callbacks)
  then show ?case
    by (intro sets_inv_set_update [of st t s s']) (auto elim: reloadRules_result)
qed

lemma sets_reachable_inv: "sets_reachable E B validator st \<Longrightarrow> sets_inv st"
  by (induction rule: sets_reachable.induct) (auto intro: sets_inv_init sets_step_inv)

lemma sets_inv_used:
  assumes "sets_inv st" "it \<in> set (st_items st)" "t \<in> set (ri_setList it)" "st_sets st t = Some s"
  shows "0 < refs_of s"
proof -
  have "0 < count_list (ri_setList it) t"
    using assms(3) by (simp add: count_list_0_iff neq0_conv [symmetric] del: neq0_conv)
  also have "\<dots> \<le> item_refs (st_items st) t"
    unfolding item_refs_def using assms(2) by (intro member_le_sum_list) auto
  finally show ?thesis
    using assms(1,4) by (simp add: sets_inv_def set_refs.counts_def)
qed

inductive_cases sets_step_cases: "sets_step E B validator st st'"

end
