(* ===== verification/Rule_Set_Remote.thy ===== *)
theory Rule_Set_Remote
  imports Rule_Set_Refs
begin

text \<open>
  Remote rule-sets and their updater (\<open>route/rule/rule_set_remote.go\<close>, \<open>rule_set_updater.go\<close>). The HTTP
  client, the hash functions and the failures of the file system and of the cache file are arguments
  (\<open>remote_env\<close>); the files and the cache entry of the rule-set are the state \<open>world\<close>. Calls of one
  rule-set do not overlap: \<open>updating\<close> turns an overlapping one away.
\<close>

section \<open>State\<close>

record saved_binary =
  sv_Content :: "byte list"
  sv_LastUpdated :: int
  sv_LastEtag :: string
  sv_URLHash :: "byte list"
  sv_Hash :: "byte list"

text \<open>The cache file, if one is configured, with its entry for the tag; files with modification times.\<close>

record world =
  wd_cache :: "saved_binary option option"
  wd_disk :: "string \<rightharpoonup> byte list \<times> int"

datatype http_result = HttpFailed error | HttpResponse nat string string "byte list res"

record remote_env =
  re_Abs :: "string \<Rightarrow> string"
  sha256_Sum256 :: "string \<Rightarrow> byte list"
  MakeHash :: "byte list \<Rightarrow> byte list"
  http_NewRequest :: "string \<Rightarrow> error option"
  http_Do :: "string \<Rightarrow> string \<Rightarrow> http_result"
  path_Stat :: "string \<Rightarrow> path_status"
  read_Error :: "string \<Rightarrow> error option"
  save_Error :: "string \<Rightarrow> error option"
  cache_Error :: "error option"

record remote_state =
  rm_set :: set_state
  rm_url :: string
  rm_urlHash :: "byte list"
  rm_initialPath :: string
  rm_updateInterval :: int
  rm_hash :: "byte list"
  rm_lastEtag :: string
  rm_updating :: bool

definition zero_hash :: "byte list" where
  "zero_hash = replicate 16 0"

definition day :: int where
  "day = 24 * 3600 * 1000000000"

definition NewRemoteRuleSet :: "remote_env \<Rightarrow> string \<Rightarrow> set_options \<Rightarrow> remote_state res" where
  "NewRemoteRuleSet R tag opts =
     (if so_Path opts \<noteq> [] \<and> rmo_InitialPath (so_Remote opts) \<noteq> []
      then Inl (E_New ''rule-set path and initial_path are mutually exclusive'')
      else
        let path = (if so_Path opts \<noteq> [] then re_Abs R (replace_all tag_placeholder tag (so_Path opts)) else []);
            initialPath = (if rmo_InitialPath (so_Remote opts) \<noteq> []
                           then re_Abs R (replace_all tag_placeholder tag (rmo_InitialPath (so_Remote opts))) else []);
            url = replace_all tag_placeholder tag (rmo_URL (so_Remote opts))
        in Inr \<lparr>rm_set = (new_set_state tag (so_Type opts) (so_Format opts))\<lparr>ss_path := path\<rparr>,
                rm_url = url, rm_urlHash = sha256_Sum256 R url, rm_initialPath = initialPath,
                rm_updateInterval = (if rmo_UpdateInterval (so_Remote opts) > 0
                                     then rmo_UpdateInterval (so_Remote opts) else day),
                rm_hash = zero_hash, rm_lastEtag = [], rm_updating = False\<rparr>)"

datatype transport_choice = ClientTransport | DetourTransport string | DefaultTransport

text \<open>
  \<open>resolveTransport\<close>: which transport the options name; \<open>resolve\<close> is the HTTP client manager's answer.
\<close>

definition resolveTransport :: "(transport_choice \<Rightarrow> error option) \<Rightarrow> remote_options \<Rightarrow> transport_choice res" where
  "resolveTransport resolve opts =
     (let choice = (if rmo_HTTPClient opts then
                      (if rmo_DownloadDetour opts \<noteq> []
                       then Inl (E_New ''http_client conflicts with deprecated download_detour field'')
                       else Inr ClientTransport)
                    else if rmo_DownloadDetour opts \<noteq> [] then Inr (DetourTransport (rmo_DownloadDetour opts))
                    else Inr DefaultTransport)
      in rbind choice (\<lambda>c.
           case resolve c of
             None \<Rightarrow> Inr c
           | Some e \<Rightarrow> Inl (if c = DefaultTransport
                            then E_New ''default http client transport is not initialized'' else e)))"

section \<open>Loading and saving\<close>

definition pathExists :: "remote_env \<Rightarrow> string \<Rightarrow> bool res" where
  "pathExists R path =
     (case path_Stat R path of
        PathFile \<Rightarrow> Inr True
      | PathDir \<Rightarrow> Inl (E_New (''rule_set path is a directory: '' @ path))
      | PathMissing \<Rightarrow> Inr False
      | PathError e \<Rightarrow> Inl e)"

definition read_file :: "remote_env \<Rightarrow> string \<Rightarrow> world \<Rightarrow> (byte list \<times> int) res" where
  "read_file R path w =
     (case read_Error R path of
        Some e \<Rightarrow> Inl e
      | None \<Rightarrow> (case wd_disk w path of None \<Rightarrow> Inl (E_Ext ''file does not exist'') | Some f \<Rightarrow> Inr f))"

definition saveCacheFile ::
  "remote_env \<Rightarrow> int \<Rightarrow> byte list \<Rightarrow> remote_state \<Rightarrow> world \<Rightarrow> (remote_state \<times> world) res" where
  "saveCacheFile R now content st w =
     (let path = ss_path (rm_set st) in
      case save_Error R path of
        Some e \<Rightarrow> Inl e
      | None \<Rightarrow> Inr (st\<lparr>rm_hash := MakeHash R content\<rparr>, w\<lparr>wd_disk := (wd_disk w)(path \<mapsto> (content, now))\<rparr>))"

definition load_into ::
  "rule_env \<Rightarrow> build_env \<Rightarrow> set_validator \<Rightarrow> byte list set_loader \<Rightarrow> byte list \<Rightarrow> remote_state \<Rightarrow> remote_state res" where
  "load_into E B V L content st =
     rbind (loadBytes E B V L content (rm_set st)) (\<lambda>(s, callbacks). Inr (st\<lparr>rm_set := s\<rparr>))"

text \<open>\<open>loadCacheFile\<close>: whether the rules came from the cache, the error, and the state.\<close>

definition load_cached ::
  "rule_env \<Rightarrow> build_env \<Rightarrow> set_validator \<Rightarrow> byte list set_loader \<Rightarrow> byte list \<Rightarrow> int \<Rightarrow> string \<Rightarrow> remote_state \<Rightarrow>
   bool \<times> error option \<times> remote_state" where
  "load_cached E B V L content lastUpdated lastEtag st =
     (case load_into E B V L content st of
        Inl e \<Rightarrow> (False, Some e, st)
      | Inr st' \<Rightarrow>
          (True, None, st'\<lparr>rm_set := setUpdatedTime lastUpdated (rm_set st'), rm_lastEtag := lastEtag\<rparr>))"

definition load_cached_file ::
  "rule_env \<Rightarrow> build_env \<Rightarrow> set_validator \<Rightarrow> byte list set_loader \<Rightarrow> remote_env \<Rightarrow> saved_binary option \<Rightarrow> remote_state \<Rightarrow>
   world \<Rightarrow> bool \<times> error option \<times> remote_state" where
  "load_cached_file E B V L R saved st w =
     (case pathExists R (ss_path (rm_set st)) of
        Inl e \<Rightarrow> (False, Some e, st)
      | Inr False \<Rightarrow> (False, None, st)
      | Inr True \<Rightarrow>
          (case read_file R (ss_path (rm_set st)) w of
             Inl e \<Rightarrow> (False, Some e, st)
           | Inr (content, modTime) \<Rightarrow>
               (case saved of
                  Some sv \<Rightarrow>
                    if rm_hash st \<noteq> MakeHash R content
                    then (False, Some (E_New ''load rule-set cache file failed: validation failed''), st)
                    else load_cached E B V L content (sv_LastUpdated sv) (sv_LastEtag sv) st
                | None \<Rightarrow> load_cached E B V L content modTime [] st)))"

definition loadCacheFile ::
  "rule_env \<Rightarrow> build_env \<Rightarrow> set_validator \<Rightarrow> byte list set_loader \<Rightarrow> remote_env \<Rightarrow> remote_state \<Rightarrow> world \<Rightarrow>
   bool \<times> error option \<times> remote_state" where
  "loadCacheFile E B V L R st w =
     (let saved = (case wd_cache w of None \<Rightarrow> None | Some entry \<Rightarrow> entry) in
      case saved of
        Some sv \<Rightarrow>
          if sv_URLHash sv \<noteq> [] \<and> sv_URLHash sv \<noteq> rm_urlHash st then (False, None, st)
          else
            let st' = st\<lparr>rm_hash := sv_Hash sv\<rparr> in
            if ss_path (rm_set st) \<noteq> [] then load_cached_file E B V L R saved st' w
            else if sv_Content sv \<noteq> []
            then load_cached E B V L (sv_Content sv) (sv_LastUpdated sv) (sv_LastEtag sv) st'
            else (False, None, st')
      | None \<Rightarrow>
          if ss_path (rm_set st) \<noteq> [] then load_cached_file E B V L R None st w else (False, None, st))"

section \<open>Fetching\<close>

text \<open>The last part of \<open>fetch\<close>: the cache entry of what was just loaded.\<close>

definition save_entry :: "remote_env \<Rightarrow> int \<Rightarrow> byte list \<Rightarrow> remote_state \<Rightarrow> world \<Rightarrow> world" where
  "save_entry R now content st w =
     (case wd_cache w of
        None \<Rightarrow> w
      | Some entry \<Rightarrow>
          if cache_Error R \<noteq> None then w
          else w\<lparr>wd_cache := Some (Some
                 \<lparr>sv_Content = (if ss_path (rm_set st) \<noteq> [] then [] else content), sv_LastUpdated = now,
                  sv_LastEtag = rm_lastEtag st, sv_URLHash = rm_urlHash st,
                  sv_Hash = (if ss_path (rm_set st) \<noteq> [] then rm_hash st else zero_hash)\<rparr>)\<rparr>)"

definition fetch_ok ::
  "rule_env \<Rightarrow> build_env \<Rightarrow> set_validator \<Rightarrow> byte list set_loader \<Rightarrow> remote_env \<Rightarrow> int \<Rightarrow> string \<Rightarrow> byte list \<Rightarrow>
   remote_state \<Rightarrow> world \<Rightarrow> error option \<times> remote_state \<times> world" where
  "fetch_ok E B V L R now etag content st w =
     (case load_into E B V L content st of
        Inl e \<Rightarrow> (Some e, st, w)
      | Inr st1 \<Rightarrow>
          let st2 = st1\<lparr>rm_lastEtag := (if etag \<noteq> [] then etag else rm_lastEtag st1),
                        rm_set := setUpdatedTime now (rm_set st1)\<rparr> in
          if ss_path (rm_set st2) \<noteq> [] then
            (case saveCacheFile R now content st2 w of
               Inl e \<Rightarrow> (Some (E_Cause e ''save rule-set cache file''), st2, w)
             | Inr (st3, w3) \<Rightarrow> (None, st3, save_entry R now content st3 w3))
          else (None, st2, save_entry R now content st2 w))"

definition fetch_not_modified ::
  "remote_env \<Rightarrow> int \<Rightarrow> remote_state \<Rightarrow> world \<Rightarrow> error option \<times> remote_state \<times> world" where
  "fetch_not_modified R now st w =
     (None, st\<lparr>rm_set := setUpdatedTime now (rm_set st)\<rparr>,
      case wd_cache w of
        Some (Some sv) \<Rightarrow>
          if cache_Error R \<noteq> None then w
          else w\<lparr>wd_cache := Some (Some (sv\<lparr>sv_LastUpdated := now, sv_URLHash := rm_urlHash st\<rparr>))\<rparr>
      | _ \<Rightarrow> w)"

definition fetch ::
  "rule_env \<Rightarrow> build_env \<Rightarrow> set_validator \<Rightarrow> byte list set_loader \<Rightarrow> remote_env \<Rightarrow> int \<Rightarrow> remote_state \<Rightarrow> world \<Rightarrow>
   error option \<times> remote_state \<times> world" where
  "fetch E B V L R now st w =
     (if rm_updating st then (Some (E_New ''rule-set is updating''), st, w)
      else case http_NewRequest R (rm_url st) of
        Some e \<Rightarrow> (Some e, st, w)
      | None \<Rightarrow>
          (case http_Do R (rm_url st) (rm_lastEtag st) of
             HttpFailed e \<Rightarrow> (Some e, st, w)
           | HttpResponse code status etag body \<Rightarrow>
               if code = 200 then
                 (case body of Inl e \<Rightarrow> (Some e, st, w) | Inr content \<Rightarrow> fetch_ok E B V L R now etag content st w)
               else if code = 304 then fetch_not_modified R now st w
               else (Some (E_New (''unexpected status: '' @ status)), st, w)))"

text \<open>\<open>update\<close> and \<open>Update\<close>: a rule-set nobody refers to does not keep the rules it fetched.\<close>

definition remote_Update ::
  "rule_env \<Rightarrow> build_env \<Rightarrow> set_validator \<Rightarrow> byte list set_loader \<Rightarrow> remote_env \<Rightarrow> int \<Rightarrow> remote_state \<Rightarrow> world \<Rightarrow>
   error option \<times> remote_state \<times> world" where
  "remote_Update E B V L R now st w =
     (case fetch E B V L R now st w of
        (Some e, st', w') \<Rightarrow> (Some e, st', w')
      | (None, st', w') \<Rightarrow> (None, st'\<lparr>rm_set := Cleanup (rm_set st')\<rparr>, w'))"

definition load_initial ::
  "rule_env \<Rightarrow> build_env \<Rightarrow> set_validator \<Rightarrow> byte list set_loader \<Rightarrow> remote_env \<Rightarrow> remote_state \<Rightarrow> world \<Rightarrow> remote_state res" where
  "load_initial E B V L R st w =
     rbind (read_file R (rm_initialPath st) w) (\<lambda>(content, modTime). load_into E B V L content st)"

definition StartContext ::
  "rule_env \<Rightarrow> build_env \<Rightarrow> set_validator \<Rightarrow> byte list set_loader \<Rightarrow> remote_env \<Rightarrow> (transport_choice \<Rightarrow> error option) \<Rightarrow>
   remote_options \<Rightarrow> int \<Rightarrow> remote_state \<Rightarrow> world \<Rightarrow> error option \<times> remote_state \<times> world" where
  "StartContext E B V L R resolve opts now st w =
     (case resolveTransport resolve opts of
        Inl e \<Rightarrow> (Some (E_Cause e ''create rule-set http client''), st, w)
      | Inr transport \<Rightarrow>
          if rm_initialPath st \<noteq> [] \<and> wd_cache w = None
          then (Some (E_New ''rule-set initial_path requires cache_file''), st, w)
          else
            let (fromCache, warning, st1) = loadCacheFile E B V L R st w in
            if fromCache then (None, st1, w)
            else
              case (if rm_initialPath st1 \<noteq> [] then load_initial E B V L R st1 w else Inl (E_New [])) of
                Inr st2 \<Rightarrow> (None, st2, w)
              | Inl warning' \<Rightarrow>
                  (case fetch E B V L R now st1 w of
                     (Some e, st2, w2) \<Rightarrow> (Some (E_Cause e (''initial rule-set: '' @ ss_tag (rm_set st))), st2, w2)
                   | (None, st2, w2) \<Rightarrow> (None, st2, w2)))"

definition RemoteRuleSet_Close :: "remote_state \<Rightarrow> remote_state" where
  "RemoteRuleSet_Close st = st\<lparr>rm_set := (rm_set st)\<lparr>ss_rules := []\<rparr>\<rparr>"

section \<open>The updater\<close>

text \<open>
  One round of \<open>loopUpdate\<close> at time \<open>now\<close>: which rule-sets are updated, and when each is due next. A
  rule-set is a pair of its due time and its update interval.
\<close>

definition due :: "int \<Rightarrow> int \<Rightarrow> bool" where
  "due now next = (\<not> now < next)"

definition update_round :: "int \<Rightarrow> (int \<times> int) list \<Rightarrow> (int \<times> int) list" where
  "update_round now = map (\<lambda>(next, interval). (if due now next then now + interval else next, interval))"

definition updated_in_round :: "int \<Rightarrow> (int \<times> int) list \<Rightarrow> nat list" where
  "updated_in_round now sets = filter (\<lambda>i. due now (fst (sets ! i))) [0..<length sets]"

fun earliest :: "int \<Rightarrow> int list \<Rightarrow> int" where
  "earliest next [] = next"
| "earliest next (t # ts) = earliest (if t < next then t else next) ts"

definition waitUntilNext :: "int \<Rightarrow> int list \<Rightarrow> int res" where
  "waitUntilNext now nextUpdates =
     (case nextUpdates of
        [] \<Rightarrow> Inl (E_Panic ''index out of range'')
      | next # rest \<Rightarrow>
          let wait = earliest next rest - now in Inr (if wait < 0 then 0 else wait))"

section \<open>Lemmas: what is saved is what is restored\<close>

text \<open>Loading depends on the tag and the format of the rule-set only.\<close>

definition same_rules :: "set_state \<Rightarrow> set_state \<Rightarrow> bool" where
  "same_rules a b \<longleftrightarrow>
     ss_rules a = ss_rules b \<and> ss_ruleCount a = ss_ruleCount b \<and> ss_metadata a = ss_metadata b"

lemma reloadRules_same:
  assumes "reloadRules E B V os a = Inr (a', cbs)" "ss_tag b = ss_tag a"
  shows "\<exists>b'. reloadRules E B V os b = Inr (b', ss_callbacks b) \<and> same_rules a' b' \<and> ss_path b' = ss_path b"
  using assms(1)
proof (rule reloadRules_result)
  fix rules n
  assume "build_set_rules E B 0 0 os = Inr (rules, n)"
    "a' = a\<lparr>ss_rules := rules, ss_ruleCount := n, ss_metadata := buildRuleSetMetadata E os\<rparr>"
    "validateRuleSetMetadataUpdate V (ss_tag a) (buildRuleSetMetadata E os) = None"
  with assms(2) show ?thesis
    by (simp add: reloadRules_def Let_def same_rules_def)
qed

lemma load_into_same:
  assumes "load_into E B V L content st = Inr st'" "ss_tag (rm_set st0) = ss_tag (rm_set st)"
    "ss_format (rm_set st0) = ss_format (rm_set st)"
  shows "\<exists>s. load_into E B V L content st0 = Inr (st0\<lparr>rm_set := s\<rparr>) \<and> same_rules (rm_set st') s"
proof -
  obtain compat os s' cbs where decode:
    "(if ss_format (rm_set st) = ''source'' then json_Unmarshal L content
      else if ss_format (rm_set st) = ''binary'' then srs_Read L content
      else Inl (E_New (''unknown rule-set format: '' @ ss_format (rm_set st)))) = Inr compat"
    "Upgrade compat = Inr os" "reloadRules E B V os (rm_set st) = Inr (s', cbs)" "st' = st\<lparr>rm_set := s'\<rparr>"
    using assms(1) by (auto simp: load_into_def loadBytes_def simp del: if_split_asm)
  obtain s where "reloadRules E B V os (rm_set st0) = Inr (s, ss_callbacks (rm_set st0))" "same_rules s' s"
    using reloadRules_same [OF decode(3) assms(2)] by blast
  with decode assms(3) show ?thesis
    by (auto simp: load_into_def loadBytes_def split: if_splits)
qed

lemma load_into_frame:
  assumes "load_into E B V L content st = Inr st'"
  shows "\<exists>s. st' = st\<lparr>rm_set := s\<rparr> \<and> ss_path s = ss_path (rm_set st) \<and> ss_refs s = ss_refs (rm_set st)"
  using assms by (auto simp: load_into_def loadBytes_def elim!: reloadRules_result)

lemma load_cached_same:
  assumes "load_into E B V L content st = Inr st'" "ss_tag (rm_set st0) = ss_tag (rm_set st)"
    "ss_format (rm_set st0) = ss_format (rm_set st)"
  shows "\<exists>st0'. load_cached E B V L content t etag st0 = (True, None, st0') \<and>
     same_rules (rm_set st') (rm_set st0') \<and> rm_lastEtag st0' = etag \<and> ss_lastUpdated (rm_set st0') = t"
  using load_into_same [OF assms] by (auto simp: load_cached_def setUpdatedTime_def same_rules_def)

lemma fetch_ok_restored:
  assumes "fetch_ok E B V L R now etag content st w = (None, st', w')"
    and cache: "wd_cache w \<noteq> None" "cache_Error R = None" and "content \<noteq> []"
    and readable: "path_Stat R (ss_path (rm_set st)) = PathFile" "read_Error R (ss_path (rm_set st)) = None"
    and st0: "ss_tag (rm_set st0) = ss_tag (rm_set st)" "ss_format (rm_set st0) = ss_format (rm_set st)"
      "ss_path (rm_set st0) = ss_path (rm_set st)" "rm_urlHash st0 = rm_urlHash st"
  shows "\<exists>st0'. loadCacheFile E B V L R st0 w' = (True, None, st0') \<and> same_rules (rm_set st') (rm_set st0') \<and>
     rm_lastEtag st0' = rm_lastEtag st' \<and> ss_lastUpdated (rm_set st0') = ss_lastUpdated (rm_set st')"
proof -
  obtain st1 where load: "load_into E B V L content st = Inr st1"
    using assms(1) by (auto simp: fetch_ok_def split: sum.splits)
  obtain s where st1: "st1 = st\<lparr>rm_set := s\<rparr>" "ss_path s = ss_path (rm_set st)"
    using load_into_frame [OF load] by blast
  show ?thesis
  proof (cases "ss_path (rm_set st) = []")
    case True
    have "st' = st1\<lparr>rm_lastEtag := (if etag \<noteq> [] then etag else rm_lastEtag st1),
        rm_set := setUpdatedTime now (rm_set st1)\<rparr>" "w' = save_entry R now content st' w"
      using assms(1) load True st1 by (auto simp: fetch_ok_def Let_def setUpdatedTime_def)
    with True show ?thesis
      using load_cached_same [OF load, of "st0\<lparr>rm_hash := zero_hash\<rparr>"] st0 cache \<open>content \<noteq> []\<close> st1
      by (auto simp: loadCacheFile_def save_entry_def Let_def setUpdatedTime_def same_rules_def)
  next
    case False
    have st': "st' = st1\<lparr>rm_lastEtag := (if etag \<noteq> [] then etag else rm_lastEtag st1),
        rm_set := setUpdatedTime now (rm_set st1), rm_hash := MakeHash R content\<rparr>"
      "w' = save_entry R now content st' (w\<lparr>wd_disk := (wd_disk w)(ss_path (rm_set st) \<mapsto> (content, now))\<rparr>)"
      using assms(1) load False st1
      by (auto simp: fetch_ok_def Let_def saveCacheFile_def setUpdatedTime_def split: option.splits)
    with False show ?thesis
      using load_cached_same [OF load, of "st0\<lparr>rm_hash := MakeHash R content\<rparr>"] st0 cache readable st1
      by (auto simp: loadCacheFile_def load_cached_file_def pathExists_def read_file_def save_entry_def
          Let_def setUpdatedTime_def same_rules_def)
  qed
qed

text \<open>A failed fetch leaves the rules that were there.\<close>

lemma fetch_error_rules:
  assumes "fetch E B V L R now st w = (Some e, st', w')" "ss_path (rm_set st) = []"
  shows "st' = st \<and> w' = w"
  using assms
proof -
  have "fetch_ok E B V L R now etag content st w = (Some e, st', w') \<Longrightarrow> st' = st \<and> w' = w" for etag content
    using assms(2) load_into_frame [of E B V L content st]
    by (auto simp: fetch_ok_def Let_def setUpdatedTime_def split: sum.splits)
  then show ?thesis
    using assms(1)
    by (auto simp: fetch_def fetch_not_modified_def split: if_splits option.splits http_result.splits sum.splits)
qed

section \<open>Lemmas: the updater\<close>

lemma earliest_min: "earliest next ts \<in> set (next # ts) \<and> (\<forall>t\<in>set (next # ts). earliest next ts \<le> t)"
  by (induction ts arbitrary: "next") (auto, fastforce+)

lemma update_round_future:
  "(\<forall>(n, i)\<in>set sets. 0 < i) \<Longrightarrow> (n', i') \<in> set (update_round now sets) \<Longrightarrow> now < n'"
  by (auto simp: update_round_def due_def split: if_splits)

end
