(* ===== verification/Rule_Start.thy ===== *)
theory Rule_Start
  imports Rule_Set_Remote
begin

text \<open>
  Starting, closing and describing rules (\<open>route/rule/rule_abstract.go\<close>, \<open>rule_item_rule_set.go\<close>). Starting
  a rule starts the items of \<open>allItems\<close> in order until one fails; an item is one object, which the
  groups and \<open>allItems\<close> share. A failed start ends the start of the whole router, so it is only its
  error. \<open>sets\<close> is the router's map of rule-sets; the references it takes are in \<open>Rule_Set_Refs\<close>.
\<close>

section \<open>Start\<close>

definition started :: "rule_env \<Rightarrow> rule_item \<Rightarrow> rule_item" where
  "started E it = fst (RuleItem_Start E it)"

fun lookup_sets :: "(string \<rightharpoonup> rule_set) \<Rightarrow> string list \<Rightarrow> rule_set list res" where
  "lookup_sets sets [] = Inr []"
| "lookup_sets sets (t # ts) =
     (case sets t of
        None \<Rightarrow> Inl (E_New (''rule-set not found: '' @ t))
      | Some s \<Rightarrow> rbind (lookup_sets sets ts) (\<lambda>ss. Inr (s # ss)))"

definition set_item_start :: "(string \<rightharpoonup> rule_set) \<Rightarrow> rule_set_item \<Rightarrow> rule_set_item res" where
  "set_item_start sets s =
     rbind (lookup_sets sets (tagList s))
       (\<lambda>ss. Inr (RuleSetItem (tagList s) ss (ipCidrMatchSource s) (ipCidrAcceptEmpty s)))"

text \<open>The error of the loop over \<open>allItems\<close>.\<close>

fun start_error :: "rule_env \<Rightarrow> (string \<rightharpoonup> rule_set) \<Rightarrow> rule_set_item option \<Rightarrow> any_item list \<Rightarrow> error option" where
  "start_error E sets si [] = None"
| "start_error E sets si (PlainItem it # xs) =
     (case snd (RuleItem_Start E it) of Some e \<Rightarrow> Some e | None \<Rightarrow> start_error E sets si xs)"
| "start_error E sets si (SetItemRef # xs) =
     (case si of
        None \<Rightarrow> start_error E sets si xs
      | Some s \<Rightarrow> (case set_item_start sets s of Inl e \<Rightarrow> Some e | Inr s' \<Rightarrow> start_error E sets si xs))"

definition start_set_item :: "(string \<rightharpoonup> rule_set) \<Rightarrow> rule_set_item \<Rightarrow> rule_set_item" where
  "start_set_item sets s = (case set_item_start sets s of Inl e \<Rightarrow> s | Inr s' \<Rightarrow> s')"

definition start_any :: "rule_env \<Rightarrow> any_item \<Rightarrow> any_item" where
  "start_any E x = (case x of PlainItem it \<Rightarrow> PlainItem (started E it) | SetItemRef \<Rightarrow> SetItemRef)"

definition drule_Start :: "rule_env \<Rightarrow> (string \<rightharpoonup> rule_set) \<Rightarrow> drule \<Rightarrow> drule res" where
  "drule_Start E sets r =
     (case start_error E sets (ruleSetItem r) (allItems r) of
        Some e \<Rightarrow> Inl e
      | None \<Rightarrow> Inr (DRule (map (started E) (items r)) (map (started E) (sourceAddressItems r))
          (map (started E) (sourcePortItems r)) (map (started E) (destinationAddressItems r))
          (map (started E) (destinationIPCIDRItems r)) (map (started E) (destinationPortItems r))
          (map (start_any E) (allItems r))
          (map_option (start_set_item sets) (ruleSetItem r)) (ruleCount r) (invert r)))"

fun hrule_Start :: "rule_env \<Rightarrow> (string \<rightharpoonup> rule_set) \<Rightarrow> hrule \<Rightarrow> hrule res"
  and hrules_Start :: "rule_env \<Rightarrow> (string \<rightharpoonup> rule_set) \<Rightarrow> hrule list \<Rightarrow> hrule list res" where
  "hrule_Start E sets (DefaultHeadlessRule r) = rbind (drule_Start E sets r) (\<lambda>r'. Inr (DefaultHeadlessRule r'))"
| "hrule_Start E sets (DefaultRule r) = rbind (drule_Start E sets r) (\<lambda>r'. Inr (DefaultRule r'))"
| "hrule_Start E sets (DefaultDNSRule r mr tag) =
     rbind (drule_Start E sets r) (\<lambda>r'. Inr (DefaultDNSRule r' mr tag))"
| "hrule_Start E sets (LogicalRule rules mode neg n) =
     rbind (hrules_Start E sets rules) (\<lambda>rs. Inr (LogicalRule rs mode neg n))"
| "hrules_Start E sets [] = Inr []"
| "hrules_Start E sets (r # rs) =
     rbind (hrule_Start E sets r) (\<lambda>r'. rbind (hrules_Start E sets rs) (\<lambda>rs'. Inr (r' # rs')))"

section \<open>String\<close>

definition RuleSetItem_String :: "string list \<Rightarrow> string" where
  "RuleSetItem_String tags =
     (case tags of [t] \<Rightarrow> ''rule_set='' @ t | _ \<Rightarrow> ''rule_set=['' @ strings_Join tags '' '' @ '']'')"

text \<open>\<open>None\<close> where the description of an item panics.\<close>

fun all_some :: "'a option list \<Rightarrow> 'a list option" where
  "all_some [] = Some []"
| "all_some (x # xs) =
     (case x of None \<Rightarrow> None | Some y \<Rightarrow> (case all_some xs of None \<Rightarrow> None | Some ys \<Rightarrow> Some (y # ys)))"

definition any_item_String :: "rule_env \<Rightarrow> rule_set_item option \<Rightarrow> any_item \<Rightarrow> string option" where
  "any_item_String E si x =
     (case x of
        PlainItem it \<Rightarrow> RuleItem_String E it
      | SetItemRef \<Rightarrow> (case si of None \<Rightarrow> None | Some s \<Rightarrow> Some (RuleSetItem_String (tagList s))))"

definition negate_String :: "bool \<Rightarrow> string \<Rightarrow> string" where
  "negate_String neg s = (if \<not> neg then s else ''!('' @ s @ '')'')"

definition drule_String :: "rule_env \<Rightarrow> drule \<Rightarrow> string option" where
  "drule_String E r =
     map_option (\<lambda>ss. negate_String (invert r) (strings_Join ss '' ''))
       (all_some (map (any_item_String E (ruleSetItem r)) (allItems r)))"

definition mode_op :: "logical_mode \<Rightarrow> string" where
  "mode_op mode = (case mode of LogicalTypeAnd \<Rightarrow> '' && '' | LogicalTypeOr \<Rightarrow> '' || '')"

fun hrule_String :: "rule_env \<Rightarrow> hrule \<Rightarrow> string option"
  and hrules_String :: "rule_env \<Rightarrow> hrule list \<Rightarrow> string list option" where
  "hrule_String E (DefaultHeadlessRule r) = drule_String E r"
| "hrule_String E (DefaultRule r) = drule_String E r"
| "hrule_String E (DefaultDNSRule r mr tag) = drule_String E r"
| "hrule_String E (LogicalRule rules mode neg n) =
     map_option (\<lambda>ss. negate_String neg (strings_Join ss (mode_op mode))) (hrules_String E rules)"
| "hrules_String E [] = Some []"
| "hrules_String E (r # rs) =
     (case hrule_String E r of
        None \<Rightarrow> None
      | Some s \<Rightarrow> (case hrules_String E rs of None \<Rightarrow> None | Some ss \<Rightarrow> Some (s # ss)))"

section \<open>Lemmas\<close>

lemma item_group_started [simp]: "item_group (started E it) = item_group it"
  by (cases it) (simp_all add: started_def RuleItem_Start_def item_group_def ClashModeItem_Start_def split: prod.split option.split)

lemma response_free_started [simp]: "response_free (started E it) = response_free it"
  by (cases it) (simp_all add: started_def RuleItem_Start_def response_free_def ClashModeItem_Start_def split: prod.split option.split)

lemma is_IPCIDRItem_started [simp]: "is_IPCIDRItem (started E it) = is_IPCIDRItem it"
  by (cases it) (simp_all add: started_def RuleItem_Start_def is_IPCIDRItem_def ClashModeItem_Start_def split: prod.split option.split)

lemma plain_items_start [simp]: "plain_items (map (start_any E) xs) = map (started E) (plain_items xs)"
  by (induction xs) (auto simp: plain_items_def start_any_def split: any_item.split)

lemma SetItemRef_start [simp]: "SetItemRef \<in> set (map (start_any E) xs) \<longleftrightarrow> SetItemRef \<in> set xs"
  by (force simp: start_any_def split: any_item.splits)

text \<open>Starting a rule keeps it well-formed.\<close>

lemma group_items_start:
  assumes "drule_Start E sets r = Inr r'"
  shows "group_items g r' = map (started E) (group_items g r)"
    "allItems r' = map (start_any E) (allItems r)"
    "ruleSetItem r' = map_option (start_set_item sets) (ruleSetItem r)"
  using assms by (cases g; auto simp: drule_Start_def split: option.splits)+

lemma drule_Start_wf:
  assumes "drule_Start E sets r = Inr r'" "drule_wf r"
  shows "drule_wf r'"
  using assms(2) unfolding drule_wf_def group_items_start [OF assms(1)] plain_items_start SetItemRef_start
  by (simp add: filter_map o_def)

lemma lookup_sets_all:
  "lookup_sets sets ts = Inr ss \<Longrightarrow> list_all2 (\<lambda>t s. sets t = Some s) ts ss"
  by (induction ts arbitrary: ss) (auto split: option.splits)

lemma list_all2_setD2: "list_all2 P xs ys \<Longrightarrow> \<forall>y\<in>set ys. \<exists>x\<in>set xs. P x y"
  by (induction rule: list_all2_induct) auto

lemma start_error_sets:
  "start_error E sets (Some s) xs = None \<Longrightarrow> SetItemRef \<in> set xs \<Longrightarrow> \<exists>s'. set_item_start sets s = Inr s'"
proof (induction xs)
  case (Cons x xs)
  then show ?case by (cases x) (auto split: option.splits sum.splits)
qed simp

text \<open>A started rule sees exactly the rule-sets its tags name.\<close>

lemma drule_Start_sets:
  assumes "drule_Start E sets r = Inr r'" "drule_wf r" "ruleSetItem r = Some s"
  obtains s' where "ruleSetItem r' = Some s'" "list_all2 (\<lambda>t v. sets t = Some v) (tagList s) (setList s')"
    "ipCidrMatchSource s' = ipCidrMatchSource s" "tagList s' = tagList s"
proof -
  have "start_error E sets (ruleSetItem r) (allItems r) = None"
    using assms(1) by (simp add: drule_Start_def split: option.splits)
  then have "start_error E sets (Some s) (allItems r) = None"
    using assms(3) by simp
  moreover have "SetItemRef \<in> set (allItems r)"
    using assms(2,3) by (simp add: drule_wf_def)
  ultimately obtain s' where s': "set_item_start sets s = Inr s'"
    using start_error_sets by blast
  moreover have "ruleSetItem r' = Some s'"
    using group_items_start(3) [OF assms(1)] assms(3) s' by (simp add: start_set_item_def)
  moreover obtain ss where "lookup_sets sets (tagList s) = Inr ss"
    "s' = RuleSetItem (tagList s) ss (ipCidrMatchSource s) (ipCidrAcceptEmpty s)"
    using s' by (cases "lookup_sets sets (tagList s)") (simp_all add: set_item_start_def)
  ultimately show ?thesis
    using that [of s'] lookup_sets_all by simp
qed

lemma drule_Start_groups:
  assumes "drule_Start E sets r = Inr r'"
  shows "destinationIPCIDRItems r' = map (started E) (destinationIPCIDRItems r)"
    "ruleSetItem r = None \<Longrightarrow> ruleSetItem r' = None"
  using assms by (auto simp: drule_Start_def split: option.splits)

text \<open>
  For rules over loaded rule-sets, \<open>WithAddressLimit\<close> is whether some destination IP condition is
  among the conditions of the rule or of its rule-sets.
\<close>

definition sets_described :: "(string \<rightharpoonup> rule_set) \<Rightarrow> bool" where
  "sets_described sets \<longleftrightarrow> (\<forall>t v. sets t = Some v \<longrightarrow> (ContainsIPCIDRRule (set_Metadata v) \<longleftrightarrow> s_filters v))"

lemma WithAddressLimit_filters:
  assumes "drule_Start E sets r = Inr r'" "drule_wf r" "sets_described sets"
    "\<And>s. ruleSetItem r = Some s \<Longrightarrow> \<not> ipCidrMatchSource s"
  shows "DefaultDNSRule_WithAddressLimit r' \<longleftrightarrow> d_filters r'"
proof (cases "ruleSetItem r")
  case None
  then show ?thesis
    using drule_Start_groups(2) [OF assms(1)] d_filters_no_sets [of r']
    by (simp add: DefaultDNSRule_WithAddressLimit_def)
next
  case (Some s)
  obtain s' where s': "ruleSetItem r' = Some s'" "list_all2 (\<lambda>t v. sets t = Some v) (tagList s) (setList s')"
    "ipCidrMatchSource s' = ipCidrMatchSource s"
    by (rule drule_Start_sets [OF assms(1,2) Some])
  have "\<forall>v\<in>set (setList s'). ContainsIPCIDRRule (set_Metadata v) \<longleftrightarrow> s_filters v"
    using list_all2_setD2 [OF s'(2)] assms(3) unfolding sets_described_def by blast
  then have "list_ex (\<lambda>v. ContainsIPCIDRRule (set_Metadata v)) (setList s') \<longleftrightarrow> list_ex s_filters (setList s')"
    by (auto simp: list_ex_iff)
  with s' assms(4) [OF Some] show ?thesis
    by (cases r'; cases s') (simp add: DefaultDNSRule_WithAddressLimit_def ContainsDestinationIPCIDRRule_def)
qed

section \<open>Lemmas: started DNS rules and the pre-match\<close>

text \<open>
  Loaded rule-sets for the pre-match: their rules come from the headless constructor and none of
  them mixes domains with addresses.
\<close>

definition loaded_set :: "rule_env \<Rightarrow> build_env \<Rightarrow> rule_set \<Rightarrow> bool" where
  "loaded_set E B s \<longleftrightarrow>
     (\<exists>os n. build_set_rules E B 0 0 os = Inr (set_rules s, n)) \<and> list_all unmixed_h (set_rules s)"

lemma build_set_rules_legacy:
  "build_set_rules E B i n os = Inr (hs, n') \<Longrightarrow> list_all unmixed_h hs \<Longrightarrow> list_all (legacy_h True) hs"
  by (induction os arbitrary: i n hs n') (auto simp: headless_legacy(1) split: sum.splits prod.splits)

lemma loaded_set_legacy: "loaded_set E B s \<Longrightarrow> legacy_s s"
  by (cases s) (auto simp: loaded_set_def dest: build_set_rules_legacy)

lemma plain_items_ok_start:
  assumes "drule_Start E sets r = Inr r'"
  shows "plain_items_ok r' = plain_items_ok r"
proof -
  have "list_all response_free (map (started E) its) = list_all response_free its" for its
    by (simp add: list_all_iff)
  then show ?thesis
    using group_items_start(1) [OF assms, of Items] group_items_start(1) [OF assms, of SourceAddress]
      group_items_start(1) [OF assms, of SourcePort] group_items_start(1) [OF assms, of DestinationAddress]
      group_items_start(1) [OF assms, of DestinationPort]
    by (simp add: plain_items_ok_def)
qed

lemma legacy_d_iff:
  "legacy_d False r \<longleftrightarrow>
     plain_items_ok r \<and> (destinationAddressItems r = [] \<or> destinationIPCIDRItems r = []) \<and>
     (\<forall>s. ruleSetItem r = Some s \<longrightarrow>
        (destinationAddressItems r = [] \<or> \<not> list_ex s_filters (setList s)) \<and>
        (destinationIPCIDRItems r = [] \<or> \<not> list_ex branch_domains (setList s)) \<and>
        list_all legacy_s (setList s))"
proof (cases r)
  case (DRule its sa sp da dc dp al rsi n neg)
  then show ?thesis
  proof (cases rsi)
    case (Some s)
    with DRule show ?thesis by (cases s) auto
  qed simp
qed

lemma run_steps_set_item:
  "run_steps ss b = Inr b' \<Longrightarrow> (\<And>c t. AddRuleSet c t \<in> set ss \<Longrightarrow> t = s) \<Longrightarrow>
   rb_ruleSetItem b' \<in> {rb_ruleSetItem b, Some s}"
proof (induction ss arbitrary: b)
  case (Cons x ss)
  then obtain b1 where b1: "run_step x b = Inr b1" "run_steps ss b1 = Inr b'" by auto
  have "rb_ruleSetItem b1 \<in> {rb_ruleSetItem b, Some s}"
  proof (cases x)
    case (Add g c item)
    with b1(1) show ?thesis by (cases g) (auto split: if_splits)
  next
    case (AddRuleSet c t)
    with b1(1) Cons.prems(2) [of c t] show ?thesis by auto
  qed (use b1(1) in \<open>auto split: if_splits\<close>)
  moreover have "rb_ruleSetItem b' \<in> {rb_ruleSetItem b1, Some s}"
    using Cons.IH [OF b1(2)] Cons.prems(2) by auto
  ultimately show ?case by auto
qed simp

lemma dns_builder_set_item:
  assumes "run_steps (dns_steps E legacy opts) empty_builder = Inr b"
  shows "rb_ruleSetItem b = None \<or>
    rb_ruleSetItem b = Some (NewRuleSetItem (mo_RuleSet opts) (mo_RuleSetIPCIDRMatchSource opts)
      (dd_RuleSetIPCIDRAcceptEmpty opts))"
proof -
  have "AddRuleSet c t \<in> set (dns_steps E legacy opts) \<Longrightarrow>
      t = NewRuleSetItem (mo_RuleSet opts) (mo_RuleSetIPCIDRMatchSource opts) (dd_RuleSetIPCIDRAcceptEmpty opts)" for c t
    by (auto simp: dns_step_lists split: option.splits)
  then show ?thesis
    using run_steps_set_item [OF assms] by (auto simp: empty_builder_def)
qed

lemma dns_builder_wf:
  assumes "run_steps (dns_steps E legacy opts) empty_builder = Inr b"
  shows "drule_wf (build_drule b n neg)"
proof -
  have "builder_wf (\<lambda>it. True) b"
    by (rule run_steps_wf [OF assms]) (simp_all add: dns_steps_grouped builder_wf_empty)
  then show ?thesis
    by (simp add: builder_wf_iff drule_wf_def all_builder_group build_drule_def)
qed

lemma started_sets:
  assumes "run_steps (dns_steps E legacy opts) empty_builder = Inr b"
    and start: "drule_Start E sets (build_drule b 0 neg) = Inr r" and "ruleSetItem r = Some s"
  shows "\<forall>v\<in>set (setList s). \<exists>t\<in>set (mo_RuleSet opts). sets t = Some v"
proof -
  let ?s = "NewRuleSetItem (mo_RuleSet opts) (mo_RuleSetIPCIDRMatchSource opts) (dd_RuleSetIPCIDRAcceptEmpty opts)"
  have rs: "ruleSetItem (build_drule b 0 neg) = Some ?s"
    using dns_builder_set_item [OF assms(1)] assms(3) group_items_start(3) [OF start]
    by (auto simp: build_drule_def)
  obtain s' where "ruleSetItem r = Some s'" "list_all2 (\<lambda>t v. sets t = Some v) (tagList ?s) (setList s')"
    by (rule drule_Start_sets [OF start dns_builder_wf [OF assms(1)] rs])
  with assms(3) have "list_all2 (\<lambda>t v. sets t = Some v) (mo_RuleSet opts) (setList s)"
    by (simp add: NewRuleSetItem_def)
  then show ?thesis by (rule list_all2_setD2)
qed

lemma started_dns_legacy:
  assumes "run_steps (dns_steps E legacy opts) empty_builder = Inr b"
    and start: "drule_Start E sets (build_drule b 0 neg) = Inr r"
    and "no_response_options opts" "\<not> (domain_options opts \<and> ip_options opts)"
    and sets: "\<And>t s. t \<in> set (mo_RuleSet opts) \<Longrightarrow> sets t = Some s \<Longrightarrow>
      loaded_set E B s \<and> (domain_options opts \<longrightarrow> \<not> s_filters s) \<and> (ip_options opts \<longrightarrow> \<not> branch_domains s)"
  shows "legacy_d False r"
proof -
  note parts = dns_builder_groups [OF assms(1)]
  have plain: "plain_items_ok r"
    using plain_items_ok_start [OF start] parts(1) [OF assms(3)] by simp
  have da: "destinationAddressItems r = [] \<or> domain_options opts"
    and dc: "destinationIPCIDRItems r = [] \<or> ip_options opts"
    using group_items_start(1) [OF start, of DestinationAddress] group_items_start(1) [OF start, of DestinationIPCIDR]
      parts(2,3) by (auto simp: build_drule_def)
  have each: "legacy_s v \<and> (domain_options opts \<longrightarrow> \<not> s_filters v) \<and> (ip_options opts \<longrightarrow> \<not> branch_domains v)"
    if "ruleSetItem r = Some s" "v \<in> set (setList s)" for s v
    using started_sets [OF assms(1) start that(1)] that(2) sets loaded_set_legacy by blast
  have "(destinationAddressItems r = [] \<or> \<not> list_ex s_filters (setList s)) \<and>
        (destinationIPCIDRItems r = [] \<or> \<not> list_ex branch_domains (setList s)) \<and>
        list_all legacy_s (setList s)" if "ruleSetItem r = Some s" for s
    using each [OF that] da dc unfolding list_ex_iff list_all_iff by blast
  with plain da dc assms(4) show ?thesis
    unfolding legacy_d_iff by blast
qed

end
