(* ===== verification/Rule_Examples.thy ===== *)
theory Rule_Examples
  imports Rule_PreMatch
begin

text \<open>
  Concrete metadata, rules and rule-sets, shared by the statements that evaluate the model: a TCP
  connection from 192.168.1.10 to \<open>example.org:443\<close>, a domain item for that name, an IP-CIDR item
  for 1.1.1.0/24, and a DNS response without addresses.
\<close>

definition ex_context :: inbound_context where
  "ex_context = empty_context\<lparr>m_Network := ''tcp'',
     m_Source := \<lparr>sa_Addr = Addr4 0xC0A8010A, sa_Port = 5353, sa_Fqdn = []\<rparr>,
     m_Destination := \<lparr>sa_Addr = AddrZero, sa_Port = 443, sa_Fqdn = ''example.org''\<rparr>\<rparr>"

definition ex_domain :: rule_item where
  "ex_domain = DomainItem (DomainMatcher [''example.org''] []) ''domain=example.org'' AsIS"

definition ex_other_domain :: rule_item where
  "ex_other_domain = DomainItem (DomainMatcher [''ads.example''] []) ''domain=ads.example'' AsIS"

definition ex_cidr :: rule_item where
  "ex_cidr = IPCIDRItem \<lparr>ranges4 = [(0x01010100, 0x010101FF)], ranges6 = []\<rparr> False ''ip_cidr=1.1.1.0/24''"

definition ex_lan_cidr :: rule_item where
  "ex_lan_cidr = IPCIDRItem \<lparr>ranges4 = [(0xC0A80000, 0xC0A8FFFF)], ranges6 = []\<rparr> False ''ip_cidr=192.168.0.0/16''"

definition plain_rule ::
  "rule_item list \<Rightarrow> rule_item list \<Rightarrow> rule_item list \<Rightarrow> rule_set_item option \<Rightarrow> bool \<Rightarrow> drule" where
  "plain_rule its da dc rsi neg =
     DRule its [] [] da dc []
       (map PlainItem (its @ da @ dc) @ (case rsi of None \<Rightarrow> [] | Some _ \<Rightarrow> [SetItemRef])) rsi 1 neg"

definition ex_rule :: hrule where
  "ex_rule = DefaultRule (plain_rule [NetworkItem [''tcp'']] [ex_domain] [] None False)"

definition ex_set_metadata :: rule_set_metadata where
  "ex_set_metadata = \<lparr>ContainsProcessRule = False, ContainsWIFIRule = False, ContainsIPCIDRRule = True,
     ContainsDNSQueryTypeRule = False, ContainsNonIPCIDRRule = True\<rparr>"

definition mixed_set :: rule_set where
  "mixed_set = RuleSet ''mixed''
     [DefaultHeadlessRule (plain_rule [] [ex_other_domain] [] None False),
      DefaultHeadlessRule (plain_rule [] [] [ex_cidr] None False)] ex_set_metadata"

definition cidr_set :: rule_set where
  "cidr_set = RuleSet ''cn-ip'' [DefaultHeadlessRule (plain_rule [] [] [ex_cidr] None False)] ex_set_metadata"

definition ex_response :: "dns_msg option" where
  "ex_response = Some \<lparr>msg_Id = 0, msg_Response = True, msg_Authoritative = False,
     msg_RecursionDesired = True, msg_RecursionAvailable = True, msg_Rcode = 0, msg_Question = [],
     msg_Answer = [], msg_Ns = [], msg_Extra = []\<rparr>"

text \<open>Inverted, and made only of a rule-set of IP-CIDR items.\<close>

definition ex_dns_rule :: drule where
  "ex_dns_rule = plain_rule [] [] [] (Some (RuleSetItem [''cn-ip''] [cidr_set] False False)) True"

text \<open>Inverted, and mixing a domain with a rule-set of several rules.\<close>

definition ex_mixed_dns_rule :: drule where
  "ex_mixed_dns_rule =
     plain_rule [] [ex_domain] [] (Some (RuleSetItem [''mixed''] [mixed_set] False False)) True"

text \<open>A rule-set whose IP-CIDR item sits in a logical rule, used with \<open>ip_cidr_match_source\<close>.\<close>

definition logical_lan_set :: rule_set where
  "logical_lan_set = RuleSet ''lan''
     [LogicalRule [DefaultHeadlessRule (plain_rule [] [] [ex_lan_cidr] None False)] LogicalTypeOr False 1]
     ex_set_metadata"

definition plain_lan_set :: rule_set where
  "plain_lan_set = RuleSet ''lan''
     [DefaultHeadlessRule (plain_rule [] [] [ex_lan_cidr] None False)] ex_set_metadata"

definition match_source_rule :: "rule_set \<Rightarrow> hrule" where
  "match_source_rule s =
     DefaultRule (plain_rule [] [] [] (Some (RuleSetItem [''lan''] [s] True False)) False)"

end
