(* ===== verification/Rule_Action_Props.thy ===== *)
theory Rule_Action_Props
  imports Rule_Action_Run Rule_Examples
begin

text \<open>
  Properties of rule actions: the flood control of \<open>reject\<close>, the actions that options give and the
  predefined answer.
\<close>

section \<open>Examples\<close>

definition ex_route_options :: raw_route_options where
  "ex_route_options = empty_raw_route_options\<lparr>rr_OverridePort := 853, rr_TLSFragment := True\<rparr>"

definition ex_direct_options :: direct_options where
  "ex_direct_options =
     \<lparr>dl_BindInterface = ''en0'', dl_Inet4BindAddress = None, dl_Inet6BindAddress = None, dl_RoutingMark = 0,
      dl_ReuseAddr = False, dl_ConnectTimeout = 0, dl_TCPFastOpen = True, dl_TCPMultiPath = False,
      dl_UDPFragment = None, dl_DomainStrategy = 3, dl_FallbackDelay = 0, dl_others = 0\<rparr>"

definition ex_action_options :: "string \<Rightarrow> rule_action_options" where
  "ex_action_options action =
     \<lparr>ra_Action = action, ra_RouteOutbound = ''proxy'', ra_RouteOptions = ex_route_options,
      ra_RouteOptionsOptions = ex_route_options, ra_DirectOptions = ex_direct_options,
      ra_BypassOutbound = ''proxy'', ra_BypassOptions = ex_route_options,
      ra_RejectOptions = \<lparr>rjo_Method = [], rjo_NoDrop = False\<rparr>,
      ra_SniffOptions = \<lparr>sno_Sniffer = [''tls'', ''quic''], sno_Timeout = 0\<rparr>,
      ra_ResolveOptions = \<lparr>rso_Server = [], rso_Timeout = 0, rso_Strategy = 0, rso_DisableCache = False,
        rso_DisableOptimisticCache = False, rso_RewriteTTL = None, rso_ClientSubnet = None,
        rso_MatchOnly = False\<rparr>\<rparr>"

definition ex_action_env :: action_env where
  "ex_action_env =
     \<lparr>PlatformSupported = True,
      ParseSocksaddrHostPort = (\<lambda>h p. \<lparr>sa_Addr = AddrZero, sa_Port = p, sa_Fqdn = h\<rparr>),
      AddrString = sa_Fqdn, dialer_New = (\<lambda>d. None)\<rparr>"

definition ex_reject :: reject_action where
  "ex_reject = \<lparr>rj_Rcode = 0, rj_Method = ''default'', rj_NoDrop = False, rj_dropCounter = []\<rparr>"

definition ex_predefined :: predefined_action where
  "ex_predefined =
     \<lparr>pd_Rcode = 0,
      pd_Answer = [RR_A \<lparr>rh_Name = ''*.example.org.'', rh_Rrtype = 1, rh_Class = 1, rh_Ttl = 60\<rparr> [10, 0, 0, 1],
                   RR_A \<lparr>rh_Name = ''example.net.'', rh_Rrtype = 1, rh_Class = 1, rh_Ttl = 60\<rparr> [10, 0, 0, 2]],
      pd_Ns = [], pd_Extra = []\<rparr>"

definition ex_query :: dns_msg where
  "ex_query =
     \<lparr>msg_Id = 7, msg_Response = False, msg_Authoritative = False, msg_RecursionDesired = True,
      msg_RecursionAvailable = False, msg_Rcode = 0,
      msg_Question = [\<lparr>q_Name = ''www.example.org.'', q_Qtype = 1, q_Qclass = 1\<rparr>], msg_Answer = [],
      msg_Ns = [], msg_Extra = []\<rparr>"

section \<open>Reject\<close>

text \<open>
  C27. Calls of a fresh \<open>reject\<close> action with method \<open>default\<close>, at times that do not go back: the call
  number \<open>i\<close> is answered by a drop exactly when more than 50 of the calls so far, itself included,
  lie in the 30 seconds that end with it, and by a reset otherwise. Forgetting the older calls loses
  nothing.
\<close>

theorem reject_flood_window:
  assumes "rj_Method r = ''default''" "\<not> rj_NoDrop r" "rj_dropCounter r = []" "sorted ts"
  shows "\<exists>es r'. reject_calls ts r = Inr (es, r') \<and> length es = length ts \<and>
     (\<forall>i<length ts. es ! i =
        (if 50 < length (filter (\<lambda>t. ts ! i - t \<le> dropWindow) (take (Suc i) ts)) then RejectedDrop
         else RejectedReset))"
proof -
  let ?from = "case ts of [] \<Rightarrow> 0 | t # _ \<Rightarrow> t"
  have "sorted (?from # ts)" using assms(4) by (cases ts) auto
  then obtain r' where r': "reject_calls ts r = Inr (flood_results [] ts, r')"
    using reject_calls_flood [of r ?from "[]" ts] assms by (auto simp: counter_tracks_def)
  moreover have "flood_results [] ts ! i =
      (if 50 < length (filter (\<lambda>t. ts ! i - t \<le> dropWindow) (take (Suc i) ts)) then RejectedDrop
       else RejectedReset)" if "i < length ts" for i
    using flood_results_nth [OF that, of "[]"] take_Suc_conv_app_nth [OF that] by (simp add: flood_result_def)
  ultimately show ?thesis by auto
qed

theorem reject_flood_window_witness:
  "(\<exists>es r'. reject_calls (replicate 60 7) ex_reject = Inr (es, r') \<and> es ! 49 = RejectedReset \<and> es ! 50 = RejectedDrop)"
proof -
  have r: "rj_Method ex_reject = ''default''" "\<not> rj_NoDrop ex_reject" "rj_dropCounter ex_reject = []"
    by (simp_all add: ex_reject_def)
  have s: "sorted (replicate 60 7 :: int list)" by simp
  obtain es r' where calls: "reject_calls (replicate 60 7) ex_reject = Inr (es, r')"
    and each: "\<forall>i<length (replicate 60 7 :: int list). es ! i =
        (if 50 < length (filter (\<lambda>t. replicate 60 7 ! i - t \<le> dropWindow) (take (Suc i) (replicate 60 7))) then RejectedDrop
         else RejectedReset)"
    using reject_flood_window [OF r s] by blast
  have "es ! 49 = RejectedReset" "es ! 50 = RejectedDrop"
    using each [rule_format, of 49] each [rule_format, of 50]
    by (simp_all add: dropWindow_def take_replicate filter_replicate)
  with calls show ?thesis by blast
qed

text \<open>
  A \<open>reject\<close> action whose options passed the decoder never panics: every call gives a result and
  keeps the method, so the next call does too. With \<open>reply\<close> no connection is rejected.
\<close>

theorem decoded_reject_total:
  assumes "RejectActionOptions_UnmarshalJSON decoded = Inr o'" "ra_RejectOptions opts = o'"
    "ra_Action opts = ''reject''"
  shows "\<exists>r. NewRuleAction A opts = Inr (Some (RuleActionReject r)) \<and>
     (\<forall>ts. \<exists>es r'. reject_calls ts r = Inr (es, r') \<and> (\<forall>e\<in>set es. IsRejected e \<longleftrightarrow> rjo_Method o' \<noteq> ''reply''))"
proof -
  have total: "\<exists>es r'. reject_calls ts r = Inr (es, r') \<and> (\<forall>e\<in>set es. IsRejected e \<longleftrightarrow> rj_Method r \<noteq> ''reply'')"
    if "rj_Method r \<in> {''default'', ''drop'', ''reply''}" for ts r
    using that
  proof (induction ts arbitrary: r)
    case (Cons t ts)
    from RuleActionReject_Error_ok [OF Cons.prems, of t] obtain e r1
      where e: "RuleActionReject_Error t r = Inr (e, r1)" by (auto simp: is_ok_iff)
    have "IsRejected e \<longleftrightarrow> rj_Method r \<noteq> ''reply''"
      using e Cons.prems by (auto simp: RuleActionReject_Error_def Let_def IsRejected_def split: if_splits)
    with e Cons.IH [of r1] Cons.prems show ?case
      by (auto simp: RuleActionReject_Error_frame [OF e])
  qed auto
  show ?thesis
    using RejectActionOptions_methods(1) [OF assms(1)] assms(2,3)
      total [of "\<lparr>rj_Rcode = 0, rj_Method = rjo_Method o', rj_NoDrop = rjo_NoDrop o', rj_dropCounter = []\<rparr>"]
    by (simp add: NewRuleAction_def)
qed

theorem decoded_reject_total_witness:
  "\<exists>r. NewRuleAction ex_action_env
       ((ex_action_options ''reject'')\<lparr>ra_RejectOptions := \<lparr>rjo_Method = ''default'', rjo_NoDrop = False\<rparr>\<rparr>) =
       Inr (Some (RuleActionReject r)) \<and> (\<forall>ts. \<exists>es r'. reject_calls ts r = Inr (es, r'))"
  using decoded_reject_total [of "Inr \<lparr>rjo_Method = [], rjo_NoDrop = False\<rparr>" "\<lparr>rjo_Method = ''default'', rjo_NoDrop = False\<rparr>"
      "(ex_action_options ''reject'')\<lparr>ra_RejectOptions := \<lparr>rjo_Method = ''default'', rjo_NoDrop = False\<rparr>\<rparr>" ex_action_env]
  by (fastforce simp: RejectActionOptions_UnmarshalJSON_def ex_action_options_def)

section \<open>Construction\<close>

text \<open>
  The action built from decoded options is of the type the options name, and building it never
  panics: what the decoder accepted the constructor knows. The error of the dialer, which only the
  \<open>direct\<close> action asks, is the one thing that may come from outside.
\<close>

theorem decoded_action_type:
  assumes "RuleAction_UnmarshalJSON decoded strict excluded = Inr opts"
    and "\<And>p r r'. excluded p r = Inr r' \<Longrightarrow> ra_Action r' = ra_Action r"
    and "dl_DomainStrategy (ra_DirectOptions opts) \<le> 4"
    and "\<And>e. dialer_New A (ra_DirectOptions opts) = Some e \<Longrightarrow> \<not> is_panic (Inl e :: rule_action res)"
  shows "(\<exists>a. NewRuleAction A opts = Inr (Some a) \<and> action_Type a = ra_Action opts) \<or>
     (\<exists>e. NewRuleAction A opts = Inl e \<and> \<not> is_panic (NewRuleAction A opts))"
proof -
  have known: "is_ok (action_part_of (ra_Action opts))"
    by (rule RuleAction_UnmarshalJSON_known [OF assms(1)]) (rule assms(2))
  have np: "\<not> is_panic (NewRuleAction A opts)"
    using NewRuleAction_known_no_panic [OF known newDirectAction_no_panic [OF assms(3,4)]] by blast
  show ?thesis
  proof (cases "NewRuleAction A opts")
    case (Inl e)
    with np show ?thesis by blast
  next
    case (Inr x)
    from known obtain p where "action_part_of (ra_Action opts) = Inr p" by (auto simp: is_ok_iff)
    note action_part_of_known [OF this]
    with Inr show ?thesis
      by (auto simp: NewRuleAction_def action_Type_def newDirectAction_def Let_def split: option.splits)
  qed
qed

theorem decoded_action_type_witness:
  "\<exists>a. NewRuleAction ex_action_env (ex_action_options ''direct'') = Inr (Some a) \<and>
     action_Type a = ra_Action (ex_action_options ''direct'')"
proof -
  let ?o = "ex_action_options ''direct''"
  have dec: "RuleAction_UnmarshalJSON (Inr ?o) None (\<lambda>p. Inr) = Inr ?o"
    by (simp add: RuleAction_UnmarshalJSON_def action_part_of_def ex_action_options_def)
  have strategy: "dl_DomainStrategy (ra_DirectOptions ?o) \<le> 4"
    by (simp add: ex_action_options_def ex_direct_options_def)
  have dialer: "dialer_New ex_action_env d \<noteq> Some e" for d e
    by (simp add: ex_action_env_def)
  have "is_ok (NewRuleAction ex_action_env ?o)"
    by code_simp
  then have "NewRuleAction ex_action_env ?o \<noteq> Inl e" for e
    by (metis is_ok_simps(1))
  moreover have "(\<exists>a. NewRuleAction ex_action_env ?o = Inr (Some a) \<and> action_Type a = ra_Action ?o) \<or>
     (\<exists>e. NewRuleAction ex_action_env ?o = Inl e \<and> \<not> is_panic (NewRuleAction ex_action_env ?o))"
    by (rule decoded_action_type [OF dec _ strategy]) (simp_all add: dialer)
  ultimately show ?thesis by blast
qed

text \<open>
  The sniffers of a \<open>sniff\<close> action: every known name adds its stream and packet sniffers in the
  order of the names; the sniffer for QUIC short headers comes last, once, and only with \<open>quic\<close>.
\<close>

theorem sniff_action_sniffers:
  assumes "ra_Action opts = ''sniff''" "set (sno_Sniffer (ra_SniffOptions opts)) \<subseteq> set known_sniffers"
  shows "\<exists>s. NewRuleAction A opts = Inr (Some (RuleActionSniff s)) \<and>
     sn_StreamSniffers s = concat (map stream_sniffers_of (sno_Sniffer (ra_SniffOptions opts))) \<and>
     sn_PacketSniffers s = concat (map packet_sniffers_of (sno_Sniffer (ra_SniffOptions opts))) @
       (if ''quic'' \<in> set (sno_Sniffer (ra_SniffOptions opts)) then [QUICShortHeader] else []) \<and>
     QUICShortHeader \<notin> set (concat (map packet_sniffers_of (sno_Sniffer (ra_SniffOptions opts))))"
  using assms packet_sniffers_of_short
  by (auto simp: NewRuleAction_def RuleActionSniff_build_def sniffers_loop_known)

theorem sniff_action_sniffers_witness:
  "\<exists>s. NewRuleAction ex_action_env (ex_action_options ''sniff'') = Inr (Some (RuleActionSniff s)) \<and>
     sn_StreamSniffers s = [TLSClientHello] \<and> sn_PacketSniffers s = [QUICClientHello, QUICShortHeader]"
  using sniff_action_sniffers [of "ex_action_options ''sniff''" ex_action_env]
  by (auto simp: ex_action_options_def known_sniffers_def stream_sniffers_of_def packet_sniffers_of_def)

text \<open>
  An unknown sniffer name fails with an error that names the first unknown one.
\<close>

theorem sniff_action_unknown:
  assumes "ra_Action opts = ''sniff''" "sno_Sniffer (ra_SniffOptions opts) = names @ bad # rest"
    "set names \<subseteq> set known_sniffers" "bad \<notin> set known_sniffers"
  shows "NewRuleAction A opts = Inl (E_New (''unknown sniffer: '' @ bad))"
  using assms by (simp add: NewRuleAction_def RuleActionSniff_build_def sniffers_loop_unknown)

theorem sniff_action_unknown_witness:
  "NewRuleAction ex_action_env
     ((ex_action_options ''sniff'')\<lparr>ra_SniffOptions := \<lparr>sno_Sniffer = [''tls'', ''ftp'', ''x''], sno_Timeout = 0\<rparr>\<rparr>) =
     Inl (E_New ''unknown sniffer: ftp'')"
  using sniff_action_unknown [of "(ex_action_options ''sniff'')\<lparr>ra_SniffOptions := \<lparr>sno_Sniffer = [''tls'', ''ftp'', ''x''], sno_Timeout = 0\<rparr>\<rparr>"
      "[''tls'']" "''ftp''" "[''x'']" ex_action_env]
  by (simp add: ex_action_options_def known_sniffers_def)

text \<open>
  The methods of TLS spoofing print and parse back: the five methods are exactly what parsing
  can give, and a name that parses is the name of its method.
\<close>

theorem spoof_method_roundtrip:
  "(ParseMethod s = Inr m \<longleftrightarrow> m \<le> 4 \<and> (s = Method_String m \<or> s = [] \<and> m = 0))"
  by (auto simp: ParseMethod_def Method_String_def)

section \<open>Predefined answers\<close>

text \<open>
  A predefined answer to a message with a question: it repeats the request's id and questions,
  keeps the number of the records, renames exactly the wildcard records that cover the name asked
  for to that name, and leaves every other record as configured.
\<close>

theorem predefined_response:
  assumes "msg_Question request = q # qs"
  shows "\<exists>m. RuleActionPredefined_Response r request = Inr m \<and> msg_Id m = msg_Id request \<and>
     msg_Question m = msg_Question request \<and> msg_Rcode m = pd_Rcode r \<and> msg_Response m \<and>
     length (msg_Answer m) = length (pd_Answer r) \<and>
     (\<forall>i<length (pd_Answer r). let h = rr_Header (pd_Answer r ! i) in
        msg_Answer m ! i =
          (if \<exists>suffix. rh_Name h = CHR ''*'' # suffix \<and> has_suffix (q_Name q) suffix
           then rr_with_Header (h\<lparr>rh_Name := q_Name q\<rparr>) (pd_Answer r ! i) else pd_Answer r ! i))"
proof -
  have rewrite: "rewrite_record q it =
      (if \<exists>suffix. rh_Name (rr_Header it) = CHR ''*'' # suffix \<and> has_suffix (q_Name q) suffix
       then rr_with_Header ((rr_Header it)\<lparr>rh_Name := q_Name q\<rparr>) it else it)" for it
    by (cases "rh_Name (rr_Header it)") (auto simp: rewrite_record_def has_prefix_iff)
  have "rewriteRecords (pd_Answer r) q ! i = rewrite_record q (pd_Answer r ! i)" if "i < length (pd_Answer r)" for i
    using that by (simp add: rewriteRecords_def)
  note answer = this [unfolded rewrite]
  show ?thesis
    unfolding RuleActionPredefined_Response_def assms list.case Let_def
    by (rule exI, rule conjI, rule refl) (simp add: answer del: if_split split del: if_split)
qed

theorem predefined_response_witness:
  "\<exists>m. RuleActionPredefined_Response ex_predefined ex_query = Inr m \<and>
     map (\<lambda>it. rh_Name (rr_Header it)) (msg_Answer m) = [''www.example.org.'', ''example.net.'']"
proof -
  obtain m where m: "RuleActionPredefined_Response ex_predefined ex_query = Inr m"
    "length (msg_Answer m) = length (pd_Answer ex_predefined)"
    using predefined_response [of ex_query "\<lparr>q_Name = ''www.example.org.'', q_Qtype = 1, q_Qclass = 1\<rparr>" "[]" ex_predefined]
    by (auto simp: ex_query_def)
  moreover have "\<forall>m. RuleActionPredefined_Response ex_predefined ex_query = Inr m \<longrightarrow>
     map (\<lambda>it. rh_Name (rr_Header it)) (msg_Answer m) = [''www.example.org.'', ''example.net.'']"
    by (simp add: RuleActionPredefined_Response_def ex_query_def ex_predefined_def rewriteRecords_def rewrite_record_def
        has_suffix_def)
  ultimately show ?thesis by blast
qed

end
