(* ===== verification/Rule_Build_Props.thy ===== *)
theory Rule_Build_Props
  imports Rule_Start Rule_Action_Props
begin

text \<open>
  Properties of the rule constructors: what rules built from options look like and mean, which
  options are refused, and when the pre-match of DNS rules may skip a rule.
\<close>

section \<open>Nested rules\<close>

text \<open>All rules strictly below a rule; only logical rules have any.\<close>

fun nested_rules :: "rule_options \<Rightarrow> rule_options list" and nested_in :: "logical_rule_options \<Rightarrow> rule_options list" where
  "nested_rules (RuleOpts t d a l) = (if t = ''logical'' then nested_in l else [])"
| "nested_in (LogicalOpts mode rules s neg a) = rules @ concat (map nested_rules rules)"

lemma validate_nested:
  "validateNoNestedRuleActions r nested = None \<longleftrightarrow>
     (nested \<longrightarrow> \<not> ruleHasConfiguredAction r) \<and> (\<forall>s\<in>set (nested_rules r). \<not> ruleHasConfiguredAction s)"
  "validate_logical l = None \<longleftrightarrow> (\<forall>s\<in>set (nested_in l). \<not> ruleHasConfiguredAction s)"
  "validate_sub_rules i rs = None \<longleftrightarrow>
     (\<forall>r\<in>set rs. \<not> ruleHasConfiguredAction r \<and> (\<forall>s\<in>set (nested_rules r). \<not> ruleHasConfiguredAction s))"
proof (induction r nested and l and i rs rule: validateNoNestedRuleActions_validate_logical_validate_sub_rules.induct)
  case (1 t d a l nested)
  then show ?case by (cases "t = ''logical''") auto
next
  case (2 mode rules s neg a)
  then show ?case by (auto simp: ball_Un)
next
  case (4 i r rs)
  then show ?case by (auto split: option.split)
qed simp

text \<open>
  A rule that was built has no action anywhere below its top level; the other way round, a
  nested rule with an action makes the construction fail.
\<close>

theorem NewRule_no_nested_action:
  assumes "NewRule E A B r checkOutbound = Inr rule" "s \<in> set (nested_rules r)"
  shows "\<not> ruleHasConfiguredAction s"
  using NewRule_validated [OF assms(1)] assms(2) by (simp add: validate_nested)

definition ex_domain_options :: default_rule_options where
  "ex_domain_options = zero_default_rule_options\<lparr>mo_Domain := [''example.org'']\<rparr>"

definition ex_port_options :: default_rule_options where
  "ex_port_options = zero_default_rule_options\<lparr>mo_Port := [443]\<rparr>"

definition ex_build_env :: build_env where
  "ex_build_env = \<lparr>be_Router = Some AsIS, be_NetworkManager = True\<rparr>"

definition ex_zero_logical :: logical_rule_options where
  "ex_zero_logical = LogicalOpts [] [] AsIS False zero_rule_action"

definition ex_logical_rule :: rule_options where
  "ex_logical_rule =
     RuleOpts ''logical'' zero_default_rule_options zero_rule_action
       (LogicalOpts ''and''
          [RuleOpts ''default'' ex_domain_options zero_rule_action ex_zero_logical,
           RuleOpts ''default'' ex_port_options zero_rule_action ex_zero_logical]
          AsIS False (zero_rule_action\<lparr>ra_Action := ''hijack-dns''\<rparr>))"

theorem NewRule_no_nested_action_witness:
  "\<not> ruleHasConfiguredAction (RuleOpts ''default'' ex_port_options zero_rule_action ex_zero_logical)"
proof -
  have "is_ok (NewRule example_env ex_action_env ex_build_env ex_logical_rule True)"
    by code_simp
  then obtain rule where "NewRule example_env ex_action_env ex_build_env ex_logical_rule True = Inr rule"
    by (auto simp: is_ok_iff)
  then show ?thesis
    by (rule NewRule_no_nested_action) (simp add: ex_logical_rule_def)
qed

section \<open>What a built rule means\<close>

lemmas default_step_lists = default_basic_steps_def ip_version_steps_def default_domain_steps_def
  default_address_steps_def default_process_steps_def default_network_steps_def default_tail_steps_def

definition default_steps :: "rule_env \<Rightarrow> domain_match_strategy \<Rightarrow> default_rule_options \<Rightarrow> build_step list" where
  "default_steps E st opts = default_basic_steps opts @ default_domain_steps E st opts @
     default_address_steps E opts @ default_process_steps E opts @ default_network_steps E opts @
     default_tail_steps E st opts"

lemma NewDefaultRule_builder:
  assumes "NewDefaultRule E A B opts act = Inr r"
  obtains b where "run_steps (default_steps E (effective_strategy B (do_DomainMatchStrategy opts)) opts) empty_builder = Inr b"
    "rt_Rule r = DefaultRule (build_drule b 0 (mo_Invert opts))"
  using assms that by (auto simp: NewDefaultRule_def Let_def new_route_rule_def default_steps_def)

lemma default_rule_no_sets:
  assumes "NewDefaultRule E A B opts act = Inr r" "rt_Rule r = DefaultRule d" "mo_RuleSet opts = []"
  shows "ruleSetItem d = None"
  using assms(1)
proof (rule NewDefaultRule_builder)
  fix b
  assume b: "run_steps (default_steps E (effective_strategy B (do_DomainMatchStrategy opts)) opts) empty_builder = Inr b"
    "rt_Rule r = DefaultRule (build_drule b 0 (mo_Invert opts))"
  have "\<not> list_ex step_sets (default_steps E (effective_strategy B (do_DomainMatchStrategy opts)) opts)"
    using assms(3) by (simp add: default_steps_def default_step_lists)
  from run_steps_no_sets [OF b(1) this] b(2) assms(2) show ?thesis
    by (simp add: build_drule_def empty_builder_def)
qed

text \<open>
  C19. The documented formula of a route rule without rule-sets: it matches when every plain
  condition holds, and of each of the groups source address, source port, destination (domains and
  IP ranges together) and destination port that has conditions at least one of them holds; the
  result is negated under \<open>invert\<close>. A rule without conditions matches everything.
\<close>

theorem NewDefaultRule_formula:
  assumes "NewDefaultRule E A B opts act = Inr r" "rt_Rule r = DefaultRule d" "mo_RuleSet opts = []"
    "clean m" "\<not> m_IgnoreDestinationIPCIDRMatch m" "\<not> m_IPCIDRMatchSource m"
  shows "fst (hrule_Match E (rt_Rule r) m) \<longleftrightarrow>
     allItems d = [] \<or>
     ((\<forall>it\<in>set (items d). RuleItem_Match E it m) \<and>
      (\<forall>its\<in>{sourceAddressItems d, sourcePortItems d, destinationAddressItems d @ destinationIPCIDRItems d,
              destinationPortItems d}. its \<noteq> [] \<longrightarrow> (\<exists>it\<in>set its. RuleItem_Match E it m)))
     \<noteq> mo_Invert opts"
proof -
  have inv: "invert d = mo_Invert opts"
    using assms(1,2) by (auto elim!: NewDefaultRule_wf)
  have "hrule_Match E (rt_Rule r) m = (hrule_sem E (rt_Rule r) m, m)"
    using exactD [OF rule_tree_exact(1) assms(4,5)] .
  moreover have "hrule_sem E (rt_Rule r) m \<longleftrightarrow> default_sem E d [] m"
    using default_rule_no_sets [OF assms(1-3)] assms(2) by (cases d) simp
  moreover have "matchItems E (items d) m \<longleftrightarrow> (\<forall>it\<in>set (items d). RuleItem_Match E it m)"
    by (simp add: matchItems_def list_all_iff)
  moreover have "groups_hold E [(d, m)] \<longleftrightarrow>
      (\<forall>its\<in>{sourceAddressItems d, sourcePortItems d, destinationAddressItems d @ destinationIPCIDRItems d,
              destinationPortItems d}. its \<noteq> [] \<longrightarrow> (\<exists>it\<in>set its. RuleItem_Match E it m))"
    using assms(5,6) by (simp add: groups_hold_def all_groups_def matchAnyItem_def list_ex_iff)
  ultimately show ?thesis
    using default_rule_no_sets [OF assms(1-3)] by (simp add: default_sem_def inv)
qed

theorem NewDefaultRule_formula_witness:
  "\<exists>r d. NewDefaultRule example_env ex_action_env ex_build_env ex_port_options zero_rule_action = Inr r \<and>
     rt_Rule r = DefaultRule d \<and> fst (hrule_Match example_env (rt_Rule r) ex_context) \<and>
     (\<exists>it\<in>set (destinationPortItems d). RuleItem_Match example_env it ex_context)"
proof -
  have ok: "(case NewDefaultRule example_env ex_action_env ex_build_env ex_port_options zero_rule_action of
      Inl e \<Rightarrow> False | Inr r \<Rightarrow> (case rt_Rule r of DefaultRule d \<Rightarrow>
        allItems d \<noteq> [] \<and> destinationPortItems d \<noteq> [] \<and> fst (hrule_Match example_env (rt_Rule r) ex_context)
      | _ \<Rightarrow> False))"
    by code_simp
  then obtain r d where r: "NewDefaultRule example_env ex_action_env ex_build_env ex_port_options zero_rule_action = Inr r"
    and d: "rt_Rule r = DefaultRule d" "allItems d \<noteq> []" "destinationPortItems d \<noteq> []"
    and m: "fst (hrule_Match example_env (rt_Rule r) ex_context)"
    by (auto split: sum.splits hrule.splits)
  have c: "mo_RuleSet ex_port_options = []" "clean ex_context" "\<not> m_IgnoreDestinationIPCIDRMatch ex_context"
    "\<not> m_IPCIDRMatchSource ex_context" "mo_Invert ex_port_options = False"
    by code_simp+
  show ?thesis
    using NewDefaultRule_formula [OF r d(1) c(1-4)] r d m c(5) by auto
qed

text \<open>
  Building and starting keep a rule well-formed: each group holds exactly the items that belong
  to it, in the order of \<open>allItems\<close>, and the place of the rule-set item is there iff the item is.
\<close>

theorem built_and_started_wf:
  assumes "NewDefaultRule E A B opts act = Inr r" "rt_Rule r = DefaultRule d" "drule_Start E sets d = Inr d'"
  shows "drule_wf d \<and> drule_wf d' \<and> invert d' = mo_Invert opts"
proof -
  have "drule_wf d" "invert d = mo_Invert opts"
    using assms(1,2) by (auto elim!: NewDefaultRule_wf)
  moreover have "invert d' = invert d"
    using assms(3) by (auto simp: drule_Start_def split: option.splits)
  ultimately show ?thesis using drule_Start_wf [OF assms(3)] by simp
qed

theorem built_and_started_wf_witness:
  "\<exists>r d d'. NewDefaultRule example_env ex_action_env ex_build_env ex_port_options zero_rule_action = Inr r \<and>
     rt_Rule r = DefaultRule d \<and> drule_Start example_env Map.empty d = Inr d' \<and> drule_wf d'"
proof -
  have "(case NewDefaultRule example_env ex_action_env ex_build_env ex_port_options zero_rule_action of
      Inl e \<Rightarrow> False | Inr r \<Rightarrow> (case rt_Rule r of DefaultRule d \<Rightarrow> is_ok (drule_Start example_env (\<lambda>t. None) d)
      | _ \<Rightarrow> False))"
    by code_simp
  then obtain r d d' where r: "NewDefaultRule example_env ex_action_env ex_build_env ex_port_options zero_rule_action = Inr r"
    and d: "rt_Rule r = DefaultRule d" "drule_Start example_env Map.empty d = Inr d'"
    by (auto simp: is_ok_iff split: sum.splits hrule.splits)
  show ?thesis
    using built_and_started_wf [OF r d] r d by blast
qed

section \<open>Refused options\<close>

lemma run_steps_fail: "Fail True e \<in> set ss \<Longrightarrow> \<not> is_ok (run_steps ss b)"
proof (induction ss arbitrary: b)
  case (Cons s ss)
  then show ?case by (cases "run_step s b") auto
qed simp

text \<open>
  Options that were removed, or an IP version that is neither 4 nor 6, never give a rule,
  whatever else the options have.
\<close>

theorem NewDefaultRule_refuses:
  assumes "mo_Geosite opts \<noteq> [] \<or> mo_SourceGeoIP opts \<noteq> [] \<or> mo_GeoIP opts \<noteq> [] \<or>
     mo_RuleSet opts \<noteq> [] \<and> mo_Deprecated_RulesetIPCIDRMatchSource opts \<or>
     0 < mo_IPVersion opts \<and> mo_IPVersion opts \<noteq> 4 \<and> mo_IPVersion opts \<noteq> 6"
  shows "\<not> is_ok (NewDefaultRule E A B opts act)"
proof
  assume "is_ok (NewDefaultRule E A B opts act)"
  then obtain r where "NewDefaultRule E A B opts act = Inr r" by (auto simp: is_ok_iff)
  then obtain b where
    b: "run_steps (default_steps E (effective_strategy B (do_DomainMatchStrategy opts)) opts) empty_builder = Inr b"
    by (rule NewDefaultRule_builder)
  have "\<exists>e. Fail True e \<in> set (default_steps E (effective_strategy B (do_DomainMatchStrategy opts)) opts)"
    using assms by (auto simp: default_steps_def default_step_lists)
  with run_steps_fail b show False by (metis is_ok_simps(2))
qed

theorem NewDefaultRule_refuses_witness:
  "\<not> is_ok (NewDefaultRule example_env ex_action_env ex_build_env
     (ex_port_options\<lparr>mo_GeoIP := [''cn'']\<rparr>) zero_rule_action)"
  by (rule NewDefaultRule_refuses) simp

section \<open>DNS rules\<close>





text \<open>
  C3. From the options to the decision of the router: a DNS rule built from options without
  response conditions, started over loaded rule-sets, where neither the rule nor a rule-set it
  merges with mixes domains and IP ranges. If the legacy pre-match rejects the query, the rule
  does not match any response to it.
\<close>

theorem built_dns_rule_prematch:
  assumes "NewDefaultDNSRule E opts act legacyDNSMode = Inr rule" "dn_Rule rule = DefaultDNSRule d mr tag"
    and "drule_Start E sets d = Inr d'"
    and "no_response_options opts" "\<not> (domain_options opts \<and> ip_options opts)"
    and "\<And>t s. t \<in> set (mo_RuleSet opts) \<Longrightarrow> sets t = Some s \<Longrightarrow>
      loaded_set E B s \<and> (domain_options opts \<longrightarrow> \<not> s_filters s) \<and> (ip_options opts \<longrightarrow> \<not> branch_domains s)"
    and "\<not> m_IgnoreDestinationIPCIDRMatch m"
    and "\<not> fst (DefaultDNSRule_LegacyPreMatch E d' False (ResetRuleCache m))"
  shows "\<not> DefaultDNSRule_MatchAddressLimit E d' (ResetRuleCache m) response"
proof -
  obtain b where b: "run_steps (dns_steps E legacyDNSMode opts) empty_builder = Inr b"
    "d = build_drule b 0 (mo_Invert opts)"
    using assms(1,2) by (auto elim!: NewDefaultDNSRule_drule)
  have "legacy_d False d'"
    by (rule started_dns_legacy [OF b(1) assms(3) [unfolded b(2)] assms(4,5)]) (rule assms(6))
  from DefaultDNSRule_prematch [OF this assms(7), of E response] assms(8) show ?thesis
    unfolding tv_def by (metis fst_conv)
qed

definition ex_cidr_set_rules :: "headless_rule_options list" where
  "ex_cidr_set_rules =
     [HeadlessRuleOpts ''default'' (zero_headless_options\<lparr>mo_IPCIDR := [Prefix (Addr4 0x01010101) 32]\<rparr>) (HeadlessLogicalOpts [] [] AsIS False)]"

definition ex_loaded_set :: rule_set where
  "ex_loaded_set = RuleSet ''cn-ip''
     (case build_set_rules example_env ex_build_env 0 0 ex_cidr_set_rules of Inl e \<Rightarrow> [] | Inr (rules, n) \<Rightarrow> rules)
     (buildRuleSetMetadata example_env ex_cidr_set_rules)"

definition ex_cn_options :: dns_default_options where
  "ex_cn_options = zero_dns_default_options\<lparr>mo_RuleSet := [''cn-ip''], mo_Port := [80]\<rparr>"

definition ex_dns_action :: dns_rule_action_options where
  "ex_dns_action = zero_dns_rule_action\<lparr>da_Action := ''route'', da_RouteServer := ''local''\<rparr>"

definition ex_sets :: "string \<rightharpoonup> rule_set" where
  "ex_sets t = (if t = ''cn-ip'' then Some ex_loaded_set else None)"

lemma ex_loaded: "loaded_set example_env ex_build_env ex_loaded_set" "s_filters ex_loaded_set"
proof -
  have "(case build_set_rules example_env ex_build_env 0 0 ex_cidr_set_rules of
      Inl e \<Rightarrow> False | Inr (rules, n) \<Rightarrow> list_all unmixed_h rules)"
    by code_simp
  then show "loaded_set example_env ex_build_env ex_loaded_set"
    by (auto simp: loaded_set_def ex_loaded_set_def split: sum.splits)
  show "s_filters ex_loaded_set" by code_simp
qed

theorem built_dns_rule_prematch_witness:
  "\<exists>rule d d'. NewDefaultDNSRule example_env ex_cn_options ex_dns_action True = Inr rule \<and>
     dn_Rule rule = DefaultDNSRule d False [] \<and> drule_Start example_env ex_sets d = Inr d' \<and>
     \<not> DefaultDNSRule_MatchAddressLimit example_env d' (ResetRuleCache ex_context) ex_response"
proof -
  have "(case NewDefaultDNSRule example_env ex_cn_options ex_dns_action True of Inl e \<Rightarrow> False | Inr rule \<Rightarrow>
      (case dn_Rule rule of DefaultDNSRule d mr tag \<Rightarrow> \<not> mr \<and> tag = [] \<and>
         (case drule_Start example_env ex_sets d of Inl e \<Rightarrow> False | Inr d' \<Rightarrow>
            \<not> fst (DefaultDNSRule_LegacyPreMatch example_env d' False (ResetRuleCache ex_context)))
       | _ \<Rightarrow> False))"
    by code_simp
  then obtain rule d d' where rule: "NewDefaultDNSRule example_env ex_cn_options ex_dns_action True = Inr rule"
    "dn_Rule rule = DefaultDNSRule d False []" "drule_Start example_env ex_sets d = Inr d'"
    and rejects: "\<not> fst (DefaultDNSRule_LegacyPreMatch example_env d' False (ResetRuleCache ex_context))"
    by (auto split: sum.splits hrule.splits)
  have "\<not> DefaultDNSRule_MatchAddressLimit example_env d' (ResetRuleCache ex_context) ex_response"
  proof (rule built_dns_rule_prematch [where B = ex_build_env, OF rule])
    show "no_response_options ex_cn_options" "\<not> (domain_options ex_cn_options \<and> ip_options ex_cn_options)"
      "\<not> m_IgnoreDestinationIPCIDRMatch ex_context"
      by (code_simp, code_simp, code_simp)
    have "\<not> domain_options ex_cn_options" "\<not> ip_options ex_cn_options"
      by (code_simp, code_simp)
    then show "loaded_set example_env ex_build_env s \<and> (domain_options ex_cn_options \<longrightarrow> \<not> s_filters s) \<and>
        (ip_options ex_cn_options \<longrightarrow> \<not> branch_domains s)"
      if "t \<in> set (mo_RuleSet ex_cn_options)" "ex_sets t = Some s" for t s
      using that ex_loaded(1) by (auto simp: ex_sets_def split: if_splits)
  qed (rule rejects)
  with rule show ?thesis by blast
qed

end
