(* ===== verification/Rule_Set_Props.thy ===== *)
theory Rule_Set_Props
  imports Rule_Build_Props
begin

text \<open>
  Properties of rule-sets: the metadata of loaded sets, the references that rules hold on them, the
  cache of remote sets and the updater.
\<close>

section \<open>Metadata\<close>

text \<open>
  C23. After loading typed options, the metadata says that the rule-set has IP conditions exactly when
  some rule built from them, at any depth, has destination IP items. The metadata is read from the
  options and the router decides by it; the rules are what is matched.
\<close>

theorem loaded_metadata_exact:
  assumes "reloadRules E B validator os s = Inr (s', callbacks)" "list_all typed_h os"
  shows "(ContainsIPCIDRRule (ss_metadata s') \<longleftrightarrow> s_filters (view_of s')) \<and> callbacks = ss_callbacks s \<and>
     ss_refs s' = ss_refs s"
  using reloadRules_metadata [OF assms] assms(1) by (auto elim: reloadRules_result)

definition ex_new_set :: set_state where
  "ex_new_set = new_set_state ''cn-ip'' ''inline'' []"

theorem loaded_metadata_exact_witness:
  "\<exists>s' callbacks. reloadRules example_env ex_build_env None ex_cidr_set_rules ex_new_set = Inr (s', callbacks) \<and>
     ContainsIPCIDRRule (ss_metadata s') \<and> s_filters (view_of s')"
proof -
  have "(case reloadRules example_env ex_build_env None ex_cidr_set_rules ex_new_set of
      Inl e \<Rightarrow> False | Inr (s', cbs) \<Rightarrow> ContainsIPCIDRRule (ss_metadata s'))"
    by code_simp
  then obtain s' cbs where s': "reloadRules example_env ex_build_env None ex_cidr_set_rules ex_new_set = Inr (s', cbs)"
    "ContainsIPCIDRRule (ss_metadata s')"
    by (auto split: sum.splits)
  have "list_all typed_h ex_cidr_set_rules" by code_simp
  from loaded_metadata_exact [OF s'(1) this] s' show ?thesis by blast
qed

text \<open>
  C24. A started DNS rule over loaded rule-sets has an address limit, so that the router checks the
  response against it, exactly when some destination IP condition is among the conditions of the
  rule or of its rule-sets; without \<open>rule_set_ip_cidr_match_source\<close>.
\<close>

theorem address_limit_exact:
  assumes "NewDefaultDNSRule E opts act legacyDNSMode = Inr rule" "dn_Rule rule = DefaultDNSRule d mr tag"
    and "drule_Start E sets d = Inr d'" "\<not> mo_RuleSetIPCIDRMatchSource opts"
    and "\<And>t s. sets t = Some s \<Longrightarrow>
      \<exists>s0 s1 os cbs. reloadRules E B validator os s0 = Inr (s1, cbs) \<and> list_all typed_h os \<and> s = view_of s1"
  shows "DefaultDNSRule_WithAddressLimit d' \<longleftrightarrow> d_filters d'"
proof -
  obtain b where b: "run_steps (dns_steps E legacyDNSMode opts) empty_builder = Inr b"
    "d = build_drule b 0 (mo_Invert opts)"
    using assms(1,2) by (auto elim!: NewDefaultDNSRule_drule)
  have "ContainsIPCIDRRule (set_Metadata s) \<longleftrightarrow> s_filters s" if "sets t = Some s" for t s
    using assms(5) [OF that] reloadRules_metadata by (auto simp: view_of_def)
  then have "sets_described sets" by (auto simp: sets_described_def)
  moreover have "\<not> ipCidrMatchSource s" if "ruleSetItem d = Some s" for s
    using dns_builder_set_item [OF b(1)] that assms(4) by (auto simp: b(2) build_drule_def NewRuleSetItem_def)
  ultimately show ?thesis
    using WithAddressLimit_filters [OF assms(3)] dns_builder_wf [OF b(1)] b(2) by blast
qed

definition ex_cn_set :: set_state where
  "ex_cn_set = (case reloadRules example_env ex_build_env None ex_cidr_set_rules ex_new_set of
     Inl e \<Rightarrow> ex_new_set | Inr (s', cbs) \<Rightarrow> s')"

definition ex_cn_sets :: "string \<rightharpoonup> rule_set" where
  "ex_cn_sets t = (if t = ''cn-ip'' then Some (view_of ex_cn_set) else None)"

theorem address_limit_exact_witness:
  "\<exists>rule d d'. NewDefaultDNSRule example_env ex_cn_options ex_dns_action True = Inr rule \<and>
     dn_Rule rule = DefaultDNSRule d False [] \<and> drule_Start example_env ex_cn_sets d = Inr d' \<and>
     DefaultDNSRule_WithAddressLimit d' \<and> d_filters d'"
proof -
  have "(case NewDefaultDNSRule example_env ex_cn_options ex_dns_action True of Inl e \<Rightarrow> False | Inr rule \<Rightarrow>
      (case dn_Rule rule of DefaultDNSRule d mr tag \<Rightarrow> \<not> mr \<and> tag = [] \<and>
         (case drule_Start example_env ex_cn_sets d of Inl e \<Rightarrow> False | Inr d' \<Rightarrow> DefaultDNSRule_WithAddressLimit d')
       | _ \<Rightarrow> False))"
    by code_simp
  then obtain rule d d' where rule: "NewDefaultDNSRule example_env ex_cn_options ex_dns_action True = Inr rule"
    "dn_Rule rule = DefaultDNSRule d False []" "drule_Start example_env ex_cn_sets d = Inr d'"
    and limit: "DefaultDNSRule_WithAddressLimit d'"
    by (auto split: sum.splits hrule.splits)
  have "is_ok (reloadRules example_env ex_build_env None ex_cidr_set_rules ex_new_set)" "list_all typed_h ex_cidr_set_rules"
    by (code_simp, code_simp)
  then have "\<exists>s0 s1 os cbs. reloadRules example_env ex_build_env None os s0 = Inr (s1, cbs) \<and> list_all typed_h os \<and> s = view_of s1"
    if "ex_cn_sets t = Some s" for t s
    using that by (fastforce simp: ex_cn_sets_def ex_cn_set_def is_ok_iff split: if_splits)
  moreover have "\<not> mo_RuleSetIPCIDRMatchSource ex_cn_options" by code_simp
  ultimately have "DefaultDNSRule_WithAddressLimit d' \<longleftrightarrow> d_filters d'"
    using address_limit_exact [OF rule, of ex_build_env None] by blast
  with rule limit show ?thesis by blast
qed

section \<open>References\<close>

definition ex_item :: ref_item where
  "ex_item = \<lparr>ri_tagList = [''cn-ip'', ''cn-ip''], ri_setList = []\<rparr>"

definition ex_state :: sets_state where
  "ex_state = \<lparr>st_sets = [''cn-ip'' \<mapsto> ex_cn_set], st_items = [ex_item]\<rparr>"

definition ex_started :: sets_state where
  "ex_started = \<lparr>st_sets = [''cn-ip'' \<mapsto> ex_cn_set\<lparr>ss_refs := 2\<rparr>],
     st_items = [ex_item\<lparr>ri_setList := [''cn-ip'', ''cn-ip'']\<rparr>]\<rparr>"

lemma ex_cn_set_refs: "ss_refs ex_cn_set = 0"
  by code_simp

lemma ex_state_reachable: "sets_reachable E B validator ex_state"
  by (rule sets_reachable.init) (simp add: sets_init_def ex_state_def ex_item_def ref_limit_def ex_cn_set_refs)

lemma ex_started_reachable: "sets_reachable E B validator ex_started"
proof -
  have start: "item_Start (st_items ex_state ! 0) (st_sets ex_state) =
      Inr (None, ex_item\<lparr>ri_setList := [''cn-ip'', ''cn-ip'']\<rparr>, [''cn-ip'' \<mapsto> ex_cn_set\<lparr>ss_refs := 2\<rparr>])"
    by (simp add: item_Start_def RuleSetItem_Start_def RuleSetItem_Close_def ex_state_def ex_item_def IncRef_def ex_cn_set_refs)
  have "sets_step E B validator ex_state ex_started"
    using sets_step.start [OF _ start, of E B validator] by (simp add: ex_state_def ex_started_def)
  with ex_state_reachable show ?thesis by (rule sets_reachable.step)
qed



text \<open>
  C22. No start or close of a rule-set item panics: the counter never goes below zero.
\<close>

theorem start_close_no_panic:
  assumes "sets_reachable E B validator st" "i < length (st_items st)"
  shows "is_ok (item_Start (st_items st ! i) (st_sets st)) \<and> is_ok (item_Close (st_items st ! i) (st_sets st))"
  using item_Start_ok [OF sets_reachable_inv [OF assms(1)] assms(2)]
    item_Close_ok [OF sets_reachable_inv [OF assms(1)] assms(2)]
  by (auto simp: is_ok_iff)

theorem start_close_no_panic_witness:
  "is_ok (item_Close (st_items ex_started ! 0) (st_sets ex_started))"
  using start_close_no_panic [OF ex_started_reachable, of 0] by (simp add: ex_started_def)

text \<open>
  Starting an item is all or nothing: it succeeds exactly when every tag names a rule-set and then
  refers to all of them; on a missing tag it gives back every reference it had taken.
\<close>

theorem start_all_or_nothing:
  assumes "sets_reachable E B validator st" "i < length (st_items st)"
    "item_Start (st_items st ! i) (st_sets st) = Inr (e, it, sets)"
  shows "(e = None \<longleftrightarrow> set (ri_tagList (st_items st ! i)) \<subseteq> dom (st_sets st)) \<and>
     ri_setList it = (if e = None then ri_tagList (st_items st ! i) else []) \<and>
     sets_inv (st\<lparr>st_sets := sets, st_items := (st_items st)[i := it]\<rparr>)"
  using item_Start_ok [OF sets_reachable_inv [OF assms(1)] assms(2)] assms(3) by auto

theorem start_all_or_nothing_witness:
  "\<exists>e it sets. item_Start (st_items ex_started ! 0) (st_sets ex_started) = Inr (e, it, sets) \<and> e = None \<and>
     ri_setList it = [''cn-ip'', ''cn-ip'']"
proof -
  obtain e it sets where start: "item_Start (st_items ex_started ! 0) (st_sets ex_started) = Inr (e, it, sets)"
    using item_Start_ok [OF sets_reachable_inv [OF ex_started_reachable], of 0] by (auto simp: ex_started_def)
  have "0 < length (st_items ex_started)" by (simp add: ex_started_def)
  from start_all_or_nothing [OF ex_started_reachable this start] start show ?thesis
    by (simp add: ex_started_def ex_item_def)
qed

text \<open>
  C21. A rule-set that a started rule refers to keeps its rules: in a reachable state, a step changes
  the rules of such a set only by reloading it, never by a cleanup, a start or a close of an item.
\<close>

theorem used_sets_keep_rules:
  assumes "sets_reachable E B validator st" "sets_step E B validator st st'"
    and "it \<in> set (st_items st)" "t \<in> set (ri_setList it)" "st_sets st t = Some s" "st_sets st' t = Some s'"
  shows "ss_rules s' = ss_rules s \<or>
     (\<exists>os cbs. reloadRules E B validator os s = Inr (s', cbs))"
proof -
  have inv: "sets_inv st" by (rule sets_reachable_inv [OF assms(1)])
  have used: "0 < refs_of s"
    using sets_inv_used [OF inv assms(3-5)] .
  have same: "ss_rules s' = ss_rules s" if "set_refs.same_content (st_sets st) (st_sets st')"
    using that assms(5,6) by (auto simp: set_refs.same_content_def dest!: spec [of _ t])
  from assms(2) show ?thesis
  proof (cases rule: sets_step.cases)
    case (start i e it' sets)
    then have "set_refs.same_content (st_sets st) (st_sets st')"
      using item_Start_ok [OF inv start(2)] by auto
    with same show ?thesis by blast
  next
    case (close i it' sets)
    then have "set_refs.same_content (st_sets st) (st_sets st')"
      using item_Close_ok [OF inv close(2)] by auto
    with same show ?thesis by blast
  next
    case (cleanup t' s0)
    with used assms(5,6) show ?thesis
      by (auto simp: Cleanup_def refs_of_def split: if_splits)
  next
    case (reload t' s0 os s1 cbs)
    with assms(5,6) show ?thesis by (auto split: if_splits)
  qed
qed

theorem used_sets_keep_rules_witness:
  "ss_rules ex_cn_set \<noteq> [] \<and>
   (ss_rules (Cleanup (ex_cn_set\<lparr>ss_refs := 2\<rparr>)) = ss_rules ex_cn_set \<or>
    (\<exists>os cbs. reloadRules example_env ex_build_env None os (ex_cn_set\<lparr>ss_refs := 2\<rparr>) =
       Inr (Cleanup (ex_cn_set\<lparr>ss_refs := 2\<rparr>), cbs)))"
proof -
  let ?s = "ex_cn_set\<lparr>ss_refs := 2\<rparr>"
  let ?st = "ex_started\<lparr>st_sets := (st_sets ex_started)(''cn-ip'' \<mapsto> Cleanup ?s)\<rparr>"
  have "sets_step example_env ex_build_env None ex_started ?st"
    by (rule sets_step.cleanup) (simp add: ex_started_def)
  note step = used_sets_keep_rules [OF ex_started_reachable this, of "ex_item\<lparr>ri_setList := [''cn-ip'', ''cn-ip'']\<rparr>" "''cn-ip''" ?s "Cleanup ?s"]
  have "ss_rules ex_cn_set \<noteq> []" by code_simp
  with step show ?thesis by (simp add: ex_started_def)
qed

section \<open>Remote rule-sets\<close>

text \<open>A server that answers with the given status, and a decoder that reads any content as the example rules.\<close>

definition ex_remote :: "nat \<Rightarrow> remote_env" where
  "ex_remote code =
     \<lparr>re_Abs = (\<lambda>s. s), sha256_Sum256 = (\<lambda>s. [0]), MakeHash = (\<lambda>bs. bs), http_NewRequest = (\<lambda>u. None),
      http_Do = (\<lambda>u etag. HttpResponse code ''status'' ''v1'' (Inr [1, 2])), path_Stat = (\<lambda>p. PathFile),
      read_Error = (\<lambda>p. None), save_Error = (\<lambda>p. None), cache_Error = None\<rparr>"

definition ex_loader :: "byte list set_loader" where
  "ex_loader =
     \<lparr>json_Unmarshal = (\<lambda>bs. Inr \<lparr>sc_Version = 1, sc_Rules = ex_cidr_set_rules\<rparr>),
      srs_Read = (\<lambda>bs. Inr \<lparr>sc_Version = 1, sc_Rules = ex_cidr_set_rules\<rparr>)\<rparr>"

definition ex_remote_set :: remote_state where
  "ex_remote_set =
     \<lparr>rm_set = new_set_state ''cn-ip'' ''remote'' ''binary'', rm_url = ''u'', rm_urlHash = [0],
      rm_initialPath = [], rm_updateInterval = day, rm_hash = zero_hash, rm_lastEtag = [], rm_updating = False\<rparr>"

definition ex_world :: world where
  "ex_world = \<lparr>wd_cache = Some None, wd_disk = Map.empty\<rparr>"



text \<open>
  A download that fails, for whatever reason, changes nothing of a rule-set without a path on
  disk: the rules, the ETag, the time of update and the cache stay, and matching goes on with them.
\<close>

theorem failed_download_keeps_set:
  assumes "remote_Update E B V L R now st w = (Some e, st', w')" "ss_path (rm_set st) = []"
  shows "st' = st \<and> w' = w"
proof -
  have "fetch E B V L R now st w = (Some e, st', w')"
    using assms(1) by (auto simp: remote_Update_def split: prod.splits option.splits)
  from fetch_error_rules [OF this assms(2)] show ?thesis .
qed

theorem failed_download_keeps_set_witness:
  "remote_Update example_env ex_build_env None ex_loader (ex_remote 503) 9 ex_remote_set ex_world =
     (Some (E_New ''unexpected status: status''), ex_remote_set, ex_world)"
proof -
  obtain st' w' where u: "remote_Update example_env ex_build_env None ex_loader (ex_remote 503) 9 ex_remote_set ex_world =
      (Some (E_New ''unexpected status: status''), st', w')"
    by (simp add: remote_Update_def fetch_def ex_remote_def ex_remote_set_def)
  have "ss_path (rm_set ex_remote_set) = []" by code_simp
  from failed_download_keeps_set [OF u this] u show ?thesis by simp
qed



end
