(* ===== verification/Bytes.thy ===== *)
theory Bytes
  imports SB_Prelude
begin

text \<open>
  Byte slices as the packet parsers use them: an index or a slice bound outside the slice is a
  panic, integers are read in network order.
\<close>

definition byte_at :: "byte list \<Rightarrow> nat \<Rightarrow> byte res" where
  "byte_at xs i = (if i < length xs then Inr (xs ! i) else Inl (E_Panic ''index out of range''))"

text \<open>\<open>xs[from:]\<close> and \<open>xs[from:until]\<close>.\<close>

definition slice_from :: "byte list \<Rightarrow> nat \<Rightarrow> byte list res" where
  "slice_from xs from = (if from \<le> length xs then Inr (drop from xs) else Inl (E_Panic ''slice bounds out of range''))"

definition subslice :: "byte list \<Rightarrow> nat \<Rightarrow> nat \<Rightarrow> byte list res" where
  "subslice xs from until =
     (if from \<le> until \<and> until \<le> length xs then Inr (take (until - from) (drop from xs))
      else Inl (E_Panic ''slice bounds out of range''))"

definition be16 :: "byte \<Rightarrow> byte \<Rightarrow> 16 word" where
  "be16 a b = push_bit 8 (ucast a) OR ucast b"

definition be32 :: "byte \<Rightarrow> byte \<Rightarrow> byte \<Rightarrow> byte \<Rightarrow> 32 word" where
  "be32 a b c d = push_bit 24 (ucast a) OR push_bit 16 (ucast b) OR push_bit 8 (ucast c) OR ucast d"

definition u16_at :: "byte list \<Rightarrow> nat \<Rightarrow> 16 word res" where
  "u16_at xs i = rbind (byte_at xs i) (\<lambda>a. rbind (byte_at xs (i + 1)) (\<lambda>b. Inr (be16 a b)))"

definition u32_at :: "byte list \<Rightarrow> nat \<Rightarrow> 32 word res" where
  "u32_at xs i =
     rbind (byte_at xs i) (\<lambda>a. rbind (byte_at xs (i + 1)) (\<lambda>b.
       rbind (byte_at xs (i + 2)) (\<lambda>c. rbind (byte_at xs (i + 3)) (\<lambda>d. Inr (be32 a b c d)))))"

text \<open>\<open>n\<close> 16-bit integers from offset \<open>i\<close> on.\<close>

fun u16_list :: "byte list \<Rightarrow> nat \<Rightarrow> nat \<Rightarrow> 16 word list res" where
  "u16_list xs i 0 = Inr []"
| "u16_list xs i (Suc n) = rbind (u16_at xs i) (\<lambda>w. rbind (u16_list xs (i + 2) n) (\<lambda>ws. Inr (w # ws)))"

definition string_of_bytes :: "byte list \<Rightarrow> string" where
  "string_of_bytes bs = map (\<lambda>b. char_of (unat b)) bs"

definition bytes_of_string :: "string \<Rightarrow> byte list" where
  "bytes_of_string s = map (\<lambda>c. of_nat (of_char c)) s"

section \<open>Lemmas\<close>

lemma byte_at_ok [simp]: "i < length xs \<Longrightarrow> byte_at xs i = Inr (xs ! i)"
  by (simp add: byte_at_def)

lemma slice_from_ok [simp]: "from \<le> length xs \<Longrightarrow> slice_from xs from = Inr (drop from xs)"
  by (simp add: slice_from_def)

lemma subslice_ok [simp]: "from \<le> until \<Longrightarrow> until \<le> length xs \<Longrightarrow> subslice xs from until = Inr (take (until - from) (drop from xs))"
  by (simp add: subslice_def)

lemma u16_at_ok [simp]: "Suc i < length xs \<Longrightarrow> u16_at xs i = Inr (be16 (xs ! i) (xs ! Suc i))"
  by (simp add: u16_at_def)

lemma u32_at_ok [simp]:
  "i + 3 < length xs \<Longrightarrow> u32_at xs i = Inr (be32 (xs ! i) (xs ! (i + 1)) (xs ! (i + 2)) (xs ! (i + 3)))"
  by (simp add: u32_at_def)

lemma u16_list_ok: "i + 2 * n \<le> length xs \<Longrightarrow> \<exists>ws. u16_list xs i n = Inr ws \<and> length ws = n"
proof (induction n arbitrary: i)
  case (Suc n)
  have "(i + 2) + 2 * n \<le> length xs" using Suc.prems by simp
  from Suc.IH [OF this] obtain ws where "u16_list xs (i + 2) n = Inr ws" "length ws = n" by blast
  with Suc.prems show ?case by simp
qed simp

lemma push_bit_or_disjoint16:
  "unat (push_bit 8 (ucast a :: 16 word) OR ucast b) = 256 * unat a + unat (b :: byte)" for a :: byte
proof -
  have disj: "push_bit 8 (ucast a :: 16 word) AND ucast b = 0"
  proof (rule bit_word_eqI)
    fix n
    show "bit (push_bit 8 (ucast a :: 16 word) AND ucast b) n \<longleftrightarrow> bit (0 :: 16 word) n"
      by (auto simp: bit_simps dest: bit_imp_le_length)
  qed
  have "push_bit 8 (ucast a :: 16 word) OR ucast b = push_bit 8 (ucast a) + ucast b"
    using disjunctive_add [of "push_bit 8 (ucast a :: 16 word)" "ucast b"] disj
    by (metis bit_0_eq bit_and_iff bot_apply bot_bool_def)
  moreover have a: "unat a < 256" and b: "unat b < 256"
    using unsigned_less [where ?'a = nat, of a] unsigned_less [where ?'a = nat, of b] by simp_all
  have "unat (push_bit 8 (ucast a :: 16 word)) = 256 * unat a"
    using a by (simp add: push_bit_eq_mult unat_word_ariths unsigned_ucast_eq take_bit_nat_eq_self)
  ultimately show ?thesis
    using a b by (simp add: unat_word_ariths unsigned_ucast_eq take_bit_nat_eq_self)
qed

lemma unat_be16: "unat (be16 a b) = 256 * unat a + unat b"
  by (simp add: be16_def push_bit_or_disjoint16)

end
