(* ===== verification/Ja3.thy ===== *)
theory Ja3
  imports Bytes Rule_Action_Run
begin

text \<open>
  The TLS client hello parser that QUIC sniffing uses (\<open>common/ja3\<close>). A parse error is \<open>Inl\<close>, a
  slice access out of range is a panic. \<open>parseExtensions\<close> computes the next offset in 16 bits, so its
  loop is a partial function: \<open>None\<close> would be a parse that never ends.
\<close>

section \<open>Data\<close>

record client_hello =
  ch_Version :: "16 word"
  ch_CipherSuites :: "16 word list"
  ch_Extensions :: "16 word list"
  ch_EllipticCurves :: "16 word list"
  ch_EllipticCurvePF :: "8 word list"
  ch_Versions :: "16 word list"
  ch_SignatureAlgorithms :: "16 word list"
  ch_ServerName :: string

definition empty_hello :: client_hello where
  "empty_hello =
     \<lparr>ch_Version = 0, ch_CipherSuites = [], ch_Extensions = [], ch_EllipticCurves = [],
      ch_EllipticCurvePF = [], ch_Versions = [], ch_SignatureAlgorithms = [], ch_ServerName = []\<rparr>"

text \<open>\<open>ParseError.Error\<close>.\<close>

definition LengthErr :: "nat \<Rightarrow> error" where
  "LengthErr check = E_New (''length check '' @ dec_string check @ '' failed'')"

definition VersionErr :: "nat \<Rightarrow> error" where
  "VersionErr check = E_New (''version check '' @ dec_string check @ '' failed'')"

definition GreaseBitmask :: "16 word" where
  "GreaseBitmask = 0x0F0F"

definition supported_version :: "16 word \<Rightarrow> bool" where
  "supported_version v = (v AND 0xFFFC = 0x0300 \<or> v = 0x0304)"

section \<open>Extensions\<close>

text \<open>What the loop of \<open>parseExtensions\<close> collects.\<close>

record ext_acc =
  ea_sni :: "byte list"
  ea_extensions :: "16 word list"
  ea_curves :: "16 word list"
  ea_pf :: "8 word list"
  ea_versions :: "16 word list"
  ea_algorithms :: "16 word list"

definition empty_acc :: ext_acc where
  "empty_acc = \<lparr>ea_sni = [], ea_extensions = [], ea_curves = [], ea_pf = [], ea_versions = [], ea_algorithms = []\<rparr>"

text \<open>The body of one extension, by its type.\<close>

definition ext_sni :: "byte list \<Rightarrow> ext_acc \<Rightarrow> ext_acc res" where
  "ext_sni sex acc =
     (if length sex < 5 then Inl (LengthErr 13)
      else rbind (byte_at sex 2) (\<lambda>sniType. rbind (u16_at sex 3) (\<lambda>sniLen.
        rbind (slice_from sex 5) (\<lambda>sex'.
          if length sex' \<noteq> unat sniLen then Inl (LengthErr 14)
          else if sniType = 0 then Inr (acc\<lparr>ea_sni := sex'\<rparr>)
          else Inl (E_New ''SNI type not supported'')))))"

definition ext_curves :: "byte list \<Rightarrow> ext_acc \<Rightarrow> ext_acc res" where
  "ext_curves sex acc =
     (if length sex < 2 then Inl (LengthErr 15)
      else rbind (u16_at sex 0) (\<lambda>ecsLen. rbind (slice_from sex 2) (\<lambda>sex'.
        if length sex' \<noteq> unat ecsLen then Inl (LengthErr 16)
        else rbind (u16_list sex' 0 (unat (ecsLen div 2))) (\<lambda>cs. Inr (acc\<lparr>ea_curves := cs\<rparr>)))))"

definition ext_pf :: "byte list \<Rightarrow> ext_acc \<Rightarrow> ext_acc res" where
  "ext_pf sex acc =
     (if length sex < 1 then Inl (LengthErr 17)
      else rbind (byte_at sex 0) (\<lambda>n. rbind (slice_from sex 1) (\<lambda>sex'.
        if length sex' \<noteq> unat n then Inl (LengthErr 18) else Inr (acc\<lparr>ea_pf := sex'\<rparr>))))"

definition ext_versions :: "byte list \<Rightarrow> ext_acc \<Rightarrow> ext_acc res" where
  "ext_versions sex acc =
     (if length sex < 1 then Inl (LengthErr 19)
      else rbind (byte_at sex 0) (\<lambda>n. rbind (slice_from sex 1) (\<lambda>sex'.
        if length sex' < unat n then Inl (LengthErr 21)
        else rbind (u16_list sex' 0 (unat n div 2)) (\<lambda>vs. Inr (acc\<lparr>ea_versions := ea_versions acc @ vs\<rparr>)))))"

definition ext_algorithms :: "byte list \<Rightarrow> ext_acc \<Rightarrow> ext_acc res" where
  "ext_algorithms sex acc =
     (if length sex < 2 then Inl (LengthErr 20)
      else rbind (u16_at sex 0) (\<lambda>n. rbind (slice_from sex 2) (\<lambda>sex'.
        if length sex' < unat n then Inl (LengthErr 22)
        else rbind (u16_list sex' 0 (unat n div 2)) (\<lambda>as. Inr (acc\<lparr>ea_algorithms := ea_algorithms acc @ as\<rparr>)))))"

definition ext_body :: "16 word \<Rightarrow> byte list \<Rightarrow> ext_acc \<Rightarrow> ext_acc res" where
  "ext_body exType sex acc =
     (if exType = 0 then ext_sni sex acc
      else if exType = 10 then ext_curves sex acc
      else if exType = 11 then ext_pf sex acc
      else if exType = 43 then ext_versions sex acc
      else if exType = 13 then ext_algorithms sex acc
      else Inr acc)"

text \<open>One iteration: the extension at the front, and what is left.\<close>

definition ext_step :: "byte list \<Rightarrow> ext_acc \<Rightarrow> (byte list \<times> ext_acc) res" where
  "ext_step exs acc =
     (if length exs < 4 then Inl (LengthErr 11)
      else rbind (u16_at exs 0) (\<lambda>exType. rbind (u16_at exs 2) (\<lambda>exLen.
        let acc' = acc\<lparr>ea_extensions := ea_extensions acc @ [exType]\<rparr> in
        if length exs < 4 + unat exLen then Inl (LengthErr 12)
        else rbind (subslice exs 4 (4 + unat exLen)) (\<lambda>sex.
          rbind (ext_body exType sex acc') (\<lambda>acc''.
            rbind (slice_from exs (unat (4 + exLen))) (\<lambda>exs'. Inr (exs', acc'')))))))"

partial_function (option) ext_loop :: "byte list \<Rightarrow> ext_acc \<Rightarrow> ext_acc res option" where
  "ext_loop exs acc =
     (if exs = [] then Some (Inr acc)
      else case ext_step exs acc of
        Inl e \<Rightarrow> Some (Inl e)
      | Inr (exs', acc') \<Rightarrow> ext_loop exs' acc')"

definition parseExtensions :: "byte list \<Rightarrow> client_hello \<Rightarrow> client_hello res option" where
  "parseExtensions exs j =
     (if length exs = 0 then Some (Inr j)
      else if length exs < 2 then Some (Inl (LengthErr 9))
      else case rbind (u16_at exs 0) (\<lambda>exsLen. rbind (slice_from exs 2) (\<lambda>exs'.
                  if length exs' < unat exsLen then Inl (LengthErr 10) else Inr exs')) of
        Inl e \<Rightarrow> Some (Inl e)
      | Inr exs' \<Rightarrow>
          map_option (\<lambda>r. rbind r (\<lambda>acc. Inr (j\<lparr>ch_ServerName := string_of_bytes (ea_sni acc),
            ch_Extensions := ea_extensions acc, ch_EllipticCurves := ea_curves acc,
            ch_EllipticCurvePF := ea_pf acc, ch_Versions := ea_versions acc,
            ch_SignatureAlgorithms := ea_algorithms acc\<rparr>))) (ext_loop exs' empty_acc))"

section \<open>The handshake\<close>

text \<open>Up to the extensions: the hello so far and the bytes of the extensions.\<close>

definition parse_ciphers :: "byte list \<Rightarrow> client_hello \<Rightarrow> (byte list \<times> client_hello) res" where
  "parse_ciphers cs j =
     (if length cs < 2 then Inl (LengthErr 6)
      else rbind (u16_at cs 0) (\<lambda>csLen.
        if length cs < 2 + unat csLen + 1 then Inl (LengthErr 7)
        else rbind (u16_list cs 2 (unat (csLen div 2))) (\<lambda>ciphers.
          rbind (byte_at cs (2 + unat csLen)) (\<lambda>compressMethodLen.
            if length cs < 2 + unat csLen + 1 + unat compressMethodLen then Inl (LengthErr 8)
            else rbind (slice_from cs (2 + unat csLen + 1 + unat compressMethodLen)) (\<lambda>exs.
              Inr (exs, j\<lparr>ch_CipherSuites := ciphers\<rparr>))))))"

definition parse_header :: "byte list \<Rightarrow> client_hello \<Rightarrow> (byte list \<times> client_hello) res" where
  "parse_header hs j =
     (if length hs < 6 + 32 + 1 then Inl (LengthErr 3)
      else rbind (byte_at hs 0) (\<lambda>handshType.
        if handshType \<noteq> 1 then Inl (E_New ''handshake type not matching'')
        else rbind (byte_at hs 1) (\<lambda>l1. rbind (byte_at hs 2) (\<lambda>l2. rbind (byte_at hs 3) (\<lambda>l3.
          if length hs - 4 \<noteq> unat l1 * 65536 + unat l2 * 256 + unat l3 then Inl (LengthErr 4)
          else rbind (u16_at hs 4) (\<lambda>tlsVersion.
            if \<not> supported_version tlsVersion then Inl (VersionErr 2)
            else rbind (byte_at hs 38) (\<lambda>sessionIDLen.
              if length hs < 6 + 32 + 1 + unat sessionIDLen then Inl (LengthErr 5)
              else rbind (slice_from hs (6 + 32 + 1 + unat sessionIDLen)) (\<lambda>cs.
                Inr (cs, j\<lparr>ch_Version := tlsVersion\<rparr>)))))))))"

definition parseHandshake :: "byte list \<Rightarrow> client_hello \<Rightarrow> client_hello res option" where
  "parseHandshake hs j =
     (case rbind (parse_header hs j) (\<lambda>(cs, j'). parse_ciphers cs j') of
        Inl e \<Rightarrow> Some (Inl e)
      | Inr (exs, j') \<Rightarrow> parseExtensions exs j')"

definition parseSegment :: "byte list \<Rightarrow> client_hello \<Rightarrow> client_hello res option" where
  "parseSegment segment j =
     (case (if length segment < 5 then Inl (LengthErr 1)
            else rbind (byte_at segment 0) (\<lambda>contType.
              if contType \<noteq> 22 then Inl (E_New ''content type not matching'')
              else rbind (u16_at segment 1) (\<lambda>tlsRecordVersion.
                if \<not> supported_version tlsRecordVersion then Inl (VersionErr 1)
                else rbind (u16_at segment 3) (\<lambda>segmentLen.
                  if length segment - 5 < unat segmentLen then Inl (LengthErr 2)
                  else subslice segment 5 (5 + unat segmentLen))))) of
        Inl e \<Rightarrow> Some (Inl e)
      | Inr hs \<Rightarrow> parseHandshake hs j)"

definition Compute :: "byte list \<Rightarrow> client_hello res option" where
  "Compute payload = parseSegment payload empty_hello"

section \<open>The JA3 string\<close>

text \<open>
  One list of 16-bit values: each is printed with a dash behind it, unless it is skipped, and the
  last byte written so far becomes a comma.
\<close>

definition marshal_list :: "16 word list \<Rightarrow> string \<Rightarrow> string" where
  "marshal_list vals s =
     (if vals \<noteq> [] then
        let s' = s @ concat (map (\<lambda>v. if v AND GreaseBitmask \<noteq> 0x0A0A then [] else dec_string (unat v) @ ''-'') vals)
        in butlast s' @ '',''
      else s @ '','')"

definition marshalJA3 :: "client_hello \<Rightarrow> string" where
  "marshalJA3 j =
     (let s1 = dec_string (unat (ch_Version j)) @ '','';
          s2 = marshal_list (ch_CipherSuites j) s1;
          s3 = marshal_list (ch_Extensions j) s2;
          s4 = marshal_list (ch_EllipticCurves j) s3
      in if ch_EllipticCurvePF j \<noteq> []
         then butlast (s4 @ concat (map (\<lambda>v. dec_string (unat v) @ ''-'') (ch_EllipticCurvePF j)))
         else s4)"

definition sortedExtensions :: "client_hello \<Rightarrow> 16 word list" where
  "sortedExtensions j = sort (ch_Extensions j)"

definition hello_Equals :: "client_hello \<Rightarrow> client_hello \<Rightarrow> bool \<Rightarrow> bool" where
  "hello_Equals j another ignoreExtensionsSequence =
     (if ch_Version j \<noteq> ch_Version another then False
      else if ch_CipherSuites j \<noteq> ch_CipherSuites another then False
      else if \<not> ignoreExtensionsSequence \<and> ch_Extensions j \<noteq> ch_Extensions another then False
      else if ignoreExtensionsSequence \<and> ch_Extensions j \<noteq> sortedExtensions another then False
      else if ch_EllipticCurves j \<noteq> ch_EllipticCurves another then False
      else if ch_EllipticCurvePF j \<noteq> ch_EllipticCurvePF another then False
      else if ch_SignatureAlgorithms j \<noteq> ch_SignatureAlgorithms another then False
      else True)"

section \<open>Lemmas: the parser is total\<close>

text \<open>\<open>safe r\<close>: no panic.\<close>

lemma is_panic_Inl: "is_panic (Inl e) \<longleftrightarrow> (\<exists>s. e = E_Panic s)"
  by (simp add: is_panic_def split: error.split)

lemma LengthErr_safe [simp]: "\<not> is_panic (Inl (LengthErr k))" "\<not> is_panic (Inl (VersionErr k))"
  by (simp_all add: LengthErr_def VersionErr_def)

lemma access_safe [simp]:
  "is_panic (byte_at xs i) \<longleftrightarrow> length xs \<le> i"
  "is_panic (slice_from xs i) \<longleftrightarrow> length xs < i"
  "is_panic (u16_at xs i) \<longleftrightarrow> length xs \<le> Suc i"
  by (auto simp: byte_at_def slice_from_def u16_at_def)

lemma u16_list_safe: "i + 2 * n \<le> length xs \<Longrightarrow> \<not> is_panic (u16_list xs i n)"
  using u16_list_ok [of i n xs] by auto

lemma ext_bodies_safe:
  "\<not> is_panic (ext_sni sex acc)" "\<not> is_panic (ext_curves sex acc)" "\<not> is_panic (ext_pf sex acc)"
  "\<not> is_panic (ext_versions sex acc)" "\<not> is_panic (ext_algorithms sex acc)"
  by (auto simp: ext_sni_def ext_curves_def ext_pf_def ext_versions_def ext_algorithms_def is_panic_rbind
      unat_div intro!: u16_list_safe)

lemma ext_body_safe: "\<not> is_panic (ext_body t sex acc)"
  by (simp add: ext_body_def ext_bodies_safe)

lemma unat_step:
  assumes "4 + unat (w :: 16 word) < 65536"
  shows "unat (4 + w) = 4 + unat w"
  using assms by (simp add: unat_word_ariths)

lemma ext_step_progress:
  assumes "length exs < 65536"
  shows "\<not> is_panic (ext_step exs acc)"
    "ext_step exs acc = Inr (exs', acc') \<Longrightarrow> length exs' < length exs"
proof -
  have step: "unat (4 + be16 a b) = 4 + unat (be16 a b)" if "\<not> length exs < 4 + unat (be16 a b)" for a b
    by (rule unat_step) (use that assms in linarith)
  show "\<not> is_panic (ext_step exs acc)"
    by (auto simp: ext_step_def is_panic_rbind Let_def ext_body_safe step)
  show "ext_step exs acc = Inr (exs', acc') \<Longrightarrow> length exs' < length exs"
    by (auto simp: ext_step_def Let_def step split: if_splits)
qed

lemma ext_loop_total: "length exs < 65536 \<Longrightarrow> \<exists>r. ext_loop exs acc = Some r \<and> \<not> is_panic r"
proof (induction "length exs" arbitrary: exs acc rule: less_induct)
  case less
  show ?case
  proof (cases "exs = []")
    case False
    note progress = ext_step_progress [OF less.prems, of acc]
    show ?thesis
    proof (cases "ext_step exs acc")
      case (Inl e)
      with False progress(1) show ?thesis by (simp add: ext_loop.simps [of exs] is_panic_Inl)
    next
      case (Inr p)
      obtain exs' acc' where p: "p = (exs', acc')" by (cases p)
      from progress(2) [of exs' acc'] Inr p have "length exs' < length exs" by simp
      with less.hyps [of exs' acc'] less.prems False Inr p show ?thesis
        by (simp add: ext_loop.simps [of exs])
    qed
  qed (simp add: ext_loop.simps)
qed

lemma parseExtensions_total:
  assumes "length exs < 65536"
  shows "\<exists>r. parseExtensions exs j = Some r \<and> \<not> is_panic r"
proof -
  have "length (drop 2 exs) < 65536" using assms by simp
  from ext_loop_total [OF this, of empty_acc] show ?thesis
    by (auto simp: parseExtensions_def is_panic_rbind)
qed

lemma parse_ciphers_safe:
  "\<not> is_panic (parse_ciphers cs j)" "parse_ciphers cs j = Inr (exs, j') \<Longrightarrow> length exs \<le> length cs"
  by (auto simp: parse_ciphers_def is_panic_rbind unat_div intro!: u16_list_safe split: if_splits)

lemma parse_header_safe:
  "\<not> is_panic (parse_header hs j)" "parse_header hs j = Inr (cs, j') \<Longrightarrow> length cs \<le> length hs"
  by (auto simp: parse_header_def is_panic_rbind split: if_splits)

lemma parseHandshake_total:
  assumes "length hs < 65536"
  shows "\<exists>r. parseHandshake hs j = Some r \<and> \<not> is_panic r"
proof (cases "rbind (parse_header hs j) (\<lambda>(cs, j'). parse_ciphers cs j')")
  case (Inl e)
  have "\<not> is_panic (rbind (parse_header hs j) (\<lambda>(cs, j'). parse_ciphers cs j'))"
    by (auto simp: is_panic_rbind parse_header_safe parse_ciphers_safe)
  with Inl show ?thesis by (simp add: parseHandshake_def is_panic_Inl del: rbind_eq_Inr)
next
  case (Inr p)
  obtain exs j' where p: "p = (exs, j')" by (cases p)
  with Inr have "length exs \<le> length hs"
    by (auto dest!: parse_header_safe(2) parse_ciphers_safe(2))
  with parseExtensions_total [of exs j'] assms have "\<exists>r. parseExtensions exs j' = Some r \<and> \<not> is_panic r" by simp
  then show ?thesis
    unfolding parseHandshake_def Inr p by simp
qed

lemma Compute_total: "\<exists>r. Compute payload = Some r \<and> \<not> is_panic r"
proof -
  have "\<exists>r. parseHandshake (take (unat (w :: 16 word)) (drop 5 payload)) empty_hello = Some r \<and> \<not> is_panic r" for w
  proof (rule parseHandshake_total)
    have "unat w < 65536" using unsigned_less [where ?'a = nat, of w] by simp
    then show "length (take (unat w) (drop 5 payload)) < 65536" by simp
  qed
  moreover have "byte_at payload 0 = Inr (payload ! 0)" "u16_at payload 1 = Inr (be16 (payload ! 1) (payload ! 2))"
    "u16_at payload 3 = Inr (be16 (payload ! 3) (payload ! 4))" if "\<not> length payload < 5"
    using that by (cases payload; simp add: numeral_eq_Suc)+
  ultimately show ?thesis
    by (cases "length payload < 5") (auto simp: Compute_def parseSegment_def is_panic_Inl LengthErr_def VersionErr_def)
qed

end
