(* ===== verification/Ja3_Props.thy ===== *)
theory Ja3_Props
  imports Ja3
begin

text \<open>
  Properties of the client hello parser: it always ends without a panic, it reads every well-formed
  client hello (a reference encoder gives the grammar), and what its fingerprint text depends on.
\<close>

section \<open>Well-formed hellos\<close>

definition u16_bytes :: "16 word \<Rightarrow> byte list" where
  "u16_bytes w = [ucast (drop_bit 8 w), ucast w]"

datatype hello_ext =
    ServerNameExt "byte list"
  | CurvesExt "16 word list"
  | PointFormatsExt "8 word list"
  | VersionsExt "16 word list"
  | AlgorithmsExt "16 word list"
  | OtherExt "16 word" "byte list"

fun ext_type :: "hello_ext \<Rightarrow> 16 word" where
  "ext_type (ServerNameExt _) = 0"
| "ext_type (CurvesExt _) = 10"
| "ext_type (PointFormatsExt _) = 11"
| "ext_type (VersionsExt _) = 43"
| "ext_type (AlgorithmsExt _) = 13"
| "ext_type (OtherExt t _) = t"

definition u16s_bytes :: "16 word list \<Rightarrow> byte list" where
  "u16s_bytes ws = concat (map u16_bytes ws)"

fun ext_content :: "hello_ext \<Rightarrow> byte list" where
  "ext_content (ServerNameExt name) =
     u16_bytes (of_nat (length name + 3)) @ [0] @ u16_bytes (of_nat (length name)) @ name"
| "ext_content (CurvesExt ws) = u16_bytes (of_nat (2 * length ws)) @ u16s_bytes ws"
| "ext_content (PointFormatsExt bs) = of_nat (length bs) # bs"
| "ext_content (VersionsExt ws) = of_nat (2 * length ws) # u16s_bytes ws"
| "ext_content (AlgorithmsExt ws) = u16_bytes (of_nat (2 * length ws)) @ u16s_bytes ws"
| "ext_content (OtherExt t bs) = bs"

definition ext_bytes :: "hello_ext \<Rightarrow> byte list" where
  "ext_bytes e = u16_bytes (ext_type e) @ u16_bytes (of_nat (length (ext_content e))) @ ext_content e"

text \<open>The lengths fit their fields, and an extension of another type has another type.\<close>

fun ext_fits :: "hello_ext \<Rightarrow> bool" where
  "ext_fits (PointFormatsExt bs) = (length bs < 256)"
| "ext_fits (VersionsExt ws) = (2 * length ws < 256)"
| "ext_fits (OtherExt t bs) = (t \<notin> {0, 10, 11, 43, 13})"
| "ext_fits _ = True"

fun apply_ext :: "hello_ext \<Rightarrow> ext_acc \<Rightarrow> ext_acc" where
  "apply_ext (ServerNameExt name) acc = acc\<lparr>ea_sni := name\<rparr>"
| "apply_ext (CurvesExt ws) acc = acc\<lparr>ea_curves := ws\<rparr>"
| "apply_ext (PointFormatsExt bs) acc = acc\<lparr>ea_pf := bs\<rparr>"
| "apply_ext (VersionsExt ws) acc = acc\<lparr>ea_versions := ea_versions acc @ ws\<rparr>"
| "apply_ext (AlgorithmsExt ws) acc = acc\<lparr>ea_algorithms := ea_algorithms acc @ ws\<rparr>"
| "apply_ext (OtherExt t bs) acc = acc"

section \<open>Lemmas: reading what was written\<close>

lemma be16_u16_bytes [simp]: "be16 (ucast (drop_bit 8 w)) (ucast w) = w"
proof (rule bit_word_eqI)
  fix n assume "n < LENGTH(16)"
  then show "bit (be16 (ucast (drop_bit 8 w)) (ucast w)) n \<longleftrightarrow> bit w n"
    by (cases "n < 8") (auto simp: be16_def bit_simps)
qed

lemma length_u16_bytes [simp]: "length (u16_bytes w) = 2"
  by (simp add: u16_bytes_def)

lemma length_u16s_bytes [simp]: "length (u16s_bytes ws) = 2 * length ws"
  by (induction ws) (auto simp: u16s_bytes_def)

lemma u16_at_u16_bytes [simp]: "u16_at (u16_bytes w @ rest) 0 = Inr w"
  by (simp add: u16_at_def u16_bytes_def)

lemma u16_at_append: "length xs = i \<Longrightarrow> u16_at (xs @ u16_bytes w @ rest) i = Inr w"
  by (simp add: u16_at_def u16_bytes_def nth_append)

lemma u16_list_u16s_bytes:
  "length xs = i \<Longrightarrow> u16_list (xs @ u16s_bytes ws @ rest) i (length ws) = Inr ws"
proof (induction ws arbitrary: xs i)
  case (Cons w ws)
  have "u16_list ((xs @ u16_bytes w) @ u16s_bytes ws @ rest) (i + 2) (length ws) = Inr ws"
    using Cons.prems by (intro Cons.IH) simp
  moreover have "u16_at (xs @ u16_bytes w @ u16s_bytes ws @ rest) i = Inr w"
    by (rule u16_at_append) (rule Cons.prems)
  ultimately show ?case by (simp add: u16s_bytes_def)
qed simp

lemmas u16_list_all = u16_list_u16s_bytes [of "[]" 0 _ "[]", simplified]

lemma unat_of_nat16: "n < 65536 \<Longrightarrow> unat (of_nat n :: 16 word) = n"
  by (simp add: unat_of_nat)

lemma unat_of_nat8: "n < 256 \<Longrightarrow> unat (of_nat n :: byte) = n"
  by (simp add: unat_of_nat)

lemma ext_body_content:
  assumes "ext_fits e" "length (ext_content e) < 65536"
  shows "ext_body (ext_type e) (ext_content e) acc = Inr (apply_ext e acc)"
proof (cases e)
  case (ServerNameExt name)
  with assms have len: "length name < 65536" by simp
  have "byte_at (ext_content e) 2 = Inr 0"
    unfolding ServerNameExt by (simp add: byte_at_def u16_bytes_def)
  moreover have "u16_at (ext_content e) 3 = Inr (of_nat (length name))"
    unfolding ServerNameExt
    using u16_at_append [of "u16_bytes (of_nat (length name + 3)) @ [0]" 3 "of_nat (length name)" name] by simp
  ultimately show ?thesis
    using len unfolding ServerNameExt by (simp add: ext_body_def ext_sni_def unat_of_nat16)
next
  case (CurvesExt ws)
  with assms show ?thesis
    by (simp add: ext_body_def ext_curves_def unat_of_nat16 unat_div u16_list_all del: of_nat_mult)
next
  case (PointFormatsExt bs)
  with assms show ?thesis
    by (simp add: ext_body_def ext_pf_def unat_of_nat8 byte_at_def slice_from_def)
next
  case (VersionsExt ws)
  with assms show ?thesis
    by (simp add: ext_body_def ext_versions_def unat_of_nat8 byte_at_def slice_from_def u16_list_all del: of_nat_mult)
next
  case (AlgorithmsExt ws)
  with assms show ?thesis
    by (simp add: ext_body_def ext_algorithms_def unat_of_nat16 u16_list_all del: of_nat_mult)
next
  case (OtherExt t bs)
  with assms show ?thesis by (simp add: ext_body_def)
qed

lemma ext_step_bytes:
  assumes "ext_fits e" "length (ext_bytes e @ rest) < 65536"
  shows "ext_step (ext_bytes e @ rest) acc =
    Inr (rest, apply_ext e (acc\<lparr>ea_extensions := ea_extensions acc @ [ext_type e]\<rparr>))"
proof -
  let ?c = "ext_content e"
  have len: "length ?c + 4 < 65536" using assms(2) by (simp add: ext_bytes_def)
  then have n: "unat (of_nat (length ?c) :: 16 word) = length ?c" "unat (4 + of_nat (length ?c) :: 16 word) = 4 + length ?c"
    using unat_step [of "of_nat (length ?c)"] by (simp_all add: unat_of_nat16)
  have "u16_at (ext_bytes e @ rest) 2 = Inr (of_nat (length ?c))"
    using u16_at_append [of "u16_bytes (ext_type e)" 2 "of_nat (length ?c)" "?c @ rest"] by (simp add: ext_bytes_def)
  moreover have "u16_at (ext_bytes e @ rest) 0 = Inr (ext_type e)"
    by (simp add: ext_bytes_def)
  moreover have "subslice (ext_bytes e @ rest) 4 (4 + length ?c) = Inr ?c"
    by (simp add: subslice_def ext_bytes_def)
  moreover have "slice_from (ext_bytes e @ rest) (4 + length ?c) = Inr rest"
    by (simp add: slice_from_def ext_bytes_def)
  moreover have "ext_body (ext_type e) ?c acc' = Inr (apply_ext e acc')" for acc'
    using ext_body_content [OF assms(1)] len by simp
  ultimately show ?thesis
    by (simp add: ext_step_def Let_def n) (simp add: ext_bytes_def)
qed

lemma ext_loop_bytes:
  "list_all ext_fits es \<Longrightarrow> length (concat (map ext_bytes es)) < 65536 \<Longrightarrow>
   ext_loop (concat (map ext_bytes es)) acc =
     Some (Inr (fold (\<lambda>e a. apply_ext e (a\<lparr>ea_extensions := ea_extensions a @ [ext_type e]\<rparr>)) es acc))"
proof (induction es arbitrary: acc)
  case Nil
  then show ?case by (simp add: ext_loop.simps)
next
  case (Cons e es)
  let ?rest = "concat (map ext_bytes es)"
  have "ext_step (ext_bytes e @ ?rest) acc =
      Inr (?rest, apply_ext e (acc\<lparr>ea_extensions := ea_extensions acc @ [ext_type e]\<rparr>))"
    using Cons.prems by (intro ext_step_bytes) simp_all
  moreover have "ext_bytes e \<noteq> []" by (simp add: ext_bytes_def u16_bytes_def)
  ultimately show ?case
    using Cons.IH Cons.prems by (simp add: ext_loop.simps [of "ext_bytes e @ ?rest"])
qed

section \<open>Whole records\<close>

record hello_spec =
  hs_version :: "16 word"
  hs_random :: "byte list"
  hs_session :: "byte list"
  hs_ciphers :: "16 word list"
  hs_compression :: "byte list"
  hs_exts :: "hello_ext list"

definition spec_exts_bytes :: "hello_spec \<Rightarrow> byte list" where
  "spec_exts_bytes h =
     (let exs = concat (map ext_bytes (hs_exts h))
      in if exs = [] then [] else u16_bytes (of_nat (length exs)) @ exs)"

definition spec_ciphers_bytes :: "hello_spec \<Rightarrow> byte list" where
  "spec_ciphers_bytes h =
     u16_bytes (of_nat (2 * length (hs_ciphers h))) @ u16s_bytes (hs_ciphers h) @
     of_nat (length (hs_compression h)) # hs_compression h @ spec_exts_bytes h"

definition spec_body :: "hello_spec \<Rightarrow> byte list" where
  "spec_body h = u16_bytes (hs_version h) @ hs_random h @ of_nat (length (hs_session h)) # hs_session h @ spec_ciphers_bytes h"

definition spec_handshake :: "hello_spec \<Rightarrow> byte list" where
  "spec_handshake h =
     [1, of_nat (length (spec_body h) div 65536), of_nat (length (spec_body h) div 256 mod 256),
      of_nat (length (spec_body h) mod 256)] @ spec_body h"

definition spec_record :: "hello_spec \<Rightarrow> byte list" where
  "spec_record h = [22] @ u16_bytes 0x0301 @ u16_bytes (of_nat (length (spec_handshake h))) @ spec_handshake h"

definition spec_ok :: "hello_spec \<Rightarrow> bool" where
  "spec_ok h \<longleftrightarrow>
     supported_version (hs_version h) \<and> length (hs_random h) = 32 \<and> length (hs_session h) < 256 \<and>
     length (hs_compression h) < 256 \<and> list_all ext_fits (hs_exts h) \<and> length (spec_handshake h) < 65536"

definition spec_hello :: "hello_spec \<Rightarrow> client_hello" where
  "spec_hello h =
     (let acc = fold apply_ext (hs_exts h) empty_acc
      in \<lparr>ch_Version = hs_version h, ch_CipherSuites = hs_ciphers h, ch_Extensions = map ext_type (hs_exts h),
          ch_EllipticCurves = ea_curves acc, ch_EllipticCurvePF = ea_pf acc, ch_Versions = ea_versions acc,
          ch_SignatureAlgorithms = ea_algorithms acc, ch_ServerName = string_of_bytes (ea_sni acc)\<rparr>)"

lemma apply_ext_extensions: "apply_ext e (a\<lparr>ea_extensions := x\<rparr>) = (apply_ext e a)\<lparr>ea_extensions := x\<rparr>"
  by (cases e) simp_all

lemma fold_apply_ext_extensions:
  "fold apply_ext es (a\<lparr>ea_extensions := x\<rparr>) = (fold apply_ext es a)\<lparr>ea_extensions := x\<rparr>"
  by (induction es arbitrary: a) (simp_all add: apply_ext_extensions)

lemma fold_apply_ext:
  "fold (\<lambda>e a. apply_ext e (a\<lparr>ea_extensions := ea_extensions a @ [ext_type e]\<rparr>)) es acc =
   (fold apply_ext es acc)\<lparr>ea_extensions := ea_extensions acc @ map ext_type es\<rparr>"
proof (induction es arbitrary: acc)
  case Nil
  then show ?case by simp
next
  case (Cons e es)
  then show ?case by (simp add: apply_ext_extensions fold_apply_ext_extensions)
qed

lemma parseExtensions_spec:
  assumes "list_all ext_fits (hs_exts h)" "length (spec_exts_bytes h) < 65536"
  shows "parseExtensions (spec_exts_bytes h) j =
    Some (Inr (let acc = fold apply_ext (hs_exts h) empty_acc in
      j\<lparr>ch_ServerName := string_of_bytes (ea_sni acc), ch_Extensions := map ext_type (hs_exts h),
        ch_EllipticCurves := ea_curves acc, ch_EllipticCurvePF := ea_pf acc, ch_Versions := ea_versions acc,
        ch_SignatureAlgorithms := ea_algorithms acc\<rparr>)) \<or> hs_exts h = []"
proof (cases "hs_exts h")
  case (Cons e es)
  let ?exs = "concat (map ext_bytes (hs_exts h))"
  have ne: "?exs \<noteq> []" by (simp add: Cons ext_bytes_def u16_bytes_def)
  then have b: "spec_exts_bytes h = u16_bytes (of_nat (length ?exs)) @ ?exs"
    by (simp only: spec_exts_bytes_def Let_def if_False)
  then have len: "length ?exs < 65536" using assms(2) by (simp only: length_append length_u16_bytes)
  have "u16_at (spec_exts_bytes h) 0 = Inr (of_nat (length ?exs))"
    "slice_from (spec_exts_bytes h) 2 = Inr ?exs"
    by (simp_all only: b u16_at_u16_bytes) (simp add: slice_from_def)
  moreover have "unat (of_nat (length ?exs) :: 16 word) = length ?exs"
    by (rule unat_of_nat16 [OF len])
  moreover have "ext_loop ?exs empty_acc =
      Some (Inr ((fold apply_ext (hs_exts h) empty_acc)\<lparr>ea_extensions := map ext_type (hs_exts h)\<rparr>))"
    using ext_loop_bytes [OF assms(1) len, of empty_acc] by (simp add: fold_apply_ext empty_acc_def)
  moreover have "length (spec_exts_bytes h) \<noteq> 0" "\<not> length (spec_exts_bytes h) < 2"
    by (simp_all only: b) simp_all
  ultimately show ?thesis
    by (simp add: parseExtensions_def Let_def)
qed simp

lemma parseExtensions_spec':
  assumes "list_all ext_fits (hs_exts h)" "length (spec_exts_bytes h) < 65536"
  shows "parseExtensions (spec_exts_bytes h)
      (empty_hello\<lparr>ch_Version := hs_version h, ch_CipherSuites := hs_ciphers h\<rparr>) = Some (Inr (spec_hello h))"
proof (cases "hs_exts h = []")
  case True
  then show ?thesis
    by (simp add: spec_exts_bytes_def parseExtensions_def spec_hello_def Let_def empty_hello_def empty_acc_def
        string_of_bytes_def)
next
  case False
  with parseExtensions_spec [OF assms, of "empty_hello\<lparr>ch_Version := hs_version h, ch_CipherSuites := hs_ciphers h\<rparr>"]
  show ?thesis by (simp add: spec_hello_def Let_def empty_hello_def)
qed

lemma parse_ciphers_spec:
  assumes "2 * length (hs_ciphers h) < 65536" "length (hs_compression h) < 256"
  shows "parse_ciphers (spec_ciphers_bytes h) j = Inr (spec_exts_bytes h, j\<lparr>ch_CipherSuites := hs_ciphers h\<rparr>)"
proof -
  let ?n = "2 * length (hs_ciphers h)"
  let ?cs = "spec_ciphers_bytes h"
  have n: "unat (of_nat ?n :: 16 word) = ?n" "unat ((of_nat ?n :: 16 word) div 2) = length (hs_ciphers h)"
    using unat_of_nat16 [OF assms(1)] by (simp_all add: unat_div del: of_nat_mult)
  have "u16_at ?cs 0 = Inr (of_nat ?n)"
    by (simp add: spec_ciphers_bytes_def del: of_nat_mult)
  moreover have "u16_list ?cs 2 (length (hs_ciphers h)) = Inr (hs_ciphers h)"
    unfolding spec_ciphers_bytes_def by (rule u16_list_u16s_bytes) simp
  moreover have "byte_at ?cs (2 + ?n) = Inr (of_nat (length (hs_compression h)))"
    by (simp add: byte_at_def spec_ciphers_bytes_def nth_append)
  moreover have "unat (of_nat (length (hs_compression h)) :: byte) = length (hs_compression h)"
    by (rule unat_of_nat8 [OF assms(2)])
  moreover have "slice_from ?cs (2 + ?n + 1 + length (hs_compression h)) = Inr (spec_exts_bytes h)"
    by (simp add: slice_from_def spec_ciphers_bytes_def)
  moreover have "length ?cs = 2 + ?n + 1 + length (hs_compression h) + length (spec_exts_bytes h)"
    by (simp add: spec_ciphers_bytes_def)
  ultimately show ?thesis
    by (simp add: parse_ciphers_def n del: of_nat_mult)
qed

lemma parse_header_spec:
  assumes "spec_ok h"
  shows "parse_header (spec_handshake h) j = Inr (spec_ciphers_bytes h, j\<lparr>ch_Version := hs_version h\<rparr>)"
proof -
  let ?hs = "spec_handshake h" and ?n = "length (spec_body h)"
  have ok: "length (hs_random h) = 32" "length (hs_session h) < 256" "supported_version (hs_version h)" "?n < 65536"
    using assms by (auto simp: spec_ok_def spec_handshake_def)
  have digits: "unat (of_nat (?n div 65536) :: byte) = 0" "unat (of_nat (?n div 256 mod 256) :: byte) = ?n div 256"
    "unat (of_nat (?n mod 256) :: byte) = ?n mod 256"
    using ok(4) by (simp_all add: unat_of_nat)
  have body: "?n = 35 + length (hs_session h) + length (spec_ciphers_bytes h)"
    using ok(1) by (simp add: spec_body_def)
  have "byte_at ?hs 0 = Inr 1" "byte_at ?hs 1 = Inr (of_nat (?n div 65536))"
    "byte_at ?hs 2 = Inr (of_nat (?n div 256 mod 256))" "byte_at ?hs 3 = Inr (of_nat (?n mod 256))"
    by (simp_all add: byte_at_def spec_handshake_def)
  moreover have "u16_at ?hs 4 = Inr (hs_version h)"
    unfolding spec_handshake_def spec_body_def
    using u16_at_append [of "[1, of_nat (?n div 65536), of_nat (?n div 256 mod 256), of_nat (?n mod 256)]" 4 "hs_version h"
        "hs_random h @ of_nat (length (hs_session h)) # hs_session h @ spec_ciphers_bytes h"]
    by (simp add: spec_body_def)
  moreover have "byte_at ?hs 38 = Inr (of_nat (length (hs_session h)))"
    using ok(1) by (simp add: byte_at_def spec_handshake_def spec_body_def nth_append u16_bytes_def)
  moreover have "slice_from ?hs (6 + 32 + 1 + length (hs_session h)) = Inr (spec_ciphers_bytes h)"
  proof -
    let ?pre = "[1, of_nat (?n div 65536), of_nat (?n div 256 mod 256), of_nat (?n mod 256)] @
      u16_bytes (hs_version h) @ hs_random h @ of_nat (length (hs_session h)) # hs_session h"
    have "?hs = ?pre @ spec_ciphers_bytes h" "length ?pre = 6 + 32 + 1 + length (hs_session h)"
      using ok(1) by (simp_all add: spec_handshake_def spec_body_def)
    then show ?thesis by (metis append_eq_conv_conj length_append le_add1 slice_from_ok)
  qed
  moreover have "length ?hs = 4 + ?n" by (simp add: spec_handshake_def)
  ultimately show ?thesis
    using ok(3) body unat_of_nat8 [OF ok(2)] digits by (simp add: parse_header_def)
qed

lemma Compute_record:
  assumes "spec_ok h" "supported_version v"
  shows "Compute ([22] @ u16_bytes v @ u16_bytes (of_nat (length (spec_handshake h))) @ spec_handshake h) =
    Some (Inr (spec_hello h))"
proof -
  let ?hs = "spec_handshake h" and ?rec = "[22] @ u16_bytes v @ u16_bytes (of_nat (length (spec_handshake h))) @ spec_handshake h"
  have len: "length ?hs < 65536" using assms by (simp add: spec_ok_def)
  have parts: "length (spec_exts_bytes h) \<le> length ?hs" "2 * length (hs_ciphers h) \<le> length ?hs"
    by (simp_all add: spec_handshake_def spec_body_def spec_ciphers_bytes_def)
  have "parseHandshake ?hs empty_hello = Some (Inr (spec_hello h))"
    using parse_header_spec [OF assms(1), of empty_hello]
      parse_ciphers_spec [of h "empty_hello\<lparr>ch_Version := hs_version h\<rparr>"] parseExtensions_spec' [of h] assms(1) parts len
    by (simp add: parseHandshake_def spec_ok_def)
  moreover have "byte_at ?rec 0 = Inr 22" "u16_at ?rec 1 = Inr v" "u16_at ?rec 3 = Inr (of_nat (length ?hs))"
    using u16_at_append [of "[22]" 1 v "u16_bytes (of_nat (length ?hs)) @ ?hs"]
      u16_at_append [of "[22] @ u16_bytes v" 3 "of_nat (length ?hs)" ?hs]
    by (simp_all add: byte_at_def)
  moreover have "subslice ?rec 5 (5 + length ?hs) = Inr ?hs" "length ?rec = 5 + length ?hs"
    by (simp_all add: subslice_def u16_bytes_def)
  ultimately show ?thesis
    using unat_of_nat16 [OF len] assms(2) by (simp add: Compute_def parseSegment_def)
qed

lemma Compute_spec:
  assumes "spec_ok h"
  shows "Compute (spec_record h) = Some (Inr (spec_hello h))"
  unfolding spec_record_def by (rule Compute_record [OF assms]) (simp add: supported_version_def)

section \<open>Properties\<close>

text \<open>
  C33. Parsing ends for every payload and never panics: the 16-bit offset of the extension loop does
  not wrap, since a handshake is shorter than 64 KiB.
\<close>

theorem client_hello_parse_total: "\<exists>r. Compute payload = Some r \<and> \<not> is_panic r"
  by (rule Compute_total)

text \<open>
  C34. Every well-formed client hello record parses, to exactly the version, cipher suites,
  extensions, curves, point formats, versions, signature algorithms and server name it was written
  from.
\<close>

theorem client_hello_roundtrip:
  assumes "spec_ok h"
  shows "Compute (spec_record h) = Some (Inr (spec_hello h))"
  using Compute_spec [OF assms] .

definition ex_hello :: hello_spec where
  "ex_hello = \<lparr>hs_version = 0x0303, hs_random = replicate 32 7, hs_session = [], hs_ciphers = [0x1301, 0x1302],
     hs_compression = [0], hs_exts = [OtherExt 0x0A0A [], ServerNameExt (bytes_of_string ''a.example''), VersionsExt [0x0304]]\<rparr>"

theorem client_hello_roundtrip_witness:
  "\<exists>j. Compute (spec_record ex_hello) = Some (Inr j) \<and> ch_ServerName j = ''a.example'' \<and> ch_Versions j = [0x0304]"
proof -
  have "spec_ok ex_hello"
    by (simp add: spec_ok_def ex_hello_def supported_version_def spec_handshake_def spec_body_def spec_ciphers_bytes_def
        spec_exts_bytes_def ext_bytes_def Let_def bytes_of_string_def)
  from client_hello_roundtrip [OF this] show ?thesis
    by (simp add: spec_hello_def ex_hello_def empty_acc_def string_of_bytes_def bytes_of_string_def Let_def char_of_def bit_0)
qed

text \<open>
  C35. The fingerprint text keeps only the GREASE values, which a JA3 fingerprint leaves out: hellos
  with no GREASE value that agree in which lists are empty have the same text up to the version and
  the point formats, whatever their cipher suites, extensions and curves are.
\<close>

theorem fingerprint_ignores_values:
  assumes "\<forall>v\<in>set (ch_CipherSuites j @ ch_Extensions j @ ch_EllipticCurves j). v AND GreaseBitmask \<noteq> 0x0A0A"
    "\<forall>v\<in>set (ch_CipherSuites k @ ch_Extensions k @ ch_EllipticCurves k). v AND GreaseBitmask \<noteq> 0x0A0A"
    "ch_CipherSuites j = [] \<longleftrightarrow> ch_CipherSuites k = []" "ch_Extensions j = [] \<longleftrightarrow> ch_Extensions k = []"
    "ch_EllipticCurves j = [] \<longleftrightarrow> ch_EllipticCurves k = []"
    "ch_Version j = ch_Version k" "ch_EllipticCurvePF j = ch_EllipticCurvePF k"
  shows "marshalJA3 j = marshalJA3 k"
proof -
  have skip: "marshal_list vs s = (if vs \<noteq> [] then butlast s @ '','' else s @ '','')"
    if "\<forall>v\<in>set vs. v AND GreaseBitmask \<noteq> 0x0A0A" for vs s
  proof -
    have "concat (map (\<lambda>v. if v AND GreaseBitmask \<noteq> 0x0A0A then [] else dec_string (unat v) @ ''-'') vs) = []"
      using that by simp
    then show ?thesis by (simp only: marshal_list_def Let_def append_Nil2)
  qed
  show ?thesis
    using assms by (simp add: marshalJA3_def skip Let_def)
qed

theorem fingerprint_ignores_values_witness:
  "marshalJA3 (empty_hello\<lparr>ch_CipherSuites := [0x1301]\<rparr>) = marshalJA3 (empty_hello\<lparr>ch_CipherSuites := [0xC02F, 0x1302]\<rparr>)"
  by (rule fingerprint_ignores_values) (simp_all add: empty_hello_def GreaseBitmask_def)

end
