(* ===== verification/Sniff.thy ===== *)
theory Sniff
  imports Rule_Action Bytes Ja3
begin

text \<open>
  Protocol sniffing (\<open>common/sniff\<close>): the packet and stream sniffers and the functions that try them
  in turn. A sniffer answers an error, or \<open>None\<close> for a match, and the metadata it changed; \<open>Inl\<close> is a
  panic. The DNS, TLS and HTTP libraries are arguments (\<open>sniff_env\<close>). A stream reader is the list
  of the buffers it joins, since a plain \<open>Read\<close> stops at the end of a buffer.
\<close>

section \<open>The libraries\<close>

datatype tls_result = TlsHello string | TlsUnexpectedEOF | TlsFailed error

datatype http_request = HttpHost string | HttpUnexpectedEOF | HttpBad error

record sniff_env =
  mDNS_UnpackDomainName :: "byte list \<Rightarrow> nat \<Rightarrow> nat option"
  mDNS_UnpackRR :: "byte list \<Rightarrow> nat \<Rightarrow> nat option"
  tls_Handshake :: "byte list \<Rightarrow> tls_result"
  http_ReadRequest :: "byte list \<Rightarrow> http_request"
  ParseSocksaddr_Fqdn :: "string \<Rightarrow> string"
  hkdf_Extract :: "byte list \<Rightarrow> byte list \<Rightarrow> byte list"
  hkdf_Expand :: "byte list \<Rightarrow> byte list \<Rightarrow> nat \<Rightarrow> byte list"
  aes_Encrypt :: "byte list \<Rightarrow> byte list \<Rightarrow> byte list"
  gcm_Open :: "byte list \<Rightarrow> byte list \<Rightarrow> byte list \<Rightarrow> byte list \<Rightarrow> byte list option"

type_synonym sniff_result = "(sniff_error option \<times> inbound_context) res"

definition found :: "string \<Rightarrow> inbound_context \<Rightarrow> sniff_result" where
  "found protocol m = Inr (None, m\<lparr>m_Protocol := protocol\<rparr>)"

definition failed :: "sniff_error \<Rightarrow> inbound_context \<Rightarrow> sniff_result" where
  "failed e m = Inr (Some e, m)"

definition io_EOF :: sniff_error where
  "io_EOF = SniffFailed (E_Ext ''EOF'')"

definition Skip :: "inbound_context \<Rightarrow> bool" where
  "Skip m = List.member [25, 465, 587, 143, 993, 110, 995] (sa_Port (m_Destination m))"

section \<open>Packet sniffers\<close>

definition STUNMessage_sniff :: "inbound_context \<Rightarrow> byte list \<Rightarrow> sniff_result" where
  "STUNMessage_sniff m packet =
     (if length packet < 20 then failed ErrInvalid m
      else rbind (u32_at packet 4) (\<lambda>magic.
        if magic \<noteq> 0x2112A442 then failed ErrInvalid m
        else rbind (u16_at packet 2) (\<lambda>len.
          if length packet < 20 + unat len then failed ErrInvalid m else found ''stun'' m)))"

text \<open>The extension loop of \<open>UTP\<close>; the reader may be moved past its end.\<close>

function utp_extensions :: "byte \<Rightarrow> byte list \<Rightarrow> sniff_error option" where
  "utp_extensions extension rest =
     (if extension = 0 then None
      else case rest of
        [] \<Rightarrow> Some io_EOF
      | e # rest1 \<Rightarrow>
          if e > 4 then Some ErrInvalid
          else case rest1 of
            [] \<Rightarrow> Some io_EOF
          | len # rest2 \<Rightarrow> utp_extensions e (drop (unat len) rest2))"
  by pat_completeness auto
termination
  by (relation "measure (\<lambda>(e, rest). length rest)") auto

definition UTP_sniff :: "inbound_context \<Rightarrow> byte list \<Rightarrow> sniff_result" where
  "UTP_sniff m packet =
     (if length packet < 20 then failed ErrInvalid m
      else rbind (byte_at packet 0) (\<lambda>first.
        let version = first AND 0x0F; ty = drop_bit 4 first in
        if version \<noteq> 1 \<or> ty > 4 then failed ErrInvalid m
        else rbind (byte_at packet 1) (\<lambda>extension. rbind (slice_from packet 20) (\<lambda>rest.
          case utp_extensions extension rest of
            Some e \<Rightarrow> failed e m | None \<Rightarrow> found ''bittorrent'' m))))"

definition UDPTracker_sniff :: "inbound_context \<Rightarrow> byte list \<Rightarrow> sniff_result" where
  "UDPTracker_sniff m packet =
     (if length packet < 16 then failed ErrInvalid m
      else rbind (u32_at packet 0) (\<lambda>hi. rbind (u32_at packet 4) (\<lambda>lo.
        if hi \<noteq> 0x417 \<or> lo \<noteq> 0x27101980 then failed ErrInvalid m
        else rbind (u32_at packet 8) (\<lambda>flag.
          if flag \<noteq> 0 then failed ErrInvalid m else found ''bittorrent'' m))))"

definition DTLSRecord_sniff :: "inbound_context \<Rightarrow> byte list \<Rightarrow> sniff_result" where
  "DTLSRecord_sniff m packet =
     (if length packet < 13 then failed ErrInvalid m
      else rbind (byte_at packet 0) (\<lambda>contentType. rbind (byte_at packet 1) (\<lambda>major. rbind (byte_at packet 2) (\<lambda>minor.
        if \<not> List.member [20, 21, 22, 23, 25] contentType then failed ErrInvalid m
        else if major \<noteq> 0xfe then failed ErrInvalid m
        else if minor \<noteq> 0xff \<and> minor \<noteq> 0xfd then failed ErrInvalid m
        else found ''dtls'' m))))"

text \<open>The quotient of a 32-bit number by 65536 is exact in \<open>float64\<close>.\<close>

definition NTP_sniff :: "inbound_context \<Rightarrow> byte list \<Rightarrow> sniff_result" where
  "NTP_sniff m packet =
     (if length packet < 48 then failed ErrInvalid m
      else rbind (byte_at packet 0) (\<lambda>firstByte.
        let li = drop_bit 6 firstByte AND 0x03; vn = drop_bit 3 firstByte AND 0x07; mode = firstByte AND 0x07 in
        if li > 3 then failed ErrInvalid m
        else if vn \<noteq> 3 \<and> vn \<noteq> 4 then failed ErrInvalid m
        else if mode \<noteq> 3 then failed ErrInvalid m
        else rbind (u32_at packet 4) (\<lambda>rootDelay. rbind (u32_at packet 8) (\<lambda>rootDispersion.
          if unat rootDelay > 16 * 65536 then failed ErrInvalid m
          else if unat rootDispersion > 16 * 65536 then failed ErrInvalid m
          else found ''ntp'' m))))"

definition verifyDNSQueryHeader :: "byte list \<Rightarrow> sniff_error option" where
  "verifyDNSQueryHeader header =
     (if length header > 2 \<and>
         (header ! 2 AND 0x80 \<noteq> 0 \<or> drop_bit 3 (header ! 2) AND 0x0F \<noteq> 0 \<or> header ! 2 AND 0x04 \<noteq> 0 \<or>
          header ! 2 AND 0x02 \<noteq> 0) then Some ErrInvalid
      else if length header > 3 \<and>
         (header ! 3 AND 0x80 \<noteq> 0 \<or> header ! 3 AND 0x40 \<noteq> 0 \<or> header ! 3 AND 0x0F \<noteq> 0) then Some ErrInvalid
      else if length header > 5 \<and> be16 (header ! 4) (header ! 5) = 0 then Some ErrInvalid
      else if length header > 7 \<and> be16 (header ! 6) (header ! 7) \<noteq> 0 then Some ErrInvalid
      else if length header > 9 \<and> be16 (header ! 8) (header ! 9) \<noteq> 0 then Some ErrInvalid
      else None)"

definition unpack_error :: sniff_error where
  "unpack_error = SniffFailed (E_Ext ''dns'')"

fun dns_questions :: "sniff_env \<Rightarrow> byte list \<Rightarrow> nat \<Rightarrow> nat \<Rightarrow> sniff_error + nat" where
  "dns_questions S packet 0 offset = Inr offset"
| "dns_questions S packet (Suc n) offset =
     (case mDNS_UnpackDomainName S packet offset of
        None \<Rightarrow> Inl unpack_error
      | Some offset' \<Rightarrow>
          if offset' + 4 > length packet then Inl ErrInvalid else dns_questions S packet n (offset' + 4))"

fun dns_additional :: "sniff_env \<Rightarrow> byte list \<Rightarrow> nat \<Rightarrow> nat \<Rightarrow> sniff_error + nat" where
  "dns_additional S packet 0 offset = Inr offset"
| "dns_additional S packet (Suc n) offset =
     (case mDNS_UnpackRR S packet offset of
        None \<Rightarrow> Inl unpack_error
      | Some offset' \<Rightarrow> dns_additional S packet n offset')"

definition DomainNameQuery_sniff :: "sniff_env \<Rightarrow> inbound_context \<Rightarrow> byte list \<Rightarrow> sniff_result" where
  "DomainNameQuery_sniff S m packet =
     (if length packet < 12 then failed ErrInvalid m
      else case verifyDNSQueryHeader packet of
        Some e \<Rightarrow> failed e m
      | None \<Rightarrow> rbind (u16_at packet 4) (\<lambda>questionCount.
          case dns_questions S packet (unat questionCount) 12 of
            Inl e \<Rightarrow> failed e m
          | Inr offset \<Rightarrow> rbind (u16_at packet 10) (\<lambda>additionalCount.
              case dns_additional S packet (unat additionalCount) offset of
                Inl e \<Rightarrow> failed e m
              | Inr offset' \<Rightarrow> if offset' \<noteq> length packet then failed ErrInvalid m else found ''dns'' m)))"

definition QUICShortHeader_sniff :: "inbound_context \<Rightarrow> byte list \<Rightarrow> sniff_result" where
  "QUICShortHeader_sniff m packet =
     (if length packet = 0 then failed (SniffFailed (E_New ''empty packet'')) m
      else rbind (byte_at packet 0) (\<lambda>first.
        if first AND 0xc0 \<noteq> 0x40 then failed (SniffFailed (E_New ''not a QUIC short header packet'')) m
        else found ''quic'' m))"

section \<open>Reading streams\<close>

type_synonym reader = "byte list list"

text \<open>\<open>io.ReadFull\<close> of \<open>n\<close> bytes, and one \<open>Read\<close> of at most \<open>n\<close> bytes with whether it met the end.\<close>

fun read_full :: "nat \<Rightarrow> reader \<Rightarrow> (byte list \<times> reader) option" where
  "read_full 0 r = Some ([], r)"
| "read_full (Suc n) [] = None"
| "read_full (Suc n) ([] # r) = read_full (Suc n) r"
| "read_full (Suc n) ((b # bs) # r) = map_option (\<lambda>(xs, r'). (b # xs, r')) (read_full n (bs # r))"

fun read_once :: "nat \<Rightarrow> reader \<Rightarrow> byte list \<times> bool" where
  "read_once n [] = ([], True)"
| "read_once n ([] # r) = read_once n r"
| "read_once n ((b # bs) # r) = (take n (b # bs), False)"

definition with_bytes ::
  "nat \<Rightarrow> reader \<Rightarrow> inbound_context \<Rightarrow> (byte list \<Rightarrow> reader \<Rightarrow> sniff_result) \<Rightarrow> sniff_result" where
  "with_bytes n r m f = (case read_full n r of None \<Rightarrow> failed NeedMoreData m | Some (xs, r') \<Rightarrow> f xs r')"

section \<open>Stream sniffers\<close>

definition bittorrent_header :: string where
  "bittorrent_header = ''BitTorrent protocol''"

definition BitTorrent_sniff :: "inbound_context \<Rightarrow> reader \<Rightarrow> sniff_result" where
  "BitTorrent_sniff m r =
     with_bytes 1 r m (\<lambda>first r1.
       if first \<noteq> [19] then failed ErrInvalid m
       else
         let (got, eof) = read_once 19 r1 in
         if string_of_bytes got \<noteq> take (length got) bittorrent_header then failed ErrInvalid m
         else if eof then failed NeedMoreData m
         else if length got < 19 then failed NeedMoreData m
         else found ''bittorrent'' m)"

text \<open>
  \<open>bufio.Reader.ReadLine\<close> on a fresh reader of 4096 bytes: up to a newline, which goes with a
  carriage return before it; without one, all there is, or a full buffer less a trailing carriage
  return.
\<close>

definition strip_cr :: "byte list \<Rightarrow> byte list" where
  "strip_cr line = (if line \<noteq> [] \<and> last line = 13 then butlast line else line)"

definition bufio_ReadLine :: "byte list \<Rightarrow> byte list" where
  "bufio_ReadLine content =
     (let d = take 4096 content; line = takeWhile (\<lambda>b. b \<noteq> 10) d in
      if length line < length d then strip_cr line
      else if length d = 4096 then strip_cr d
      else d)"

definition ssh_prefix :: string where
  "ssh_prefix = ''SSH-2.0-''"

definition SSH_sniff :: "inbound_context \<Rightarrow> reader \<Rightarrow> sniff_result" where
  "SSH_sniff m r =
     (let content = concat r; prefix = string_of_bytes (take 8 content) in
      if prefix \<noteq> take (length prefix) ssh_prefix then failed ErrInvalid m
      else if length prefix < 8 then failed NeedMoreData m
      else
        rbind (slice_from (bufio_ReadLine content) 8) (\<lambda>client.
          Inr (None, m\<lparr>m_Protocol := ''ssh'', m_Client := string_of_bytes client\<rparr>)))"

definition RDP_sniff :: "inbound_context \<Rightarrow> reader \<Rightarrow> sniff_result" where
  "RDP_sniff m r =
     with_bytes 1 r m (\<lambda>tpktVersion r. if tpktVersion \<noteq> [3] then failed ErrInvalid m else
     with_bytes 1 r m (\<lambda>tpktReserved r. if tpktReserved \<noteq> [0] then failed ErrInvalid m else
     with_bytes 2 r m (\<lambda>tpktLength r. if tpktLength \<noteq> [0, 19] then failed ErrInvalid m else
     with_bytes 1 r m (\<lambda>cotpLength r. if cotpLength \<noteq> [14] then failed ErrInvalid m else
     with_bytes 1 r m (\<lambda>cotpTpduType r. if cotpTpduType \<noteq> [0xE0] then failed ErrInvalid m else
     with_bytes 5 r m (\<lambda>skipped r.
     with_bytes 1 r m (\<lambda>rdpType r. if rdpType \<noteq> [1] then failed ErrInvalid m else
     with_bytes 1 r m (\<lambda>rdpFlags r.
     with_bytes 1 r m (\<lambda>rdpLength r. if rdpLength \<noteq> [8] then failed ErrInvalid m else
       found ''rdp'' m)))))))))"

definition StreamDomainNameQuery_sniff :: "sniff_env \<Rightarrow> inbound_context \<Rightarrow> reader \<Rightarrow> sniff_result" where
  "StreamDomainNameQuery_sniff S m r =
     with_bytes 2 r m (\<lambda>len r1.
       let n = unat (be16 (len ! 0) (len ! 1)) in
       if n < 12 then failed ErrInvalid m
       else case read_full n r1 of
         None \<Rightarrow>
           (case verifyDNSQueryHeader (concat r1) of
              Some e \<Rightarrow> failed e m | None \<Rightarrow> failed NeedMoreData m)
       | Some (packet, r2) \<Rightarrow> DomainNameQuery_sniff S m packet)"

definition HTTPHost_sniff :: "sniff_env \<Rightarrow> inbound_context \<Rightarrow> reader \<Rightarrow> sniff_result" where
  "HTTPHost_sniff S m r =
     (case http_ReadRequest S (concat r) of
        HttpUnexpectedEOF \<Rightarrow> failed NeedMoreData m
      | HttpBad e \<Rightarrow> failed (SniffFailed e) m
      | HttpHost host \<Rightarrow> Inr (None, m\<lparr>m_Protocol := ''http'', m_SniffHost := ParseSocksaddr_Fqdn S host\<rparr>))"

definition TLSClientHello_sniff :: "sniff_env \<Rightarrow> inbound_context \<Rightarrow> reader \<Rightarrow> sniff_result" where
  "TLSClientHello_sniff S m r =
     (case tls_Handshake S (concat r) of
        TlsHello serverName \<Rightarrow> Inr (None, m\<lparr>m_Protocol := ''tls'', m_SniffHost := serverName\<rparr>)
      | TlsUnexpectedEOF \<Rightarrow> failed NeedMoreData m
      | TlsFailed e \<Rightarrow> failed (SniffFailed e) m)"

definition run_stream_sniffer :: "sniff_env \<Rightarrow> stream_sniffer \<Rightarrow> inbound_context \<Rightarrow> reader \<Rightarrow> sniff_result" where
  "run_stream_sniffer S s m r =
     (case s of
        TLSClientHello \<Rightarrow> TLSClientHello_sniff S m r
      | HTTPHost \<Rightarrow> HTTPHost_sniff S m r
      | StreamDomainNameQuery \<Rightarrow> StreamDomainNameQuery_sniff S m r
      | BitTorrent \<Rightarrow> BitTorrent_sniff m r
      | SSH \<Rightarrow> SSH_sniff m r
      | RDP \<Rightarrow> RDP_sniff m r)"

section \<open>Trying sniffers in turn\<close>

type_synonym peek_result = "(sniff_error list option \<times> inbound_context) res"

definition join_errors :: "sniff_error list \<Rightarrow> sniff_error list option" where
  "join_errors errs = (if errs = [] then None else Some errs)"

definition needs_more :: "sniff_error list option \<Rightarrow> bool" where
  "needs_more err = (case err of None \<Rightarrow> False | Some errs \<Rightarrow> List.member errs NeedMoreData)"

fun try_sniffers ::
  "('s \<Rightarrow> inbound_context \<Rightarrow> sniff_result) \<Rightarrow> 's list \<Rightarrow> sniff_error list \<Rightarrow> inbound_context \<Rightarrow> peek_result" where
  "try_sniffers run [] errs m = Inr (join_errors errs, m)"
| "try_sniffers run (s # ss) errs m =
     rbind (run s m) (\<lambda>(e, m').
       case e of None \<Rightarrow> Inr (None, m') | Some err \<Rightarrow> try_sniffers run ss (errs @ [err]) m')"

text \<open>
  What the connection gives to the reads of \<open>PeekStream\<close>, one entry per round. The list ends where
  the deadline passes.
\<close>

datatype stream_read = DeadlineError error | ReadError error | ReadBytes "byte list"

fun PeekStream_loop ::
  "sniff_env \<Rightarrow> stream_sniffer list \<Rightarrow> byte list list \<Rightarrow> stream_read list \<Rightarrow> bool \<Rightarrow> sniff_error list option \<Rightarrow>
   byte list \<Rightarrow> inbound_context \<Rightarrow> (sniff_error list option \<times> inbound_context \<times> byte list) res" where
  "PeekStream_loop S sniffers buffers [] again sniffError buffer m =
     Inr (if again then sniffError else Some [SniffFailed (E_Cause (E_Ext ''i/o timeout'') ''read payload'')], m, buffer)"
| "PeekStream_loop S sniffers buffers (rd # rds) again sniffError buffer m =
     (case rd of
        DeadlineError e \<Rightarrow> Inr (Some [SniffFailed (E_Cause e ''set read deadline'')], m, buffer)
      | ReadError e \<Rightarrow>
          Inr (if again then sniffError else Some [SniffFailed (E_Cause e ''read payload'')], m, buffer)
      | ReadBytes bs \<Rightarrow>
          let buffer' = buffer @ bs in
          rbind (try_sniffers (\<lambda>s m. run_stream_sniffer S s m (buffers @ [buffer'])) sniffers [] m) (\<lambda>(err, m').
            if needs_more err then PeekStream_loop S sniffers buffers rds True err buffer' m'
            else Inr (err, m', buffer')))"

definition PeekStream ::
  "sniff_env \<Rightarrow> stream_sniffer list \<Rightarrow> byte list list \<Rightarrow> stream_read list \<Rightarrow> inbound_context \<Rightarrow>
   (sniff_error list option \<times> inbound_context \<times> byte list) res" where
  "PeekStream S sniffers buffers reads m = PeekStream_loop S sniffers buffers reads False None [] m"

end
