(* ===== verification/Sniff_Quic.thy ===== *)
theory Sniff_Quic
  imports Sniff
begin

text \<open>
  Sniffing QUIC initial packets (\<open>common/sniff/quic.go\<close>, \<open>internal/qtls\<close>): the header, its
  protection, the frames, and the client hello put together from fragments that may come in several
  packets (\<open>SniffContext\<close>).
\<close>

section \<open>Variable-length integers\<close>

text \<open>\<open>ReadUvarint\<close>: the value and the rest, or \<open>None\<close> at the end of the input.\<close>

fun be_value :: "64 word \<Rightarrow> byte list \<Rightarrow> 64 word" where
  "be_value acc [] = acc"
| "be_value acc (b # bs) = be_value (push_bit 8 acc + ucast b) bs"

definition ReadUvarint :: "byte list \<Rightarrow> (64 word \<times> byte list) option" where
  "ReadUvarint r =
     (case r of
        [] \<Rightarrow> None
      | b # rest \<Rightarrow>
          let len = 2 ^ unat (drop_bit 6 (b AND 0xc0)) in
          if length rest < len - 1 then None
          else Some (be_value (ucast (b AND 0x3f)) (take (len - 1) rest), drop (len - 1) rest))"

section \<open>Keys\<close>

definition VersionDraft29 :: "32 word" where "VersionDraft29 = 0xff00001d"
definition Version1 :: "32 word" where "Version1 = 0x1"
definition Version2 :: "32 word" where "Version2 = 0x6b3343cf"

definition SaltOld :: "byte list" where
  "SaltOld = [0xaf, 0xbf, 0xec, 0x28, 0x99, 0x93, 0xd2, 0x4c, 0x9e, 0x97, 0x86, 0xf1, 0x9c, 0x61, 0x11, 0xe0, 0x43, 0x90, 0xa8, 0x99]"

definition SaltV1 :: "byte list" where
  "SaltV1 = [0x38, 0x76, 0x2c, 0xf7, 0xf5, 0x59, 0x34, 0xb3, 0x4d, 0x17, 0x9a, 0xe6, 0xa4, 0xc8, 0x0c, 0xad, 0xcc, 0xbb, 0x7f, 0x0a]"

definition SaltV2 :: "byte list" where
  "SaltV2 = [0x0d, 0xed, 0xe3, 0xde, 0xf7, 0x00, 0xa6, 0xdb, 0x81, 0x93, 0x81, 0xbe, 0x6e, 0x26, 0x9d, 0xcb, 0xf9, 0xbd, 0x2e, 0xd9]"

text \<open>\<open>HKDFExpandLabel\<close> with an empty context; \<open>hkdf.Expand\<close> always fills the lengths asked for here.\<close>

definition HKDFExpandLabel :: "sniff_env \<Rightarrow> byte list \<Rightarrow> string \<Rightarrow> nat \<Rightarrow> byte list" where
  "HKDFExpandLabel S secret label len =
     hkdf_Expand S secret
       ([of_nat (len div 256), of_nat len, of_nat (6 + length label)] @ bytes_of_string ''tls13 '' @
        bytes_of_string label @ [0]) len"

definition quic_salt :: "32 word \<Rightarrow> byte list" where
  "quic_salt version = (if version = Version1 then SaltV1 else if version = Version2 then SaltV2 else SaltOld)"

definition quic_label :: "32 word \<Rightarrow> string \<Rightarrow> string" where
  "quic_label version name = (if version = Version2 then ''quicv2 '' else ''quic '') @ name"

text \<open>\<open>xorNonceAEAD.Open\<close>: the 8-byte packet number is mixed into the last bytes of the 12-byte nonce.\<close>

definition aead_Open :: "sniff_env \<Rightarrow> byte list \<Rightarrow> byte list \<Rightarrow> byte list \<Rightarrow> byte list \<Rightarrow> byte list \<Rightarrow> byte list option" where
  "aead_Open S key iv nonce ciphertext aad =
     gcm_Open S key (take 4 iv @ map2 (\<lambda>a b. a XOR b) (drop 4 iv) nonce) ciphertext aad"

section \<open>The initial packet\<close>

record quic_header =
  qh_version :: "32 word"
  qh_destConnID :: "byte list"
  qh_hdrLen :: nat
  qh_packetLen :: nat
  qh_sample :: "byte list"

text \<open>The rest of the packet after \<open>n\<close> discarded bytes (\<open>io.CopyN\<close>), and \<open>n\<close> bytes with the rest (\<open>io.ReadFull\<close>).\<close>

definition skip_bytes :: "nat \<Rightarrow> byte list \<Rightarrow> sniff_error + byte list" where
  "skip_bytes n r = (if length r < n then Inl io_EOF else Inr (drop n r))"

definition io_UnexpectedEOF :: sniff_error where
  "io_UnexpectedEOF = SniffFailed (E_Ext ''unexpected EOF'')"

definition read_bytes :: "nat \<Rightarrow> byte list \<Rightarrow> sniff_error + byte list \<times> byte list" where
  "read_bytes n r =
     (if length r < n then Inl (if r = [] then io_EOF else io_UnexpectedEOF) else Inr (take n r, drop n r))"

definition sbind :: "sniff_error + 'a \<Rightarrow> ('a \<Rightarrow> sniff_error + 'b) \<Rightarrow> sniff_error + 'b" where
  "sbind x f = (case x of Inl e \<Rightarrow> Inl e | Inr a \<Rightarrow> f a)"

definition read_byte :: "byte list \<Rightarrow> sniff_error + byte \<times> byte list" where
  "read_byte r = (case r of [] \<Rightarrow> Inl io_EOF | b # rest \<Rightarrow> Inr (b, rest))"

definition read_varint :: "byte list \<Rightarrow> sniff_error + 64 word \<times> byte list" where
  "read_varint r = (case ReadUvarint r of None \<Rightarrow> Inl io_EOF | Some x \<Rightarrow> Inr x)"

definition bad :: "string \<Rightarrow> sniff_error" where
  "bad s = SniffFailed (E_New s)"

definition bad_packet_type :: "byte \<Rightarrow> 32 word \<Rightarrow> bool" where
  "bad_packet_type packetType version =
     (packetType = 0 \<and> version = Version2 \<or> packetType = 2 \<and> version \<noteq> Version2 \<or> packetType > 2)"

definition quic_connection :: "byte list \<Rightarrow> sniff_error + 32 word \<times> byte list \<times> byte list" where
  "quic_connection packet =
     sbind (read_byte packet) (\<lambda>(typeByte, r).
       if typeByte AND 0x40 = 0 then Inl (bad ''bad type byte'')
       else sbind (read_bytes 4 r) (\<lambda>(v, r4).
         let version = be32 (v ! 0) (v ! 1) (v ! 2) (v ! 3) in
         if version \<noteq> VersionDraft29 \<and> version \<noteq> Version1 \<and> version \<noteq> Version2 then Inl (bad ''bad version'')
         else if bad_packet_type (drop_bit 4 (typeByte AND 0x30)) version then Inl (bad ''bad packet type'')
         else sbind (read_byte r4) (\<lambda>(destConnIDLen, r5).
           if destConnIDLen = 0 \<or> destConnIDLen > 20 then Inl (bad ''bad destination connection id length'')
           else sbind (read_bytes (unat destConnIDLen) r5) (\<lambda>(destConnID, r6).
             Inr (version, destConnID, r6)))))"

definition quic_lengths :: "byte list \<Rightarrow> sniff_error + 64 word \<times> byte list" where
  "quic_lengths r =
     sbind (read_byte r) (\<lambda>(srcConnIDLen, r1).
       sbind (skip_bytes (unat srcConnIDLen) r1) (\<lambda>r2.
         sbind (read_varint r2) (\<lambda>(tokenLen, r3).
           sbind (skip_bytes (unat tokenLen) r3) read_varint)))"

definition quic_parse_header :: "byte list \<Rightarrow> sniff_error + quic_header" where
  "quic_parse_header packet =
     sbind (quic_connection packet) (\<lambda>(version, destConnID, r).
       sbind (quic_lengths r) (\<lambda>(packetLen, r').
         let hdrLen = length packet - length r' in
         if hdrLen + unat packetLen > length packet then Inl ErrInvalid
         else sbind (skip_bytes 4 r') (\<lambda>r4.
           sbind (read_bytes 16 r4) (\<lambda>(pnBytes, _).
             Inr \<lparr>qh_version = version, qh_destConnID = destConnID, qh_hdrLen = hdrLen,
                  qh_packetLen = unat packetLen, qh_sample = pnBytes\<rparr>))))"

text \<open>
  Removing the header protection: the first byte and the four bytes after the header are masked; the
  ones that turn out not to belong to the packet number are restored.
\<close>

definition unmask :: "byte list \<Rightarrow> nat \<Rightarrow> byte list \<Rightarrow> byte list" where
  "unmask packet hdrLen pm =
     fold (\<lambda>i p. p[hdrLen + i := (p ! (hdrLen + i)) XOR (pm ! (i + 1))]) [0..<4]
       (packet[0 := (packet ! 0) XOR (pm ! 0 AND 0xf)])"

definition packet_number_length :: "byte list \<Rightarrow> nat" where
  "packet_number_length newPacket = unat (newPacket ! 0 AND 0x3) + 1"

definition packet_number :: "byte list \<Rightarrow> nat \<Rightarrow> nat \<Rightarrow> 64 word" where
  "packet_number newPacket hdrLen n = be_value 0 (take n (drop hdrLen newPacket))"

definition be64_bytes :: "64 word \<Rightarrow> byte list" where
  "be64_bytes w = map (\<lambda>k. ucast (drop_bit k w)) [56, 48, 40, 32, 24, 16, 8, 0]"

definition quic_decrypt :: "sniff_env \<Rightarrow> byte list \<Rightarrow> quic_header \<Rightarrow> sniff_error + byte list" where
  "quic_decrypt S packet h =
     (let version = qh_version h; hdrLen = qh_hdrLen h;
          initialSecret = hkdf_Extract S (qh_destConnID h) (quic_salt version);
          secret = HKDFExpandLabel S initialSecret ''client in'' 32;
          pm = aes_Encrypt S (HKDFExpandLabel S secret (quic_label version ''hp'') 16) (qh_sample h);
          masked = unmask packet hdrLen pm;
          n = packet_number_length masked;
          extHdrLen = hdrLen + n
      in if n > qh_packetLen h then Inl ErrInvalid
         else
           let newPacket = take extHdrLen masked @ drop extHdrLen packet;
               cipher = take (qh_packetLen h - n) (drop extHdrLen newPacket);
               key = HKDFExpandLabel S secret (quic_label version ''key'') 16;
               iv = HKDFExpandLabel S secret (quic_label version ''iv'') 12
           in case aead_Open S key iv (be64_bytes (packet_number masked hdrLen n)) cipher (take extHdrLen newPacket) of
                None \<Rightarrow> Inl (SniffFailed (E_Ext ''cipher''))
              | Some decrypted \<Rightarrow> Inr decrypted)"

section \<open>Frames\<close>

fun skip_varints :: "nat \<Rightarrow> byte list \<Rightarrow> byte list option" where
  "skip_varints 0 r = Some r"
| "skip_varints (Suc n) r = (case ReadUvarint r of None \<Rightarrow> None | Some (v, r') \<Rightarrow> skip_varints n r')"

text \<open>The body of a frame: the rest after it and the fragment it carries.\<close>

definition ack_frame :: "byte \<Rightarrow> byte list \<Rightarrow> byte list option" where
  "ack_frame frameType r =
     (case skip_varints 2 r of
        None \<Rightarrow> None
      | Some r2 \<Rightarrow>
          (case ReadUvarint r2 of
             None \<Rightarrow> None
           | Some (ackRangeCount, r3) \<Rightarrow>
               (case skip_varints (1 + 2 * unat ackRangeCount) r3 of
                  None \<Rightarrow> None
                | Some r4 \<Rightarrow> if frameType = 3 then skip_varints 3 r4 else Some r4)))"

definition crypto_frame :: "byte list \<Rightarrow> sniff_error + byte list \<times> quic_fragment" where
  "crypto_frame r =
     sbind (read_varint r) (\<lambda>(offset, r1). sbind (read_varint r1) (\<lambda>(len, r2).
       if unat len > length r2 then Inl ErrInvalid
       else Inr (drop (unat len) r2, (offset, len, take (unat len) r2))))"

definition close_frame :: "byte list \<Rightarrow> byte list option" where
  "close_frame r =
     (case skip_varints 2 r of
        None \<Rightarrow> None
      | Some r2 \<Rightarrow> (case ReadUvarint r2 of None \<Rightarrow> None | Some (len, r3) \<Rightarrow> Some (drop (unat len) r3)))"

definition frame_body :: "byte \<Rightarrow> byte list \<Rightarrow> sniff_error + byte list \<times> quic_fragment list" where
  "frame_body frameType r =
     (if frameType = 0x00 \<or> frameType = 0x01 then Inr (r, [])
      else if frameType = 0x02 \<or> frameType = 0x03 then
        (case ack_frame frameType r of None \<Rightarrow> Inl io_EOF | Some r' \<Rightarrow> Inr (r', []))
      else if frameType = 0x06 then sbind (crypto_frame r) (\<lambda>(r', f). Inr (r', [f]))
      else if frameType = 0x1c then
        (case close_frame r of None \<Rightarrow> Inl io_EOF | Some r' \<Rightarrow> Inr (r', []))
      else Inl ErrInvalid)"

lemma ReadUvarint_shorter: "ReadUvarint r = Some (v, r') \<Longrightarrow> length r' < length r"
  by (auto simp: ReadUvarint_def Let_def split: list.splits if_splits)

lemma skip_varints_shorter: "skip_varints n r = Some r' \<Longrightarrow> length r' \<le> length r"
  by (induction n arbitrary: r) (auto split: option.splits dest!: ReadUvarint_shorter, fastforce)

lemma frame_body_shorter: "frame_body t r = Inr (r', fs) \<Longrightarrow> length r' \<le> length r"
  by (auto simp: frame_body_def ack_frame_def close_frame_def crypto_frame_def sbind_def read_varint_def
      split: if_splits option.splits sum.splits dest!: skip_varints_shorter ReadUvarint_shorter) linarith

function quic_frames :: "byte list \<Rightarrow> sniff_error + byte list \<times> quic_fragment list" where
  "quic_frames [] = Inr ([], [])"
| "quic_frames (t # r) =
     (case frame_body t r of
        Inl e \<Rightarrow> Inl e
      | Inr (r', fs) \<Rightarrow> sbind (quic_frames r') (\<lambda>(ts, fs'). Inr (t # ts, fs @ fs')))"
  by pat_completeness auto
termination
  by (relation "measure length") (auto dest: frame_body_shorter)

section \<open>Putting the client hello together\<close>

text \<open>The first fragment that starts at \<open>index\<close> and is not empty.\<close>

definition next_fragment :: "quic_fragment list \<Rightarrow> 64 word \<Rightarrow> quic_fragment option" where
  "next_fragment fs index = find (\<lambda>(off, len, payload). off = index \<and> len > 0) fs"

partial_function (option) assemble :: "quic_fragment list \<Rightarrow> 64 word \<Rightarrow> byte list \<Rightarrow> byte list option" where
  "assemble fs index buffer =
     (case next_fragment fs index of
        None \<Rightarrow> Some buffer
      | Some (off, len, payload) \<Rightarrow> assemble fs (off + len) (buffer @ payload))"

definition frame_len :: "quic_fragment list \<Rightarrow> 64 word" where
  "frame_len fs = sum_list (map (\<lambda>(off, len, payload). len) fs)"

text \<open>
  The buffer: a record header with the length in 16 bits, and what fits of the fragments. A search
  that does not end is the outcome \<open>diverged\<close>, which counts as a panic.
\<close>

definition diverged :: error where
  "diverged = E_Panic ''loop does not end''"

definition hello_buffer :: "quic_fragment list \<Rightarrow> byte list res" where
  "hello_buffer fs =
     (case assemble fs 0 [] of
        None \<Rightarrow> Inl diverged
      | Some payload \<Rightarrow>
          Inr ([0x16, 0x03, 0x03, ucast (drop_bit 8 (frame_len fs)), ucast (frame_len fs)] @
               take (unat (frame_len fs)) payload))"

definition fragments_hello :: "quic_fragment list \<Rightarrow> client_hello res" where
  "fragments_hello fs =
     rbind (hello_buffer fs) (\<lambda>buffer. case Compute buffer of None \<Rightarrow> Inl diverged | Some r \<Rightarrow> r)"

section \<open>The client\<close>

definition isQUICGo :: "client_hello \<Rightarrow> bool" where
  "isQUICGo j = (List.member (ch_EllipticCurves j) 0x11EC \<or> List.member (ch_Extensions j) 0xFF01)"

definition grease :: "16 word \<Rightarrow> bool" where
  "grease v = (v AND GreaseBitmask = 0x0A0A)"

definition safari_hello :: "client_hello \<Rightarrow> bool" where
  "safari_hello j =
     (length (ch_Versions j) = 2 \<and> grease (ch_Versions j ! 0) \<and> length (ch_EllipticCurves j) = 5 \<and>
      grease (ch_EllipticCurves j ! 0) \<or>
      ch_CipherSuites j = [0x1302] \<and> ch_EllipticCurves j = [29] \<and> ch_SignatureAlgorithms j = [0x0403])"

definition quic_client :: "byte list \<Rightarrow> client_hello \<Rightarrow> string res" where
  "quic_client frameTypes j =
     (if length frameTypes = 1 then Inr ''firefox''
      else rbind (byte_at frameTypes 0) (\<lambda>first.
        if first = 0x06 \<and> list_all (\<lambda>t. t = 0) (tl frameTypes) \<and> safari_hello j then Inr ''safari''
        else if last frameTypes = 0x06 \<and> list_all (\<lambda>t. t = 0) (butlast frameTypes) then Inr ''quic-go''
        else if length (filter (\<lambda>t. t = 0x06) frameTypes) > 1 \<or> length (filter (\<lambda>t. t = 0x01) frameTypes) > 0
        then Inr (if isQUICGo j then ''quic-go'' else ''chromium'')
        else Inr ''unknown''))"

definition quic_finish :: "byte list \<Rightarrow> quic_fragment list \<Rightarrow> inbound_context \<Rightarrow> sniff_result" where
  "quic_finish frameTypes new m =
     (let fs = new @ (case m_SniffContext m of None \<Rightarrow> [] | Some old \<Rightarrow> old);
          m' = m\<lparr>m_SniffContext := None, m_Protocol := ''quic''\<rparr>
      in case fragments_hello fs of
           Inl e \<Rightarrow>
             (if is_panic (Inl e :: unit res) then Inl e
              else failed NeedMoreData (m'\<lparr>m_SniffContext := Some fs\<rparr>))
         | Inr j \<Rightarrow>
             let m'' = m'\<lparr>m_SniffHost := ch_ServerName j\<rparr> in
             if m_Client m'' \<noteq> [] then Inr (None, m'')
             else rbind (quic_client frameTypes j) (\<lambda>client. Inr (None, m''\<lparr>m_Client := client\<rparr>)))"

definition QUICClientHello_sniff :: "sniff_env \<Rightarrow> inbound_context \<Rightarrow> byte list \<Rightarrow> sniff_result" where
  "QUICClientHello_sniff S m packet =
     (case sbind (quic_parse_header packet) (quic_decrypt S packet) of
        Inl e \<Rightarrow> failed e m
      | Inr decrypted \<Rightarrow>
          (case quic_frames decrypted of
             Inl e \<Rightarrow> failed e m
           | Inr (frameTypes, fs) \<Rightarrow> quic_finish frameTypes fs m))"

definition run_packet_sniffer :: "sniff_env \<Rightarrow> packet_sniffer \<Rightarrow> inbound_context \<Rightarrow> byte list \<Rightarrow> sniff_result" where
  "run_packet_sniffer S s m packet =
     (case s of
        QUICClientHello \<Rightarrow> QUICClientHello_sniff S m packet
      | QUICShortHeader \<Rightarrow> QUICShortHeader_sniff m packet
      | DomainNameQuery \<Rightarrow> DomainNameQuery_sniff S m packet
      | STUNMessage \<Rightarrow> STUNMessage_sniff m packet
      | UTP \<Rightarrow> UTP_sniff m packet
      | UDPTracker \<Rightarrow> UDPTracker_sniff m packet
      | DTLSRecord \<Rightarrow> DTLSRecord_sniff m packet
      | NTP \<Rightarrow> NTP_sniff m packet)"

definition PeekPacket :: "sniff_env \<Rightarrow> packet_sniffer list \<Rightarrow> byte list \<Rightarrow> inbound_context \<Rightarrow> peek_result" where
  "PeekPacket S sniffers packet m = try_sniffers (\<lambda>s m. run_packet_sniffer S s m packet) sniffers [] m"

end
