(* ===== verification/Sniff_Facts.thy ===== *)
theory Sniff_Facts
  imports Sniff_Quic Ja3_Props "HOL-Library.Multiset"
begin

text \<open>
  Lemmas on the sniffers: variable-length integers, the fragments a packet yields, the search for the
  next fragment, and which results a sniffer can have.
\<close>

section \<open>Variable-length integers\<close>

fun be_nat :: "nat \<Rightarrow> byte list \<Rightarrow> nat" where
  "be_nat a [] = a"
| "be_nat a (b # bs) = be_nat (a * 256 + unat b) bs"

lemma unat_shift_add:
  assumes "(unat (a :: 64 word) + 1) * 256 \<le> 2 ^ 64"
  shows "unat (push_bit 8 a + ucast (b :: byte)) = unat a * 256 + unat b"
proof -
  have b: "unat b < 256" using unsigned_less [where ?'a = nat, of b] by simp
  have "push_bit 8 a = a * 256" by (simp add: push_bit_eq_mult)
  moreover have "unat (ucast b :: 64 word) = unat b" using b by (simp add: unsigned_ucast_eq take_bit_nat_eq_self)
  moreover have "unat (a * 256) = unat a * 256"
    using assms by (simp add: unat_word_ariths)
  ultimately show ?thesis using assms b by (simp add: unat_word_ariths)
qed

lemma be_value_nat: "(unat acc + 1) * 256 ^ length bs \<le> 2 ^ 64 \<Longrightarrow> unat (be_value acc bs) = be_nat (unat acc) bs"
proof (induction bs arbitrary: acc)
  case (Cons b bs)
  have p: "(1::nat) \<le> 256 ^ length bs" by simp
  have "(unat acc + 1) * 256 * 1 \<le> (unat acc + 1) * 256 * 256 ^ length bs" using p by (rule mult_le_mono2)
  also have "\<dots> \<le> 2 ^ 64" using Cons.prems by (simp only: length_Cons power_Suc mult.assoc)
  finally have le: "(unat acc + 1) * 256 \<le> 2 ^ 64" by simp
  note s = unat_shift_add [OF le, of b]
  have b: "unat b < 256" using unsigned_less [where ?'a = nat, of b] by simp
  have "(unat acc * 256 + unat b + 1) * 256 ^ length bs \<le> ((unat acc + 1) * 256) * 256 ^ length bs"
    using b by (intro mult_le_mono1) simp
  also have "\<dots> \<le> 2 ^ 64" using Cons.prems by (simp only: length_Cons power_Suc mult.assoc)
  finally have "unat (be_value (push_bit 8 acc + ucast b) bs) = be_nat (unat (push_bit 8 acc + ucast b)) bs"
    by (intro Cons.IH) (simp only: s)
  then show ?case by (simp only: be_value.simps be_nat.simps s)
qed simp

lemma be_nat_bound: "be_nat a bs < (a + 1) * 256 ^ length bs"
proof (induction bs arbitrary: a)
  case (Cons b bs)
  have b: "unat b < 256" using unsigned_less [where ?'a = nat, of b] by simp
  have "be_nat (a * 256 + unat b) bs < (a * 256 + unat b + 1) * 256 ^ length bs" by (rule Cons.IH)
  also have "\<dots> \<le> ((a + 1) * 256) * 256 ^ length bs" using b by (intro mult_le_mono1) simp
  finally show ?case by (simp add: algebra_simps)
qed simp

lemma varint_length:
  "unat (drop_bit 6 (b AND 0xc0 :: byte)) \<le> 3"
proof -
  have "drop_bit 6 (b AND 0xc0) \<le> 3"
    by (simp add: drop_bit_and) (metis word_and_le1)
  then show ?thesis by (simp add: word_le_nat_alt)
qed

lemma varint_cases: "(n :: nat) \<le> 3 \<Longrightarrow> 2 ^ n - 1 \<in> {0, 1, 3, 7 :: nat}"
  by (cases "n = 0"; cases "n = 1"; cases "n = 2"; cases "n = 3") auto

lemma varint_first: "unat (ucast (b AND 0x3f :: byte) :: 64 word) < 64"
proof -
  have "unat (b AND 0x3f) \<le> unat (0x3f :: byte)" using word_and_le1 [of b "0x3f"] by (simp only: word_le_nat_alt)
  then show ?thesis by (simp add: unsigned_ucast_eq take_bit_nat_eq_self)
qed

lemma ReadUvarint_bound:
  assumes "ReadUvarint r = Some (v, r')"
  shows "unat v < 2 ^ 62"
proof -
  from assms obtain b rest where r: "r = b # rest" by (auto simp: ReadUvarint_def split: list.splits)
  define k where "k = (2::nat) ^ unat (drop_bit 6 (b AND 0xc0)) - 1"
  define a where "a = (ucast (b AND 0x3f) :: 64 word)"
  from assms r have v: "v = be_value a (take k rest)" and len: "length (take k rest) = k"
    by (auto simp: ReadUvarint_def Let_def k_def a_def split: if_splits)
  have "k \<in> {0, 1, 3, 7}" unfolding k_def by (rule varint_cases [OF varint_length])
  then have pk: "(256::nat) ^ k \<le> 256 ^ 7" by auto
  have a: "unat a + 1 \<le> 64" using varint_first [of b] by (simp add: a_def)
  have le: "(unat a + 1) * 256 ^ k \<le> 2 ^ 62" using mult_le_mono [OF a pk] by simp
  then have le': "(unat a + 1) * 256 ^ length (take k rest) \<le> 2 ^ 64" unfolding len by (rule order_trans) simp
  have "unat v = be_nat (unat a) (take k rest)" unfolding v by (rule be_value_nat [OF le'])
  also have "\<dots> < (unat a + 1) * 256 ^ length (take k rest)" by (rule be_nat_bound)
  also have "\<dots> = (unat a + 1) * 256 ^ k" by (simp only: len)
  finally show ?thesis using le by simp
qed

section \<open>Fragments\<close>

text \<open>What a CRYPTO frame can carry: offset and length have 62 bits and the payload has that length.\<close>

definition frag_ok :: "quic_fragment \<Rightarrow> bool" where
  "frag_ok f = (case f of (off, len, payload) \<Rightarrow> unat off < 2 ^ 62 \<and> unat len < 2 ^ 62 \<and> length payload = unat len)"

lemma crypto_frame_ok: "crypto_frame r = Inr (r', f) \<Longrightarrow> frag_ok f"
  by (auto simp: crypto_frame_def sbind_def read_varint_def frag_ok_def
      split: option.splits sum.splits if_splits dest!: ReadUvarint_bound)

lemma frame_body_ok: "frame_body t r = Inr (r', fs) \<Longrightarrow> list_all frag_ok fs"
  by (auto simp: frame_body_def sbind_def split: if_splits option.splits sum.splits dest: crypto_frame_ok)

lemma quic_frames_ok: "quic_frames d = Inr (ts, fs) \<Longrightarrow> list_all frag_ok fs \<and> (ts = [] \<longrightarrow> fs = [])"
proof (induction d arbitrary: ts fs rule: quic_frames.induct)
  case (2 t r)
  show ?case
  proof (cases "frame_body t r")
    case (Inr p)
    obtain r' gs where p: "p = (r', gs)" by (cases p)
    from 2(2) Inr p obtain us hs where h: "quic_frames r' = Inr (us, hs)" "ts = t # us" "fs = gs @ hs"
      by (auto simp: sbind_def split: sum.splits)
    from 2(1) [OF Inr p [symmetric] h(1)] frame_body_ok [of t r r' gs] Inr p h(2,3) show ?thesis by simp
  qed (use 2(2) in simp)
qed simp

definition ahead :: "64 word \<Rightarrow> quic_fragment \<Rightarrow> bool" where
  "ahead index f = (case f of (off, len, payload) \<Rightarrow> index \<le> off)"

lemma next_fragment_SomeD:
  assumes "next_fragment fs index = Some f" "list_all frag_ok fs"
  obtains len payload where "f = (index, len, payload)" "f \<in> set fs" "len > 0" "length payload = unat len"
    "index < index + len" "unat (index + len) = unat index + unat len"
proof -
  from assms(1) have f: "f \<in> set fs" "case f of (off, len, payload) \<Rightarrow> off = index \<and> len > 0"
    by (auto simp: next_fragment_def find_Some_iff in_set_conv_nth)
  then obtain len payload where p: "f = (index, len, payload)" "len > 0" by (cases f) auto
  from assms(2) f(1) have "frag_ok f" by (simp add: list_all_iff)
  then have b: "unat index < 2 ^ 62" "unat len < 2 ^ 62" "length payload = unat len" by (simp_all add: p(1) frag_ok_def)
  then have "unat index + unat len < 2 ^ 64" by simp
  then have u: "unat (index + len) = unat index + unat len" by (simp add: unat_word_ariths)
  moreover have "0 < unat len" using p(2) by (simp add: word_less_nat_alt)
  ultimately have "index < index + len" by (simp add: word_less_nat_alt)
  then show ?thesis using that p f(1) b(3) u by blast
qed

lemma ahead_less:
  assumes "f \<in> set fs" "f = (index, len, payload)" "index < index + len"
  shows "length (filter (ahead (index + len)) fs) < length (filter (ahead index) fs)"
proof -
  have "filter (ahead (index + len)) fs = filter (ahead (index + len)) (filter (ahead index) fs)"
    unfolding filter_filter using assms(3) by (intro filter_cong) (auto simp: ahead_def)
  moreover have "f \<in> set (filter (ahead index) fs)" "\<not> ahead (index + len) f"
    using assms by (auto simp: ahead_def)
  ultimately show ?thesis using length_filter_less [of f "filter (ahead index) fs" "ahead (index + len)"] by simp
qed

lemma assemble_total: "list_all frag_ok fs \<Longrightarrow> \<exists>b. assemble fs index buffer = Some b"
proof (induction "length (filter (ahead index) fs)" arbitrary: index buffer rule: less_induct)
  case less
  show ?case
  proof (cases "next_fragment fs index")
    case None
    then show ?thesis by (simp add: assemble.simps)
  next
    case (Some f)
    obtain len payload where f: "f = (index, len, payload)" "f \<in> set fs" "index < index + len"
      using next_fragment_SomeD [OF Some less.prems] by metis
    from less.hyps [OF ahead_less [OF f(2,1,3)] less.prems, of "buffer @ payload"] show ?thesis
      by (simp add: assemble.simps [of fs index] Some f(1))
  qed
qed

lemma hello_buffer_total: "list_all frag_ok fs \<Longrightarrow> \<exists>b. hello_buffer fs = Inr b"
  using assemble_total [of fs 0 "[]"] by (auto simp: hello_buffer_def)

lemma fragments_hello_safe:
  assumes "list_all frag_ok fs"
  shows "\<not> is_panic (fragments_hello fs)"
proof -
  obtain b where "hello_buffer fs = Inr b" using hello_buffer_total [OF assms] by auto
  moreover obtain r where "Compute b = Some r" "\<not> is_panic r" using Compute_total [of b] by auto
  ultimately show ?thesis by (simp add: fragments_hello_def)
qed

lemma fragments_hello_Nil: "\<not> is_ok (fragments_hello [])"
proof -
  have "assemble [] 0 [] = Some []" by (simp add: assemble.simps next_fragment_def)
  then have "hello_buffer [] = Inr [0x16, 0x03, 0x03, 0, 0]" by (simp add: hello_buffer_def frame_len_def)
  moreover have "Compute [0x16, 0x03, 0x03, 0, 0] = Some (Inl (LengthErr 3))"
    by (simp add: Compute_def parseSegment_def supported_version_def byte_at_def u16_at_def be16_def subslice_def
        parseHandshake_def parse_header_def)
  ultimately show ?thesis by (simp add: fragments_hello_def is_ok_iff)
qed

section \<open>Sniffers\<close>

text \<open>
  The fragments kept in the metadata come from CRYPTO frames, and the client hello is not complete
  yet.
\<close>

definition sniff_context_ok :: "inbound_context \<Rightarrow> bool" where
  "sniff_context_ok m =
     (case m_SniffContext m of None \<Rightarrow> True | Some fs \<Rightarrow> list_all frag_ok fs \<and> \<not> is_ok (fragments_hello fs))"

definition good :: "sniff_result \<Rightarrow> bool" where
  "good r = (case r of Inl e \<Rightarrow> False | Inr (e, m) \<Rightarrow> sniff_context_ok m)"

lemma good_simps [simp]:
  "good (failed e m) = sniff_context_ok m"
  "good (found p m) = sniff_context_ok m"
  "good (Inr (er, m)) = sniff_context_ok m"
  by (simp_all add: good_def failed_def found_def sniff_context_ok_def)

lemma good_if [simp]: "good (if c then x else y) = (if c then good x else good y)"
  by simp

lemma sniff_context_ok_update [simp]:
  "sniff_context_ok (m\<lparr>m_Protocol := p\<rparr>) = sniff_context_ok m"
  "sniff_context_ok (m\<lparr>m_Client := p\<rparr>) = sniff_context_ok m"
  "sniff_context_ok (m\<lparr>m_SniffHost := p\<rparr>) = sniff_context_ok m"
  by (simp_all add: sniff_context_ok_def)

lemma quic_client_ok: "ts \<noteq> [] \<Longrightarrow> \<exists>c. quic_client ts j = Inr c"
  by (cases ts) (auto simp: quic_client_def byte_at_def)

lemma quic_finish_good:
  assumes "quic_frames d = Inr (ts, new)" "sniff_context_ok m"
  shows "good (quic_finish ts new m)"
proof -
  define old where "old = (case m_SniffContext m of None \<Rightarrow> [] | Some fs \<Rightarrow> fs)"
  have old: "list_all frag_ok old" "\<not> is_ok (fragments_hello old)"
    using assms(2) fragments_hello_Nil by (auto simp: old_def sniff_context_ok_def split: option.splits)
  have new: "list_all frag_ok new" "ts = [] \<longrightarrow> new = []" using quic_frames_ok [OF assms(1)] by auto
  have all: "list_all frag_ok (new @ old)" using old new by simp
  show ?thesis
  proof (cases "fragments_hello (new @ old)")
    case (Inl e)
    with fragments_hello_safe [OF all] have "\<not> is_panic (Inl e)" by (simp add: is_panic_Inl)
    with Inl all show ?thesis
      by (simp add: quic_finish_def Let_def old_def [symmetric] sniff_context_ok_def is_ok_iff is_panic_Inl)
  next
    case (Inr j)
    with new(2) old(2) have "ts \<noteq> []" by (auto simp: is_ok_iff)
    from quic_client_ok [OF this, of j] obtain c where "quic_client ts j = Inr c" by blast
    with Inr show ?thesis
      by (simp add: quic_finish_def Let_def old_def [symmetric] sniff_context_ok_def)
  qed
qed

lemma QUICClientHello_good: "sniff_context_ok m \<Longrightarrow> good (QUICClientHello_sniff S m packet)"
  by (auto simp: QUICClientHello_sniff_def quic_finish_good split: sum.splits)

lemma packet_sniffer_good:
  assumes "sniff_context_ok m"
  shows "good (run_packet_sniffer S s m packet)"
  using assms
  by (cases s) (auto simp: run_packet_sniffer_def QUICClientHello_good QUICShortHeader_sniff_def DomainNameQuery_sniff_def
      STUNMessage_sniff_def UTP_sniff_def UDPTracker_sniff_def DTLSRecord_sniff_def NTP_sniff_def byte_at_def u16_at_def
      u32_at_def slice_from_def Let_def split: option.splits sum.splits)

section \<open>Reassembly\<close>

text \<open>The fragments of a byte stream that is cut into chunks.\<close>

fun fragments_at :: "nat \<Rightarrow> byte list list \<Rightarrow> quic_fragment list" where
  "fragments_at a [] = []"
| "fragments_at a (c # cs) = (of_nat a, of_nat (length c), c) # fragments_at (a + length c) cs"

lemma fragments_at_append: "fragments_at a (xs @ ys) = fragments_at a xs @ fragments_at (a + length (concat xs)) ys"
  by (induction xs arbitrary: a) (auto simp: add.assoc)

lemma unat_of_nat62: "n < 2 ^ 62 \<Longrightarrow> unat (of_nat n :: 64 word) = n"
  by (simp add: unat_of_nat)

lemma fragments_at_range:
  "a + length (concat cs) < 2 ^ 62 \<Longrightarrow> [] \<notin> set cs \<Longrightarrow> f \<in> set (fragments_at a cs) \<Longrightarrow>
   a \<le> unat (fst f) \<and> unat (fst f) < a + length (concat cs)"
proof (induction cs arbitrary: a)
  case (Cons c cs)
  have c: "length c > 0" using Cons.prems(2) by auto
  have "unat (of_nat a :: 64 word) = a" using Cons.prems(1) by (intro unat_of_nat62) simp
  moreover have "a + length c \<le> unat (fst f) \<and> unat (fst f) < a + length c + length (concat cs)"
    if "f \<in> set (fragments_at (a + length c) cs)"
    using Cons.IH [OF _ _ that] Cons.prems by (simp add: add.assoc)
  ultimately show ?case using Cons.prems(3) c by auto
qed simp

lemma fragments_at_unique:
  assumes "length (concat (pre @ c # post)) < 2 ^ 62" "[] \<notin> set (pre @ c # post)"
    "f \<in> set (fragments_at 0 (pre @ c # post))" "fst f = of_nat (length (concat pre))"
  shows "f = (of_nat (length (concat pre)), of_nat (length c), c)"
proof -
  have u: "unat (fst f) = length (concat pre)"
    unfolding assms(4) using assms(1) by (intro unat_of_nat62) simp
  have "f \<notin> set (fragments_at 0 pre)"
    using fragments_at_range [of 0 pre f] assms(1,2) u by auto
  moreover have "length c > 0" using assms(2) by auto
  then have "f \<notin> set (fragments_at (length (concat pre) + length c) post)"
    using fragments_at_range [of "length (concat pre) + length c" post f] assms(1,2) u by auto
  ultimately show ?thesis using assms(3) by (auto simp: fragments_at_append)
qed

lemma next_fragment_chunk:
  assumes "set fs = set (fragments_at 0 (pre @ c # post))"
    "length (concat (pre @ c # post)) < 2 ^ 62" "[] \<notin> set (pre @ c # post)"
  shows "next_fragment fs (of_nat (length (concat pre))) = Some (of_nat (length (concat pre)), of_nat (length c), c)"
proof -
  let ?f = "(of_nat (length (concat pre)) :: 64 word, of_nat (length c) :: 64 word, c)"
  have c: "length c > 0" "length c < 2 ^ 62" using assms(2,3) by auto
  then have "unat (of_nat (length c) :: 64 word) = length c" by (intro unat_of_nat62)
  with c have pos: "(of_nat (length c) :: 64 word) > 0" by (simp add: word_less_nat_alt)
  have "?f \<in> set fs" using assms(1) by (simp add: fragments_at_append)
  with pos obtain g where g: "next_fragment fs (of_nat (length (concat pre))) = Some g"
    by (cases "next_fragment fs (of_nat (length (concat pre)))") (auto simp: next_fragment_def find_None_iff)
  then have "g \<in> set fs" "fst g = of_nat (length (concat pre))"
    by (auto simp: next_fragment_def find_Some_iff in_set_conv_nth)
  then show ?thesis using fragments_at_unique [OF assms(2,3)] assms(1) g by simp
qed

lemma assemble_chunks:
  assumes "set fs = set (fragments_at 0 (pre @ post))"
    "length (concat (pre @ post)) < 2 ^ 62" "[] \<notin> set (pre @ post)"
  shows "assemble fs (of_nat (length (concat pre))) buffer = Some (buffer @ concat post)"
  using assms
proof (induction post arbitrary: pre buffer)
  case Nil
  let ?i = "of_nat (length (concat pre)) :: 64 word"
  have "unat ?i = length (concat pre)" using Nil.prems(2) by (intro unat_of_nat62) simp
  then have "fst f \<noteq> ?i" if "f \<in> set fs" for f
    using fragments_at_range [of 0 pre f] Nil.prems that by auto
  then have "next_fragment fs ?i = None" by (force simp: next_fragment_def find_None_iff)
  then show ?case by (simp add: assemble.simps)
next
  case (Cons c post)
  have "assemble fs (of_nat (length (concat (pre @ [c])))) (buffer @ c) = Some ((buffer @ c) @ concat post)"
    using Cons.prems by (intro Cons.IH) simp_all
  with next_fragment_chunk [OF Cons.prems] show ?case
    by (simp add: assemble.simps [of fs "of_nat (length (concat pre))"])
qed

lemma frame_len_chunks: "frame_len (fragments_at a cs) = of_nat (length (concat cs))"
  by (induction cs arbitrary: a) (auto simp: frame_len_def)

lemma frame_len_mset: "mset fs = mset gs \<Longrightarrow> frame_len fs = frame_len gs"
  unfolding frame_len_def by (metis mset_map sum_mset_sum_list)

lemma length_bytes:
  "[ucast (drop_bit 8 (of_nat n :: 64 word)), ucast (of_nat n :: 64 word)] = u16_bytes (of_nat n)"
  unfolding u16_bytes_def by (auto intro!: bit_word_eqI simp: bit_simps)

lemma hello_buffer_chunks:
  assumes "mset fs = mset (fragments_at 0 cs)" "length (concat cs) < 2 ^ 62" "[] \<notin> set cs"
  shows "hello_buffer fs = Inr ([22] @ u16_bytes 0x0303 @ u16_bytes (of_nat (length (concat cs))) @ concat cs)"
proof -
  have "set fs = set (fragments_at 0 ([] @ cs))" using mset_eq_setD [OF assms(1)] by simp
  then have "assemble fs 0 [] = Some (concat cs)"
    using assemble_chunks [of fs "[]" cs "[]"] assms(2,3) by simp
  moreover have "frame_len fs = of_nat (length (concat cs))"
    using frame_len_mset [OF assms(1)] frame_len_chunks by simp
  moreover have "u16_bytes 0x0303 = [3, 3]" by (simp add: u16_bytes_def)
  ultimately show ?thesis
    unfolding hello_buffer_def length_bytes [symmetric] using unat_of_nat62 [OF assms(2)]
    by (simp only: option.case list.simps append.simps sum.inject take_all order_refl simp_thms)
qed

lemma fragments_hello_chunks:
  assumes "mset fs = mset (fragments_at 0 cs)" "[] \<notin> set cs" "concat cs = spec_handshake h" "spec_ok h"
  shows "fragments_hello fs = Inr (spec_hello h)"
proof -
  have len: "length (concat cs) < 65536" using assms(3,4) by (simp add: spec_ok_def)
  then have "length (concat cs) < 2 ^ 62" by simp
  note hello_buffer_chunks [OF assms(1) this assms(2)]
  moreover have "supported_version 0x0303" by (simp add: supported_version_def)
  note Compute_record [OF assms(4) this]
  ultimately show ?thesis by (simp add: fragments_hello_def assms(3))
qed

section \<open>Stream sniffers\<close>

text \<open>No panic, and a sniffer that fails leaves the metadata as they are.\<close>

definition harmless :: "inbound_context \<Rightarrow> sniff_result \<Rightarrow> bool" where
  "harmless m r = (case r of Inl e \<Rightarrow> False | Inr (e, m') \<Rightarrow> e = None \<or> m' = m)"

lemma harmless_simps [simp]:
  "harmless m (failed er m)"
  "harmless m (found p m)"
  "harmless m (Inr (None, m'))"
  by (simp_all add: harmless_def failed_def found_def)

lemma harmless_with_bytes: "(\<And>xs r'. harmless m (f xs r')) \<Longrightarrow> harmless m (with_bytes n r m f)"
  by (simp add: with_bytes_def split: option.split)

lemma length_string_of_bytes [simp]: "length (string_of_bytes bs) = length bs"
  by (simp add: string_of_bytes_def)

lemma takeWhile_prefix: "\<forall>x\<in>set xs. P x \<Longrightarrow> takeWhile P (xs @ ys) = xs @ takeWhile P ys"
  by (induction xs) auto

lemma ssh_prefix_bytes:
  assumes "string_of_bytes (bs :: byte list) = ssh_prefix"
  shows "length bs = 8" "10 \<notin> set bs" "13 \<notin> set bs"
proof -
  show "length bs = 8" using arg_cong [OF assms, of length] by (simp add: ssh_prefix_def)
  have "char_of (unat b) \<in> set ssh_prefix" if "b \<in> set bs" for b :: byte
    using that unfolding assms [symmetric] by (simp add: string_of_bytes_def)
  from this [of 10] this [of 13] show "10 \<notin> set bs" "13 \<notin> set bs"
    by (auto simp: ssh_prefix_def char_of_def bit_0)
qed

lemma ReadLine_prefix:
  assumes "length xs = 8" "10 \<notin> set xs" "13 \<notin> set xs"
  shows "8 \<le> length (bufio_ReadLine (xs @ ys))"
proof -
  have d: "take 4096 (xs @ ys) = xs @ take 4088 ys" using assms(1) by simp
  have w: "takeWhile (\<lambda>b. b \<noteq> 10) (xs @ zs) = xs @ takeWhile (\<lambda>b. b \<noteq> 10) zs" for zs
    using assms(2) by (intro takeWhile_prefix) auto
  have s: "8 \<le> length (strip_cr (xs @ zs))" for zs
  proof (cases "zs = []")
    case True
    have "last xs \<in> set xs" using assms(1) by (intro last_in_set) auto
    then have "last xs \<noteq> 13" using assms(3) by auto
    then show ?thesis using True assms(1) by (simp add: strip_cr_def)
  next
    case False
    then have "1 \<le> length zs" by (cases zs) auto
    then show ?thesis using assms(1) by (simp add: strip_cr_def)
  qed
  show ?thesis unfolding bufio_ReadLine_def Let_def d w using s assms(1) by simp
qed

lemma SSH_harmless: "harmless m (SSH_sniff m r)"
proof (cases "string_of_bytes (take 8 (concat r)) = ssh_prefix")
  case True
  note b = ssh_prefix_bytes [OF True]
  from ReadLine_prefix [OF b, of "drop 8 (concat r)"] have "8 \<le> length (bufio_ReadLine (concat r))"
    by (simp only: append_take_drop_id)
  then show ?thesis by (simp add: SSH_sniff_def Let_def)
next
  case False
  have "length (take 8 (concat r)) < 8" if "string_of_bytes (take 8 (concat r)) = take (length (take 8 (concat r))) ssh_prefix"
    using False that by (cases "8 \<le> length (concat r)") (auto simp: ssh_prefix_def)
  then show ?thesis by (auto simp: SSH_sniff_def Let_def)
qed

lemma DomainNameQuery_harmless: "harmless m (DomainNameQuery_sniff S m packet)"
  by (auto simp: DomainNameQuery_sniff_def u16_at_def byte_at_def split: option.split sum.split)

lemma stream_sniffer_harmless: "harmless m (run_stream_sniffer S s m r)"
proof (cases s)
  case StreamDomainNameQuery
  then show ?thesis
    by (auto simp: run_stream_sniffer_def StreamDomainNameQuery_sniff_def Let_def DomainNameQuery_harmless
        split: option.split intro!: harmless_with_bytes)
next
  case RDP
  then show ?thesis by (auto simp: run_stream_sniffer_def RDP_sniff_def intro!: harmless_with_bytes)
qed (auto simp: run_stream_sniffer_def TLSClientHello_sniff_def HTTPHost_sniff_def BitTorrent_sniff_def Let_def
      SSH_harmless split: tls_result.split http_request.split prod.split intro!: harmless_with_bytes)

end
