(* ===== verification/Sniff_Patience.thy ===== *)
theory Sniff_Patience
  imports Sniff_Facts
begin

text \<open>
  Stream sniffers on data that is still arriving: a sniffer that recognises a stream never refuses a
  beginning of it, it asks for more. What this gives for \<open>PeekStream\<close>.
\<close>

section \<open>Patient parsers\<close>

definition waits :: "sniff_result \<Rightarrow> bool" where
  "waits r = (case r of Inl e \<Rightarrow> False | Inr (e, m) \<Rightarrow> e = None \<or> e = Some NeedMoreData)"

definition accepts :: "sniff_result \<Rightarrow> bool" where
  "accepts r = (case r of Inl e \<Rightarrow> False | Inr (e, m) \<Rightarrow> e = None)"

definition patient :: "(byte list \<Rightarrow> sniff_result) \<Rightarrow> bool" where
  "patient f = (\<forall>p q. accepts (f (p @ q)) \<longrightarrow> waits (f p))"

lemma accepts_simps [simp]:
  "\<not> accepts (failed er m)" "accepts (found pr m)" "accepts (Inr (None, m))"
  by (simp_all add: accepts_def failed_def found_def)

lemma waits_simps [simp]:
  "waits (failed NeedMoreData m)" "waits (found pr m)" "waits (Inr (None, m))" "\<not> waits (failed ErrInvalid m)"
  by (simp_all add: waits_def failed_def found_def)

lemma accepts_waits: "accepts r \<Longrightarrow> waits r"
  by (auto simp: accepts_def waits_def split: sum.splits)

lemma read_full_single: "read_full n [d] = (if n \<le> length d then Some (take n d, [drop n d]) else None)"
proof (induction n arbitrary: d)
  case (Suc n)
  then show ?case by (cases d) auto
qed simp

lemma read_once_single: "read_once n [d] = (if d = [] then ([], True) else (take n d, False))"
  by (cases d) simp_all

lemma with_bytes_single:
  "with_bytes n [d] m f = (if n \<le> length d then f (take n d) [drop n d] else failed NeedMoreData m)"
  by (simp add: with_bytes_def read_full_single)

lemma patient_with_bytes:
  assumes "\<And>xs. patient (\<lambda>d. f xs [d])"
  shows "patient (\<lambda>d. with_bytes n [d] m f)"
proof -
  have "waits (f (take n p) [drop n p])" if "accepts (f (take n (p @ q)) [drop n (p @ q)])" "n \<le> length p" for p q
    using assms [of "take n p"] that unfolding patient_def by simp blast
  then show ?thesis unfolding patient_def with_bytes_single by auto
qed

lemma patient_if: "(\<not> c \<Longrightarrow> patient f) \<Longrightarrow> patient (\<lambda>d. if c then failed er m else f d)"
  by (auto simp: patient_def)

lemma patient_found: "patient (\<lambda>d. found pr m)"
  by (simp add: patient_def)

section \<open>The sniffers\<close>

lemma RDP_patient: "patient (\<lambda>d. RDP_sniff m [d])"
  unfolding RDP_sniff_def by (intro patient_with_bytes patient_if patient_found)

lemma BitTorrent_patient: "patient (\<lambda>d. BitTorrent_sniff m [d])"
proof -
  let ?g = "\<lambda>d. let (got, eof) = read_once 19 [d] in
         if string_of_bytes got \<noteq> take (length got) bittorrent_header then failed ErrInvalid m
         else if eof then failed NeedMoreData m
         else if length got < 19 then failed NeedMoreData m
         else found ''bittorrent'' m"
  have "waits (?g p)" if "accepts (?g (p @ q))" for p q
  proof -
    from that have "string_of_bytes (take 19 (p @ q)) = take (length (take 19 (p @ q))) bittorrent_header"
      by (auto simp: read_once_single split: if_splits)
    then have "take (length p) (string_of_bytes (take 19 (p @ q))) = take (length p) (take (length (take 19 (p @ q))) bittorrent_header)"
      by simp
    then have "string_of_bytes (take 19 p) = take (length (take 19 p)) bittorrent_header"
      by (simp add: string_of_bytes_def take_map min_def split: if_splits)
    then show ?thesis by (simp add: read_once_single) (simp add: string_of_bytes_def)
  qed
  then have "patient ?g" unfolding patient_def by blast
  then show ?thesis unfolding BitTorrent_sniff_def by (intro patient_with_bytes patient_if)
qed

lemma SSH_patient: "patient (\<lambda>d. SSH_sniff m [d])"
proof -
  have "waits (SSH_sniff m [p])" if "accepts (SSH_sniff m [p @ q])" for p q
  proof -
    from that have "string_of_bytes (take 8 (p @ q)) = take (length (take 8 (p @ q))) ssh_prefix"
      unfolding SSH_sniff_def Let_def by (auto simp del: take_append split: if_splits)
    then have "take (length p) (string_of_bytes (take 8 (p @ q))) = take (length p) (take (length (take 8 (p @ q))) ssh_prefix)"
      by simp
    then have pre: "string_of_bytes (take 8 p) = take (length (take 8 p)) ssh_prefix"
      by (simp add: string_of_bytes_def take_map min_def split: if_splits)
    have "harmless m (SSH_sniff m [p])" by (rule SSH_harmless)
    with pre show ?thesis
      by (auto simp: SSH_sniff_def Let_def harmless_def slice_from_def split: if_splits)
  qed
  then show ?thesis unfolding patient_def by blast
qed

lemma verify_prefix: "verifyDNSQueryHeader (p @ q) = None \<Longrightarrow> verifyDNSQueryHeader p = None"
  by (simp add: verifyDNSQueryHeader_def nth_append split: if_splits)

lemma DNS_patient: "patient (\<lambda>d. StreamDomainNameQuery_sniff S m [d])"
proof -
  let ?g = "\<lambda>n d. case read_full n [d] of
         None \<Rightarrow> (case verifyDNSQueryHeader (concat [d]) of Some e \<Rightarrow> failed e m | None \<Rightarrow> failed NeedMoreData m)
       | Some (packet, r2) \<Rightarrow> DomainNameQuery_sniff S m packet"
  have "waits (?g n p)" if "accepts (?g n (p @ q))" for n p q
  proof (cases "n \<le> length p")
    case True
    with that show ?thesis by (auto simp: read_full_single accepts_waits split: if_splits)
  next
    case False
    from that have acc: "accepts (DomainNameQuery_sniff S m (take n (p @ q)))"
      by (auto simp: read_full_single split: if_splits option.splits)
    then have "verifyDNSQueryHeader (take n (p @ q)) = None"
      by (auto simp: DomainNameQuery_sniff_def split: if_splits option.splits)
    with False have "verifyDNSQueryHeader p = None"
      using verify_prefix [of p "take (n - length p) q"] by simp
    with False show ?thesis by (simp add: read_full_single)
  qed
  then have "patient (?g n)" for n unfolding patient_def by blast
  then show ?thesis unfolding StreamDomainNameQuery_sniff_def Let_def by (intro patient_with_bytes patient_if)
qed

end
