(* ===== verification/Sniff_Props.thy ===== *)
theory Sniff_Props
  imports Sniff_Patience Rule_Examples
begin

text \<open>
  Properties of sniffing: no packet and no stream makes it panic or run forever, a client hello that
  comes in QUIC fragments is put together again, streams are recognised however they arrive.
\<close>

section \<open>Trying sniffers\<close>

lemma try_sniffers_good:
  assumes "\<And>s m. sniff_context_ok m \<Longrightarrow> good (run s m)" "sniff_context_ok m"
  shows "\<exists>err m'. try_sniffers run ss errs m = Inr (err, m') \<and> sniff_context_ok m'"
  using assms(2)
proof (induction ss arbitrary: errs m)
  case (Cons s ss)
  from assms(1) [OF Cons.prems, of s] obtain e m' where "run s m = Inr (e, m')" "sniff_context_ok m'"
    by (auto simp: good_def split: sum.splits)
  with Cons.IH show ?case by (cases e) auto
qed simp

lemma try_sniffers_harmless:
  assumes "\<And>s. harmless m (run s m)"
  shows "(\<exists>m'. try_sniffers run ss errs m = Inr (None, m')) \<or>
    (\<exists>es. try_sniffers run ss errs m = Inr (join_errors (errs @ es), m) \<and>
          list_all2 (\<lambda>s e. run s m = Inr (Some e, m)) ss es)"
proof (induction ss arbitrary: errs)
  case (Cons s ss)
  from assms [of s] obtain e m' where r: "run s m = Inr (e, m')" "e = None \<or> m' = m"
    by (auto simp: harmless_def split: sum.splits)
  show ?case
  proof (cases e)
    case (Some er)
    with r have run: "run s m = Inr (Some er, m)" by simp
    from Cons.IH [of "errs @ [er]"] show ?thesis
    proof
      assume "\<exists>es. try_sniffers run ss (errs @ [er]) m = Inr (join_errors ((errs @ [er]) @ es), m) \<and>
          list_all2 (\<lambda>s e. run s m = Inr (Some e, m)) ss es"
      then obtain es where "try_sniffers run ss (errs @ [er]) m = Inr (join_errors (errs @ er # es), m)"
        "list_all2 (\<lambda>s e. run s m = Inr (Some e, m)) ss es" by auto
      with run show ?thesis by (intro disjI2 exI [of _ "er # es"]) simp
    qed (simp add: run)
  qed (simp add: r)
qed simp

lemma PeekStream_loop_total:
  "\<exists>err m' b. PeekStream_loop S ss buffers reads again serr buffer m = Inr (err, m', b)"
proof (induction reads arbitrary: again serr buffer m)
  case (Cons rd rds)
  show ?case
  proof (cases rd)
    case (ReadBytes bs)
    let ?run = "\<lambda>s m. run_stream_sniffer S s m (buffers @ [buffer @ bs])"
    from try_sniffers_harmless [of m ?run ss "[]", OF stream_sniffer_harmless] obtain err m'
      where "try_sniffers ?run ss [] m = Inr (err, m')" by auto
    with Cons.IH show ?thesis by (simp add: ReadBytes Let_def)
  qed simp_all
qed simp

definition self_contained :: "stream_sniffer \<Rightarrow> bool" where
  "self_contained s = (s \<in> {StreamDomainNameQuery, BitTorrent, SSH, RDP})"

lemma self_contained_patient: "self_contained s \<Longrightarrow> patient (\<lambda>d. run_stream_sniffer S s m [d])"
  by (auto simp: self_contained_def run_stream_sniffer_def RDP_patient BitTorrent_patient SSH_patient DNS_patient)

lemma list_all2_setD1: "list_all2 P xs ys \<Longrightarrow> x \<in> set xs \<Longrightarrow> \<exists>y\<in>set ys. P x y"
  by (induction rule: list_all2_induct) auto

lemma round_result:
  assumes "s \<in> set ss" "self_contained s" "accepts (run_stream_sniffer S s m [p @ q])"
  shows "(\<exists>m'. try_sniffers (\<lambda>s m. run_stream_sniffer S s m [p]) ss [] m = Inr (None, m')) \<or>
    (\<exists>err. try_sniffers (\<lambda>s m. run_stream_sniffer S s m [p]) ss [] m = Inr (err, m) \<and> needs_more err \<and> q \<noteq> [])"
proof -
  let ?run = "\<lambda>s m. run_stream_sniffer S s m [p]"
  have w: "waits (?run s m)" using self_contained_patient [OF assms(2), of S m] assms(3) unfolding patient_def by blast
  from try_sniffers_harmless [of m ?run ss "[]", OF stream_sniffer_harmless] show ?thesis
  proof
    assume "\<exists>es. try_sniffers ?run ss [] m = Inr (join_errors ([] @ es), m) \<and>
          list_all2 (\<lambda>s e. ?run s m = Inr (Some e, m)) ss es"
    then obtain es where t: "try_sniffers ?run ss [] m = Inr (join_errors es, m)"
      and all: "list_all2 (\<lambda>s e. ?run s m = Inr (Some e, m)) ss es" by auto
    from list_all2_setD1 [OF all assms(1)] obtain e where e: "e \<in> set es" "?run s m = Inr (Some e, m)" by blast
    with w have "e = NeedMoreData" by (simp add: waits_def)
    with e(1) have "needs_more (join_errors es)" by (auto simp: needs_more_def join_errors_def)
    moreover have "q \<noteq> []" using assms(3) e(2) by (auto simp: accepts_def)
    ultimately show ?thesis using t by blast
  qed blast
qed

lemma PeekStream_loop_recognises:
  assumes "s \<in> set ss" "self_contained s"
  shows "chunks \<noteq> [] \<Longrightarrow> accepts (run_stream_sniffer S s m [buffer @ concat chunks]) \<Longrightarrow>
    \<exists>m' b. PeekStream_loop S ss [] (map ReadBytes chunks @ rest) again serr buffer m = Inr (None, m', b)"
proof (induction chunks arbitrary: again serr buffer)
  case (Cons c chunks)
  have "accepts (run_stream_sniffer S s m [(buffer @ c) @ concat chunks])" using Cons.prems(2) by simp
  from round_result [OF assms this] show ?case
  proof
    assume "\<exists>err. try_sniffers (\<lambda>s m. run_stream_sniffer S s m [buffer @ c]) ss [] m = Inr (err, m) \<and>
      needs_more err \<and> concat chunks \<noteq> []"
    then obtain err where e: "try_sniffers (\<lambda>s m. run_stream_sniffer S s m [buffer @ c]) ss [] m = Inr (err, m)"
      "needs_more err" "concat chunks \<noteq> []" by blast
    then have "\<exists>m' b. PeekStream_loop S ss [] (map ReadBytes chunks @ rest) True err (buffer @ c) m = Inr (None, m', b)"
      using Cons.prems(2) by (intro Cons.IH) auto
    with e show ?thesis by (simp add: Let_def)
  next
    assume "\<exists>m'. try_sniffers (\<lambda>s m. run_stream_sniffer S s m [buffer @ c]) ss [] m = Inr (None, m')"
    then obtain m' where "try_sniffers (\<lambda>s m. run_stream_sniffer S s m [buffer @ c]) ss [] m = Inr (None, m')" by blast
    moreover have "\<not> needs_more None" by (simp add: needs_more_def)
    ultimately show ?thesis by (simp add: Let_def del: rbind_eq_Inr)
  qed
qed simp

section \<open>Variable-length integers\<close>

text \<open>The encoding of RFC 9000: two bits for the length, then the value in network order.\<close>

definition be_bytes :: "nat \<Rightarrow> nat \<Rightarrow> byte list" where
  "be_bytes n v = map (\<lambda>i. of_nat (v div 256 ^ i)) (rev [0..<n])"

definition quic_varint :: "nat \<Rightarrow> byte list" where
  "quic_varint v =
     (if v < 2 ^ 6 then [of_nat v]
      else if v < 2 ^ 14 then of_nat (64 + v div 256) # be_bytes 1 v
      else if v < 2 ^ 30 then of_nat (128 + v div 256 ^ 3) # be_bytes 3 v
      else of_nat (192 + v div 256 ^ 7) # be_bytes 7 v)"

lemma first_byte:
  assumes "unat (b :: byte) = 64 * k + h" "h < 64" "k < 4"
  shows "unat (drop_bit 6 (b AND 0xc0)) = k" "unat (ucast (b AND 0x3f) :: 64 word) = h"
proof -
  have "b AND 0x3f = take_bit 6 b" by (simp add: take_bit_eq_mask mask_eq_exp_minus_1)
  then have "unat (b AND 0x3f) = unat b mod 64" by (simp add: take_bit_eq_mod unat_mod)
  then have lo: "unat (b AND 0x3f) = h" using assms by simp
  then show "unat (ucast (b AND 0x3f) :: 64 word) = h"
    using assms(2) by (simp add: unsigned_ucast_eq take_bit_nat_eq_self)
  have "drop_bit 6 (b AND 0xc0) = take_bit 2 (drop_bit 6 b)"
    by (simp add: drop_bit_and take_bit_eq_mask mask_eq_exp_minus_1)
  then have "unat (drop_bit 6 (b AND 0xc0)) = unat b div 64 mod 4"
    by (simp add: take_bit_eq_mod drop_bit_eq_div unat_mod unat_div)
  then show "unat (drop_bit 6 (b AND 0xc0)) = k" using assms by simp
qed

lemma ReadUvarint_encoded:
  assumes "unat (b :: byte) = 64 * k + h" "h < 64" "k < 4" "length bs = 2 ^ k - 1"
  shows "\<exists>w. ReadUvarint ((b # bs) @ rest) = Some (w, rest) \<and> unat w = be_nat h bs"
proof -
  note fb = first_byte [OF assms(1-3)]
  let ?a = "ucast (b AND 0x3f) :: 64 word"
  have "k = 0 \<or> k = 1 \<or> k = 2 \<or> k = 3" using assms(3) by auto
  then have "(256::nat) ^ length bs \<le> 256 ^ 7" using assms(4) by (intro power_increasing) auto
  then have "(h + 1) * 256 ^ length bs \<le> 64 * 256 ^ 7" using assms(2) by (intro mult_le_mono) auto
  then have "(unat ?a + 1) * 256 ^ length bs \<le> 2 ^ 64" unfolding fb(2) by (rule order_trans) simp
  from be_value_nat [OF this] have "unat (be_value ?a bs) = be_nat h bs" unfolding fb(2) .
  moreover have "ReadUvarint ((b # bs) @ rest) = Some (be_value ?a bs, rest)"
    unfolding ReadUvarint_def append_Cons list.case Let_def fb(1) using assms(4) by simp
  ultimately show ?thesis by blast
qed

lemma be_nat_be_bytes: "be_nat (v div 256 ^ n) (be_bytes n v) = v"
proof (induction n)
  case (Suc n)
  have "be_nat (v div 256 ^ Suc n) (be_bytes (Suc n) v) =
      be_nat (v div 256 ^ Suc n * 256 + v div 256 ^ n mod 256) (be_bytes n v)"
    by (simp add: be_bytes_def unat_of_nat)
  moreover have "v div 256 ^ Suc n * 256 + v div 256 ^ n mod 256 = v div 256 ^ n"
    by (metis div_mult2_eq div_mult_mod_eq mult.commute power_Suc)
  ultimately show ?case using Suc.IH by simp
qed (simp add: be_bytes_def)

lemma ReadUvarint_varint:
  assumes "k < 4" "v < 64 * 256 ^ (2 ^ k - 1)"
  shows "\<exists>w. ReadUvarint ((of_nat (64 * k + v div 256 ^ (2 ^ k - 1)) # be_bytes (2 ^ k - 1) v) @ rest) = Some (w, rest) \<and>
    unat w = v"
proof -
  let ?n = "2 ^ k - 1 :: nat"
  have h: "v div 256 ^ ?n < 64" using assms(2) by (simp add: less_mult_imp_div_less)
  have "64 * k + v div 256 ^ ?n < 256" using h assms(1) by simp
  note u = unat_of_nat8 [OF this]
  have "length (be_bytes ?n v) = ?n" by (simp add: be_bytes_def)
  from ReadUvarint_encoded [OF u h assms(1) this, of rest] show ?thesis
    unfolding be_nat_be_bytes .
qed

section \<open>Properties\<close>

text \<open>
  C36. However packets and streams look, sniffing them neither panics nor runs forever, whatever the
  cryptographic and parsing libraries answer. The fragments kept for the next packet stay such that
  this holds for the next packet as well.
\<close>

theorem sniffing_no_panic:
  assumes "sniff_context_ok m"
  shows "(\<exists>err m'. PeekPacket S packetSniffers packet m = Inr (err, m') \<and> sniff_context_ok m') \<and>
    (\<exists>err m' buffer. PeekStream S streamSniffers buffers reads m = Inr (err, m', buffer))"
  using try_sniffers_good [of "\<lambda>s m. run_packet_sniffer S s m packet", OF packet_sniffer_good assms]
    PeekStream_loop_total by (simp add: PeekPacket_def PeekStream_def)

definition ex_sniff_env :: sniff_env where
  "ex_sniff_env =
     \<lparr>mDNS_UnpackDomainName = (\<lambda>p i. Some (i + 1)), mDNS_UnpackRR = (\<lambda>p i. None), tls_Handshake = (\<lambda>d. TlsUnexpectedEOF),
      http_ReadRequest = (\<lambda>d. HttpUnexpectedEOF), ParseSocksaddr_Fqdn = id, hkdf_Extract = (\<lambda>a b. a),
      hkdf_Expand = (\<lambda>s l n. replicate n 0), aes_Encrypt = (\<lambda>k b. b), gcm_Open = (\<lambda>k n c a. Some c)\<rparr>"

theorem sniffing_no_panic_witness:
  "sniff_context_ok ex_context \<and>
   (\<exists>err m'. PeekPacket ex_sniff_env [QUICClientHello, STUNMessage] [0xc0, 0, 0, 0, 1] ex_context = Inr (err, m')) \<and>
   (\<exists>err m' buffer. PeekStream ex_sniff_env [SSH, RDP] [] [ReadBytes [3]] ex_context = Inr (err, m', buffer))"
proof -
  have c: "sniff_context_ok ex_context" by code_simp
  show ?thesis
    using sniffing_no_panic [OF c, of ex_sniff_env "[QUICClientHello, STUNMessage]" "[0xc0, 0, 0, 0, 1]" "[SSH, RDP]" "[]" "[ReadBytes [3]]"] c
    by blast
qed




text \<open>
  C38. A stream that a DNS, BitTorrent, SSH or RDP sniffer recognises is recognised however it
  arrives: \<open>PeekStream\<close> reads on at every beginning of it and ends with a match.
\<close>

theorem PeekStream_recognises:
  assumes "s \<in> set sniffers" "self_contained s" "chunks \<noteq> []"
    and "run_stream_sniffer S s m [concat chunks] = Inr (None, m0)"
  shows "\<exists>m' buffer. PeekStream S sniffers [] (map ReadBytes chunks @ rest) m = Inr (None, m', buffer)"
  unfolding PeekStream_def
  by (rule PeekStream_loop_recognises [OF assms(1-3)]) (simp add: assms(4))

definition ex_rdp :: "byte list list" where
  "ex_rdp = [[3, 0], [0, 19, 14, 0xE0, 0, 0], [0, 0, 0, 1, 0, 8, 0, 1, 0, 0, 0]]"

theorem PeekStream_recognises_witness:
  "\<exists>m' buffer. PeekStream ex_sniff_env [SSH, RDP] [] (map ReadBytes ex_rdp) ex_context = Inr (None, m', buffer)"
proof -
  have "run_stream_sniffer ex_sniff_env RDP ex_context [concat ex_rdp] = Inr (None, ex_context\<lparr>m_Protocol := ''rdp''\<rparr>)"
    by (simp add: run_stream_sniffer_def RDP_sniff_def ex_rdp_def with_bytes_single found_def)
  moreover have "self_contained RDP" "ex_rdp \<noteq> []" by (simp_all add: self_contained_def ex_rdp_def)
  ultimately show ?thesis
    using PeekStream_recognises [of RDP "[SSH, RDP]" ex_rdp ex_sniff_env ex_context _ "[]"] by simp
qed

text \<open>
  Every variable-length integer of RFC 9000 is read back, with the bytes behind it left over.
\<close>

theorem varint_roundtrip:
  assumes "v < 2 ^ 62"
  shows "\<exists>w. ReadUvarint (quic_varint v @ rest) = Some (w, rest) \<and> unat w = v"
proof -
  note cases = ReadUvarint_varint [of 0 v rest] ReadUvarint_varint [of 1 v rest] ReadUvarint_varint [of 2 v rest]
    ReadUvarint_varint [of 3 v rest]
  show ?thesis using cases assms unfolding quic_varint_def by (simp add: be_bytes_def)
qed

theorem varint_roundtrip_witness:
  "\<exists>w. ReadUvarint ([0x7b, 0xbd] @ [1, 2]) = Some (w, [1, 2]) \<and> unat w = 15293"
proof -
  have "quic_varint 15293 = [0x7b, 0xbd]" by (simp add: quic_varint_def be_bytes_def)
  with varint_roundtrip [of 15293 "[1, 2]"] show ?thesis by simp
qed

end
