(* ===== verification/Expiring_Map.thy ===== *)
theory Expiring_Map
  imports SB_Prelude "HOL-Library.AList"
begin

text \<open>
  Maps whose entries expire (\<open>common/expiringmap/map.go\<close>): a hash map and a binary heap over the same
  entries, which know their position in the heap. An entry is known by its key, so the heap is a list
  of keys and the entry holds value, expiry and position. Times are nanoseconds; the lock makes every
  operation one step. \<open>container/heap\<close> is modelled as it is written.
\<close>

section \<open>Data\<close>

record 'v em_entry =
  en_value :: 'v
  en_expiresAt :: int
  en_index :: int

record ('k, 'v) em_map =
  em_entries :: "('k \<times> 'v em_entry) list"
  em_mapPeak :: nat
  em_queue :: "'k list"
  em_lifetime :: int
  em_closed :: bool

definition em_New :: "int \<Rightarrow> ('k, 'v) em_map res" where
  "em_New lifetime =
     (if lifetime \<le> 0 then Inl (E_Panic ''expiringmap: non-positive lifetime'')
      else Inr \<lparr>em_entries = [], em_mapPeak = 0, em_queue = [], em_lifetime = lifetime, em_closed = False\<rparr>)"

section \<open>The heap\<close>

definition expires :: "('k, 'v) em_map \<Rightarrow> nat \<Rightarrow> int" where
  "expires m i = (case map_of (em_entries m) (em_queue m ! i) of Some e \<Rightarrow> en_expiresAt e | None \<Rightarrow> 0)"

definition heap_Less :: "('k, 'v) em_map \<Rightarrow> nat \<Rightarrow> nat \<Rightarrow> bool" where
  "heap_Less m i j = (expires m i < expires m j)"

definition set_index :: "'k \<Rightarrow> int \<Rightarrow> ('k \<times> 'v em_entry) list \<Rightarrow> ('k \<times> 'v em_entry) list" where
  "set_index k i es = map (\<lambda>(k', e). (k', if k' = k then e\<lparr>en_index := i\<rparr> else e)) es"

definition heap_Swap :: "nat \<Rightarrow> nat \<Rightarrow> ('k, 'v) em_map \<Rightarrow> ('k, 'v) em_map" where
  "heap_Swap i j m =
     (let a = em_queue m ! i; b = em_queue m ! j in
      m\<lparr>em_queue := (em_queue m)[i := b, j := a],
        em_entries := set_index a (int j) (set_index b (int i) (em_entries m))\<rparr>)"

text \<open>\<open>entryHeap.Push\<close> and \<open>entryHeap.Pop\<close>: the last position.\<close>

definition entryHeap_Push :: "'k \<Rightarrow> ('k, 'v) em_map \<Rightarrow> ('k, 'v) em_map" where
  "entryHeap_Push k m =
     m\<lparr>em_entries := set_index k (int (length (em_queue m))) (em_entries m), em_queue := em_queue m @ [k]\<rparr>"

definition entryHeap_Pop :: "('k, 'v) em_map \<Rightarrow> 'k \<times> ('k, 'v) em_map" where
  "entryHeap_Pop m =
     (let k = last (em_queue m) in
      (k, m\<lparr>em_entries := set_index k (- 1) (em_entries m), em_queue := butlast (em_queue m)\<rparr>))"

function heap_up :: "nat \<Rightarrow> ('k, 'v) em_map \<Rightarrow> ('k, 'v) em_map" where
  "heap_up j m =
     (let i = (j - 1) div 2 in
      if i = j \<or> \<not> heap_Less m j i then m else heap_up i (heap_Swap i j m))"
  by pat_completeness auto
termination
  by (relation "measure fst") auto

text \<open>\<open>down\<close> answers where the element ends.\<close>

function heap_down :: "nat \<Rightarrow> nat \<Rightarrow> ('k, 'v) em_map \<Rightarrow> nat \<times> ('k, 'v) em_map" where
  "heap_down i n m =
     (let j1 = 2 * i + 1 in
      if j1 \<ge> n then (i, m)
      else
        let j2 = j1 + 1; j = (if j2 < n \<and> heap_Less m j2 j1 then j2 else j1) in
        if \<not> heap_Less m j i then (i, m) else heap_down j n (heap_Swap i j m))"
  by pat_completeness auto
termination
  by (relation "measure (\<lambda>(i, n, m). n - i)") (auto split: if_splits)

declare heap_up.simps [simp del] heap_down.simps [simp del]

definition heap_settle :: "nat \<Rightarrow> nat \<Rightarrow> ('k, 'v) em_map \<Rightarrow> ('k, 'v) em_map" where
  "heap_settle i n m = (case heap_down i n m of (i', m') \<Rightarrow> if i' > i then m' else heap_up i m')"

definition heap_Push :: "'k \<Rightarrow> ('k, 'v) em_map \<Rightarrow> ('k, 'v) em_map" where
  "heap_Push k m = (let m' = entryHeap_Push k m in heap_up (length (em_queue m') - 1) m')"

definition heap_Pop :: "('k, 'v) em_map \<Rightarrow> 'k \<times> ('k, 'v) em_map" where
  "heap_Pop m =
     (let n = length (em_queue m) - 1 in
      entryHeap_Pop (snd (heap_down 0 n (heap_Swap 0 n m))))"

definition heap_Remove :: "nat \<Rightarrow> ('k, 'v) em_map \<Rightarrow> 'k \<times> ('k, 'v) em_map" where
  "heap_Remove i m =
     (let n = length (em_queue m) - 1 in
      entryHeap_Pop (if n \<noteq> i then heap_settle i n (heap_Swap i n m) else m))"

definition heap_Fix :: "nat \<Rightarrow> ('k, 'v) em_map \<Rightarrow> ('k, 'v) em_map" where
  "heap_Fix i m = heap_settle i (length (em_queue m)) m"

section \<open>The map\<close>

text \<open>\<open>compact\<close> rebuilds the hash map with the same entries.\<close>

definition em_compact :: "('k, 'v) em_map \<Rightarrow> ('k, 'v) em_map" where
  "em_compact m =
     (let remaining = length (em_entries m) in
      if remaining = 0 then m\<lparr>em_entries := [], em_mapPeak := 0\<rparr>
      else if em_mapPeak m < 1024 \<or> remaining > em_mapPeak m div 4 then m
      else m\<lparr>em_mapPeak := remaining\<rparr>)"

definition em_remove :: "'k \<Rightarrow> 'v em_entry \<Rightarrow> ('k, 'v) em_map \<Rightarrow> ('k, 'v) em_map" where
  "em_remove k e m =
     (let m' = snd (heap_Remove (nat (en_index e)) m) in
      em_compact (m'\<lparr>em_entries := AList.delete k (em_entries m')\<rparr>))"

definition em_storeIf ::
  "int \<Rightarrow> 'k \<Rightarrow> 'v \<Rightarrow> ('v option \<Rightarrow> bool) \<Rightarrow> ('k, 'v) em_map \<Rightarrow> bool \<times> ('k, 'v) em_map" where
  "em_storeIf now key val allow m =
     (if em_closed m then (False, m)
      else
        let (item, m1) = (case map_of (em_entries m) key of
              None \<Rightarrow> (None, m)
            | Some e \<Rightarrow> if en_expiresAt e \<le> now then (None, em_remove key e m) else (Some e, m)) in
        if \<not> allow (map_option en_value item) then (False, m1)
        else case item of
          Some e \<Rightarrow>
            (True, heap_Fix (nat (en_index e))
               (m1\<lparr>em_entries := AList.update key (e\<lparr>en_value := val, en_expiresAt := now + em_lifetime m\<rparr>) (em_entries m1)\<rparr>))
        | None \<Rightarrow>
            let es = AList.update key \<lparr>en_value = val, en_expiresAt = now + em_lifetime m, en_index = 0\<rparr> (em_entries m1) in
            (True, heap_Push key (m1\<lparr>em_entries := es, em_mapPeak := max (em_mapPeak m1) (length es)\<rparr>)))"

definition em_Store :: "int \<Rightarrow> 'k \<Rightarrow> 'v \<Rightarrow> ('k, 'v) em_map \<Rightarrow> bool \<times> ('k, 'v) em_map" where
  "em_Store now key val m = em_storeIf now key val (\<lambda>_. True) m"

definition em_Load :: "int \<Rightarrow> 'k \<Rightarrow> ('k, 'v) em_map \<Rightarrow> 'v option \<times> ('k, 'v) em_map" where
  "em_Load now key m =
     (if em_closed m then (None, m)
      else case map_of (em_entries m) key of
        None \<Rightarrow> (None, m)
      | Some e \<Rightarrow> if en_expiresAt e \<le> now then (None, em_remove key e m) else (Some (en_value e), m))"

definition em_LoadAndRefresh :: "int \<Rightarrow> 'k \<Rightarrow> ('k, 'v) em_map \<Rightarrow> 'v option \<times> ('k, 'v) em_map" where
  "em_LoadAndRefresh now key m =
     (if em_closed m then (None, m)
      else case map_of (em_entries m) key of
        None \<Rightarrow> (None, m)
      | Some e \<Rightarrow>
          if en_expiresAt e \<le> now then (None, em_remove key e m)
          else (Some (en_value e),
                heap_Fix (nat (en_index e))
                  (m\<lparr>em_entries := AList.update key (e\<lparr>en_expiresAt := now + em_lifetime m\<rparr>) (em_entries m)\<rparr>)))"

definition em_Len :: "('k, 'v) em_map \<Rightarrow> nat" where
  "em_Len m = length (em_entries m)"

definition em_Close :: "('k, 'v) em_map \<Rightarrow> ('k, 'v) em_map" where
  "em_Close m = (if em_closed m then m else m\<lparr>em_closed := True, em_entries := [], em_mapPeak := 0, em_queue := []\<rparr>)"

lemma length_heap_Swap [simp]: "length (em_queue (heap_Swap i j m)) = length (em_queue m)"
  by (simp add: heap_Swap_def Let_def)

lemma length_heap_down: "length (em_queue (snd (heap_down i n m))) = length (em_queue m)"
proof (induction i n m rule: heap_down.induct)
  case (1 i n m)
  show ?case unfolding heap_down.simps [of i n m] Let_def using 1 by (simp add: Let_def)
qed

lemma length_heap_Pop: "length (em_queue (snd (heap_Pop m))) = length (em_queue m) - 1"
  by (simp add: heap_Pop_def entryHeap_Pop_def Let_def length_heap_down)

text \<open>The loop of \<open>removeExpired\<close>, which takes the front of the heap while it is expired.\<close>

function em_expire_loop :: "int \<Rightarrow> bool \<Rightarrow> ('k, 'v) em_map \<Rightarrow> bool \<times> ('k, 'v) em_map" where
  "em_expire_loop now removed m =
     (if em_queue m \<noteq> [] \<and> expires m 0 \<le> now
      then em_expire_loop now True
             ((snd (heap_Pop m))\<lparr>em_entries := AList.delete (fst (heap_Pop m)) (em_entries (snd (heap_Pop m)))\<rparr>)
      else (removed, m))"
  by pat_completeness auto
termination
  by (relation "measure (\<lambda>(now, removed, m). length (em_queue m))") (auto simp: length_heap_Pop)

declare em_expire_loop.simps [simp del]

definition em_removeExpired :: "int \<Rightarrow> ('k, 'v) em_map \<Rightarrow> ('k, 'v) em_map" where
  "em_removeExpired now m =
     (case em_expire_loop now False m of (removed, m') \<Rightarrow> if removed then em_compact m' else m')"

text \<open>
  One round of \<open>run\<close>, and how long it then waits: until the front expires, or for the next store.
\<close>

definition em_run_round :: "int \<Rightarrow> ('k, 'v) em_map \<Rightarrow> int option \<times> ('k, 'v) em_map" where
  "em_run_round now m =
     (if em_closed m then (None, m)
      else
        let m' = em_removeExpired now m in
        (if em_queue m' = [] then None else Some (max 0 (expires m' 0 - now)), m'))"

section \<open>Lemmas: the order of a heap\<close>

text \<open>
  The order only looks at the expiry times by position. \<open>up_pre\<close> and \<open>down_pre\<close> allow a violation
  above position \<open>j\<close>, or above and below it.
\<close>

definition par :: "nat \<Rightarrow> nat" where
  "par i = (i - 1) div 2"

definition heap_order :: "(nat \<Rightarrow> int) \<Rightarrow> nat \<Rightarrow> bool" where
  "heap_order E n = (\<forall>i<n. 0 < i \<longrightarrow> E (par i) \<le> E i)"

definition up_pre :: "(nat \<Rightarrow> int) \<Rightarrow> nat \<Rightarrow> nat \<Rightarrow> bool" where
  "up_pre E n j =
     ((\<forall>i<n. 0 < i \<longrightarrow> i \<noteq> j \<longrightarrow> E (par i) \<le> E i) \<and> (\<forall>i<n. 0 < i \<longrightarrow> par i = j \<longrightarrow> 0 < j \<longrightarrow> E (par j) \<le> E i))"

definition down_pre :: "(nat \<Rightarrow> int) \<Rightarrow> nat \<Rightarrow> nat \<Rightarrow> bool" where
  "down_pre E n j =
     ((\<forall>i<n. 0 < i \<longrightarrow> i \<noteq> j \<longrightarrow> par i \<noteq> j \<longrightarrow> E (par i) \<le> E i) \<and>
      (\<forall>i<n. 0 < i \<longrightarrow> par i = j \<longrightarrow> 0 < j \<longrightarrow> E (par j) \<le> E i))"

lemma par_less: "0 < i \<Longrightarrow> par i < i"
  by (simp add: par_def)

lemma par_child: "0 < i \<Longrightarrow> par i = j \<longleftrightarrow> i = 2 * j + 1 \<or> i = 2 * j + 2"
  unfolding par_def by auto

lemma up_pre_step:
  assumes "up_pre E n j" "0 < j" "E j < E (par j)"
  shows "up_pre (E(par j := E j, j := E (par j))) n (par j)"
proof -
  have e: "E (par i) \<le> E i" if "i < n" "0 < i" "i \<noteq> j" for i using assms(1) that by (simp add: up_pre_def)
  have c: "E (par j) \<le> E i" if "i < n" "0 < i" "par i = j" for i using assms(1,2) that by (simp add: up_pre_def)
  have p: "par j < j" "par j \<noteq> j" using par_less [OF assms(2)] by auto
  let ?E = "E(par j := E j, j := E (par j))"
  have "?E (par i) \<le> ?E i" if i: "i < n" "0 < i" "i \<noteq> par j" for i
  proof (cases "i = j")
    case False
    then have "?E i = E i" using i(3) by simp
    then show ?thesis using e [OF i(1,2) False] c [OF i(1,2)] assms(3) by (auto simp: p)
  qed (use assms(3) p in simp)
  moreover have "?E (par (par j)) \<le> ?E i" if i: "i < n" "0 < i" "par i = par j" "0 < par j" for i
  proof -
    have pp: "par (par j) < par j" by (rule par_less [OF i(4)])
    have j: "j < n \<or> i \<noteq> j" using i(1) by auto
    have "par j < n" using par_less [OF i(2)] i(1,3) by simp
    then have "E (par (par j)) \<le> E (par j)" using e [OF _ i(4)] p by simp
    moreover have "E (par j) \<le> ?E i"
      using e [OF i(1,2)] i(3) p par_less [OF i(2)] by (cases "i = j") auto
    ultimately show ?thesis using pp p by simp
  qed
  ultimately show ?thesis by (simp add: up_pre_def)
qed

lemma up_pre_done:
  assumes "up_pre E n j" "j = 0 \<or> E (par j) \<le> E j"
  shows "heap_order E n"
  using assms unfolding up_pre_def heap_order_def by (metis less_irrefl)

definition min_child :: "(nat \<Rightarrow> int) \<Rightarrow> nat \<Rightarrow> nat \<Rightarrow> nat" where
  "min_child E n i = (if 2 * i + 2 < n \<and> E (2 * i + 2) < E (2 * i + 1) then 2 * i + 2 else 2 * i + 1)"

lemma min_child_facts:
  assumes "2 * i + 1 < n"
  shows "min_child E n i < n" "par (min_child E n i) = i" "0 < min_child E n i" "i < min_child E n i"
    "0 < x \<Longrightarrow> x < n \<Longrightarrow> par x = i \<Longrightarrow> E (min_child E n i) \<le> E x"
proof -
  show "min_child E n i < n" "0 < min_child E n i" "i < min_child E n i" using assms by (auto simp: min_child_def)
  show "par (min_child E n i) = i" by (simp add: min_child_def par_def)
  show "E (min_child E n i) \<le> E x" if "0 < x" "x < n" "par x = i"
  proof -
    from that(1,3) have "x = 2 * i + 1 \<or> x = 2 * i + 2" by (simp add: par_child)
    then show ?thesis using that(2) by (auto simp: min_child_def)
  qed
qed

lemma down_step:
  assumes "down_pre E n i" "2 * i + 1 < n" "E (min_child E n i) < E i"
  defines "j \<equiv> min_child E n i"
  shows "down_pre (E(i := E j, j := E i)) n j" "0 < x \<Longrightarrow> x < n \<Longrightarrow> x = j \<Longrightarrow> (E(i := E j, j := E i)) (par x) \<le> (E(i := E j, j := E i)) x"
proof -
  note f = min_child_facts [OF assms(2), where E = E, folded j_def]
  have e: "E (par x) \<le> E x" if "x < n" "0 < x" "x \<noteq> i" "par x \<noteq> i" for x using assms(1) that by (simp add: down_pre_def)
  have c: "E (par i) \<le> E x" if "x < n" "0 < x" "par x = i" "0 < i" for x using assms(1) that by (simp add: down_pre_def)
  have ij: "i \<noteq> j" "E j < E i" using f(4) assms(3) j_def by auto
  let ?E = "E(i := E j, j := E i)"
  have "?E (par x) \<le> ?E x" if x: "x < n" "0 < x" "x \<noteq> j" "par x \<noteq> j" for x
  proof (cases "x = i")
    case True
    then have "par x \<noteq> i" "par x \<noteq> j" using par_less [OF x(2)] x(4) by auto
    then show ?thesis using c [OF f(1,3,2)] True x(2) ij by simp
  next
    case False
    show ?thesis using e [OF x(1,2) False] f(5) [OF x(2,1)] False x ij by (cases "par x = i") auto
  qed
  moreover have "?E (par j) \<le> ?E x" if x: "x < n" "0 < x" "par x = j" for x
    using e [OF x(1,2)] x f(2,4) ij par_less [OF x(2)] by auto
  ultimately show "down_pre ?E n j" by (simp add: down_pre_def)
  show "0 < x \<Longrightarrow> x < n \<Longrightarrow> x = j \<Longrightarrow> ?E (par x) \<le> ?E x" using f(2) ij by simp
qed

lemma down_stop:
  assumes "down_pre E n i" "2 * i + 1 < n \<Longrightarrow> E i \<le> E (min_child E n i)"
  shows "up_pre E n i"
proof -
  have "E (par x) \<le> E x" if x: "x < n" "0 < x" "x \<noteq> i" "par x = i" for x
  proof -
    have l: "2 * i + 1 < n" using x par_child [OF x(2)] by auto
    show ?thesis using min_child_facts(5) [OF l x(2,1,4)] assms(2) [OF l] x(4) by (meson order_trans)
  qed
  then show ?thesis using assms(1) unfolding up_pre_def down_pre_def by blast
qed

section \<open>Lemmas: swapping\<close>

lemma map_of_set_index:
  "map_of (set_index k i es) k' = (if k' = k then map_option (\<lambda>e. e\<lparr>en_index := i\<rparr>) (map_of es k) else map_of es k')"
  by (induction es) (auto simp: set_index_def)

lemma fst_set_index [simp]: "map fst (set_index k i es) = map fst es"
  by (induction es) (auto simp: set_index_def)

text \<open>What a map holds, by key, apart from positions.\<close>

definition content :: "('k, 'v) em_map \<Rightarrow> 'k \<Rightarrow> ('v \<times> int) option" where
  "content m k = map_option (\<lambda>e. (en_value e, en_expiresAt e)) (map_of (em_entries m) k)"

definition linked :: "('k, 'v) em_map \<Rightarrow> bool" where
  "linked m \<longleftrightarrow>
     distinct (map fst (em_entries m)) \<and> distinct (em_queue m) \<and> set (em_queue m) = fst ` set (em_entries m) \<and>
     (\<forall>i<length (em_queue m). \<exists>e. map_of (em_entries m) (em_queue m ! i) = Some e \<and> en_index e = int i)"

text \<open>Two maps that differ in the positions below \<open>n\<close> only.\<close>

definition shuffled :: "nat \<Rightarrow> ('k, 'v) em_map \<Rightarrow> ('k, 'v) em_map \<Rightarrow> bool" where
  "shuffled n m m' \<longleftrightarrow>
     content m' = content m \<and> map fst (em_entries m') = map fst (em_entries m) \<and>
     length (em_queue m') = length (em_queue m) \<and> set (em_queue m') = set (em_queue m) \<and>
     (\<forall>i. n \<le> i \<longrightarrow> em_queue m' ! i = em_queue m ! i) \<and>
     em_lifetime m' = em_lifetime m \<and> em_closed m' = em_closed m \<and> em_mapPeak m' = em_mapPeak m"

lemma shuffled_refl [simp]: "shuffled n m m"
  by (simp add: shuffled_def)

lemma shuffled_trans: "shuffled n m m' \<Longrightarrow> shuffled n m' m'' \<Longrightarrow> shuffled n m m''"
  by (simp add: shuffled_def)

lemma expires_content:
  "expires m i = (case content m (em_queue m ! i) of Some (v, t) \<Rightarrow> t | None \<Rightarrow> 0)"
  by (simp add: expires_def content_def split: option.split)

lemma heap_Swap_shuffled:
  assumes "i < n" "j < n" "n \<le> length (em_queue m)"
  shows "shuffled n m (heap_Swap i j m)"
proof -
  have "content (heap_Swap i j m) = content m"
    by (rule ext) (auto simp: content_def heap_Swap_def Let_def map_of_set_index option.map_comp comp_def)
  moreover have "set (em_queue (heap_Swap i j m)) = set (em_queue m)"
    using assms by (simp add: heap_Swap_def Let_def set_swap)
  ultimately show ?thesis using assms by (auto simp: shuffled_def heap_Swap_def Let_def)
qed

lemma heap_Swap_linked:
  assumes "i < length (em_queue m)" "j < length (em_queue m)" "linked m"
  shows "linked (heap_Swap i j m)"
proof -
  let ?q = "em_queue m" and ?m = "heap_Swap i j m"
  have d: "distinct ?q" and l: "\<And>x. x < length ?q \<Longrightarrow> \<exists>e. map_of (em_entries m) (?q ! x) = Some e \<and> en_index e = int x"
    using assms(3) by (auto simp: linked_def)
  have "\<exists>e. map_of (em_entries ?m) (em_queue ?m ! x) = Some e \<and> en_index e = int x" if x: "x < length ?q" for x
  proof -
    have q: "em_queue ?m ! x = (if x = j then ?q ! i else if x = i then ?q ! j else ?q ! x)"
      using x assms(1,2) by (simp add: heap_Swap_def Let_def nth_list_update)
    have eq: "?q ! x = ?q ! y \<longleftrightarrow> x = y" if "y < length ?q" for y using d x that by (simp add: nth_eq_iff_index_eq)
    show ?thesis
      unfolding q using l [OF x] l [OF assms(1)] l [OF assms(2)] eq [OF assms(1)] eq [OF assms(2)] nth_eq_iff_index_eq [OF d assms(1,2)]
      by (auto simp: heap_Swap_def Let_def map_of_set_index)
  qed
  moreover have "length (em_queue ?m) = length ?q" "distinct (em_queue ?m)" "set (em_queue ?m) = set ?q"
    using assms by (simp_all add: heap_Swap_def Let_def linked_def set_swap distinct_swap)
  moreover have "map fst (em_entries ?m) = map fst (em_entries m)" by (simp add: heap_Swap_def Let_def)
  ultimately show ?thesis using assms(3) unfolding linked_def by (metis list.set_map)
qed

lemma expires_Swap:
  assumes "i < length (em_queue m)" "j < length (em_queue m)"
  shows "expires (heap_Swap i j m) = (expires m)(i := expires m j, j := expires m i)"
proof (rule ext)
  fix x
  have c: "content (heap_Swap i j m) = content m"
    using heap_Swap_shuffled [OF assms order_refl] by (simp add: shuffled_def)
  show "expires (heap_Swap i j m) x = ((expires m)(i := expires m j, j := expires m i)) x"
    unfolding expires_content c using assms by (auto simp: heap_Swap_def Let_def nth_list_update)
qed

section \<open>Lemmas: moving elements\<close>

lemma heap_up_ok:
  assumes "j < n" "n \<le> length (em_queue m)" "linked m" "up_pre (expires m) n j"
  shows "linked (heap_up j m) \<and> shuffled n m (heap_up j m) \<and> heap_order (expires (heap_up j m)) n"
  using assms
proof (induction j m rule: heap_up.induct)
  case (1 j m)
  show ?case
  proof (cases "par j = j \<or> \<not> heap_Less m j (par j)")
    case True
    then have "heap_up j m = m" unfolding heap_up.simps [of j m] Let_def par_def by auto
    moreover have "heap_order (expires m) n"
      using 1(5) True par_less [of j] by (intro up_pre_done [of _ n j]) (auto simp: heap_Less_def)
    ultimately show ?thesis using 1 by simp
  next
    case False
    then have up: "heap_up j m = heap_up (par j) (heap_Swap (par j) j m)"
      unfolding heap_up.simps [of j m] Let_def par_def by auto
    have j: "0 < j" using False by (cases "j = 0") (auto simp: par_def)
    have lt: "expires m j < expires m (par j)" using False by (simp add: heap_Less_def)
    have p: "par j < n" "j < length (em_queue m)" "par j < length (em_queue m)" using par_less [OF j] 1(2,3) by auto
    let ?m = "heap_Swap (par j) j m"
    have sh: "shuffled n m ?m" by (rule heap_Swap_shuffled [OF p(1) 1(2,3)])
    then have "n \<le> length (em_queue ?m)" using 1(3) by (simp add: shuffled_def)
    moreover have "linked ?m" by (rule heap_Swap_linked [OF p(3,2) 1(4)])
    moreover have "up_pre (expires ?m) n (par j)"
      unfolding expires_Swap [OF p(3,2)] by (rule up_pre_step [OF 1(5) j lt])
    ultimately have "linked (heap_up (par j) ?m) \<and> shuffled n ?m (heap_up (par j) ?m) \<and> heap_order (expires (heap_up (par j) ?m)) n"
      using 1(1) [of "par j"] False p(1) unfolding par_def by blast
    then show ?thesis unfolding up using shuffled_trans [OF sh] by blast
  qed
qed

text \<open>One step of \<open>down\<close>, with the child named.\<close>

lemma heap_down_step:
  "heap_down i n m =
     (if 2 * i + 1 < n \<and> expires m (min_child (expires m) n i) < expires m i
      then heap_down (min_child (expires m) n i) n (heap_Swap i (min_child (expires m) n i) m) else (i, m))"
  unfolding heap_down.simps [of i n m] by (simp add: Let_def heap_Less_def min_child_def)

text \<open>
  Where the element above is in order with the moved one, it stays in order below; at the start this
  need not be so, and then the element does not move.
\<close>

lemma heap_down_moving:
  assumes "i < n" "n \<le> length (em_queue m)" "linked m" "down_pre (expires m) n i"
  shows "linked (snd (heap_down i n m)) \<and> shuffled n m (snd (heap_down i n m)) \<and> i \<le> fst (heap_down i n m) \<and>
    (fst (heap_down i n m) = i \<longrightarrow> snd (heap_down i n m) = m \<and> up_pre (expires m) n i) \<and>
    (i < fst (heap_down i n m) \<or> i = 0 \<or> expires m (par i) \<le> expires m i \<longrightarrow> heap_order (expires (snd (heap_down i n m))) n)"
  using assms
proof (induction "n - i" arbitrary: i m rule: less_induct)
  case less
  let ?j = "min_child (expires m) n i"
  show ?case
  proof (cases "2 * i + 1 < n \<and> expires m ?j < expires m i")
    case True
    then have c: "2 * i + 1 < n" "expires m ?j < expires m i" by auto
    note f = min_child_facts [OF c(1), where E = "expires m"]
    let ?m = "heap_Swap i ?j m"
    have d: "heap_down i n m = heap_down ?j n ?m" unfolding heap_down_step [of i n m] using True by simp
    have b: "i < length (em_queue m)" "?j < length (em_queue m)" using less(2,3) f(1) by auto
    have sh: "shuffled n m ?m" by (rule heap_Swap_shuffled [OF less(2) f(1) less(3)])
    note st = down_step [OF less(5) c, folded expires_Swap [OF b]]
    have len: "n \<le> length (em_queue ?m)" using sh less(3) by (simp add: shuffled_def)
    have "n - ?j < n - i" using f(1,4) by simp
    from less(1) [OF this f(1) len heap_Swap_linked [OF b less(4)] st(1)]
    have ih: "linked (snd (heap_down ?j n ?m))" "shuffled n ?m (snd (heap_down ?j n ?m))" "?j \<le> fst (heap_down ?j n ?m)"
      "expires ?m (par ?j) \<le> expires ?m ?j \<Longrightarrow> heap_order (expires (snd (heap_down ?j n ?m))) n"
      by blast+
    show ?thesis unfolding d using ih(1,3) shuffled_trans [OF sh ih(2)] ih(4) [OF st(2) [OF f(3,1) refl]] f(4) by auto
  next
    case False
    then have d: "heap_down i n m = (i, m)" by (subst heap_down_step) (simp only: False if_False)
    have "up_pre (expires m) n i" using False by (intro down_stop [OF less(5)]) auto
    then show ?thesis using less(4) up_pre_done [of "expires m" n i] by (simp add: d)
  qed
qed

lemma heap_settle_ok:
  assumes "i < n" "n \<le> length (em_queue m)" "linked m" "down_pre (expires m) n i"
  shows "linked (heap_settle i n m) \<and> shuffled n m (heap_settle i n m) \<and> heap_order (expires (heap_settle i n m)) n"
proof -
  obtain i' m' where d: "heap_down i n m = (i', m')" by (cases "heap_down i n m")
  note h = heap_down_moving [OF assms, unfolded d, simplified]
  show ?thesis
  proof (cases "i < i'")
    case True
    then show ?thesis using h by (simp add: heap_settle_def d)
  next
    case False
    then have "m' = m" "up_pre (expires m) n i" using h by auto
    then show ?thesis using heap_up_ok [OF assms(1-3)] False by (simp add: heap_settle_def d)
  qed
qed

section \<open>Lemmas: the operations of a heap\<close>

definition em_ok :: "('k, 'v) em_map \<Rightarrow> bool" where
  "em_ok m \<longleftrightarrow> linked m \<and> heap_order (expires m) (length (em_queue m))"

lemma linkedD:
  assumes "linked m"
  shows "distinct (map fst (em_entries m))" "distinct (em_queue m)" "set (em_queue m) = fst ` set (em_entries m)"
    "i < length (em_queue m) \<Longrightarrow> \<exists>e. map_of (em_entries m) (em_queue m ! i) = Some e \<and> en_index e = int i"
  using assms by (auto simp: linked_def)

lemma linked_position:
  assumes "linked m" "map_of (em_entries m) k = Some e"
  obtains i where "i < length (em_queue m)" "em_queue m ! i = k" "en_index e = int i"
proof -
  have "k \<in> set (em_queue m)" using linkedD(3) [OF assms(1)] assms(2) by (auto dest: map_of_SomeD intro: rev_image_eqI)
  then obtain i where "i < length (em_queue m)" "em_queue m ! i = k" by (auto simp: in_set_conv_nth)
  then show ?thesis using that linkedD(4) [OF assms(1)] assms(2) by fastforce
qed

lemma down_pre_changed:
  assumes "heap_order E n" "i < n" "\<And>x. x < n \<Longrightarrow> x \<noteq> i \<Longrightarrow> E' x = E x"
  shows "down_pre E' n i"
proof -
  have e: "E (par x) \<le> E x" if "x < n" "0 < x" for x using assms(1) that by (simp add: heap_order_def)
  have p: "par x < n" if "x < n" "0 < x" for x using par_less [OF that(2)] that(1) by simp
  have "E' (par x) \<le> E' x" if "x < n" "0 < x" "x \<noteq> i" "par x \<noteq> i" for x
    using e [OF that(1,2)] assms(3) that p by simp
  moreover have "E' (par i) \<le> E' x" if x: "x < n" "0 < x" "par x = i" "0 < i" for x
  proof -
    have "E (par i) \<le> E i" "E i \<le> E x" using e [OF assms(2) x(4)] e [OF x(1,2)] x(3) by auto
    then show ?thesis using assms(3) [OF p [OF assms(2) x(4)]] assms(3) [OF x(1)] par_less [OF x(4)] par_less [OF x(2)] x(3) by auto
  qed
  ultimately show ?thesis by (simp add: down_pre_def)
qed

lemma heap_order_mono: "heap_order E n \<Longrightarrow> k \<le> n \<Longrightarrow> heap_order E k"
  by (simp add: heap_order_def)

lemma set_butlast_distinct: "distinct xs \<Longrightarrow> xs \<noteq> [] \<Longrightarrow> set (butlast xs) = set xs - {last xs}"
  by (induction xs rule: rev_induct) auto

text \<open>Taking the last position out, with its entry.\<close>

definition drop_last :: "('k, 'v) em_map \<Rightarrow> ('k, 'v) em_map" where
  "drop_last m =
     (case entryHeap_Pop m of (k, m') \<Rightarrow> m'\<lparr>em_entries := AList.delete k (em_entries m')\<rparr>)"

lemma drop_last_ok:
  assumes "linked m" "em_queue m \<noteq> []" "heap_order (expires m) (length (em_queue m) - 1)"
  shows "em_ok (drop_last m)" "content (drop_last m) = (content m)(last (em_queue m) := None)"
    "length (em_queue (drop_last m)) = length (em_queue m) - 1" "em_lifetime (drop_last m) = em_lifetime m"
    "em_closed (drop_last m) = em_closed m"
proof -
  let ?k = "last (em_queue m)" and ?m = "drop_last m" and ?q = "em_queue m"
  have q: "em_queue ?m = butlast ?q" by (simp add: drop_last_def entryHeap_Pop_def Let_def)
  have es: "em_entries ?m = AList.delete ?k (set_index ?k (- 1) (em_entries m))"
    by (simp add: drop_last_def entryHeap_Pop_def Let_def)
  have mo: "map_of (em_entries ?m) k = (if k = ?k then None else map_of (em_entries m) k)" for k
    unfolding es delete_conv' by (simp add: map_of_set_index)
  show c: "content ?m = (content m)(?k := None)" by (rule ext) (simp add: content_def mo)
  have nth: "em_queue ?m ! i = ?q ! i" "?q ! i \<noteq> ?k" if "i < length ?q - 1" for i
  proof -
    show "em_queue ?m ! i = ?q ! i" using that by (simp add: q nth_butlast)
    have "?k = ?q ! (length ?q - 1)" using assms(2) by (simp add: last_conv_nth)
    then show "?q ! i \<noteq> ?k" using that linkedD(2) [OF assms(1)] by (simp add: nth_eq_iff_index_eq)
  qed
  have "set (em_queue ?m) = set ?q - {?k}"
    unfolding q using set_butlast_distinct [OF linkedD(2) [OF assms(1)] assms(2)] .
  moreover have "map fst (em_entries ?m) = removeAll ?k (map fst (em_entries m))"
    unfolding es by (simp add: delete_keys)
  then have "fst ` set (em_entries ?m) = set (map fst (em_entries m)) - {?k}"
    by (metis list.set_map set_removeAll)
  ultimately have "set (em_queue ?m) = fst ` set (em_entries ?m)"
    using linkedD(3) [OF assms(1)] by simp
  moreover have "distinct (map fst (em_entries ?m))" "distinct (em_queue ?m)"
    unfolding q es using linkedD(1,2) [OF assms(1)] by (auto intro: distinct_delete distinct_butlast)
  moreover have "\<exists>e. map_of (em_entries ?m) (em_queue ?m ! i) = Some e \<and> en_index e = int i" if "i < length (em_queue ?m)" for i
    using that linkedD(4) [OF assms(1), of i] nth [of i] by (simp add: q mo)
  ultimately have l: "linked ?m" by (simp add: linked_def)
  have "expires ?m i = expires m i" if "i < length ?q - 1" for i
    unfolding expires_content c using nth [OF that] by simp
  then have "heap_order (expires ?m) (length ?q - 1)"
    using assms(3) unfolding heap_order_def by (metis less_trans par_less)
  then show "em_ok ?m" using l by (simp add: em_ok_def q)
  show "length (em_queue ?m) = length ?q - 1" "em_lifetime ?m = em_lifetime m" "em_closed ?m = em_closed m"
    by (simp_all add: q drop_last_def entryHeap_Pop_def Let_def)
qed

lemma shuffled_expires:
  "content m' = content m \<Longrightarrow> em_queue m' ! i = em_queue m ! i \<Longrightarrow> expires m' i = expires m i"
  by (simp add: expires_content)

text \<open>What \<open>heap.Remove\<close> does before it takes the last position.\<close>

lemma heap_Remove_ok:
  assumes "em_ok m" "i < length (em_queue m)"
  defines "n \<equiv> length (em_queue m) - 1"
  defines "m0 \<equiv> (if n \<noteq> i then heap_settle i n (heap_Swap i n m) else m)"
  shows "linked m0" "em_queue m0 \<noteq> []" "length (em_queue m0) = length (em_queue m)" "last (em_queue m0) = em_queue m ! i"
    "heap_order (expires m0) n" "content m0 = content m" "em_lifetime m0 = em_lifetime m" "em_closed m0 = em_closed m"
proof -
  have ok: "linked m" "heap_order (expires m) (length (em_queue m))" using assms(1) by (simp_all add: em_ok_def)
  have len: "length (em_queue m) = Suc n" using assms(2) n_def by simp
  have all: "linked m0 \<and> length (em_queue m0) = length (em_queue m) \<and> em_queue m0 ! n = em_queue m ! i \<and>
    heap_order (expires m0) n \<and> content m0 = content m \<and> em_lifetime m0 = em_lifetime m \<and> em_closed m0 = em_closed m"
  proof (cases "n = i")
    case True
    then show ?thesis using ok heap_order_mono [OF ok(2), of n] len by (simp add: m0_def)
  next
    case False
    let ?m = "heap_Swap i n m"
    have i: "i < n" "n < length (em_queue m)" using False assms(2) len by auto
    have sh: "shuffled (Suc n) m ?m" using i len by (intro heap_Swap_shuffled) auto
    have sw: "expires ?m = (expires m)(i := expires m n, n := expires m i)" by (rule expires_Swap [OF assms(2) i(2)])
    have "down_pre (expires ?m) n i"
      using i by (intro down_pre_changed [OF heap_order_mono [OF ok(2)]]) (auto simp: sw)
    then have st: "linked m0" "shuffled n ?m m0" "heap_order (expires m0) n"
      using heap_settle_ok [OF i(1) _ heap_Swap_linked [OF assms(2) i(2) ok(1)]] i(2) False by (simp_all add: m0_def)
    have "em_queue ?m ! n = em_queue m ! i" using i by (simp add: heap_Swap_def Let_def)
    then show ?thesis using st sh unfolding shuffled_def by simp
  qed
  show "linked m0" "length (em_queue m0) = length (em_queue m)" "heap_order (expires m0) n" "content m0 = content m"
    "em_lifetime m0 = em_lifetime m" "em_closed m0 = em_closed m" using all by auto
  show ne: "em_queue m0 \<noteq> []" using all len by auto
  show "last (em_queue m0) = em_queue m ! i" using all ne len by (simp add: last_conv_nth)
qed

lemma em_compact_eq: "\<exists>p. em_compact m = m\<lparr>em_mapPeak := p\<rparr>"
proof (cases "em_entries m = []")
  case True
  then have "em_compact m = m\<lparr>em_mapPeak := 0\<rparr>" by (cases m) (simp add: em_compact_def)
  then show ?thesis by blast
next
  case False
  have "m = m\<lparr>em_mapPeak := em_mapPeak m\<rparr>" by simp
  then show ?thesis using False unfolding em_compact_def Let_def by (metis length_0_conv)
qed

lemma expires_mapPeak [simp]: "expires (m\<lparr>em_mapPeak := p\<rparr>) = expires m"
  by (simp add: expires_def fun_eq_iff)

lemma mapPeak_irrelevant [simp]:
  "em_ok (m\<lparr>em_mapPeak := p\<rparr>) = em_ok m" "content (m\<lparr>em_mapPeak := p\<rparr>) = content m"
  by (simp_all add: em_ok_def linked_def content_def fun_eq_iff)

lemma em_remove_ok:
  assumes "em_ok m" "map_of (em_entries m) k = Some e"
  shows "em_ok (em_remove k e m)" "content (em_remove k e m) = (content m)(k := None)"
    "em_lifetime (em_remove k e m) = em_lifetime m" "em_closed (em_remove k e m) = em_closed m"
proof -
  from assms obtain i where i: "i < length (em_queue m)" "em_queue m ! i = k" "en_index e = int i"
    by (auto simp: em_ok_def elim: linked_position)
  define n where "n = length (em_queue m) - 1"
  define m0 where "m0 = (if n \<noteq> i then heap_settle i n (heap_Swap i n m) else m)"
  note r = heap_Remove_ok [OF assms(1) i(1), folded n_def, folded m0_def]
  have "heap_Remove i m = entryHeap_Pop m0" by (simp add: heap_Remove_def Let_def n_def m0_def)
  then have "(snd (heap_Remove i m))\<lparr>em_entries := AList.delete k (em_entries (snd (heap_Remove i m)))\<rparr> = drop_last m0"
    using r(4) i(2) by (simp add: drop_last_def entryHeap_Pop_def Let_def)
  then have "em_remove k e m = em_compact (drop_last m0)" using i(3) by (simp add: em_remove_def Let_def)
  then obtain p where c: "em_remove k e m = (drop_last m0)\<lparr>em_mapPeak := p\<rparr>" using em_compact_eq by metis
  have "heap_order (expires m0) (length (em_queue m0) - 1)" using r(3,5) n_def by simp
  note d = drop_last_ok [OF r(1,2) this]
  show "em_ok (em_remove k e m)" "content (em_remove k e m) = (content m)(k := None)"
    "em_lifetime (em_remove k e m) = em_lifetime m" "em_closed (em_remove k e m) = em_closed m"
    unfolding c using d r(4,6,7,8) i(2) by simp_all
qed

text \<open>A changed entry and \<open>heap.Fix\<close>.\<close>

lemma em_update_ok:
  assumes "em_ok m" "map_of (em_entries m) k = Some e" "en_index e' = en_index e"
  defines "m1 \<equiv> m\<lparr>em_entries := AList.update k e' (em_entries m)\<rparr>"
  shows "em_ok (heap_Fix (nat (en_index e)) m1)"
    "content (heap_Fix (nat (en_index e)) m1) = (content m)(k \<mapsto> (en_value e', en_expiresAt e'))"
    "em_lifetime (heap_Fix (nat (en_index e)) m1) = em_lifetime m" "em_closed (heap_Fix (nat (en_index e)) m1) = em_closed m"
proof -
  from assms(1,2) obtain i where i: "i < length (em_queue m)" "em_queue m ! i = k" "en_index e = int i"
    by (auto simp: em_ok_def elim: linked_position)
  have ok: "linked m" "heap_order (expires m) (length (em_queue m))" using assms(1) by (simp_all add: em_ok_def)
  have mo: "map_of (em_entries m1) = (map_of (em_entries m))(k \<mapsto> e')" by (simp add: m1_def update_conv')
  have q: "em_queue m1 = em_queue m" by (simp add: m1_def)
  have keys: "map fst (em_entries m1) = map fst (em_entries m)"
    using assms(2) by (auto simp: m1_def update_keys dest: map_of_SomeD intro: rev_image_eqI)
  have c: "content m1 = (content m)(k \<mapsto> (en_value e', en_expiresAt e'))"
    by (rule ext) (simp add: content_def mo)
  have "\<exists>x. map_of (em_entries m1) (em_queue m1 ! j) = Some x \<and> en_index x = int j" if "j < length (em_queue m1)" for j
    using linkedD(4) [OF ok(1), of j] that assms(2,3) by (auto simp: mo q)
  then have l: "linked m1" using ok(1) keys q unfolding linked_def by (metis list.set_map)
  have "expires m1 j = expires m j" if "j < length (em_queue m)" "j \<noteq> i" for j
  proof -
    have "em_queue m ! j \<noteq> k" using that i linkedD(2) [OF ok(1)] nth_eq_iff_index_eq by metis
    then show ?thesis by (simp add: expires_content c q)
  qed
  then have "down_pre (expires m1) (length (em_queue m1)) i" unfolding q by (rule down_pre_changed [OF ok(2) i(1)])
  from heap_settle_ok [OF _ order_refl l this] i(1)
  have s: "linked (heap_Fix i m1)" "shuffled (length (em_queue m1)) m1 (heap_Fix i m1)"
    "heap_order (expires (heap_Fix i m1)) (length (em_queue m1))" by (simp_all add: heap_Fix_def q)
  then show "em_ok (heap_Fix (nat (en_index e)) m1)" by (simp add: em_ok_def i(3) shuffled_def)
  show "content (heap_Fix (nat (en_index e)) m1) = (content m)(k \<mapsto> (en_value e', en_expiresAt e'))"
    using s(2) c by (simp add: i(3) shuffled_def)
  show "em_lifetime (heap_Fix (nat (en_index e)) m1) = em_lifetime m" "em_closed (heap_Fix (nat (en_index e)) m1) = em_closed m"
    using s(2) by (simp_all add: i(3) shuffled_def m1_def)
qed

text \<open>A new entry and \<open>heap.Push\<close>.\<close>

lemma em_push_ok:
  fixes e :: "'v em_entry" and p :: nat
  assumes "em_ok m" "map_of (em_entries m) k = None"
  defines "m1 \<equiv> m\<lparr>em_entries := AList.update k e (em_entries m), em_mapPeak := p\<rparr>"
  shows "em_ok (heap_Push k m1)" "content (heap_Push k m1) = (content m)(k \<mapsto> (en_value e, en_expiresAt e))"
    "em_lifetime (heap_Push k m1) = em_lifetime m" "em_closed (heap_Push k m1) = em_closed m"
proof -
  have ok: "linked m" "heap_order (expires m) (length (em_queue m))" using assms(1) by (simp_all add: em_ok_def)
  define m2 where "m2 = entryHeap_Push k m1"
  let ?n = "length (em_queue m)"
  have q: "em_queue m2 = em_queue m @ [k]" by (simp add: m2_def entryHeap_Push_def m1_def)
  have mo: "map_of (em_entries m2) = (map_of (em_entries m))(k \<mapsto> e\<lparr>en_index := int ?n\<rparr>)"
    by (rule ext) (simp add: m2_def entryHeap_Push_def m1_def map_of_set_index update_conv')
  have new: "k \<notin> fst ` set (em_entries m)" using assms(2) by (simp add: map_of_eq_None_iff)
  have keys: "map fst (em_entries m2) = map fst (em_entries m) @ [k]"
    using new by (simp add: m2_def entryHeap_Push_def m1_def update_keys)
  have c: "content m2 = (content m)(k \<mapsto> (en_value e, en_expiresAt e))" by (rule ext) (simp add: content_def mo)
  have nk: "k \<notin> set (em_queue m)" using new linkedD(3) [OF ok(1)] by simp
  have "\<exists>x. map_of (em_entries m2) (em_queue m2 ! j) = Some x \<and> en_index x = int j" if "j < length (em_queue m2)" for j
  proof (cases "j = ?n")
    case False
    then have j: "j < ?n" using that by (simp add: q)
    then have "em_queue m ! j \<noteq> k" using nk nth_mem by metis
    then show ?thesis using linkedD(4) [OF ok(1) j] j by (simp add: q mo nth_append)
  qed (simp add: q mo)
  moreover have "set (em_queue m2) = fst ` set (em_entries m2)"
    using linkedD(3) [OF ok(1)] keys unfolding q by (metis list.set_map set_append)
  ultimately have l: "linked m2" using linkedD(1,2) [OF ok(1)] nk new by (simp add: linked_def keys q)
  have same: "expires m2 j = expires m j" if "j < ?n" for j
  proof -
    have "em_queue m ! j \<noteq> k" using that nk nth_mem by metis
    then show ?thesis using that by (simp add: expires_content c q nth_append)
  qed
  have "up_pre (expires m2) (Suc ?n) ?n"
  proof -
    have "expires m2 (par i) \<le> expires m2 i" if "i < Suc ?n" "0 < i" "i \<noteq> ?n" for i
      using that ok(2) same par_less [OF that(2)] unfolding heap_order_def by simp
    moreover have "par i \<noteq> ?n" if "i < Suc ?n" "0 < i" for i using par_less [OF that(2)] that(1) by simp
    ultimately show ?thesis by (simp add: up_pre_def)
  qed
  from heap_up_ok [OF _ _ l this]
  have s: "linked (heap_up ?n m2)" "shuffled (Suc ?n) m2 (heap_up ?n m2)" "heap_order (expires (heap_up ?n m2)) (Suc ?n)"
    by (simp_all add: q)
  have "heap_Push k m1 = heap_up ?n m2" by (simp add: heap_Push_def Let_def m2_def [symmetric] q)
  then show "em_ok (heap_Push k m1)" "content (heap_Push k m1) = (content m)(k \<mapsto> (en_value e, en_expiresAt e))"
    "em_lifetime (heap_Push k m1) = em_lifetime m" "em_closed (heap_Push k m1) = em_closed m"
    using s c by (simp_all add: em_ok_def shuffled_def q) (simp_all add: m2_def entryHeap_Push_def m1_def)
qed

end
