(* ===== verification/Expiring_Map_Props.thy ===== *)
theory Expiring_Map_Props
  imports Expiring_Map
begin

text \<open>
  What an expiring map promises: an entry is seen for exactly its lifetime after it was last stored
  or refreshed, whenever expired entries are swept. \<open>timed_cache\<close> is the interface its users rely on.
\<close>

section \<open>Sweeping\<close>

definition unexpired :: "int \<Rightarrow> ('v \<times> int) option \<Rightarrow> ('v \<times> int) option" where
  "unexpired now x = (case x of Some (v, t) \<Rightarrow> if t \<le> now then None else Some (v, t) | None \<Rightarrow> None)"

lemma unexpired_simps [simp]:
  "unexpired now None = None"
  "t \<le> now \<Longrightarrow> unexpired now (Some (v, t)) = None"
  "now < t \<Longrightarrow> unexpired now (Some (v, t)) = Some (v, t)"
  by (simp_all add: unexpired_def)

lemma unexpired_later: "now \<le> t \<Longrightarrow> unexpired t (unexpired now x) = unexpired t x"
  by (auto simp: unexpired_def split: option.split)

lemma heap_min: "heap_order E n \<Longrightarrow> i < n \<Longrightarrow> E 0 \<le> E i"
proof (induction i rule: less_induct)
  case (less i)
  show ?case
  proof (cases "i = 0")
    case False
    then have "E 0 \<le> E (par i)" using less par_less [of i] by (intro less.IH) auto
    moreover have "E (par i) \<le> E i" using False less.prems by (simp add: heap_order_def)
    ultimately show ?thesis by simp
  qed simp
qed

lemma content_position:
  assumes "linked m" "content m k = Some (v, t)"
  obtains i where "i < length (em_queue m)" "em_queue m ! i = k" "expires m i = t"
proof -
  from assms(2) obtain e where e: "map_of (em_entries m) k = Some e" "en_expiresAt e = t" by (auto simp: content_def)
  from linked_position [OF assms(1) e(1)] obtain i where "i < length (em_queue m)" "em_queue m ! i = k" by blast
  then show ?thesis using that e by (simp add: expires_def)
qed

lemma position_content:
  assumes "linked m" "i < length (em_queue m)"
  obtains v where "content m (em_queue m ! i) = Some (v, expires m i)"
proof -
  from linkedD(4) [OF assms] obtain e where "map_of (em_entries m) (em_queue m ! i) = Some e" by blast
  then show ?thesis using that by (simp add: content_def expires_def)
qed

text \<open>One turn of the loop takes the front out.\<close>

lemma heap_Pop_ok:
  assumes "em_ok m" "em_queue m \<noteq> []"
  defines "m' \<equiv> (snd (heap_Pop m))\<lparr>em_entries := AList.delete (fst (heap_Pop m)) (em_entries (snd (heap_Pop m)))\<rparr>"
  shows "em_ok m'" "content m' = (content m)(em_queue m ! 0 := None)" "em_lifetime m' = em_lifetime m"
    "em_closed m' = em_closed m"
proof -
  let ?n = "length (em_queue m) - 1"
  let ?s = "heap_Swap 0 ?n m"
  define m0 where "m0 = snd (heap_down 0 ?n ?s)"
  have ok: "linked m" "heap_order (expires m) (length (em_queue m))" using assms(1) by (simp_all add: em_ok_def)
  have n: "0 < length (em_queue m)" "?n < length (em_queue m)" using assms(2) by auto
  have sl: "linked ?s" by (rule heap_Swap_linked [OF n ok(1)])
  have sh: "shuffled (Suc ?n) m ?s" using n by (intro heap_Swap_shuffled) auto
  have sq: "em_queue ?s ! ?n = em_queue m ! 0" using n by (simp add: heap_Swap_def Let_def)
  have all: "linked m0 \<and> shuffled ?n ?s m0 \<and> heap_order (expires m0) ?n"
  proof (cases "?n = 0")
    case True
    then have "m0 = ?s" unfolding m0_def by (subst heap_down_step) simp
    then show ?thesis using sl True by (simp add: heap_order_def)
  next
    case False
    have "expires ?s x = expires m x" if "x < ?n" "x \<noteq> 0" for x
      unfolding expires_Swap [OF n] using that by simp
    then have "down_pre (expires ?s) ?n 0"
      using False by (intro down_pre_changed [OF heap_order_mono [OF ok(2), of ?n]]) auto
    then show ?thesis using heap_down_moving [of 0 ?n ?s] False sl n unfolding m0_def by simp
  qed
  have len: "length (em_queue m0) = length (em_queue m)" using all by (simp add: shuffled_def)
  have ne: "em_queue m0 \<noteq> []" using len assms(2) by auto
  have "em_queue m0 ! ?n = em_queue m ! 0" using all sq by (simp add: shuffled_def)
  then have last: "last (em_queue m0) = em_queue m ! 0" using ne len by (simp add: last_conv_nth)
  have m': "m' = drop_last m0" by (simp add: m'_def heap_Pop_def Let_def m0_def drop_last_def case_prod_beta)
  note d = drop_last_ok [of m0, OF _ ne]
  show "em_ok m'" "content m' = (content m)(em_queue m ! 0 := None)" "em_lifetime m' = em_lifetime m" "em_closed m' = em_closed m"
    unfolding m' using d all sh len last by (simp_all add: shuffled_def)
qed

lemma em_expire_loop_ok:
  assumes "em_ok m"
  shows "em_ok (snd (em_expire_loop now removed m))"
    "content (snd (em_expire_loop now removed m)) = (\<lambda>k. unexpired now (content m k))"
    "em_lifetime (snd (em_expire_loop now removed m)) = em_lifetime m" "em_closed (snd (em_expire_loop now removed m)) = em_closed m"
proof -
  have "em_ok (snd (em_expire_loop now removed m)) \<and>
    content (snd (em_expire_loop now removed m)) = (\<lambda>k. unexpired now (content m k)) \<and>
    em_lifetime (snd (em_expire_loop now removed m)) = em_lifetime m \<and> em_closed (snd (em_expire_loop now removed m)) = em_closed m"
    using assms
  proof (induction now removed m rule: em_expire_loop.induct)
    case (1 now removed m)
    have ok: "linked m" "heap_order (expires m) (length (em_queue m))" using 1(2) by (simp_all add: em_ok_def)
    show ?case
    proof (cases "em_queue m \<noteq> [] \<and> expires m 0 \<le> now")
      case True
      let ?m = "(snd (heap_Pop m))\<lparr>em_entries := AList.delete (fst (heap_Pop m)) (em_entries (snd (heap_Pop m)))\<rparr>"
      have step: "em_expire_loop now removed m = em_expire_loop now True ?m" by (subst em_expire_loop.simps) (simp only: True if_True simp_thms)
      note p = heap_Pop_ok [OF 1(2) conjunct1 [OF True]]
      from True obtain v where "content m (em_queue m ! 0) = Some (v, expires m 0)"
        using position_content [OF ok(1), of 0] by auto
      then have "(\<lambda>k. unexpired now (content ?m k)) = (\<lambda>k. unexpired now (content m k))"
        unfolding p(2) using True by (auto simp: fun_eq_iff)
      then show ?thesis unfolding step using 1(1) [OF True p(1)] p(3,4) by simp
    next
      case False
      have step: "em_expire_loop now removed m = (removed, m)" by (subst em_expire_loop.simps) (simp only: False if_False)
      have "unexpired now (content m k) = content m k" for k
      proof (cases "content m k")
        case (Some p)
        obtain v t where p: "p = (v, t)" by (cases p)
        with Some obtain i where i: "i < length (em_queue m)" "expires m i = t"
          using content_position [OF ok(1)] by metis
        then have "expires m 0 \<le> t" using heap_min [OF ok(2) i(1)] by simp
        moreover have "now < expires m 0" using False i(1) by auto
        ultimately show ?thesis by (simp add: Some p)
      qed simp
      then show ?thesis unfolding step using 1(2) by simp
    qed
  qed
  then show "em_ok (snd (em_expire_loop now removed m))"
    "content (snd (em_expire_loop now removed m)) = (\<lambda>k. unexpired now (content m k))"
    "em_lifetime (snd (em_expire_loop now removed m)) = em_lifetime m" "em_closed (snd (em_expire_loop now removed m)) = em_closed m"
    by blast+
qed

lemma em_removeExpired_ok:
  assumes "em_ok m"
  shows "em_ok (em_removeExpired now m)" "content (em_removeExpired now m) = (\<lambda>k. unexpired now (content m k))"
    "em_lifetime (em_removeExpired now m) = em_lifetime m" "em_closed (em_removeExpired now m) = em_closed m"
proof -
  obtain p where "em_removeExpired now m = (snd (em_expire_loop now False m))\<lparr>em_mapPeak := p\<rparr>"
  proof (cases "fst (em_expire_loop now False m)")
    case True
    obtain p where "em_compact (snd (em_expire_loop now False m)) = (snd (em_expire_loop now False m))\<lparr>em_mapPeak := p\<rparr>"
      using em_compact_eq by blast
    then show ?thesis using that True by (simp add: em_removeExpired_def case_prod_beta)
  next
    case False
    then have "em_removeExpired now m = (snd (em_expire_loop now False m))\<lparr>em_mapPeak := em_mapPeak (snd (em_expire_loop now False m))\<rparr>"
      by (simp add: em_removeExpired_def case_prod_beta)
    then show ?thesis by (rule that)
  qed
  then show "em_ok (em_removeExpired now m)" "content (em_removeExpired now m) = (\<lambda>k. unexpired now (content m k))"
    "em_lifetime (em_removeExpired now m) = em_lifetime m" "em_closed (em_removeExpired now m) = em_closed m"
    using em_expire_loop_ok [OF assms, of now False] by simp_all
qed

section \<open>Operations on the content\<close>

definition seen :: "int \<Rightarrow> ('k \<Rightarrow> ('v \<times> int) option) \<Rightarrow> 'k \<Rightarrow> 'v option" where
  "seen now c k = map_option fst (unexpired now (c k))"

text \<open>A lookup: the entry and the map without an expired entry of that key.\<close>

definition em_lookup :: "int \<Rightarrow> 'k \<Rightarrow> ('k, 'v) em_map \<Rightarrow> 'v em_entry option \<times> ('k, 'v) em_map" where
  "em_lookup now key m =
     (case map_of (em_entries m) key of
        None \<Rightarrow> (None, m)
      | Some e \<Rightarrow> if en_expiresAt e \<le> now then (None, em_remove key e m) else (Some e, m))"

lemma em_lookup_ok:
  assumes "em_ok m" "em_lookup now key m = (item, m1)"
  shows "em_ok m1" "content m1 = (if item = None then (content m)(key := None) else content m)"
    "map_option en_value item = seen now (content m) key" "map_of (em_entries m1) key = item"
    "em_lifetime m1 = em_lifetime m" "em_closed m1 = em_closed m"
    "item = None \<Longrightarrow> unexpired now (content m key) = None" "\<And>e. item = Some e \<Longrightarrow> m1 = m \<and> content m key = Some (en_value e, en_expiresAt e) \<and> now < en_expiresAt e"
proof -
  have "em_ok m1 \<and> content m1 = (if item = None then (content m)(key := None) else content m) \<and>
    map_option en_value item = seen now (content m) key \<and> map_of (em_entries m1) key = item \<and>
    em_lifetime m1 = em_lifetime m \<and> em_closed m1 = em_closed m \<and> (item = None \<longrightarrow> unexpired now (content m key) = None) \<and>
    (\<forall>e. item = Some e \<longrightarrow> m1 = m \<and> content m key = Some (en_value e, en_expiresAt e) \<and> now < en_expiresAt e)"
  proof (cases "map_of (em_entries m) key")
    case None
    then have "content m key = None" by (simp add: content_def)
    with None assms show ?thesis by (auto simp: em_lookup_def seen_def fun_upd_idem)
  next
    case (Some e)
    then have c: "content m key = Some (en_value e, en_expiresAt e)" by (simp add: content_def)
    show ?thesis
    proof (cases "en_expiresAt e \<le> now")
      case True
      note r = em_remove_ok [OF assms(1) Some]
      have "content (em_remove key e m) key = None" using r(2) by simp
      then have "map_of (em_entries (em_remove key e m)) key = None" by (simp add: content_def)
      with True Some assms(2) r c show ?thesis by (auto simp: em_lookup_def seen_def)
    next
      case False
      with Some assms(2) have "item = Some e" "m1 = m" by (simp_all add: em_lookup_def)
      with False Some assms(1) c show ?thesis by (simp add: seen_def)
    qed
  qed
  then show "em_ok m1" "content m1 = (if item = None then (content m)(key := None) else content m)"
    "map_option en_value item = seen now (content m) key" "map_of (em_entries m1) key = item"
    "em_lifetime m1 = em_lifetime m" "em_closed m1 = em_closed m"
    "item = None \<Longrightarrow> unexpired now (content m key) = None" "\<And>e. item = Some e \<Longrightarrow> m1 = m \<and> content m key = Some (en_value e, en_expiresAt e) \<and> now < en_expiresAt e"
    by blast+
qed

text \<open>What the operations do, up to entries that have expired.\<close>

definition upto_expired :: "int \<Rightarrow> ('k \<Rightarrow> ('v \<times> int) option) \<Rightarrow> ('k \<Rightarrow> ('v \<times> int) option) \<Rightarrow> bool" where
  "upto_expired now c d = (\<forall>k. unexpired now (c k) = unexpired now (d k))"

lemma em_lookup_upto: "em_ok m \<Longrightarrow> em_lookup now key m = (item, m1) \<Longrightarrow> upto_expired now (content m1) (content m)"
  using em_lookup_ok(2,7) [of m now key item m1] by (auto simp: upto_expired_def)

lemma em_storeIf_ok:
  assumes "em_ok m" "\<not> em_closed m"
  shows "em_ok (snd (em_storeIf now key val allow m))" "\<not> em_closed (snd (em_storeIf now key val allow m))"
    "em_lifetime (snd (em_storeIf now key val allow m)) = em_lifetime m"
    "fst (em_storeIf now key val allow m) = allow (seen now (content m) key)"
    "upto_expired now (content (snd (em_storeIf now key val allow m)))
       (if allow (seen now (content m) key) then (content m)(key \<mapsto> (val, now + em_lifetime m)) else content m)"
proof -
  obtain item m1 where l: "em_lookup now key m = (item, m1)" by (cases "em_lookup now key m")
  note f = em_lookup_ok [OF assms(1) l]
  have eq: "em_storeIf now key val allow m =
     (if \<not> allow (seen now (content m) key) then (False, m1)
      else case item of
          Some e \<Rightarrow>
            (True, heap_Fix (nat (en_index e))
               (m1\<lparr>em_entries := AList.update key (e\<lparr>en_value := val, en_expiresAt := now + em_lifetime m\<rparr>) (em_entries m1)\<rparr>))
        | None \<Rightarrow>
            let es = AList.update key \<lparr>en_value = val, en_expiresAt = now + em_lifetime m, en_index = 0\<rparr> (em_entries m1) in
            (True, heap_Push key (m1\<lparr>em_entries := es, em_mapPeak := max (em_mapPeak m1) (length es)\<rparr>)))"
    unfolding em_storeIf_def using assms(2) l f(3) by (simp add: em_lookup_def)
  have all: "em_ok (snd (em_storeIf now key val allow m)) \<and> \<not> em_closed (snd (em_storeIf now key val allow m)) \<and>
    em_lifetime (snd (em_storeIf now key val allow m)) = em_lifetime m \<and>
    fst (em_storeIf now key val allow m) = allow (seen now (content m) key) \<and>
    upto_expired now (content (snd (em_storeIf now key val allow m)))
       (if allow (seen now (content m) key) then (content m)(key \<mapsto> (val, now + em_lifetime m)) else content m)"
  proof (cases "allow (seen now (content m) key)")
    case False
    then show ?thesis unfolding eq using f(1,5,6) assms(2) em_lookup_upto [OF assms(1) l] by simp
  next
    case True
    show ?thesis
    proof (cases item)
      case None
      note p = em_push_ok [OF f(1) f(4) [unfolded None]]
      have "content m1 = (content m)(key := None)" using f(2) None by simp
      then show ?thesis unfolding eq using True None p f(5,6) assms(2) by (simp add: Let_def upto_expired_def)
    next
      case (Some e)
      note u = em_update_ok [OF f(1) f(4) [unfolded Some], of "e\<lparr>en_value := val, en_expiresAt := now + em_lifetime m\<rparr>"]
      then show ?thesis unfolding eq using True Some u f(2,5,6) assms(2) by (simp add: upto_expired_def)
    qed
  qed
  then show "em_ok (snd (em_storeIf now key val allow m))" "\<not> em_closed (snd (em_storeIf now key val allow m))"
    "em_lifetime (snd (em_storeIf now key val allow m)) = em_lifetime m"
    "fst (em_storeIf now key val allow m) = allow (seen now (content m) key)"
    "upto_expired now (content (snd (em_storeIf now key val allow m)))
       (if allow (seen now (content m) key) then (content m)(key \<mapsto> (val, now + em_lifetime m)) else content m)"
    by blast+
qed

lemma em_Load_lookup: "\<not> em_closed m \<Longrightarrow> em_Load now key m = apfst (map_option en_value) (em_lookup now key m)"
  by (cases "map_of (em_entries m) key") (simp_all add: em_Load_def em_lookup_def)

lemma em_LoadAndRefresh_lookup:
  "\<not> em_closed m \<Longrightarrow> em_LoadAndRefresh now key m =
     (case em_lookup now key m of (item, m1) \<Rightarrow>
        (map_option en_value item, case item of None \<Rightarrow> m1 | Some e \<Rightarrow> heap_Fix (nat (en_index e))
          (m1\<lparr>em_entries := AList.update key (e\<lparr>en_expiresAt := now + em_lifetime m\<rparr>) (em_entries m1)\<rparr>)))"
  by (cases "map_of (em_entries m) key") (simp_all add: em_LoadAndRefresh_def em_lookup_def)

lemma em_LoadAndRefresh_ok:
  assumes "em_ok m" "\<not> em_closed m"
  shows "em_ok (snd (em_LoadAndRefresh now key m))" "\<not> em_closed (snd (em_LoadAndRefresh now key m))"
    "em_lifetime (snd (em_LoadAndRefresh now key m)) = em_lifetime m"
    "fst (em_LoadAndRefresh now key m) = seen now (content m) key"
    "upto_expired now (content (snd (em_LoadAndRefresh now key m)))
       (case seen now (content m) key of None \<Rightarrow> content m | Some v \<Rightarrow> (content m)(key \<mapsto> (v, now + em_lifetime m)))"
proof -
  obtain item m1 where l: "em_lookup now key m = (item, m1)" by (cases "em_lookup now key m")
  note f = em_lookup_ok [OF assms(1) l]
  have eq: "em_LoadAndRefresh now key m =
     (map_option en_value item, case item of None \<Rightarrow> m1 | Some e \<Rightarrow> heap_Fix (nat (en_index e))
        (m1\<lparr>em_entries := AList.update key (e\<lparr>en_expiresAt := now + em_lifetime m\<rparr>) (em_entries m1)\<rparr>))"
    unfolding em_LoadAndRefresh_lookup [OF assms(2)] l by simp
  have all: "em_ok (snd (em_LoadAndRefresh now key m)) \<and> \<not> em_closed (snd (em_LoadAndRefresh now key m)) \<and>
    em_lifetime (snd (em_LoadAndRefresh now key m)) = em_lifetime m \<and>
    upto_expired now (content (snd (em_LoadAndRefresh now key m)))
       (case seen now (content m) key of None \<Rightarrow> content m | Some v \<Rightarrow> (content m)(key \<mapsto> (v, now + em_lifetime m)))"
  proof (cases item)
    case None
    then have "seen now (content m) key = None" using f(3) by simp
    then show ?thesis unfolding eq using None f(1,5,6) assms(2) em_lookup_upto [OF assms(1) l] by simp
  next
    case (Some e)
    note u = em_update_ok [OF f(1) f(4) [unfolded Some], of "e\<lparr>en_expiresAt := now + em_lifetime m\<rparr>"]
    have "seen now (content m) key = Some (en_value e)" using f(3) Some by simp
    then show ?thesis unfolding eq using Some u f(2,5,6) assms(2) by (simp add: upto_expired_def)
  qed
  then show "em_ok (snd (em_LoadAndRefresh now key m))" "\<not> em_closed (snd (em_LoadAndRefresh now key m))"
    "em_lifetime (snd (em_LoadAndRefresh now key m)) = em_lifetime m"
    "upto_expired now (content (snd (em_LoadAndRefresh now key m)))
       (case seen now (content m) key of None \<Rightarrow> content m | Some v \<Rightarrow> (content m)(key \<mapsto> (v, now + em_lifetime m)))"
    by blast+
  show "fst (em_LoadAndRefresh now key m) = seen now (content m) key" unfolding eq using f(3) by simp
qed

section \<open>The contract\<close>

text \<open>
  The specification forgets nothing: it keeps the last value and expiry of every key, and a lookup
  only asks whether the expiry is past. Sweeping is no operation of it.
\<close>

datatype ('k, 'v) em_op =
    OpStoreIf 'k 'v "'v option \<Rightarrow> bool"
  | OpLoad 'k
  | OpLoadAndRefresh 'k
  | OpSweep

datatype 'v em_answer = Stored bool | Loaded "'v option" | Swept

fun em_apply :: "int \<Rightarrow> ('k, 'v) em_op \<Rightarrow> ('k, 'v) em_map \<Rightarrow> 'v em_answer \<times> ('k, 'v) em_map" where
  "em_apply now (OpStoreIf k v allow) m = apfst Stored (em_storeIf now k v allow m)"
| "em_apply now (OpLoad k) m = apfst Loaded (em_Load now k m)"
| "em_apply now (OpLoadAndRefresh k) m = apfst Loaded (em_LoadAndRefresh now k m)"
| "em_apply now OpSweep m = (Swept, snd (em_run_round now m))"

fun spec_apply :: "int \<Rightarrow> int \<Rightarrow> ('k, 'v) em_op \<Rightarrow> ('k \<Rightarrow> ('v \<times> int) option) \<Rightarrow> 'v em_answer \<times> ('k \<Rightarrow> ('v \<times> int) option)" where
  "spec_apply life now (OpStoreIf k v allow) c =
     (if allow (seen now c k) then (Stored True, c(k \<mapsto> (v, now + life))) else (Stored False, c))"
| "spec_apply life now (OpLoad k) c = (Loaded (seen now c k), c)"
| "spec_apply life now (OpLoadAndRefresh k) c =
     (Loaded (seen now c k), case seen now c k of None \<Rightarrow> c | Some v \<Rightarrow> c(k \<mapsto> (v, now + life)))"
| "spec_apply life now OpSweep c = (Swept, c)"

fun em_run :: "(int \<times> ('k, 'v) em_op) list \<Rightarrow> ('k, 'v) em_map \<Rightarrow> 'v em_answer list" where
  "em_run [] m = []"
| "em_run ((now, op) # ops) m = (case em_apply now op m of (a, m') \<Rightarrow> a # em_run ops m')"

fun spec_run :: "int \<Rightarrow> (int \<times> ('k, 'v) em_op) list \<Rightarrow> ('k \<Rightarrow> ('v \<times> int) option) \<Rightarrow> 'v em_answer list" where
  "spec_run life [] c = []"
| "spec_run life ((now, op) # ops) c = (case spec_apply life now op c of (a, c') \<Rightarrow> a # spec_run life ops c')"

lemma upto_seen: "upto_expired now c d \<Longrightarrow> seen now c k = seen now d k"
  by (simp add: seen_def upto_expired_def)

lemma upto_upd: "upto_expired now c d \<Longrightarrow> upto_expired now (c(k := x)) (d(k := x))"
  by (simp add: upto_expired_def)

lemma upto_trans: "upto_expired now a b \<Longrightarrow> upto_expired now b c \<Longrightarrow> upto_expired now a c"
  by (simp add: upto_expired_def)

lemma upto_later: "upto_expired now c d \<Longrightarrow> now \<le> t \<Longrightarrow> upto_expired t c d"
  unfolding upto_expired_def by (metis unexpired_later)

definition em_rel :: "int \<Rightarrow> int \<Rightarrow> ('k, 'v) em_map \<Rightarrow> ('k \<Rightarrow> ('v \<times> int) option) \<Rightarrow> bool" where
  "em_rel life now m c \<longleftrightarrow> em_ok m \<and> \<not> em_closed m \<and> em_lifetime m = life \<and> upto_expired now (content m) c"

lemma em_apply_simulates:
  assumes "em_rel life now m c"
  shows "fst (em_apply now op m) = fst (spec_apply life now op c)"
    "em_rel life now (snd (em_apply now op m)) (snd (spec_apply life now op c))"
proof -
  have ok: "em_ok m" "\<not> em_closed m" "em_lifetime m = life" "upto_expired now (content m) c"
    using assms by (simp_all add: em_rel_def)
  have s: "seen now (content m) k = seen now c k" for k by (rule upto_seen [OF ok(4)])
  have "fst (em_apply now op m) = fst (spec_apply life now op c) \<and>
    em_rel life now (snd (em_apply now op m)) (snd (spec_apply life now op c))"
  proof (cases op)
    case (OpStoreIf k v allow)
    note st = em_storeIf_ok [OF ok(1,2), of now k v allow, unfolded s]
    have "upto_expired now (content (snd (em_storeIf now k v allow m))) (snd (spec_apply life now op c))"
      using upto_trans [OF st(5)] ok(3,4) upto_upd [OF ok(4)] by (simp add: OpStoreIf split: if_split)
    then show ?thesis using st(1-4) ok(3) by (simp add: OpStoreIf em_rel_def)
  next
    case (OpLoad k)
    obtain item m1 where l: "em_lookup now k m = (item, m1)" by (cases "em_lookup now k m")
    note f = em_lookup_ok [OF ok(1) l]
    show ?thesis
      using f(1,3,5,6) ok upto_trans [OF em_lookup_upto [OF ok(1) l] ok(4)] s
      by (simp add: OpLoad em_Load_lookup [OF ok(2)] l em_rel_def)
  next
    case (OpLoadAndRefresh k)
    note st = em_LoadAndRefresh_ok [OF ok(1,2), of now k, unfolded s]
    have "upto_expired now (content (snd (em_LoadAndRefresh now k m))) (snd (spec_apply life now op c))"
      using upto_trans [OF st(5)] ok(3,4) upto_upd [OF ok(4)]
      by (cases "seen now c k") (simp_all add: OpLoadAndRefresh)
    then show ?thesis using st(1-4) ok(3) by (simp add: OpLoadAndRefresh em_rel_def)
  next
    case OpSweep
    note r = em_removeExpired_ok [OF ok(1), of now]
    have "upto_expired now (content (em_removeExpired now m)) (content m)"
      by (simp add: r(2) upto_expired_def unexpired_later)
    then show ?thesis using r ok upto_trans [OF _ ok(4)] by (simp add: OpSweep em_run_round_def em_rel_def Let_def)
  qed
  then show "fst (em_apply now op m) = fst (spec_apply life now op c)"
    "em_rel life now (snd (em_apply now op m)) (snd (spec_apply life now op c))" by blast+
qed

lemma em_rel_later: "em_rel life now m c \<Longrightarrow> now \<le> t \<Longrightarrow> em_rel life t m c"
  by (auto simp: em_rel_def intro: upto_later)

lemma em_run_simulates:
  assumes "em_rel life start m c" "sorted (start # map fst ops)"
  shows "em_run ops m = spec_run life ops c"
  using assms
proof (induction ops arbitrary: start m c)
  case (Cons x ops)
  obtain now op where x: "x = (now, op)" by (cases x)
  have "start \<le> now" "sorted (now # map fst ops)" using Cons.prems(2) x by simp_all
  note r = em_rel_later [OF Cons.prems(1) this(1)]
  note sim = em_apply_simulates [OF r, of op]
  note ih = Cons.IH [OF sim(2) \<open>sorted (now # map fst ops)\<close>]
  have "em_run (x # ops) m = fst (em_apply now op m) # em_run ops (snd (em_apply now op m))"
    unfolding x em_run.simps case_prod_beta ..
  also have "\<dots> = fst (spec_apply life now op c) # spec_run life ops (snd (spec_apply life now op c))"
    unfolding sim(1) ih ..
  also have "\<dots> = spec_run life (x # ops) c"
    unfolding x spec_run.simps case_prod_beta ..
  finally show ?case .
qed simp

section \<open>The interface\<close>

text \<open>
  What a user of such a map relies on: \<open>visible t s k\<close> is what a lookup of \<open>k\<close> finds at time \<open>t\<close> if
  nothing happens until then.
\<close>

locale timed_cache =
  fixes cinv :: "'s \<Rightarrow> bool"
    and life :: "'s \<Rightarrow> int"
    and visible :: "int \<Rightarrow> 's \<Rightarrow> 'k \<Rightarrow> 'v option"
    and store_if :: "int \<Rightarrow> 'k \<Rightarrow> 'v \<Rightarrow> ('v option \<Rightarrow> bool) \<Rightarrow> 's \<Rightarrow> bool \<times> 's"
    and refresh :: "int \<Rightarrow> 'k \<Rightarrow> 's \<Rightarrow> 'v option \<times> 's"
  assumes store_inv: "cinv s \<Longrightarrow> cinv (snd (store_if now k v allow s)) \<and> life (snd (store_if now k v allow s)) = life s"
    and store_visible: "cinv s \<Longrightarrow> now \<le> t \<Longrightarrow>
      visible t (snd (store_if now k v allow s)) k' =
        (if k' = k \<and> allow (visible now s k) then (if t < now + life s then Some v else None) else visible t s k')"
    and refresh_inv: "cinv s \<Longrightarrow> cinv (snd (refresh now k s)) \<and> life (snd (refresh now k s)) = life s"
    and refresh_result: "cinv s \<Longrightarrow> fst (refresh now k s) = visible now s k"
    and refresh_visible: "cinv s \<Longrightarrow> now \<le> t \<Longrightarrow>
      visible t (snd (refresh now k s)) k' =
        (if k' = k \<and> visible now s k \<noteq> None then (if t < now + life s then visible now s k else None) else visible t s k')"
begin

text \<open>A stored value is found within its lifetime, and finding it starts a new lifetime.\<close>

lemma store_then_refresh:
  assumes "cinv s" "now \<le> t" "t < now + life s" "allow (visible now s k)"
  shows "fst (refresh t k (snd (store_if now k v allow s))) = Some v"
  using store_visible [OF assms(1,2), of k v allow k] refresh_result store_inv [OF assms(1), of now k v allow] assms by simp

lemma refresh_extends:
  assumes "cinv s" "visible now s k = Some v" "now \<le> t" "t < now + life s"
  shows "fst (refresh t k (snd (refresh now k s))) = Some v"
  using refresh_visible [OF assms(1,3), of k k] refresh_result refresh_inv [OF assms(1), of now k] assms by simp

text \<open>Other keys are not touched.\<close>

lemma store_other:
  assumes "cinv s" "now \<le> t" "k' \<noteq> k"
  shows "fst (refresh t k' (snd (store_if now k v allow s))) = fst (refresh t k' s)"
  using store_visible [OF assms(1,2), of k v allow k'] refresh_result store_inv [OF assms(1), of now k v allow] assms by simp

end

definition em_inv :: "('k, 'v) em_map \<Rightarrow> bool" where
  "em_inv m \<longleftrightarrow> em_ok m \<and> \<not> em_closed m"

definition em_visible :: "int \<Rightarrow> ('k, 'v) em_map \<Rightarrow> 'k \<Rightarrow> 'v option" where
  "em_visible t m = seen t (content m)"

lemma seen_stored: "seen t (c(k \<mapsto> (v, e))) k' = (if k' = k then if t < e then Some v else None else seen t c k')"
  by (simp add: seen_def unexpired_def)

interpretation em_cache: timed_cache em_inv em_lifetime em_visible em_storeIf em_LoadAndRefresh
proof
  fix s :: "('k, 'v) em_map" and now t k k' v allow
  assume "em_inv s"
  then have ok: "em_ok s" "\<not> em_closed s" by (simp_all add: em_inv_def)
  note st = em_storeIf_ok [OF ok, of now k v allow] and rf = em_LoadAndRefresh_ok [OF ok, of now k]
  show "em_inv (snd (em_storeIf now k v allow s)) \<and> em_lifetime (snd (em_storeIf now k v allow s)) = em_lifetime s"
    "em_inv (snd (em_LoadAndRefresh now k s)) \<and> em_lifetime (snd (em_LoadAndRefresh now k s)) = em_lifetime s"
    "fst (em_LoadAndRefresh now k s) = em_visible now s k"
    using st(1-3) rf(1-4) by (simp_all add: em_inv_def em_visible_def)
  assume t: "now \<le> t"
  show "em_visible t (snd (em_storeIf now k v allow s)) k' =
      (if k' = k \<and> allow (em_visible now s k) then (if t < now + em_lifetime s then Some v else None) else em_visible t s k')"
    unfolding em_visible_def upto_seen [OF upto_later [OF st(5) t]] by (simp add: seen_stored)
  show "em_visible t (snd (em_LoadAndRefresh now k s)) k' =
      (if k' = k \<and> em_visible now s k \<noteq> None then (if t < now + em_lifetime s then em_visible now s k else None)
       else em_visible t s k')"
    unfolding em_visible_def upto_seen [OF upto_later [OF rf(5) t]] by (simp add: seen_stored split: option.split)
qed

text \<open>The state after a sequence of operations.\<close>

fun em_after :: "(int \<times> ('k, 'v) em_op) list \<Rightarrow> ('k, 'v) em_map \<Rightarrow> ('k, 'v) em_map" where
  "em_after [] m = m"
| "em_after ((now, op) # ops) m = em_after ops (snd (em_apply now op m))"

lemma em_New_inv: "em_New life = Inr m \<Longrightarrow> em_inv m \<and> content m = (\<lambda>k. None)"
  by (auto simp: em_New_def em_inv_def em_ok_def linked_def heap_order_def content_def fun_eq_iff split: if_splits)

lemma em_apply_inv: "em_inv m \<Longrightarrow> em_inv (snd (em_apply now op m))"
  using em_apply_simulates(2) [of "em_lifetime m" now m "content m" op]
  by (auto simp: em_inv_def em_rel_def upto_expired_def)

lemma em_after_inv: "em_inv m \<Longrightarrow> em_inv (em_after ops m)"
  by (induction ops m rule: em_after.induct) (auto intro: em_apply_inv)

section \<open>Properties\<close>

text \<open>
  C17. For any sequence of stores, conditional stores, lookups, refreshing lookups and sweeps in the
  order of time, the map answers as the specification does that never sweeps: an entry is found for
  exactly the lifetime after it was last stored or refreshed. The heap, the positions in it and the
  compaction do not show.
\<close>

theorem expiring_map_refines:
  assumes "em_New life = Inr m" "sorted (map fst ops)"
  shows "em_run ops m = spec_run life ops (\<lambda>k. None)"
proof -
  have "em_lifetime m = life" using assms(1) by (auto simp: em_New_def split: if_splits)
  then have "em_rel life start m (\<lambda>k. None)" for start
    using em_New_inv [OF assms(1)] by (simp add: em_rel_def em_inv_def upto_expired_def)
  then show ?thesis
  proof (cases ops)
    case (Cons x xs)
    show ?thesis by (rule em_run_simulates [OF \<open>em_rel life (fst x) m (\<lambda>k. None)\<close>]) (use assms(2) Cons in simp)
  qed simp
qed

definition ex_ops :: "(int \<times> (nat, nat) em_op) list" where
  "ex_ops = [(0, OpStoreIf 1 10 (\<lambda>_. True)), (4, OpStoreIf 2 20 (\<lambda>cur. cur = None)), (5, OpLoadAndRefresh 1),
     (12, OpSweep), (14, OpLoad 1), (14, OpLoad 2), (15, OpLoad 1)]"

theorem expiring_map_refines_witness:
  "\<exists>m. em_New 10 = Inr m \<and> sorted (map fst ex_ops) \<and>
     em_run ex_ops m = [Stored True, Stored True, Loaded (Some 10), Swept, Loaded (Some 10), Loaded None, Loaded None]"
proof -
  let ?m = "\<lparr>em_entries = [], em_mapPeak = 0, em_queue = [], em_lifetime = 10, em_closed = False\<rparr>"
  have n: "em_New 10 = Inr ?m" by (simp add: em_New_def)
  have s: "sorted (map fst ex_ops)" by (simp add: ex_ops_def)
  have "spec_run 10 ex_ops (\<lambda>k. None) = [Stored True, Stored True, Loaded (Some 10), Swept, Loaded (Some 10), Loaded None, Loaded None]"
    by (simp add: ex_ops_def seen_def unexpired_def)
  with expiring_map_refines [OF n s] n s show ?thesis by metis
qed

text \<open>
  A sweep removes the expired entries and no others, however the map came about. It then sleeps
  a positive time that ends exactly when the first remaining entry expires, or until the next store
  if none remains.
\<close>

theorem sweep_exact:
  assumes "em_New life = Inr m" "em_run_round now (em_after ops m) = (wait, m')"
  shows "(\<forall>k. content m' k = unexpired now (content (em_after ops m) k)) \<and>
    (case wait of
       None \<Rightarrow> \<forall>k. content m' k = None
     | Some w \<Rightarrow> 0 < w \<and> (\<exists>k v. content m' k = Some (v, now + w)) \<and> (\<forall>k v t. content m' k = Some (v, t) \<longrightarrow> now + w \<le> t))"
proof -
  have "em_inv (em_after ops m)" using em_New_inv [OF assms(1)] by (blast intro: em_after_inv)
  then have ok: "em_ok (em_after ops m)" "\<not> em_closed (em_after ops m)" by (simp_all add: em_inv_def)
  note r = em_removeExpired_ok [OF ok(1), of now]
  from assms(2) ok(2) have m': "m' = em_removeExpired now (em_after ops m)"
    and wait: "wait = (if em_queue m' = [] then None else Some (max 0 (expires m' 0 - now)))"
    by (auto simp: em_run_round_def Let_def)
  have l: "linked m'" "heap_order (expires m') (length (em_queue m'))" using r(1) by (simp_all add: m' em_ok_def)
  have late: "now < t" if "content m' k = Some (v, t)" for k v t
    using that unfolding m' r(2) by (auto simp: unexpired_def split: option.splits if_splits)
  show ?thesis
  proof (cases "em_queue m' = []")
    case True
    then have "content m' k = None" for k using content_position [OF l(1), of k] by (cases "content m' k") auto
    then show ?thesis using r(2) True by (simp add: wait m')
  next
    case False
    then have ne: "0 < length (em_queue m')" by simp
    obtain v where v: "content m' (em_queue m' ! 0) = Some (v, expires m' 0)" using position_content [OF l(1) ne] .
    have w: "max 0 (expires m' 0 - now) = expires m' 0 - now" "now < expires m' 0" using late [OF v] by auto
    have "expires m' 0 \<le> t" if c: "content m' k = Some (v', t)" for k v' t
    proof -
      obtain i where "i < length (em_queue m')" "expires m' i = t" using content_position [OF l(1) c] by blast
      then show ?thesis using heap_min [OF l(2)] by auto
    qed
    then show ?thesis using r(2) v w False by (auto simp: wait m' [symmetric])
  qed
qed

theorem sweep_exact_witness:
  "\<exists>m m' w. em_New 10 = Inr m \<and> em_run_round 12 (em_after (take 3 ex_ops) m) = (Some w, m') \<and> 0 < w"
proof -
  let ?m = "\<lparr>em_entries = [], em_mapPeak = 0, em_queue = [], em_lifetime = 10, em_closed = False\<rparr>"
  have n: "em_New 10 = Inr ?m" by (simp add: em_New_def)
  have "fst (em_run_round 12 (em_after (take 3 ex_ops) ?m)) \<noteq> None" by code_simp
  then obtain w m' where r: "em_run_round 12 (em_after (take 3 ex_ops) ?m) = (Some w, m')"
    by (cases "em_run_round 12 (em_after (take 3 ex_ops) ?m)") auto
  from sweep_exact [OF n r] have "0 < w" by simp
  with n r show ?thesis by blast
qed

end
