(* ===== verification/Route.thy ===== *)
theory Route
  imports Rule_Start Rule_Action_Run Sniff_Quic Expiring_Map
begin

text \<open>
  Routing connections (\<open>route/route.go\<close>, \<open>route/router.go\<close>, \<open>route/process_cache.go\<close>): preparing the
  metadata, running through the rules with their actions, and choosing the outbound. The managers,
  the DNS router and the outbounds themselves are arguments (\<open>route_env\<close>); an outbound is known by its
  tag. Logging and the connection trackers are left out.
\<close>

section \<open>Surroundings\<close>

datatype pre_match_action =
    PreMatchContinue
  | PreMatchFlow
  | PreMatchReject
  | PreMatchDrop
  | PreMatchBypass
  | PreMatchHijackDNS

text \<open>
  Outbounds by tag. A group answers \<open>Selected\<close>; one that selects for the pre-match is given a function
  to try candidates with, and answers the candidates it tried, the one it takes and what to do.
\<close>

record outbounds =
  mgr_Outbound :: "string \<Rightarrow> bool"
  mgr_Default :: string
  out_Type :: "string \<Rightarrow> string"
  out_Network :: "string \<Rightarrow> string list"
  out_Selected :: "string \<Rightarrow> (string \<Rightarrow> string option) option"
  out_SelectConnection :: "string \<Rightarrow> (inbound_context \<Rightarrow> string option) option"
  out_SelectPreMatch :: "string \<Rightarrow> (inbound_context \<Rightarrow> (string \<Rightarrow> string option \<times> pre_match_action) \<Rightarrow>
                          string list \<times> string option \<times> pre_match_action) option"
  out_PreMatchFlow :: "string \<Rightarrow> (string \<Rightarrow> addr \<Rightarrow> pre_match_action) option"
  out_FlowDomainResolver :: "string \<Rightarrow> bool"

type_synonym addr_port = "addr \<times> port"

record route_env =
  re_rule :: rule_env
  re_sniff :: sniff_env
  re_out :: outbounds
  re_inbound :: "string \<Rightarrow> (bool \<times> bool) option"
  re_FakeIP :: "((addr \<Rightarrow> bool) \<times> (addr \<Rightarrow> string option)) option"
  re_ReverseMapping :: "addr \<Rightarrow> string option"
  re_Transport :: "string \<Rightarrow> bool"
  re_Lookup :: "inbound_context \<Rightarrow> string \<Rightarrow> resolve_action \<Rightarrow> addr list res"
  re_FlowLookup :: "string \<Rightarrow> inbound_context \<Rightarrow> string \<Rightarrow> addr list res"
  re_Neighbor :: "((addr \<Rightarrow> byte list option) \<times> (addr \<Rightarrow> string option)) option"
  re_FindProcess :: "(bool \<Rightarrow> string \<Rightarrow> addr_port \<Rightarrow> addr_port \<Rightarrow> connection_owner res) option"
  re_LookupOwner :: bool
  re_MyInterfaceAddress :: "addr list"
  re_AddrPort :: "socksaddr \<Rightarrow> addr_port"
  re_SocksaddrFromNetIP :: "addr_port \<Rightarrow> socksaddr"
  re_NewCachedConn :: "byte list \<Rightarrow> byte list \<Rightarrow> byte list"
  re_NewCachedPacketConn :: "byte list \<times> socksaddr \<Rightarrow> (byte list \<times> socksaddr) list \<Rightarrow> (byte list \<times> socksaddr) list"
  re_MuxFqdn :: string
  re_VMessMuxFqdn :: string
  re_UoTMagicAddress :: string
  re_UoTLegacyMagicAddress :: string

section \<open>Preparing the metadata\<close>

text \<open>\<open>netip.Addr.IsLoopback\<close>.\<close>

definition addr_IsLoopback :: "addr \<Rightarrow> bool" where
  "addr_IsLoopback a =
     (case addr_Unmap a of AddrZero \<Rightarrow> False | Addr4 v \<Rightarrow> drop_bit 24 v = 127 | Addr6 v z \<Rightarrow> v = 1)"

definition isLocalSource :: "route_env \<Rightarrow> addr \<Rightarrow> bool" where
  "isLocalSource R source =
     (if addr_IsLoopback source then True
      else if List.member (re_MyInterfaceAddress R) source then True
      else list_ex (\<lambda>(name, prefixes). list_ex (\<lambda>p. prefix_Addr p = source) prefixes) (InterfaceFinder_Interfaces (re_rule R)))"

text \<open>
  The lookup with all details runs when a rule first asks; its result is kept and does not depend on
  the moment.
\<close>

definition searchProcessInfo :: "route_env \<Rightarrow> inbound_context \<Rightarrow> inbound_context" where
  "searchProcessInfo R m =
     (case re_FindProcess R of
        None \<Rightarrow> m
      | Some findProcess \<Rightarrow>
          if m_ProcessInfo m \<noteq> None \<or> \<not> isLocalSource R (sa_Addr (m_Source m)) then m
          else
            let originDestination =
                  (if IsValid (re_rule R) (m_OriginDestination m) then re_AddrPort R (m_OriginDestination m)
                   else if IsIP (re_rule R) (m_Destination m) then re_AddrPort R (m_Destination m)
                   else (AddrZero, 0)) in
            case findProcess False (m_Network m) (re_AddrPort R (m_Source m)) originDestination of
              Inl e \<Rightarrow> m
            | Inr processInfo \<Rightarrow>
                let m1 = m\<lparr>m_ProcessInfo := Some processInfo\<rparr> in
                if re_LookupOwner R then
                  m1\<lparr>m_ProcessInfoResolver := Some (Some
                       (case findProcess True (m_Network m) (re_AddrPort R (m_Source m)) originDestination of
                          Inl e \<Rightarrow> processInfo | Inr fullInfo \<Rightarrow> fullInfo))\<rparr>
                else m1)"

definition find_neighbor :: "route_env \<Rightarrow> inbound_context \<Rightarrow> inbound_context" where
  "find_neighbor R m =
     (case re_Neighbor R of
        None \<Rightarrow> m
      | Some (lookupMAC, lookupHostname) \<Rightarrow>
          if m_SourceMACAddress m = None \<and> addr_IsValid (sa_Addr (m_Source m)) then
            let m1 = (case lookupMAC (sa_Addr (m_Source m)) of None \<Rightarrow> m | Some mac \<Rightarrow> m\<lparr>m_SourceMACAddress := Some mac\<rparr>) in
            (case lookupHostname (sa_Addr (m_Source m)) of None \<Rightarrow> m1 | Some hostname \<Rightarrow> m1\<lparr>m_SourceHostname := hostname\<rparr>)
          else m)"

definition find_domain :: "route_env \<Rightarrow> inbound_context \<Rightarrow> inbound_context res" where
  "find_domain R m =
     (let destination = m_Destination m;
          reverse = (if m_Domain m = [] then
                       (case re_ReverseMapping R (sa_Addr destination) of
                          None \<Rightarrow> m | Some domain \<Rightarrow> m\<lparr>m_Domain := domain\<rparr>)
                     else m) in
      case re_FakeIP R of
        None \<Rightarrow> Inr reverse
      | Some (contains, lookup) \<Rightarrow>
          if addr_IsValid (sa_Addr destination) \<and> contains (sa_Addr destination) then
            (case lookup (sa_Addr destination) of
               None \<Rightarrow> Inl (E_New ''missing fakeip record, try enable `experimental.cache_file`'')
             | Some domain \<Rightarrow>
                 if domain \<noteq> [] then
                   Inr (m\<lparr>m_OriginDestination := destination,
                          m_Destination := \<lparr>sa_Addr = AddrZero, sa_Port = sa_Port destination, sa_Fqdn = domain\<rparr>,
                          m_FakeIP := True\<rparr>)
                 else Inr m)
          else Inr reverse)"

definition set_ip_version :: "rule_env \<Rightarrow> inbound_context \<Rightarrow> inbound_context" where
  "set_ip_version E m =
     (if IsIPv4 E (m_Destination m) then m\<lparr>m_IPVersion := 4\<rparr>
      else if IsIPv6 E (m_Destination m) then m\<lparr>m_IPVersion := 6\<rparr> else m)"

definition prepareMatchMetadata :: "route_env \<Rightarrow> inbound_context \<Rightarrow> inbound_context res" where
  "prepareMatchMetadata R m =
     rbind (find_domain R (find_neighbor R (searchProcessInfo R m))) (\<lambda>m'. Inr (set_ip_version (re_rule R) m'))"

section \<open>Options of a route\<close>

definition applyRouteOptionsOverride :: "rule_env \<Rightarrow> route_options \<Rightarrow> inbound_context \<Rightarrow> inbound_context" where
  "applyRouteOptionsOverride E ro m =
     (let m1 = (if IsValid E (ro_OverrideAddress ro)
                then m\<lparr>m_Destination := \<lparr>sa_Addr = sa_Addr (ro_OverrideAddress ro), sa_Port = sa_Port (m_Destination m),
                                         sa_Fqdn = sa_Fqdn (ro_OverrideAddress ro)\<rparr>\<rparr> else m);
          m2 = (if ro_OverridePort ro > 0
                then m1\<lparr>m_Destination := (m_Destination m1)\<lparr>sa_Port := ro_OverridePort ro\<rparr>\<rparr> else m1)
      in if ro_UDPTimeout ro > 0 then m2\<lparr>m_UDPTimeout := ro_UDPTimeout ro\<rparr> else m2)"

text \<open>The options of a matched rule, in the order of \<open>matchRule\<close>.\<close>

definition apply_route_options :: "rule_env \<Rightarrow> route_options \<Rightarrow> inbound_context \<Rightarrow> inbound_context" where
  "apply_route_options E ro m =
     (let m1 = (if (IsValid E (ro_OverrideAddress ro) \<or> ro_OverridePort ro > 0) \<and> \<not> IsValid E (m_RouteOriginalDestination m)
                then m\<lparr>m_RouteOriginalDestination := m_Destination m\<rparr> else m);
          m2 = (if IsValid E (ro_OverrideAddress ro) then m1\<lparr>m_DestinationAddresses := []\<rparr> else m1);
          m3 = applyRouteOptionsOverride E ro m2;
          m4 = (case ro_NetworkStrategy ro of None \<Rightarrow> m3 | Some s \<Rightarrow> m3\<lparr>m_NetworkStrategy := Some s\<rparr>);
          m5 = (case ro_NetworkType ro of Some (t # ts) \<Rightarrow> m4\<lparr>m_NetworkType := t # ts\<rparr> | _ \<Rightarrow> m4);
          m6 = (case ro_FallbackNetworkType ro of Some (t # ts) \<Rightarrow> m5\<lparr>m_FallbackNetworkType := t # ts\<rparr> | _ \<Rightarrow> m5);
          m7 = (if ro_FallbackDelay ro \<noteq> 0 then m6\<lparr>m_FallbackDelay := ro_FallbackDelay ro\<rparr> else m6);
          m8 = (if ro_UDPDisableDomainUnmapping ro then m7\<lparr>m_UDPDisableDomainUnmapping := True\<rparr> else m7);
          m9 = (if ro_UDPConnect ro then m8\<lparr>m_UDPConnect := True\<rparr> else m8);
          m10 = (if ro_UDPTimeout ro > 0 then m9\<lparr>m_UDPTimeout := ro_UDPTimeout ro\<rparr> else m9);
          m11 = (if ro_TLSFragment ro then m10\<lparr>m_TLSFragment := True, m_TLSFragmentFallbackDelay := ro_TLSFragmentFallbackDelay ro\<rparr> else m10);
          m12 = (if ro_TLSRecordFragment ro then m11\<lparr>m_TLSRecordFragment := True\<rparr> else m11)
      in if ro_TLSSpoof ro \<noteq> [] then m12\<lparr>m_TLSSpoof := ro_TLSSpoof ro, m_TLSSpoofMethod := ro_TLSSpoofMethod ro\<rparr> else m12)"

section \<open>Outbounds\<close>

text \<open>\<open>isPassOutbound\<close>: the outbound of that tag, or what a selector of that tag has selected, is a pass outbound.\<close>

definition isPassOutbound :: "outbounds \<Rightarrow> string \<Rightarrow> bool" where
  "isPassOutbound mgr tag =
     (if tag = [] then False
      else if \<not> mgr_Outbound mgr tag then False
      else if out_Type mgr tag = ''selector'' then
        (case out_Selected mgr tag of
           None \<Rightarrow> False
         | Some selected \<Rightarrow> (case selected ''tcp'' of None \<Rightarrow> False | Some ob \<Rightarrow> out_Type mgr ob = ''pass''))
      else out_Type mgr tag = ''pass'')"

definition not_supported :: "string \<Rightarrow> string \<Rightarrow> error" where
  "not_supported network tag =
     E_New ((if network = ''tcp'' then ''TCP'' else if network = ''udp'' then ''UDP'' else network) @
            '' is not supported by outbound: '' @ tag)"

text \<open>
  \<open>resolveOutbound\<close>: follow the selections of groups to an outbound that is no group. Groups that
  select each other would make it run forever, which is \<open>None\<close>; a nil outbound panics.
\<close>

definition select_member :: "outbounds \<Rightarrow> string \<Rightarrow> inbound_context \<Rightarrow> string \<Rightarrow> string option option" where
  "select_member mgr network m ob =
     (case out_Selected mgr ob of
        None \<Rightarrow> None
      | Some selected \<Rightarrow>
          (case out_SelectConnection mgr ob of
             Some selectConnection \<Rightarrow> Some (selectConnection (m\<lparr>m_Network := network\<rparr>))
           | None \<Rightarrow> Some (selected network)))"

partial_function (option) resolve_chain ::
  "outbounds \<Rightarrow> string \<Rightarrow> inbound_context \<Rightarrow> string list \<Rightarrow> string \<Rightarrow> string list res option" where
  "resolve_chain mgr network m chain ob =
     (case select_member mgr network m ob of
        None \<Rightarrow>
          Some (if List.member (out_Network mgr ob) network then Inr chain else Inl (not_supported network ob))
      | Some None \<Rightarrow> Some (Inl (not_supported network ob))
      | Some (Some member) \<Rightarrow> resolve_chain mgr network m (chain @ [member]) member)"

definition resolveOutbound :: "outbounds \<Rightarrow> string option \<Rightarrow> string \<Rightarrow> inbound_context \<Rightarrow> string list res option" where
  "resolveOutbound mgr outbound network m =
     (case outbound of
        None \<Rightarrow> Some (Inl (E_Panic ''nil outbound''))
      | Some ob \<Rightarrow> resolve_chain mgr network m [ob] ob)"

section \<open>The QUIC sniff cache\<close>

type_synonym quic_cache = "(socksaddr \<times> socksaddr, string) em_map"

definition quicSniffCacheTTL :: int where
  "quicSniffCacheTTL = 5 * 60 * 1000000000"

definition cacheQUICSniff :: "int \<Rightarrow> socksaddr \<Rightarrow> socksaddr \<Rightarrow> string \<Rightarrow> quic_cache \<Rightarrow> quic_cache" where
  "cacheQUICSniff now source destination sniffHost c = snd (em_Store now (source, destination) sniffHost c)"

definition lookupQUICSniff :: "int \<Rightarrow> socksaddr \<Rightarrow> socksaddr \<Rightarrow> quic_cache \<Rightarrow> string option \<times> quic_cache" where
  "lookupQUICSniff now source destination c = em_LoadAndRefresh now (source, destination) c"

definition refreshQUICSniff :: "int \<Rightarrow> socksaddr \<Rightarrow> socksaddr \<Rightarrow> string \<Rightarrow> quic_cache \<Rightarrow> quic_cache" where
  "refreshQUICSniff now source destination sniffHost c =
     snd (em_storeIf now (source, destination) sniffHost (\<lambda>current. current = None \<or> current = Some sniffHost) c)"

definition processQUICSniff :: "int \<Rightarrow> inbound_context \<Rightarrow> quic_cache \<Rightarrow> inbound_context \<times> quic_cache" where
  "processQUICSniff now m c =
     (if m_Protocol m \<noteq> ''quic'' then (m, c)
      else
        let m1 = m\<lparr>m_SniffDestination := m_Destination m\<rparr> in
        if m_SniffHost m \<noteq> [] then (m1, cacheQUICSniff now (m_Source m) (m_Destination m) (m_SniffHost m) c)
        else case lookupQUICSniff now (m_Source m) (m_Destination m) c of
          (None, c') \<Rightarrow> (m1, c')
        | (Some sniffHost, c') \<Rightarrow> (m1\<lparr>m_SniffHost := sniffHost\<rparr>, c'))"

text \<open>What closing the connection refreshes: source, destination and host.\<close>

definition wrapQUICSniffIdleCache :: "rule_env \<Rightarrow> inbound_context \<Rightarrow> (socksaddr \<times> socksaddr \<times> string) option" where
  "wrapQUICSniffIdleCache E m =
     (if m_Protocol m \<noteq> ''quic'' \<or> m_SniffHost m = [] then None
      else
        let destination =
              (if IsValid E (m_SniffDestination m) then m_SniffDestination m
               else if m_DestOverride m \<and> IsValid E (m_OriginDestination m) then m_OriginDestination m
               else m_Destination m)
        in Some (m_Source m, destination, m_SniffHost m))"

definition close_idle :: "int \<Rightarrow> (socksaddr \<times> socksaddr \<times> string) option \<Rightarrow> quic_cache \<Rightarrow> quic_cache" where
  "close_idle now w c = (case w of None \<Rightarrow> c | Some (source, destination, host) \<Rightarrow> refreshQUICSniff now source destination host c)"

section \<open>Sniffing\<close>

text \<open>
  What the client sends while a rule with a sniff action reads, one list per such action. A list that
  ends is the deadline.
\<close>

datatype packet_read = PacketRead "byte list" socksaddr | PacketTimeout | PacketError error | PacketCanceled error

record match_state =
  ms_meta :: inbound_context
  ms_cache :: quic_cache
  ms_buffers :: "byte list list"
  ms_packets :: "(byte list \<times> socksaddr) list"
  ms_streams :: "stream_read list list"
  ms_reads :: "packet_read list list"

definition next_round :: "'a list list \<Rightarrow> 'a list \<times> 'a list list" where
  "next_round xss = (case xss of [] \<Rightarrow> ([], []) | xs # rest \<Rightarrow> (xs, rest))"

definition defaultStreamSniffers :: "stream_sniffer list" where
  "defaultStreamSniffers = [TLSClientHello, HTTPHost, StreamDomainNameQuery, BitTorrent, SSH, RDP]"

definition defaultPacketSniffers :: "packet_sniffer list" where
  "defaultPacketSniffers = [DomainNameQuery, QUICClientHello, STUNMessage, UTP, UDPTracker, DTLSRecord, NTP, QUICShortHeader]"

definition sniff_failed_before :: "sniff_action \<Rightarrow> inbound_context \<Rightarrow> bool" where
  "sniff_failed_before action m =
     (m_SnifferNames m = sn_SnifferNames action \<and> m_SniffError m \<noteq> None \<and> \<not> needs_more (m_SniffError m))"

definition actionSniff_stream :: "route_env \<Rightarrow> sniff_action \<Rightarrow> match_state \<Rightarrow> match_state res" where
  "actionSniff_stream R action s =
     (let m = ms_meta s in
      if sn_StreamSniffers action = [] \<and> sn_PacketSniffers action \<noteq> [] then Inr s
      else if sniff_failed_before action m then Inr s
      else
        let sniffers = (if sn_StreamSniffers action \<noteq> [] then sn_StreamSniffers action else defaultStreamSniffers);
            (reads, rest) = next_round (ms_streams s) in
        rbind (PeekStream (re_sniff R) sniffers (ms_buffers s) reads m) (\<lambda>(err, m', buffer).
          Inr (s\<lparr>ms_meta := m'\<lparr>m_SnifferNames := sn_SnifferNames action, m_SniffError := err\<rparr>,
                 ms_buffers := (if buffer \<noteq> [] then ms_buffers s @ [buffer] else ms_buffers s),
                 ms_streams := rest\<rparr>)))"

definition quicMoreData :: "sniff_action \<Rightarrow> inbound_context \<Rightarrow> bool" where
  "quicMoreData action m = (m_SnifferNames m = sn_SnifferNames action \<and> needs_more (m_SniffError m))"

text \<open>One packet: which sniffers it is given to, and the outcome in the metadata.\<close>

definition sniff_packet ::
  "route_env \<Rightarrow> sniff_action \<Rightarrow> byte list \<Rightarrow> inbound_context \<Rightarrow> (sniff_error list option \<times> inbound_context) res" where
  "sniff_packet R action packet m =
     (let sniffers = (if quicMoreData action m then [QUICClientHello]
                      else if sn_PacketSniffers action \<noteq> [] then sn_PacketSniffers action else defaultPacketSniffers) in
      rbind (PeekPacket (re_sniff R) sniffers packet m) (\<lambda>(err, m').
        Inr (err, m'\<lparr>m_SnifferNames := sn_SnifferNames action, m_SniffError := err\<rparr>)))"

text \<open>The packets that were read before: \<open>None\<close> when all of them ask for more.\<close>

fun sniff_buffered ::
  "route_env \<Rightarrow> sniff_action \<Rightarrow> byte list list \<Rightarrow> inbound_context \<Rightarrow> (sniff_error list option option \<times> inbound_context) res" where
  "sniff_buffered R action [] m = Inr (None, m)"
| "sniff_buffered R action (p # ps) m =
     rbind (sniff_packet R action p m) (\<lambda>(err, m').
       if needs_more err then sniff_buffered R action ps m' else Inr (Some err, m'))"

text \<open>Reading on: the packets read, whether a sniffer matched, or the error that ends the connection.\<close>

record sniff_outcome =
  so_meta :: inbound_context
  so_packets :: "(byte list \<times> socksaddr) list"
  so_matched :: bool
  so_fatal :: "error option"

fun sniff_reads ::
  "route_env \<Rightarrow> sniff_action \<Rightarrow> packet_read list \<Rightarrow> (byte list \<times> socksaddr) list \<Rightarrow> inbound_context \<Rightarrow> sniff_outcome res" where
  "sniff_reads R action [] acc m = Inr \<lparr>so_meta = m, so_packets = acc, so_matched = False, so_fatal = None\<rparr>"
| "sniff_reads R action (r # rs) acc m =
     (case r of
        PacketCanceled e \<Rightarrow> Inr \<lparr>so_meta = m, so_packets = acc, so_matched = False, so_fatal = Some e\<rparr>
      | PacketError e \<Rightarrow> Inr \<lparr>so_meta = m, so_packets = acc, so_matched = False, so_fatal = Some e\<rparr>
      | PacketTimeout \<Rightarrow> Inr \<lparr>so_meta = m, so_packets = acc, so_matched = False, so_fatal = None\<rparr>
      | PacketRead p destination \<Rightarrow>
          rbind (sniff_packet R action p m) (\<lambda>(err, m').
            if needs_more err then sniff_reads R action rs (acc @ [(p, destination)]) m'
            else Inr \<lparr>so_meta = m', so_packets = acc @ [(p, destination)], so_matched = (err = None), so_fatal = None\<rparr>))"

definition actionSniff_packet :: "route_env \<Rightarrow> int \<Rightarrow> sniff_action \<Rightarrow> match_state \<Rightarrow> (error option \<times> match_state) res" where
  "actionSniff_packet R now action s =
     (let m = ms_meta s in
      if sn_PacketSniffers action = [] \<and> sn_StreamSniffers action \<noteq> [] then Inr (None, s)
      else if sniff_failed_before action m then Inr (None, s)
      else
        rbind (sniff_buffered R action (map fst (ms_packets s)) m) (\<lambda>(done, m1).
          case done of
            Some err \<Rightarrow>
              let (m2, c) = (if err = None then processQUICSniff now m1 (ms_cache s) else (m1, ms_cache s)) in
              Inr (None, s\<lparr>ms_meta := m2, ms_cache := c\<rparr>)
          | None \<Rightarrow>
              let (reads, rest) = next_round (ms_reads s) in
              rbind (sniff_reads R action reads [] m1) (\<lambda>out.
                let (m2, c) = (if so_matched out then processQUICSniff now (so_meta out) (ms_cache s) else (so_meta out, ms_cache s)) in
                Inr (so_fatal out, s\<lparr>ms_meta := m2, ms_cache := c, ms_packets := ms_packets s @ so_packets out, ms_reads := rest\<rparr>))))"

definition actionSniff :: "route_env \<Rightarrow> int \<Rightarrow> bool \<Rightarrow> sniff_action \<Rightarrow> match_state \<Rightarrow> (error option \<times> match_state) res" where
  "actionSniff R now isStream action s =
     (if Skip (ms_meta s) then Inr (None, s)
      else if m_Protocol (ms_meta s) \<noteq> [] then Inr (None, s)
      else if isStream then rbind (actionSniff_stream R action s) (\<lambda>s'. Inr (None, s'))
      else actionSniff_packet R now action s)"

definition override_with_host :: "inbound_context \<Rightarrow> inbound_context" where
  "override_with_host m =
     m\<lparr>m_Destination := \<lparr>sa_Addr = AddrZero, sa_Port = sa_Port (m_Destination m), sa_Fqdn = m_SniffHost m\<rparr>\<rparr>"

definition actionSniffOverrideDestination :: "rule_env \<Rightarrow> bool \<Rightarrow> inbound_context \<Rightarrow> inbound_context" where
  "actionSniffOverrideDestination E isStream m =
     (if \<not> IsDomain E (m_Destination m) \<and> IsDomainName E (m_SniffHost m) then
        (if isStream then override_with_host m
         else (override_with_host (m\<lparr>m_OriginDestination := m_Destination m\<rparr>))\<lparr>m_DestOverride := True\<rparr>)
      else m)"

definition isAllIPv4 :: "addr list \<Rightarrow> bool" where
  "isAllIPv4 addresses = list_all addr_Is4 addresses"

definition isAllIPv6 :: "addr list \<Rightarrow> bool" where
  "isAllIPv6 addresses = list_all addr_Is6 addresses"

definition actionResolve :: "route_env \<Rightarrow> resolve_action \<Rightarrow> inbound_context \<Rightarrow> inbound_context res" where
  "actionResolve R action m =
     (if IsDomain (re_rule R) (m_Destination m) then
        if rs_Server action \<noteq> [] \<and> \<not> re_Transport R (rs_Server action)
        then Inl (E_New (''DNS server not found: '' @ rs_Server action))
        else rbind (re_Lookup R m (sa_Fqdn (m_Destination m)) action) (\<lambda>addresses.
          let m1 = (if rs_MatchOnly action then m\<lparr>m_CacheIPs := addresses\<rparr> else m\<lparr>m_DestinationAddresses := addresses\<rparr>) in
          Inr (m1\<lparr>m_IPVersion :=
            (if addresses = [] then 0 else if isAllIPv4 addresses then 4 else if isAllIPv6 addresses then 6 else 0)\<rparr>))
      else Inr m)"

section \<open>Matching\<close>

text \<open>
  One rule of the loop in \<open>matchRule\<close>: it is passed over, it is selected, or its action ends the
  connection. A nil action and a description that fails are panics.
\<close>

datatype match_step = NextRule match_state | SelectRule match_state | FatalStep error match_state

definition route_options_of :: "rule_action \<Rightarrow> route_options option" where
  "route_options_of action =
     (case action of
        RuleActionRoute outbound ro \<Rightarrow> Some ro
      | RuleActionRouteOptions ro \<Rightarrow> Some ro
      | RuleActionBypass outbound ro \<Rightarrow> if outbound \<noteq> [] then Some ro else None
      | _ \<Rightarrow> None)"

text \<open>The actions that change the metadata or read.\<close>

definition run_action :: "route_env \<Rightarrow> int \<Rightarrow> bool \<Rightarrow> rule_action \<Rightarrow> match_state \<Rightarrow> (error option \<times> match_state) res" where
  "run_action R now isStream action s =
     (case action of
        RuleActionSniff a \<Rightarrow> actionSniff R now isStream a s
      | RuleActionSniffOverrideDestination \<Rightarrow>
          Inr (None, if m_SniffHost (ms_meta s) \<noteq> []
                     then s\<lparr>ms_meta := actionSniffOverrideDestination (re_rule R) isStream (ms_meta s)\<rparr> else s)
      | RuleActionResolve a \<Rightarrow>
          (case actionResolve R a (ms_meta s) of
             Inl e \<Rightarrow> if is_panic (Inl e :: unit res) then Inl e else Inr (Some e, s)
           | Inr m \<Rightarrow> Inr (None, s\<lparr>ms_meta := m\<rparr>))
      | _ \<Rightarrow> Inr (None, s))"

definition is_pass :: "outbounds \<Rightarrow> rule_action \<Rightarrow> bool" where
  "is_pass mgr action = (case action of RuleActionRoute outbound ro \<Rightarrow> isPassOutbound mgr outbound | _ \<Rightarrow> False)"

definition selects :: "rule_action \<Rightarrow> bool" where
  "selects action =
     (action_Type action = ''route'' \<or> action_Type action = ''reject'' \<or> action_Type action = ''hijack-dns'' \<or>
      (case action of RuleActionBypass outbound ro \<Rightarrow> outbound \<noteq> [] | _ \<Rightarrow> False))"

definition matched_rule :: "route_env \<Rightarrow> int \<Rightarrow> bool \<Rightarrow> rule_action option \<Rightarrow> match_state \<Rightarrow> match_step res" where
  "matched_rule R now isStream act s =
     (case act of
        None \<Rightarrow> Inl (E_Panic ''nil rule action'')
      | Some action \<Rightarrow>
          if is_pass (re_out R) action then Inr (NextRule s)
          else
            let s1 = (case route_options_of action of
                        None \<Rightarrow> s
                      | Some ro \<Rightarrow> s\<lparr>ms_meta := apply_route_options (re_rule R) ro (ms_meta s)\<rparr>) in
            rbind (run_action R now isStream action s1) (\<lambda>(fatal, s2).
              case fatal of
                Some e \<Rightarrow> Inr (FatalStep e s2)
              | None \<Rightarrow> Inr (if selects action then SelectRule s2 else NextRule s2)))"

definition match_rule_step :: "route_env \<Rightarrow> int \<Rightarrow> bool \<Rightarrow> route_rule \<Rightarrow> match_state \<Rightarrow> match_step res" where
  "match_rule_step R now isStream r s =
     (if rt_disabled r then Inr (NextRule s)
      else
        let (matched, m) = hrule_Match (re_rule R) (rt_Rule r) (ResetRuleCache (ms_meta s)); s1 = s\<lparr>ms_meta := m\<rparr> in
        if \<not> matched then Inr (NextRule s1)
        else case hrule_String (re_rule R) (rt_Rule r) of
          None \<Rightarrow> Inl (E_Panic ''index out of range'')
        | Some description \<Rightarrow> matched_rule R now isStream (rt_Action r) s1)"

text \<open>The loop: the index of the selected rule, and the error that ends the connection.\<close>

fun match_rules ::
  "route_env \<Rightarrow> int \<Rightarrow> bool \<Rightarrow> nat \<Rightarrow> route_rule list \<Rightarrow> match_state \<Rightarrow> (nat option \<times> error option \<times> match_state) res" where
  "match_rules R now isStream i [] s = Inr (None, None, s)"
| "match_rules R now isStream i (r # rs) s =
     rbind (match_rule_step R now isStream r s) (\<lambda>step.
       case step of
         NextRule s' \<Rightarrow> match_rules R now isStream (Suc i) rs s'
       | SelectRule s' \<Rightarrow> Inr (Some i, None, s')
       | FatalStep e s' \<Rightarrow> Inr (None, Some e, s'))"

definition matchRule ::
  "route_env \<Rightarrow> int \<Rightarrow> bool \<Rightarrow> route_rule list \<Rightarrow> match_state \<Rightarrow> (nat option \<times> error option \<times> match_state) res" where
  "matchRule R now isStream rules s =
     (case prepareMatchMetadata R (ms_meta s) of
        Inl e \<Rightarrow> if is_panic (Inl e :: unit res) then Inl e else Inr (None, Some e, s)
      | Inr m \<Rightarrow> match_rules R now isStream 0 rules (s\<lparr>ms_meta := m\<rparr>))"

section \<open>Routing a connection\<close>

text \<open>
  Where a connection goes. \<open>RouteTo\<close> holds the chain of outbounds, the metadata, the bytes or packets
  that are read again before the client's next ones, and what closing it refreshes. A group cycle is
  \<open>RouteForever\<close>.
\<close>

datatype route_result =
    RouteInjected string inbound_context
  | RouteHijackDNS inbound_context "byte list" "(byte list \<times> socksaddr) list"
  | RouteFailed error
  | RouteRejected reject_result
  | RouteTo "string list" inbound_context "byte list" "(byte list \<times> socksaddr) list" "(socksaddr \<times> socksaddr \<times> string) option"
  | RouteForever

record router =
  rr_rules :: "route_rule list"
  rr_cache :: quic_cache

text \<open>
  What is read from a connection before the client's next bytes: the buffers are put before it one
  after the other, packets from the last one on (\<open>bufio.NewCachedConn\<close>, \<open>bufio.NewCachedPacketConn\<close>).
\<close>

definition with_buffers :: "route_env \<Rightarrow> byte list list \<Rightarrow> byte list" where
  "with_buffers R buffers = fold (re_NewCachedConn R) buffers []"

definition with_packets :: "route_env \<Rightarrow> (byte list \<times> socksaddr) list \<Rightarrow> (byte list \<times> socksaddr) list" where
  "with_packets R packets = fold (re_NewCachedPacketConn R) (rev packets) []"

definition detour_error :: "route_env \<Rightarrow> bool \<Rightarrow> inbound_context \<Rightarrow> error option" where
  "detour_error R isStream m =
     (if m_LastInbound m = m_InboundDetour m then Some (E_New (''routing loop on detour: '' @ m_InboundDetour m))
      else case re_inbound R (m_InboundDetour m) of
        None \<Rightarrow> Some (E_New (''inbound detour not found: '' @ m_InboundDetour m))
      | Some (tcp, udp) \<Rightarrow>
          if (if isStream then tcp else udp) then None
          else Some (E_New (''inbound detour is not '' @ (if isStream then ''TCP'' else ''UDP'') @ '' injectable: '' @ m_InboundDetour m)))"

definition inject :: "inbound_context \<Rightarrow> inbound_context" where
  "inject m = m\<lparr>m_LastInbound := m_Inbound m, m_Inbound := m_InboundDetour m, m_InboundDetour := []\<rparr>"

definition legacy_destination :: "route_env \<Rightarrow> string \<Rightarrow> error option" where
  "legacy_destination R fqdn =
     (if fqdn = re_MuxFqdn R then
        Some (E_New ''global multiplex is deprecated since sing-box v1.7.0, enable multiplex in Inbound fields instead.'')
      else if fqdn = re_VMessMuxFqdn R then Some (E_New ''global multiplex (v2ray legacy) not supported since sing-box v1.7.0.'')
      else if fqdn = re_UoTMagicAddress R then Some (E_New ''global UoT not supported since sing-box v1.7.0.'')
      else if fqdn = re_UoTLegacyMagicAddress R then Some (E_New ''global UoT (legacy) not supported since sing-box v1.7.0.'')
      else None)"

text \<open>The outbound a selected rule names, or what its action answers at once.\<close>

datatype rule_target = TargetOutbound "string option" | TargetResult route_result

definition named_outbound :: "outbounds \<Rightarrow> string \<Rightarrow> rule_target" where
  "named_outbound mgr tag =
     (if mgr_Outbound mgr tag then TargetOutbound (Some tag)
      else TargetResult (RouteFailed (E_New (''outbound not found: '' @ tag))))"

definition set_reject :: "nat \<Rightarrow> reject_action \<Rightarrow> route_rule list \<Rightarrow> route_rule list" where
  "set_reject i r rules = rules[i := (rules ! i)\<lparr>rt_Action := Some (RuleActionReject r)\<rparr>]"

definition rule_target_of ::
  "route_env \<Rightarrow> int \<Rightarrow> bool \<Rightarrow> match_state \<Rightarrow> nat \<Rightarrow> route_rule list \<Rightarrow> (rule_target \<times> route_rule list) res" where
  "rule_target_of R now isStream s i rules =
     (case rt_Action (rules ! i) of
        Some (RuleActionRoute outbound ro) \<Rightarrow> Inr (named_outbound (re_out R) outbound, rules)
      | Some (RuleActionBypass outbound ro) \<Rightarrow>
          Inr (if outbound = [] then TargetOutbound None else named_outbound (re_out R) outbound, rules)
      | Some (RuleActionReject r) \<Rightarrow>
          if rj_Method r = ''reply'' then
            Inr (TargetResult (RouteFailed (E_New
              (''reject method `reply` is not supported for '' @ (if isStream then ''TCP'' else ''UDP'') @ '' connections''))), rules)
          else rbind (RuleActionReject_Error now r) (\<lambda>(e, r'). Inr (TargetResult (RouteRejected e), set_reject i r' rules))
      | Some RuleActionHijackDNS \<Rightarrow>
          Inr (TargetResult (if isStream then RouteHijackDNS (ms_meta s) (with_buffers R (ms_buffers s)) []
                             else RouteHijackDNS (ms_meta s) [] (ms_packets s)), rules)
      | _ \<Rightarrow> Inr (TargetOutbound None, rules))"

text \<open>From the outbound to the end of the chain.\<close>

definition route_to ::
  "route_env \<Rightarrow> bool \<Rightarrow> string option \<Rightarrow> string option \<Rightarrow> match_state \<Rightarrow> route_result res" where
  "route_to R isStream outbound description s =
     (let m = ms_meta s; network = (if isStream then ''tcp'' else ''udp'') in
      case resolveOutbound (re_out R) outbound network m of
        None \<Rightarrow> Inr RouteForever
      | Some (Inl e) \<Rightarrow> if is_panic (Inl e :: unit res) then Inl e else Inr (RouteFailed e)
      | Some (Inr chain) \<Rightarrow>
          let m1 = (case description of None \<Rightarrow> m | Some d \<Rightarrow> m\<lparr>m_RouteRule := d\<rparr>);
              m2 = m1\<lparr>m_RouteOutbound := hd chain, m_OutboundChain := chain\<rparr> in
          Inr (if isStream then RouteTo chain m2 (with_buffers R (ms_buffers s)) [] None
               else RouteTo chain m2 [] (with_packets R (ms_packets s)) (wrapQUICSniffIdleCache (re_rule R) m2)))"

definition route_selected ::
  "route_env \<Rightarrow> int \<Rightarrow> bool \<Rightarrow> nat option \<Rightarrow> match_state \<Rightarrow> route_rule list \<Rightarrow> (route_result \<times> route_rule list) res" where
  "route_selected R now isStream selected s rules =
     (case selected of
        None \<Rightarrow> rbind (route_to R isStream (Some (mgr_Default (re_out R))) None s) (\<lambda>out. Inr (out, rules))
      | Some i \<Rightarrow>
          rbind (rule_target_of R now isStream s i rules) (\<lambda>(target, rules').
            case target of
              TargetResult out \<Rightarrow> Inr (out, rules')
            | TargetOutbound ob \<Rightarrow>
                rbind (route_to R isStream ob (hrule_String (re_rule R) (rt_Rule (rules ! i))) s) (\<lambda>out. Inr (out, rules'))))"

definition route_matched ::
  "route_env \<Rightarrow> int \<Rightarrow> bool \<Rightarrow> match_state \<Rightarrow> route_rule list \<Rightarrow> (route_result \<times> router) res" where
  "route_matched R now isStream s rules =
     rbind (matchRule R now isStream rules s) (\<lambda>(selected, fatal, s').
       case fatal of
         Some e \<Rightarrow> Inr (RouteFailed e, \<lparr>rr_rules = rules, rr_cache = ms_cache s'\<rparr>)
       | None \<Rightarrow>
           rbind (route_selected R now isStream selected s' rules) (\<lambda>(out, rules').
             Inr (out, \<lparr>rr_rules = rules', rr_cache = ms_cache s'\<rparr>)))"

definition start_state :: "inbound_context \<Rightarrow> quic_cache \<Rightarrow> stream_read list list \<Rightarrow> packet_read list list \<Rightarrow> match_state" where
  "start_state m c streams reads =
     \<lparr>ms_meta = m, ms_cache = c, ms_buffers = [], ms_packets = [], ms_streams = streams, ms_reads = reads\<rparr>"

definition routeConnection ::
  "route_env \<Rightarrow> int \<Rightarrow> inbound_context \<Rightarrow> stream_read list list \<Rightarrow> router \<Rightarrow> (route_result \<times> router) res" where
  "routeConnection R now m streams rt =
     (if m_InboundDetour m \<noteq> [] then
        (case detour_error R True m of
           Some e \<Rightarrow> Inr (RouteFailed e, rt)
         | None \<Rightarrow> Inr (RouteInjected (m_InboundDetour m) (inject m), rt))
      else
        let m1 = m\<lparr>m_Network := ''tcp''\<rparr> in
        case legacy_destination R (sa_Fqdn (m_Destination m)) of
          Some e \<Rightarrow> Inr (RouteFailed e, rt)
        | None \<Rightarrow>
            if m_InboundType m = ''tun'' \<and> m_Protocol m = ''dns'' then Inr (RouteHijackDNS m1 [] [], rt)
            else route_matched R now True (start_state m1 (rr_cache rt) streams []) (rr_rules rt))"

definition routePacketConnection ::
  "route_env \<Rightarrow> int \<Rightarrow> inbound_context \<Rightarrow> packet_read list list \<Rightarrow> router \<Rightarrow> (route_result \<times> router) res" where
  "routePacketConnection R now m reads rt =
     (if m_InboundDetour m \<noteq> [] then
        (case detour_error R False m of
           Some e \<Rightarrow> Inr (RouteFailed e, rt)
         | None \<Rightarrow> Inr (RouteInjected (m_InboundDetour m) (inject m), rt))
      else
        let m1 = m\<lparr>m_Network := ''udp''\<rparr> in
        if m_InboundType m = ''tun'' \<and> m_Protocol m = ''dns'' then Inr (RouteHijackDNS m1 [] [], rt)
        else route_matched R now False (start_state m1 (rr_cache rt) [] reads) (rr_rules rt))"

end
