(* ===== verification/Route_PreMatch.thy ===== *)
theory Route_PreMatch
  imports Route
begin

text \<open>
  The pre-match of a flow (\<open>Router.PreMatch\<close>, \<open>preMatchFlow\<close>, \<open>selectPreMatchOutbound\<close> of
  \<open>route/route.go\<close>, \<open>JudgeFlow\<close> of \<open>adapter/router.go\<close>): a device asks, before it makes a connection of
  packets, whether it may forward, reject or bypass them by itself.
\<close>

record pre_match_result =
  pm_Action :: pre_match_action
  pm_Outbound :: "string option"
  pm_Destination :: "addr_port option"
  pm_UDPTimeout :: int

definition pre_match :: "pre_match_action \<Rightarrow> pre_match_result" where
  "pre_match a = \<lparr>pm_Action = a, pm_Outbound = None, pm_Destination = None, pm_UDPTimeout = 0\<rparr>"

section \<open>The outbound of a flow\<close>

definition last_nonempty :: "'a list list \<Rightarrow> 'a list" where
  "last_nonempty xss = (case filter (\<lambda>xs. xs \<noteq> []) xss of [] \<Rightarrow> [] | yss \<Rightarrow> last yss)"

text \<open>
  \<open>selectPreMatchOutbound\<close> at depth \<open>9 - n\<close>: beyond depth 8 it gives up. The chain it answers belongs
  to the candidate that was tried last with success.
\<close>

fun selectPreMatchOutbound ::
  "outbounds \<Rightarrow> inbound_context \<Rightarrow> nat \<Rightarrow> string option \<Rightarrow> string list \<times> pre_match_action" where
  "selectPreMatchOutbound mgr m 0 outbound = ([], PreMatchContinue)"
| "selectPreMatchOutbound mgr m (Suc n) outbound =
     (case outbound of
        None \<Rightarrow> ([], PreMatchContinue)
      | Some ob \<Rightarrow>
          (case out_SelectPreMatch mgr ob of
             Some selectOutbound \<Rightarrow>
               let try = (\<lambda>c. case selectPreMatchOutbound mgr m n (Some c) of
                            (chain, action) \<Rightarrow> (if chain = [] then None else Some (last chain), action));
                   (tried, selected, action) = selectOutbound m try;
                   selectedChain = last_nonempty (map (\<lambda>c. fst (selectPreMatchOutbound mgr m n (Some c))) tried)
               in if selected = None \<or> selectedChain = [] then ([], PreMatchContinue) else (ob # selectedChain, action)
           | None \<Rightarrow>
               (case out_Selected mgr ob of
                  Some select \<Rightarrow>
                    (case selectPreMatchOutbound mgr m n (select (m_Network m)) of
                       (chain, action) \<Rightarrow> if chain = [] then ([], action) else (ob # chain, action))
                | None \<Rightarrow>
                    if \<not> List.member (out_Network mgr ob) (m_Network m) then ([], PreMatchContinue)
                    else case out_PreMatchFlow mgr ob of
                      None \<Rightarrow> ([], PreMatchContinue)
                    | Some flow \<Rightarrow>
                        let flowAction = flow (m_Network m) (sa_Addr (m_Destination m)) in
                        if flowAction = PreMatchContinue then ([], PreMatchContinue) else ([ob], flowAction))))"

definition PortProtocols :: "port \<Rightarrow> string" where
  "PortProtocols p = (if p = 53 then ''dns'' else if p = 123 then ''ntp'' else if p = 3478 then ''stun''
     else if p = 443 then ''quic'' else [])"

definition ProtocolTimeouts :: "string \<Rightarrow> int" where
  "ProtocolTimeouts p =
     (if p = ''dns'' \<or> p = ''ntp'' \<or> p = ''stun'' then 10 * 1000000000
      else if p = ''quic'' \<or> p = ''dtls'' then 30 * 1000000000 else 0)"

definition flow_udp_timeout :: "inbound_context \<Rightarrow> int" where
  "flow_udp_timeout m =
     (if m_Network m \<noteq> ''udp'' then 0
      else if m_UDPTimeout m > 0 then m_UDPTimeout m
      else
        let protocol = (if m_Protocol m = [] then PortProtocols (sa_Port (m_Destination m)) else m_Protocol m) in
        if protocol \<noteq> [] then ProtocolTimeouts protocol else 0)"

text \<open>The addresses of a domain destination: those of the metadata, or what the outbound resolves.\<close>

definition flow_addresses :: "route_env \<Rightarrow> string \<Rightarrow> inbound_context \<Rightarrow> addr list res" where
  "flow_addresses R ob m =
     (if m_DestinationAddresses m = [] \<and> out_FlowDomainResolver (re_out R) ob
      then re_FlowLookup R ob m (sa_Fqdn (m_Destination m))
      else Inr (m_DestinationAddresses m))"

definition flow_domain ::
  "route_env \<Rightarrow> string \<Rightarrow> (string \<Rightarrow> addr \<Rightarrow> pre_match_action) \<Rightarrow> inbound_context \<Rightarrow> socksaddr \<Rightarrow> pre_match_result \<Rightarrow> pre_match_result" where
  "flow_domain R ob flow m packetDestination result =
     (if \<not> m_FakeIP m \<and> \<not> m_DestOverride m then pre_match PreMatchContinue
      else case flow_addresses R ob m of
        Inl e \<Rightarrow> pre_match PreMatchReject
      | Inr addresses \<Rightarrow>
          (case find (\<lambda>a. addr_Is4 a = IsIPv4 (re_rule R) packetDestination) addresses of
             None \<Rightarrow> pre_match PreMatchReject
           | Some newDestination \<Rightarrow>
               if \<not> addr_IsValid newDestination then pre_match PreMatchReject
               else
                 let flowAction = flow (m_Network m) newDestination in
                 if flowAction \<noteq> PreMatchFlow then (pre_match flowAction)\<lparr>pm_Outbound := Some ob\<rparr>
                 else result\<lparr>pm_Destination := Some (newDestination, sa_Port (m_Destination m))\<rparr>))"

definition preMatchFlow :: "route_env \<Rightarrow> inbound_context \<Rightarrow> socksaddr \<Rightarrow> string \<Rightarrow> pre_match_result res" where
  "preMatchFlow R m packetDestination outboundTag =
     (if outboundTag \<noteq> [] \<and> \<not> mgr_Outbound (re_out R) outboundTag then Inr (pre_match PreMatchContinue)
      else
        let outbound = (if outboundTag = [] then mgr_Default (re_out R) else outboundTag);
            (chain, flowAction) = selectPreMatchOutbound (re_out R) m 9 (Some outbound) in
        if chain = [] then Inr (pre_match PreMatchContinue)
        else if flowAction \<noteq> PreMatchFlow then Inr ((pre_match flowAction)\<lparr>pm_Outbound := Some (last chain)\<rparr>)
        else case out_PreMatchFlow (re_out R) (last chain) of
          None \<Rightarrow> Inl (E_Panic ''interface conversion'')
        | Some flow \<Rightarrow>
            let result = \<lparr>pm_Action = PreMatchFlow, pm_Outbound = Some (last chain), pm_Destination = None,
                          pm_UDPTimeout = flow_udp_timeout m\<rparr> in
            if IsDomain (re_rule R) (m_Destination m)
            then Inr (flow_domain R (last chain) flow m packetDestination result)
            else if m_Destination m \<noteq> packetDestination
            then Inr (result\<lparr>pm_Destination := Some (re_AddrPort R (m_Destination m))\<rparr>)
            else Inr result)"

section \<open>The rules\<close>

datatype pre_step = PreNext inbound_context quic_cache | PreDone pre_match_result quic_cache "reject_action option"

definition pre_sniff :: "route_env \<Rightarrow> int \<Rightarrow> sniff_action \<Rightarrow> byte list \<Rightarrow> inbound_context \<Rightarrow> quic_cache \<Rightarrow> pre_step res" where
  "pre_sniff R now action firstPacket m c =
     (if m_Network m = ''icmp'' then Inr (PreNext m c)
      else if m_Network m \<noteq> ''udp'' \<or> firstPacket = [] then Inr (PreDone (pre_match PreMatchContinue) c None)
      else if Skip m \<or> m_Protocol m \<noteq> [] then Inr (PreNext m c)
      else if sn_PacketSniffers action = [] \<and> sn_StreamSniffers action \<noteq> [] then Inr (PreNext m c)
      else if m_SnifferNames m = sn_SnifferNames action \<and> m_SniffError m \<noteq> None then Inr (PreNext m c)
      else
        let sniffers = (if sn_PacketSniffers action = [] then defaultPacketSniffers else sn_PacketSniffers action) in
        rbind (PeekPacket (re_sniff R) sniffers firstPacket m) (\<lambda>(err, m').
          let m1 = m'\<lparr>m_SnifferNames := sn_SnifferNames action, m_SniffError := err\<rparr> in
          if err \<noteq> None then
            Inr (if needs_more err then PreDone (pre_match PreMatchContinue) c None else PreNext m1 c)
          else case processQUICSniff now m1 c of (m2, c') \<Rightarrow> Inr (PreNext m2 c')))"

definition pre_bypass :: "route_env \<Rightarrow> string \<Rightarrow> inbound_context \<Rightarrow> socksaddr \<Rightarrow> pre_match_result res" where
  "pre_bypass R outbound m packetDestination =
     (let changed = (IsDomain (re_rule R) (m_Destination m) \<or> m_Destination m \<noteq> packetDestination) in
      if outbound = [] then Inr (pre_match (if changed then PreMatchContinue else PreMatchBypass))
      else if changed then preMatchFlow R m packetDestination outbound
      else rbind (preMatchFlow R m packetDestination outbound) (\<lambda>result.
        Inr (if pm_Action result \<noteq> PreMatchFlow then pre_match PreMatchBypass else result\<lparr>pm_Action := PreMatchBypass\<rparr>)))"

definition pre_reject :: "int \<Rightarrow> reject_action \<Rightarrow> inbound_context \<Rightarrow> (pre_match_result \<times> reject_action) res" where
  "pre_reject now r m =
     rbind (RuleActionReject_Error now r) (\<lambda>(e, r').
       Inr (if e = NoError \<and> m_Network m = ''icmp'' then pre_match PreMatchContinue
            else if e = RejectedDrop then pre_match PreMatchDrop else pre_match PreMatchReject, r'))"

definition pre_action ::
  "route_env \<Rightarrow> int \<Rightarrow> byte list \<Rightarrow> socksaddr \<Rightarrow> rule_action option \<Rightarrow> inbound_context \<Rightarrow> quic_cache \<Rightarrow> pre_step res" where
  "pre_action R now firstPacket packetDestination act m c =
     (case act of
        Some (RuleActionSniff a) \<Rightarrow> pre_sniff R now a firstPacket m c
      | Some RuleActionSniffOverrideDestination \<Rightarrow>
          Inr (PreNext (if m_SniffHost m \<noteq> [] then actionSniffOverrideDestination (re_rule R) False m else m) c)
      | Some (RuleActionRouteOptions ro) \<Rightarrow> Inr (PreNext (applyRouteOptionsOverride (re_rule R) ro m) c)
      | Some (RuleActionRoute outbound ro) \<Rightarrow>
          if isPassOutbound (re_out R) outbound then Inr (PreNext m c)
          else rbind (preMatchFlow R (applyRouteOptionsOverride (re_rule R) ro m) packetDestination outbound)
                 (\<lambda>out. Inr (PreDone out c None))
      | Some (RuleActionBypass outbound ro) \<Rightarrow>
          rbind (pre_bypass R outbound (applyRouteOptionsOverride (re_rule R) ro m) packetDestination)
            (\<lambda>out. Inr (PreDone out c None))
      | Some (RuleActionReject r) \<Rightarrow> rbind (pre_reject now r m) (\<lambda>(out, r'). Inr (PreDone out c (Some r')))
      | Some RuleActionHijackDNS \<Rightarrow>
          Inr (PreDone (pre_match (if m_Network m \<noteq> ''udp'' then PreMatchContinue else PreMatchHijackDNS)) c None)
      | Some (RuleActionResolve a) \<Rightarrow>
          (case actionResolve R a m of
             Inl e \<Rightarrow> if is_panic (Inl e :: unit res) then Inl e else Inr (PreDone (pre_match PreMatchReject) c None)
           | Inr m' \<Rightarrow> Inr (PreNext m' c))
      | _ \<Rightarrow> Inr (PreDone (pre_match PreMatchContinue) c None))"

fun pre_rules ::
  "route_env \<Rightarrow> int \<Rightarrow> byte list \<Rightarrow> socksaddr \<Rightarrow> nat \<Rightarrow> route_rule list \<Rightarrow> inbound_context \<Rightarrow> router \<Rightarrow> (pre_match_result \<times> router) res" where
  "pre_rules R now firstPacket packetDestination i [] m rt =
     rbind (preMatchFlow R m packetDestination []) (\<lambda>out. Inr (out, rt))"
| "pre_rules R now firstPacket packetDestination i (r # rs) m rt =
     (if rt_disabled r then pre_rules R now firstPacket packetDestination (Suc i) rs m rt
      else
        let (matched, m1) = hrule_Match (re_rule R) (rt_Rule r) (ResetRuleCache m) in
        if \<not> matched then pre_rules R now firstPacket packetDestination (Suc i) rs m1 rt
        else case hrule_String (re_rule R) (rt_Rule r) of
          None \<Rightarrow> Inl (E_Panic ''index out of range'')
        | Some description \<Rightarrow>
            rbind (pre_action R now firstPacket packetDestination (rt_Action r) m1 (rr_cache rt)) (\<lambda>step.
              case step of
                PreNext m2 c \<Rightarrow> pre_rules R now firstPacket packetDestination (Suc i) rs m2 (rt\<lparr>rr_cache := c\<rparr>)
              | PreDone out c reject \<Rightarrow>
                  Inr (out, rt\<lparr>rr_cache := c,
                    rr_rules := (case reject of None \<Rightarrow> rr_rules rt | Some r' \<Rightarrow> set_reject i r' (rr_rules rt))\<rparr>)))"

definition PreMatch :: "route_env \<Rightarrow> int \<Rightarrow> inbound_context \<Rightarrow> byte list \<Rightarrow> router \<Rightarrow> (pre_match_result \<times> router) res" where
  "PreMatch R now m firstPacket rt =
     (case prepareMatchMetadata R (m\<lparr>m_PreMatch := True\<rparr>) of
        Inl e \<Rightarrow> if is_panic (Inl e :: unit res) then Inl e else Inr (pre_match PreMatchContinue, rt)
      | Inr m1 \<Rightarrow> pre_rules R now firstPacket (m_Destination m) 0 (rr_rules rt) m1 rt)"

section \<open>The verdict\<close>

datatype flow_action = ActionAccept | ActionFlow | ActionReject | ActionDrop | ActionBypass | ActionHijackDNS

record flow_verdict =
  fv_Action :: flow_action
  fv_Port :: "string option"
  fv_UDPTimeout :: int
  fv_Destination :: "addr_port option"

definition flow_verdict :: "flow_action \<Rightarrow> flow_verdict" where
  "flow_verdict a = \<lparr>fv_Action = a, fv_Port = None, fv_UDPTimeout = 0, fv_Destination = None\<rparr>"

definition network_name :: "byte \<Rightarrow> string option" where
  "network_name network =
     (if network = 6 then Some ''tcp'' else if network = 17 then Some ''udp''
      else if network = 1 \<or> network = 58 then Some ''icmp'' else None)"

text \<open>\<open>isPort\<close> says which outbounds a device can forward to.\<close>

definition verdict_of :: "(string \<Rightarrow> bool) \<Rightarrow> string \<Rightarrow> port \<Rightarrow> pre_match_result \<Rightarrow> flow_verdict" where
  "verdict_of isPort networkName destinationPort result =
     (let port = (case pm_Outbound result of None \<Rightarrow> None | Some ob \<Rightarrow> if isPort ob then Some ob else None) in
      case pm_Action result of
        PreMatchFlow \<Rightarrow>
          (case port of
             None \<Rightarrow> flow_verdict ActionAccept
           | Some ob \<Rightarrow>
               \<lparr>fv_Action = ActionFlow, fv_Port = Some ob, fv_UDPTimeout = pm_UDPTimeout result,
                fv_Destination = (case pm_Destination result of
                    None \<Rightarrow> None
                  | Some (a, p) \<Rightarrow> if addr_IsValid a then Some (a, if networkName = ''icmp'' then destinationPort else p) else None)\<rparr>)
      | PreMatchReject \<Rightarrow> flow_verdict ActionReject
      | PreMatchDrop \<Rightarrow> flow_verdict ActionDrop
      | PreMatchBypass \<Rightarrow>
          (case port of
             None \<Rightarrow> flow_verdict ActionBypass
           | Some ob \<Rightarrow> \<lparr>fv_Action = ActionBypass, fv_Port = Some ob, fv_UDPTimeout = pm_UDPTimeout result, fv_Destination = None\<rparr>)
      | PreMatchHijackDNS \<Rightarrow> flow_verdict ActionHijackDNS
      | PreMatchContinue \<Rightarrow> flow_verdict ActionAccept)"

definition JudgeFlow ::
  "route_env \<Rightarrow> (string \<Rightarrow> bool) \<Rightarrow> int \<Rightarrow> inbound_context \<Rightarrow> byte \<Rightarrow> addr_port \<Rightarrow> addr_port \<Rightarrow> byte list \<Rightarrow> router \<Rightarrow>
   (flow_verdict \<times> router) res" where
  "JudgeFlow R isPort now m network source destination firstPacket rt =
     (case network_name network of
        None \<Rightarrow> Inr (flow_verdict ActionAccept, rt)
      | Some networkName \<Rightarrow>
          let icmp = (networkName = ''icmp'');
              src = re_SocksaddrFromNetIP R source; dst = re_SocksaddrFromNetIP R destination;
              m1 = m\<lparr>m_Network := networkName, m_Source := (if icmp then src\<lparr>sa_Port := 0\<rparr> else src),
                     m_Destination := (if icmp then dst\<lparr>sa_Port := 0\<rparr> else dst)\<rparr> in
          rbind (PreMatch R now m1 firstPacket rt) (\<lambda>(out, rt').
            Inr (verdict_of isPort networkName (snd destination) out, rt')))"

end
