(* ===== verification/Route_Facts.thy ===== *)
theory Route_Facts
  imports Route_PreMatch Sniff_Props
begin

text \<open>
  Lemmas on routing: what matching and the actions leave alone, and that nothing they do panics.
\<close>

section \<open>Matching leaves the metadata alone\<close>

lemma hrule_Match_reset:
  assumes "\<not> m_IgnoreDestinationIPCIDRMatch m"
  shows "hrule_Match E r (ResetRuleCache m) = (hrule_sem E r (ResetRuleCache m), ResetRuleCache m)"
proof (rule exactD [OF rule_tree_exact(1)])
  show "clean (ResetRuleCache m)" by (rule clean_reset(2))
  show "\<not> m_IgnoreDestinationIPCIDRMatch (ResetRuleCache m)"
    using assms by (simp add: ResetRuleCache_def ResetRuleMatchCache_def)
qed

text \<open>What routing keeps true of the metadata.\<close>

definition meta_ok :: "inbound_context \<Rightarrow> bool" where
  "meta_ok m \<longleftrightarrow> sniff_context_ok m \<and> \<not> m_IgnoreDestinationIPCIDRMatch m"

lemma meta_ok_reset [simp]: "meta_ok (ResetRuleCache m) = meta_ok m"
  by (simp add: meta_ok_def sniff_context_ok_def ResetRuleCache_def ResetRuleMatchCache_def)

section \<open>Sniffers\<close>

definition keeps :: "(inbound_context \<Rightarrow> 'a) \<Rightarrow> inbound_context \<Rightarrow> ('e \<times> inbound_context) res \<Rightarrow> bool" where
  "keeps f m r = (case r of Inl e \<Rightarrow> True | Inr (e, m') \<Rightarrow> f m' = f m)"

lemma keeps_simps [simp]:
  "keeps f m (Inl e)"
  "keeps f m (Inr (x, m')) = (f m' = f m)"
  "keeps f m (failed er m)"
  "keeps f m (found p m) = (f (m\<lparr>m_Protocol := p\<rparr>) = f m)"
  by (simp_all add: keeps_def failed_def found_def)

lemma keeps_cong: "f m' = f m \<Longrightarrow> keeps f m' r = keeps f m r"
  by (cases r) (auto simp: keeps_def)

lemma keeps_with_bytes:
  assumes "\<And>bs rest. keeps f m (k bs rest)"
  shows "keeps f m (with_bytes n r m k)"
  using assms by (auto simp: with_bytes_def split: option.split)

lemma try_sniffers_keeps:
  assumes "\<And>s m. keeps f m (run s m)"
  shows "keeps f m (try_sniffers run ss errs m)"
proof (induction ss arbitrary: errs m)
  case (Cons s ss)
  show ?case
  proof (cases "run s m")
    case (Inr p)
    obtain e m' where p: "p = (e, m')" by (cases p)
    have m: "f m' = f m" using assms [of m s] Inr p by simp
    then show ?thesis using Cons.IH [of m'] by (cases e) (simp_all add: Inr p keeps_cong [OF m])
  qed simp
qed simp

abbreviation ignores :: "inbound_context \<Rightarrow> bool" where
  "ignores \<equiv> m_IgnoreDestinationIPCIDRMatch"

abbreviation kept_state :: "inbound_context \<Rightarrow> bool \<times> quic_fragment list option" where
  "kept_state m \<equiv> (m_IgnoreDestinationIPCIDRMatch m, m_SniffContext m)"

lemma QUICClientHello_flag: "keeps ignores m (QUICClientHello_sniff S m packet)"
proof -
  have "keeps ignores m (quic_finish ts fs m)" for ts fs
    by (cases "quic_client ts (projr (fragments_hello (fs @ (case m_SniffContext m of None \<Rightarrow> [] | Some old \<Rightarrow> old))))")
      (auto simp: quic_finish_def Let_def failed_def keeps_def split: sum.split)
  then show ?thesis by (auto simp: QUICClientHello_sniff_def split: sum.split)
qed

lemma packet_sniffer_flag: "keeps ignores m (run_packet_sniffer S s m packet)"
  by (cases s) (auto simp: run_packet_sniffer_def QUICClientHello_flag QUICShortHeader_sniff_def DomainNameQuery_sniff_def
      STUNMessage_sniff_def UTP_sniff_def UDPTracker_sniff_def DTLSRecord_sniff_def NTP_sniff_def byte_at_def u16_at_def
      u32_at_def slice_from_def Let_def split: option.split sum.split)

lemma PeekPacket_ok:
  assumes "meta_ok m"
  shows "\<exists>err m'. PeekPacket S sniffers packet m = Inr (err, m') \<and> meta_ok m'"
proof -
  from try_sniffers_good [of "\<lambda>s m. run_packet_sniffer S s m packet", OF packet_sniffer_good] assms
  obtain err m' where r: "PeekPacket S sniffers packet m = Inr (err, m')" "sniff_context_ok m'"
    unfolding PeekPacket_def meta_ok_def by blast
  moreover have "m_IgnoreDestinationIPCIDRMatch m' = m_IgnoreDestinationIPCIDRMatch m"
    using try_sniffers_keeps [of ignores "\<lambda>s m. run_packet_sniffer S s m packet" m, OF packet_sniffer_flag] r(1)
    unfolding PeekPacket_def by (metis keeps_simps(2))
  ultimately show ?thesis using assms by (auto simp: meta_ok_def)
qed

text \<open>A stream sniffer leaves that alone altogether.\<close>

lemma DomainNameQuery_keeps: "keeps kept_state m (DomainNameQuery_sniff S m packet)"
  by (auto simp: DomainNameQuery_sniff_def u16_at_def byte_at_def split: option.split sum.split)

lemma stream_sniffer_keeps: "keeps kept_state m (run_stream_sniffer S s m r)"
proof (cases s)
  case StreamDomainNameQuery
  then show ?thesis
    by (auto simp: run_stream_sniffer_def StreamDomainNameQuery_sniff_def Let_def DomainNameQuery_keeps
        split: option.split intro!: keeps_with_bytes)
next
  case RDP
  then show ?thesis by (auto simp: run_stream_sniffer_def RDP_sniff_def intro!: keeps_with_bytes)
next
  case SSH
  then show ?thesis by (auto simp: run_stream_sniffer_def SSH_sniff_def Let_def slice_from_def)
qed (auto simp: run_stream_sniffer_def TLSClientHello_sniff_def HTTPHost_sniff_def BitTorrent_sniff_def Let_def
      split: tls_result.split http_request.split prod.split intro!: keeps_with_bytes)

lemma kept_state_meta_ok: "kept_state m' = kept_state m \<Longrightarrow> meta_ok m' = meta_ok m"
  by (simp add: meta_ok_def sniff_context_ok_def)

lemma PeekStream_loop_ok:
  "\<exists>err m' b. PeekStream_loop S ss buffers reads again serr buffer m = Inr (err, m', b) \<and> kept_state m' = kept_state m"
proof (induction reads arbitrary: again serr buffer m)
  case (Cons rd rds)
  show ?case
  proof (cases rd)
    case (ReadBytes bs)
    let ?run = "\<lambda>s m. run_stream_sniffer S s m (buffers @ [buffer @ bs])"
    from try_sniffers_harmless [of m ?run ss "[]", OF stream_sniffer_harmless] obtain err m'
      where r: "try_sniffers ?run ss [] m = Inr (err, m')" by auto
    have "kept_state m' = kept_state m"
      using try_sniffers_keeps [of kept_state ?run m ss "[]", OF stream_sniffer_keeps] unfolding r by simp
    with r Cons.IH [of True err "buffer @ bs" m'] show ?thesis by (auto simp: ReadBytes Let_def)
  qed simp_all
qed simp

lemma meta_ok_updates [simp]:
  "meta_ok (m\<lparr>m_SnifferNames := a\<rparr>) = meta_ok m"
  "meta_ok (m\<lparr>m_SniffError := b\<rparr>) = meta_ok m"
  "meta_ok (m\<lparr>m_SniffHost := c\<rparr>) = meta_ok m"
  "meta_ok (m\<lparr>m_SniffDestination := d\<rparr>) = meta_ok m"
  "meta_ok (m\<lparr>m_Destination := d\<rparr>) = meta_ok m"
  "meta_ok (m\<lparr>m_OriginDestination := d\<rparr>) = meta_ok m"
  "meta_ok (m\<lparr>m_DestOverride := e\<rparr>) = meta_ok m"
  "meta_ok (m\<lparr>m_Network := n\<rparr>) = meta_ok m"
  "meta_ok (m\<lparr>m_PreMatch := e\<rparr>) = meta_ok m"
  "meta_ok (m\<lparr>m_Source := d\<rparr>) = meta_ok m"
  by (simp_all add: meta_ok_def sniff_context_ok_def)

section \<open>Actions\<close>

lemma processQUICSniff_ok [simp]: "meta_ok (fst (processQUICSniff now m c)) = meta_ok m"
  by (auto simp: processQUICSniff_def Let_def split: prod.split option.split)

lemma sniff_packet_ok:
  assumes "meta_ok m"
  shows "\<exists>err m'. sniff_packet R action packet m = Inr (err, m') \<and> meta_ok m'"
proof -
  let ?ss = "if quicMoreData action m then [QUICClientHello]
             else if sn_PacketSniffers action \<noteq> [] then sn_PacketSniffers action else defaultPacketSniffers"
  from PeekPacket_ok [OF assms, of "re_sniff R" ?ss packet] obtain err m'
    where "PeekPacket (re_sniff R) ?ss packet m = Inr (err, m')" "meta_ok m'" by blast
  then show ?thesis by (simp add: sniff_packet_def Let_def)
qed

lemma sniff_buffered_ok:
  "meta_ok m \<Longrightarrow> \<exists>r m'. sniff_buffered R action ps m = Inr (r, m') \<and> meta_ok m'"
proof (induction ps arbitrary: m)
  case (Cons p ps)
  from sniff_packet_ok [OF Cons.prems, of R action p] obtain err m'
    where "sniff_packet R action p m = Inr (err, m')" "meta_ok m'" by blast
  with Cons.IH [of m'] show ?case by auto
qed simp

lemma sniff_reads_ok:
  "meta_ok m \<Longrightarrow> \<exists>out. sniff_reads R action reads acc m = Inr out \<and> meta_ok (so_meta out)"
proof (induction reads arbitrary: acc m)
  case (Cons rd rds)
  show ?case
  proof (cases rd)
    case (PacketRead p d)
    from sniff_packet_ok [OF Cons.prems, of R action p] obtain err m'
      where "sniff_packet R action p m = Inr (err, m')" "meta_ok m'" by blast
    with Cons.IH [of m'] show ?thesis by (auto simp: PacketRead)
  qed (simp_all add: Cons.prems)
qed simp

lemma actionSniff_packet_ok:
  assumes "meta_ok (ms_meta s)"
  shows "\<exists>fatal s'. actionSniff_packet R now action s = Inr (fatal, s') \<and> meta_ok (ms_meta s')"
proof -
  from sniff_buffered_ok [OF assms, of R action "map fst (ms_packets s)"] obtain r m1
    where b: "sniff_buffered R action (map fst (ms_packets s)) (ms_meta s) = Inr (r, m1)" "meta_ok m1" by blast
  obtain reads rest where n: "next_round (ms_reads s) = (reads, rest)" by (cases "next_round (ms_reads s)")
  from sniff_reads_ok [OF b(2), of R action reads "[]"] obtain out
    where o: "sniff_reads R action reads [] m1 = Inr out" "meta_ok (so_meta out)" by blast
  note q = processQUICSniff_ok [of now "so_meta out" "ms_cache s"] processQUICSniff_ok [of now m1 "ms_cache s"]
  show ?thesis
    using assms b o q
    by (cases r) (simp_all add: actionSniff_packet_def Let_def n case_prod_beta)
qed

lemma actionSniff_ok:
  assumes "meta_ok (ms_meta s)"
  shows "\<exists>fatal s'. actionSniff R now isStream action s = Inr (fatal, s') \<and> meta_ok (ms_meta s')"
proof -
  obtain reads rest where n: "next_round (ms_streams s) = (reads, rest)" by (cases "next_round (ms_streams s)")
  let ?ss = "if sn_StreamSniffers action \<noteq> [] then sn_StreamSniffers action else defaultStreamSniffers"
  from PeekStream_loop_ok [of "re_sniff R" ?ss "ms_buffers s" reads False None "[]" "ms_meta s"] obtain err m' b
    where p: "PeekStream (re_sniff R) ?ss (ms_buffers s) reads (ms_meta s) = Inr (err, m', b)"
      and k: "kept_state m' = kept_state (ms_meta s)" unfolding PeekStream_def by blast
  have "\<exists>s'. actionSniff_stream R action s = Inr s' \<and> meta_ok (ms_meta s')"
    using kept_state_meta_ok [OF k] assms by (simp add: actionSniff_stream_def Let_def n p)
  then show ?thesis using actionSniff_packet_ok [OF assms, of R now action] assms
    by (auto simp: actionSniff_def)
qed

end
