(* ===== verification/Route_Safe.thy ===== *)
theory Route_Safe
  imports Route_Facts
begin

text \<open>
  Routing a connection of any content through rules of any built kind: an answer, no panic.
\<close>

section \<open>The actions of a matched rule\<close>

lemma kept_state_options [simp]:
  "m_IgnoreDestinationIPCIDRMatch (applyRouteOptionsOverride E ro m) = m_IgnoreDestinationIPCIDRMatch m"
  "m_SniffContext (applyRouteOptionsOverride E ro m) = m_SniffContext m"
  by (simp_all add: applyRouteOptionsOverride_def Let_def)

lemma option_case_keeps: "(\<And>x. f (g x) = y) \<Longrightarrow> f z = y \<Longrightarrow> f (case o' of None \<Rightarrow> z | Some x \<Rightarrow> g x) = y"
  by (cases o') simp_all

lemma nonempty_case_keeps:
  "(\<And>x xs. f (g x xs) = y) \<Longrightarrow> f z = y \<Longrightarrow> f (case o' of Some (x # xs) \<Rightarrow> g x xs | _ \<Rightarrow> z) = y"
  by (simp split: option.split list.split)

lemma kept_state_apply [simp]: "kept_state (apply_route_options E ro m) = kept_state m"
  unfolding apply_route_options_def Let_def
  by (simp add: option_case_keeps [where f = m_SniffContext] nonempty_case_keeps [where f = m_SniffContext]
      option_case_keeps [where f = m_IgnoreDestinationIPCIDRMatch] nonempty_case_keeps [where f = m_IgnoreDestinationIPCIDRMatch])

lemma meta_ok_options [simp]:
  "meta_ok (apply_route_options E ro m) = meta_ok m"
  "meta_ok (applyRouteOptionsOverride E ro m) = meta_ok m"
  by (rule kept_state_meta_ok, simp)+

lemma meta_ok_override [simp]: "meta_ok (actionSniffOverrideDestination E isStream m) = meta_ok m"
  by (simp add: actionSniffOverrideDestination_def override_with_host_def)

definition lookups_answer :: "route_env \<Rightarrow> bool" where
  "lookups_answer R \<longleftrightarrow> (\<forall>m fqdn action. \<not> is_panic (re_Lookup R m fqdn action))"

lemma actionResolve_ok:
  assumes "meta_ok m" "lookups_answer R"
  shows "case actionResolve R a m of Inl e \<Rightarrow> \<not> is_panic (Inl e :: 'a res) | Inr m' \<Rightarrow> meta_ok m'"
proof (cases "re_Lookup R m (sa_Fqdn (m_Destination m)) a")
  case (Inl e)
  with assms(2) have "\<not> is_panic (Inl e :: addr list res)" unfolding lookups_answer_def by metis
  then have "\<not> is_panic (Inl e :: 'a res)" by (cases e) (simp_all add: is_panic_def)
  with Inl assms(1) show ?thesis by (simp add: actionResolve_def)
next
  case (Inr as)
  with assms(1) show ?thesis by (simp add: actionResolve_def Let_def meta_ok_def sniff_context_ok_def)
qed

lemma run_action_ok:
  assumes "meta_ok (ms_meta s)" "lookups_answer R"
  shows "\<exists>fatal s'. run_action R now isStream action s = Inr (fatal, s') \<and> meta_ok (ms_meta s')"
proof (cases action)
  case (RuleActionSniff a)
  then show ?thesis using actionSniff_ok [OF assms(1)] by (simp add: run_action_def)
next
  case (RuleActionResolve a)
  then show ?thesis using actionResolve_ok [OF assms, of a, where ?'a = unit] assms(1)
    by (cases "actionResolve R a (ms_meta s)") (simp_all add: run_action_def)
qed (simp_all add: run_action_def assms(1))

section \<open>The rules\<close>

text \<open>
  What building leaves of a route rule: a description, an action for connections, and a known method
  if it rejects.
\<close>

definition route_action :: "rule_action \<Rightarrow> bool" where
  "route_action a =
     (case a of
        RuleActionReject r \<Rightarrow> List.member [''default'', ''drop'', ''reply''] (rj_Method r)
      | RuleActionDNSRoute server optimistic options \<Rightarrow> False
      | _ \<Rightarrow> True)"

definition rule_ok :: "rule_env \<Rightarrow> route_rule \<Rightarrow> bool" where
  "rule_ok E r \<longleftrightarrow> hrule_String E (rt_Rule r) \<noteq> None \<and> (case rt_Action r of None \<Rightarrow> False | Some a \<Rightarrow> route_action a)"

definition rules_ok :: "rule_env \<Rightarrow> route_rule list \<Rightarrow> bool" where
  "rules_ok E rules \<longleftrightarrow> list_all (rule_ok E) rules"

fun step_ok :: "match_step \<Rightarrow> bool" where
  "step_ok (NextRule s) = meta_ok (ms_meta s)"
| "step_ok (SelectRule s) = meta_ok (ms_meta s)"
| "step_ok (FatalStep e s) = True"

lemma matched_rule_ok:
  assumes "meta_ok (ms_meta s)" "lookups_answer R"
  shows "\<exists>step. matched_rule R now isStream (Some action) s = Inr step \<and> step_ok step \<and>
    (\<forall>s'. step = SelectRule s' \<longrightarrow> selects action)"
proof -
  let ?s1 = "case route_options_of action of None \<Rightarrow> s | Some ro \<Rightarrow> s\<lparr>ms_meta := apply_route_options (re_rule R) ro (ms_meta s)\<rparr>"
  have "meta_ok (ms_meta ?s1)" using assms(1) by (simp split: option.split)
  from run_action_ok [OF this assms(2), of now isStream action] obtain fatal s'
    where "run_action R now isStream action ?s1 = Inr (fatal, s')" "meta_ok (ms_meta s')" by blast
  then show ?thesis using assms(1) by (cases fatal) (simp_all add: matched_rule_def Let_def)
qed

lemma match_rule_step_ok:
  assumes "meta_ok (ms_meta s)" "lookups_answer R" "rule_ok (re_rule R) r"
  shows "\<exists>step. match_rule_step R now isStream r s = Inr step \<and> step_ok step \<and>
    (\<forall>s'. step = SelectRule s' \<longrightarrow> (\<exists>a. rt_Action r = Some a \<and> route_action a \<and> selects a))"
proof -
  from assms(3) obtain d a where d: "hrule_String (re_rule R) (rt_Rule r) = Some d" "rt_Action r = Some a" "route_action a"
    by (auto simp: rule_ok_def split: option.splits)
  have flag: "\<not> m_IgnoreDestinationIPCIDRMatch (ms_meta s)" using assms(1) by (simp add: meta_ok_def)
  let ?s1 = "s\<lparr>ms_meta := ResetRuleCache (ms_meta s)\<rparr>"
  have "meta_ok (ms_meta ?s1)" using assms(1) by simp
  from matched_rule_ok [OF this assms(2), of now isStream a] d(2,3) show ?thesis
    using assms(1) by (auto simp: match_rule_step_def Let_def hrule_Match_reset [OF flag] d(1))
qed

lemma match_rules_ok:
  assumes "lookups_answer R"
  shows "meta_ok (ms_meta s) \<Longrightarrow> rules_ok (re_rule R) rules \<Longrightarrow>
    \<exists>selected fatal s'. match_rules R now isStream i rules s = Inr (selected, fatal, s') \<and>
      (fatal = None \<longrightarrow> meta_ok (ms_meta s')) \<and>
      (\<forall>j. selected = Some j \<longrightarrow> i \<le> j \<and> j - i < length rules \<and>
         (\<exists>a. rt_Action (rules ! (j - i)) = Some a \<and> route_action a \<and> selects a))"
proof (induction rules arbitrary: i s)
  case (Cons r rs)
  have ok: "rule_ok (re_rule R) r" "rules_ok (re_rule R) rs" using Cons.prems(2) by (simp_all add: rules_ok_def)
  from match_rule_step_ok [OF Cons.prems(1) assms ok(1), of now isStream] obtain step
    where st: "match_rule_step R now isStream r s = Inr step" "step_ok step"
      "\<forall>s'. step = SelectRule s' \<longrightarrow> (\<exists>a. rt_Action r = Some a \<and> route_action a \<and> selects a)" by blast
  show ?case
  proof (cases step)
    case (NextRule s')
    with st(2) Cons.IH [of s' "Suc i"] ok(2) obtain selected fatal s''
      where r: "match_rules R now isStream (Suc i) rs s' = Inr (selected, fatal, s'')"
        "fatal = None \<longrightarrow> meta_ok (ms_meta s'')"
        "\<forall>j. selected = Some j \<longrightarrow> Suc i \<le> j \<and> j - Suc i < length rs \<and>
           (\<exists>a. rt_Action (rs ! (j - Suc i)) = Some a \<and> route_action a \<and> selects a)" by auto
    have "(r # rs) ! (j - i) = rs ! (j - Suc i)" if "Suc i \<le> j" for j using that by (simp add: nth_Cons')
    with r(3) have "\<forall>j. selected = Some j \<longrightarrow> i \<le> j \<and> j - i < length (r # rs) \<and>
         (\<exists>a. rt_Action ((r # rs) ! (j - i)) = Some a \<and> route_action a \<and> selects a)" by auto
    with r(1,2) st(1) NextRule show ?thesis by simp
  qed (use st in \<open>simp_all\<close>)
qed simp

lemma kept_state_prepare:
  assumes "prepareMatchMetadata R m = Inr m'"
  shows "kept_state m' = kept_state m"
proof -
  have 1: "kept_state (searchProcessInfo R m) = kept_state m" for m
    by (auto simp: searchProcessInfo_def Let_def split: option.split sum.split)
  have 2: "kept_state (find_neighbor R m) = kept_state m" for m
    by (auto simp: find_neighbor_def Let_def split: option.split prod.split)
  have 3: "find_domain R m = Inr m' \<Longrightarrow> kept_state m' = kept_state m" for m m'
    by (auto simp: find_domain_def Let_def split: option.splits if_splits)
  have 4: "kept_state (set_ip_version E m) = kept_state m" for E m by (simp add: set_ip_version_def)
  from assms obtain m1 where "find_domain R (find_neighbor R (searchProcessInfo R m)) = Inr m1" "m' = set_ip_version (re_rule R) m1"
    by (auto simp: prepareMatchMetadata_def)
  with 3 [OF this(1)] show ?thesis using 1 [of m] 2 [of "searchProcessInfo R m"] 4 [of "re_rule R" m1] by simp
qed

lemma prepare_no_panic: "prepareMatchMetadata R m = Inl e \<Longrightarrow> \<not> is_panic (Inl e :: 'a res)"
  by (auto simp: prepareMatchMetadata_def find_domain_def Let_def is_panic_def split: option.splits if_splits)

lemma matchRule_ok:
  assumes "lookups_answer R" "meta_ok (ms_meta s)" "rules_ok (re_rule R) rules"
  shows "\<exists>selected fatal s'. matchRule R now isStream rules s = Inr (selected, fatal, s') \<and>
      (fatal = None \<longrightarrow> meta_ok (ms_meta s')) \<and>
      (\<forall>j. selected = Some j \<longrightarrow> j < length rules \<and> (\<exists>a. rt_Action (rules ! j) = Some a \<and> route_action a \<and> selects a))"
proof (cases "prepareMatchMetadata R (ms_meta s)")
  case (Inl e)
  then show ?thesis using prepare_no_panic [OF Inl, where ?'a = unit] by (simp add: matchRule_def)
next
  case (Inr m)
  have "meta_ok (ms_meta (s\<lparr>ms_meta := m\<rparr>))" using kept_state_meta_ok [OF kept_state_prepare [OF Inr]] assms(2) by simp
  from match_rules_ok [OF assms(1) this assms(3), of now isStream 0] show ?thesis by (simp add: matchRule_def Inr)
qed

section \<open>The chain of outbounds\<close>

declare resolve_chain.simps [code]

text \<open>Groups without a cycle: a rank that falls from a group to what it selects.\<close>

definition groups_ranked :: "outbounds \<Rightarrow> (string \<Rightarrow> nat) \<Rightarrow> bool" where
  "groups_ranked mgr rank \<longleftrightarrow>
     (\<forall>network m ob c. select_member mgr network m ob = Some (Some c) \<longrightarrow> rank c < rank ob)"

definition selects_next :: "outbounds \<Rightarrow> string \<Rightarrow> inbound_context \<Rightarrow> string \<Rightarrow> string \<Rightarrow> bool" where
  "selects_next mgr network m a b \<longleftrightarrow> select_member mgr network m a = Some (Some b)"

lemma resolve_chain_ok:
  assumes "groups_ranked mgr rank"
  shows "(\<exists>tag. resolve_chain mgr network m chain ob = Some (Inl (not_supported network tag))) \<or>
    (\<exists>path. resolve_chain mgr network m chain ob = Some (Inr (chain @ path)) \<and>
       successively (selects_next mgr network m) (ob # path) \<and> out_Selected mgr (last (ob # path)) = None \<and>
       network \<in> set (out_Network mgr (last (ob # path))))"
proof (induction "rank ob" arbitrary: ob chain rule: less_induct)
  case less
  note unfold = resolve_chain.simps [of mgr network m chain ob]
  show ?case
  proof (cases "select_member mgr network m ob")
    case None
    then have sel: "out_Selected mgr ob = None" by (auto simp: select_member_def split: option.splits)
    show ?thesis
    proof (cases "network \<in> set (out_Network mgr ob)")
      case True
      then show ?thesis unfolding unfold using None sel by (intro disjI2 exI [of _ "[]"]) simp
    next
      case False
      then show ?thesis unfolding unfold using None by (intro disjI1 exI [of _ ob]) simp
    qed
  next
    case (Some x)
    show ?thesis
    proof (cases x)
      case None
      then show ?thesis unfolding unfold using Some by (intro disjI1 exI [of _ ob]) simp
    next
      case (Some c)
      with \<open>select_member mgr network m ob = Some x\<close> have c: "select_member mgr network m ob = Some (Some c)" by simp
      then have u: "resolve_chain mgr network m chain ob = resolve_chain mgr network m (chain @ [c]) c" unfolding unfold by simp
      from c assms have "rank c < rank ob" unfolding groups_ranked_def by blast
      from less.hyps [OF this, of "chain @ [c]"] show ?thesis
      proof (elim disjE exE conjE)
        fix path
        assume p: "resolve_chain mgr network m (chain @ [c]) c = Some (Inr ((chain @ [c]) @ path))"
          "successively (selects_next mgr network m) (c # path)" "out_Selected mgr (last (c # path)) = None"
          "network \<in> set (out_Network mgr (last (c # path)))"
        have "selects_next mgr network m ob c" using c by (simp add: selects_next_def)
        with p show ?thesis unfolding u by (intro disjI2 exI [of _ "c # path"]) simp
      qed (auto simp: u)
    qed
  qed
qed

section \<open>The answer\<close>

lemma rules_ok_set_reject:
  assumes "rules_ok E rules" "rt_Action (rules ! i) = Some (RuleActionReject r)" "RuleActionReject_Error now r = Inr (e, r')"
  shows "rules_ok E (set_reject i r' rules)"
proof (cases "i < length rules")
  case True
  with assms(1) have "rule_ok E (rules ! i)" by (simp add: rules_ok_def list_all_length)
  then have "rule_ok E ((rules ! i)\<lparr>rt_Action := Some (RuleActionReject r')\<rparr>)"
    using assms(2) RuleActionReject_Error_frame(1) [OF assms(3)] by (simp add: rule_ok_def route_action_def)
  moreover have "set (set_reject i r' rules) \<subseteq> insert ((rules ! i)\<lparr>rt_Action := Some (RuleActionReject r')\<rparr>) (set rules)"
    unfolding set_reject_def by (rule set_update_subset_insert)
  ultimately show ?thesis using assms(1) unfolding rules_ok_def list_all_iff by blast
qed (use assms(1) in \<open>simp add: set_reject_def list_update_beyond\<close>)

lemma reject_answers:
  assumes "route_action (RuleActionReject r)"
  obtains e r' where "RuleActionReject_Error now r = Inr (e, r')"
proof -
  have "rj_Method r \<in> {''default'', ''drop'', ''reply''}" using assms by (auto simp: route_action_def)
  from RuleActionReject_Error_ok [OF this, of now] that show ?thesis by (auto simp: is_ok_iff)
qed

lemma route_to_ok:
  assumes "groups_ranked (re_out R) rank"
  shows "\<exists>out. route_to R isStream (Some ob) description s = Inr out \<and> out \<noteq> RouteForever"
proof -
  let ?n = "if isStream then ''tcp'' else ''udp''"
  from resolve_chain_ok [OF assms, of ?n "ms_meta s" "[ob]" ob] show ?thesis
    unfolding route_to_def Let_def resolveOutbound_def by (elim disjE exE conjE) (auto simp: not_supported_def)
qed

definition target_ok :: "rule_target \<Rightarrow> bool" where
  "target_ok t = (case t of TargetOutbound ob \<Rightarrow> ob \<noteq> None | TargetResult out \<Rightarrow> out \<noteq> RouteForever)"

lemma target_ok_simps [simp]:
  "target_ok (TargetOutbound ob) = (ob \<noteq> None)"
  "target_ok (TargetResult out) = (out \<noteq> RouteForever)"
  "target_ok (named_outbound mgr tag)"
  by (simp_all add: named_outbound_def target_ok_def)

lemma rule_target_of_ok:
  assumes "rules_ok E rules" "rt_Action (rules ! i) = Some a" "route_action a" "selects a"
  shows "\<exists>target rules'. rule_target_of R now isStream s i rules = Inr (target, rules') \<and> target_ok target \<and> rules_ok E rules'"
proof (cases a)
  case (RuleActionReject r)
  from reject_answers [of r now] assms(3) RuleActionReject obtain e r' where e: "RuleActionReject_Error now r = Inr (e, r')" by blast
  from rules_ok_set_reject [OF assms(1) _ e, of i] assms(1,2) RuleActionReject e show ?thesis
    by (simp add: rule_target_of_def target_ok_def)
qed (use assms in \<open>auto simp: rule_target_of_def selects_def action_Type_def route_action_def\<close>)

lemma route_selected_ok:
  assumes "groups_ranked (re_out R) rank" "rules_ok E rules"
    "\<forall>j. selected = Some j \<longrightarrow> (\<exists>a. rt_Action (rules ! j) = Some a \<and> route_action a \<and> selects a)"
  shows "\<exists>out rules'. route_selected R now isStream selected s rules = Inr (out, rules') \<and> out \<noteq> RouteForever \<and> rules_ok E rules'"
proof (cases selected)
  case None
  then show ?thesis using route_to_ok [OF assms(1), of isStream "mgr_Default (re_out R)" None s] assms(2)
    by (auto simp: route_selected_def)
next
  case (Some j)
  with assms(3) obtain a where a: "rt_Action (rules ! j) = Some a" "route_action a" "selects a" by blast
  from rule_target_of_ok [OF assms(2) a, of R now isStream s] obtain target rules'
    where t: "rule_target_of R now isStream s j rules = Inr (target, rules')" "target_ok target" "rules_ok E rules'" by blast
  show ?thesis
  proof (cases target)
    case (TargetOutbound ob)
    with t(2) obtain tag where "ob = Some tag" by (auto simp: target_ok_def)
    with route_to_ok [OF assms(1), of isStream tag "hrule_String (re_rule R) (rt_Rule (rules ! j))" s]
    show ?thesis using t(1,3) TargetOutbound by (auto simp: route_selected_def Some)
  qed (use t in \<open>simp add: route_selected_def Some target_ok_def\<close>)
qed

lemma route_matched_ok:
  assumes "lookups_answer R" "groups_ranked (re_out R) rank" "meta_ok (ms_meta s)" "rules_ok (re_rule R) rules"
  shows "\<exists>out rt'. route_matched R now isStream s rules = Inr (out, rt') \<and> out \<noteq> RouteForever \<and>
    rules_ok (re_rule R) (rr_rules rt')"
proof -
  from matchRule_ok [OF assms(1,3,4), of now isStream] obtain selected fatal s'
    where m: "matchRule R now isStream rules s = Inr (selected, fatal, s')"
      "\<forall>j. selected = Some j \<longrightarrow> (\<exists>a. rt_Action (rules ! j) = Some a \<and> route_action a \<and> selects a)" by blast
  from route_selected_ok [OF assms(2,4) m(2), of now isStream s'] show ?thesis
    using assms(4) by (cases fatal) (auto simp: route_matched_def m(1))
qed

section \<open>The pre-match\<close>

lemma selectPreMatchOutbound_flows:
  "fst (selectPreMatchOutbound mgr m n outbound) \<noteq> [] \<Longrightarrow>
   out_PreMatchFlow mgr (last (fst (selectPreMatchOutbound mgr m n outbound))) \<noteq> None"
proof (induction n arbitrary: outbound)
  case (Suc n)
  show ?case
  proof (cases outbound)
    case (Some ob)
    show ?thesis
    proof (cases "out_SelectPreMatch mgr ob")
      case None
      then show ?thesis using Suc.prems Suc.IH [of "(the (out_Selected mgr ob)) (m_Network m)"]
        by (auto simp: Some Let_def split: option.splits prod.splits if_splits)
    next
      case so: (Some selectOutbound)
      let ?ask = "\<lambda>c. case selectPreMatchOutbound mgr m n (Some c) of
         (chain, action) \<Rightarrow> (if chain = [] then None else Some (last chain), action)"
      obtain tried selected action where r: "selectOutbound m ?ask = (tried, selected, action)" by (cases "selectOutbound m ?ask")
      let ?chains = "map (\<lambda>c. fst (selectPreMatchOutbound mgr m n (Some c))) tried"
      have "last_nonempty ?chains \<noteq> []" "selected \<noteq> None" and chain: "fst (selectPreMatchOutbound mgr m (Suc n) outbound) = ob # last_nonempty ?chains"
        using Suc.prems by (auto simp: Some so r Let_def split: if_splits)
      then have "last_nonempty ?chains \<in> set (filter (\<lambda>xs. xs \<noteq> []) ?chains)"
        unfolding last_nonempty_def by (auto split: list.splits simp del: set_filter intro: last_in_set)
      then obtain c where "last_nonempty ?chains = fst (selectPreMatchOutbound mgr m n (Some c))"
        "fst (selectPreMatchOutbound mgr m n (Some c)) \<noteq> []" by auto
      with Suc.IH [of "Some c"] show ?thesis unfolding chain by simp
    qed
  qed (use Suc.prems in simp)
qed simp

lemma preMatchFlow_ok: "is_ok (preMatchFlow R m packetDestination outboundTag)"
proof -
  define ob where "ob = (if outboundTag = [] then mgr_Default (re_out R) else outboundTag)"
  obtain chain action where c: "selectPreMatchOutbound (re_out R) m 9 (Some ob) = (chain, action)"
    by (cases "selectPreMatchOutbound (re_out R) m 9 (Some ob)")
  have "is_ok (if chain = [] then Inr (pre_match PreMatchContinue)
        else if action \<noteq> PreMatchFlow then Inr ((pre_match action)\<lparr>pm_Outbound := Some (last chain)\<rparr>)
        else case out_PreMatchFlow (re_out R) (last chain) of
          None \<Rightarrow> Inl (E_Panic ''interface conversion'')
        | Some flow \<Rightarrow> Inr (f flow))" for f
    using selectPreMatchOutbound_flows [of "re_out R" m 9 "Some ob"] unfolding c by auto
  then show ?thesis
    unfolding preMatchFlow_def Let_def ob_def [symmetric] c prod.case by (auto split: option.split)
qed

fun pre_step_ok :: "rule_action \<Rightarrow> pre_step \<Rightarrow> int \<Rightarrow> bool" where
  "pre_step_ok a (PreNext m c) now = meta_ok m"
| "pre_step_ok a (PreDone out c reject) now =
     (\<forall>r'. reject = Some r' \<longrightarrow> (\<exists>r e. a = RuleActionReject r \<and> RuleActionReject_Error now r = Inr (e, r')))"

lemma pre_sniff_ok:
  assumes "meta_ok m"
  shows "\<exists>step. pre_sniff R now action firstPacket m c = Inr step \<and> pre_step_ok a step now"
proof -
  let ?ss = "if sn_PacketSniffers action = [] then defaultPacketSniffers else sn_PacketSniffers action"
  from PeekPacket_ok [OF assms, of "re_sniff R" ?ss firstPacket] obtain err m'
    where p: "PeekPacket (re_sniff R) ?ss firstPacket m = Inr (err, m')" "meta_ok m'" by blast
  let ?m = "m'\<lparr>m_SnifferNames := sn_SnifferNames action, m_SniffError := err\<rparr>"
  have "\<exists>step. (case processQUICSniff now ?m c of (m2, c') \<Rightarrow> Inr (PreNext m2 c')) = (Inr step :: pre_step res) \<and>
      pre_step_ok a step now"
    using processQUICSniff_ok [of now ?m c] p(2) by (simp add: case_prod_beta)
  then show ?thesis using assms p(2) by (cases err) (simp_all add: pre_sniff_def Let_def p(1))
qed

lemma pre_bypass_ok: "is_ok (pre_bypass R outbound m packetDestination)"
  using preMatchFlow_ok [of R m packetDestination outbound] by (auto simp: pre_bypass_def Let_def is_ok_iff)

lemma pre_action_ok:
  assumes "meta_ok m" "lookups_answer R" "route_action a"
  shows "\<exists>step. pre_action R now firstPacket packetDestination (Some a) m c = Inr step \<and> pre_step_ok a step now"
proof (cases a)
  case (RuleActionSniff x)
  then show ?thesis using pre_sniff_ok [OF assms(1)] by (simp add: pre_action_def)
next
  case (RuleActionResolve x)
  then show ?thesis using actionResolve_ok [OF assms(1,2), of x, where ?'a = unit] assms(1)
    by (cases "actionResolve R x m") (simp_all add: pre_action_def)
next
  case (RuleActionRoute ob ro)
  from preMatchFlow_ok [of R "applyRouteOptionsOverride (re_rule R) ro m" packetDestination ob] obtain out
    where "preMatchFlow R (applyRouteOptionsOverride (re_rule R) ro m) packetDestination ob = Inr out" by (auto simp: is_ok_iff)
  with RuleActionRoute assms(1) show ?thesis by (simp add: pre_action_def)
next
  case (RuleActionBypass ob ro)
  from pre_bypass_ok [of R ob "applyRouteOptionsOverride (re_rule R) ro m" packetDestination] obtain out
    where "pre_bypass R ob (applyRouteOptionsOverride (re_rule R) ro m) packetDestination = Inr out" by (auto simp: is_ok_iff)
  with RuleActionBypass show ?thesis by (simp add: pre_action_def)
next
  case (RuleActionReject r)
  from reject_answers [of r now] assms(3) RuleActionReject obtain e r' where "RuleActionReject_Error now r = Inr (e, r')" by blast
  with RuleActionReject show ?thesis by (simp add: pre_action_def pre_reject_def)
qed (simp_all add: pre_action_def assms(1))

lemma pre_rules_ok:
  assumes "lookups_answer R"
  shows "meta_ok m \<Longrightarrow> rules_ok (re_rule R) (rr_rules rt) \<Longrightarrow> rules = drop i (rr_rules rt) \<Longrightarrow>
    \<exists>out rt'. pre_rules R now firstPacket packetDestination i rules m rt = Inr (out, rt') \<and>
      rules_ok (re_rule R) (rr_rules rt')"
proof (induction rules arbitrary: i m rt)
  case Nil
  with preMatchFlow_ok [of R m packetDestination "[]"] show ?case by (auto simp: is_ok_iff)
next
  case (Cons r rs)
  have rs: "rs = drop (Suc i) (rr_rules rt)" and r: "r = rr_rules rt ! i"
    using Cons.prems(3) by (metis drop_Suc list.sel(3) tl_drop, metis hd_drop_conv_nth list.sel(1) drop_eq_Nil list.distinct(1) not_le)
  have "rule_ok (re_rule R) r"
    using Cons.prems(2,3) unfolding rules_ok_def list_all_iff by (metis in_set_dropD list.set_intros(1))
  then obtain d a where d: "hrule_String (re_rule R) (rt_Rule r) = Some d" "rt_Action r = Some a" "route_action a"
    by (auto simp: rule_ok_def split: option.splits)
  have flag: "\<not> m_IgnoreDestinationIPCIDRMatch m" using Cons.prems(1) by (simp add: meta_ok_def)
  have m: "meta_ok (ResetRuleCache m)" using Cons.prems(1) by simp
  from pre_action_ok [OF m assms d(3), of now firstPacket packetDestination "rr_cache rt"] obtain step
    where st: "pre_action R now firstPacket packetDestination (rt_Action r) (ResetRuleCache m) (rr_cache rt) = Inr step"
      "pre_step_ok a step now" unfolding d(2) by blast
  show ?case
  proof (cases "rt_disabled r \<or> \<not> hrule_sem (re_rule R) (rt_Rule r) (ResetRuleCache m)")
    case True
    then show ?thesis using Cons.IH [OF Cons.prems(1,2) rs] Cons.IH [OF m Cons.prems(2) rs]
      by (auto simp: Let_def hrule_Match_reset [OF flag])
  next
    case False
    then have step: "pre_rules R now firstPacket packetDestination i (r # rs) m rt =
        (case step of
           PreNext m2 c \<Rightarrow> pre_rules R now firstPacket packetDestination (Suc i) rs m2 (rt\<lparr>rr_cache := c\<rparr>)
         | PreDone out c reject \<Rightarrow>
             Inr (out, rt\<lparr>rr_cache := c,
               rr_rules := (case reject of None \<Rightarrow> rr_rules rt | Some r' \<Rightarrow> set_reject i r' (rr_rules rt))\<rparr>))"
      by (simp add: Let_def hrule_Match_reset [OF flag] d(1) st(1))
    show ?thesis
    proof (cases step)
      case (PreNext m2 c)
      with st(2) Cons.IH [of m2 "rt\<lparr>rr_cache := c\<rparr>" "Suc i"] Cons.prems(2) rs show ?thesis unfolding step by simp
    next
      case (PreDone out c reject)
      then have "\<exists>r e. a = RuleActionReject r \<and> RuleActionReject_Error now r = Inr (e, r')" if "reject = Some r'" for r'
        using st(2) that by simp
      with rules_ok_set_reject [OF Cons.prems(2), of i] d(2) Cons.prems(2)
      have "rules_ok (re_rule R) (case reject of None \<Rightarrow> rr_rules rt | Some r' \<Rightarrow> set_reject i r' (rr_rules rt))"
        unfolding r by (cases reject) auto
      with PreDone show ?thesis unfolding step by simp
    qed
  qed
qed

lemma PreMatch_ok:
  assumes "lookups_answer R" "meta_ok m" "rules_ok (re_rule R) (rr_rules rt)"
  shows "\<exists>out rt'. PreMatch R now m firstPacket rt = Inr (out, rt') \<and> rules_ok (re_rule R) (rr_rules rt')"
proof (cases "prepareMatchMetadata R (m\<lparr>m_PreMatch := True\<rparr>)")
  case (Inl e)
  then show ?thesis using prepare_no_panic [OF Inl, where ?'a = unit] assms(3) by (simp add: PreMatch_def)
next
  case (Inr m1)
  have "meta_ok m1" using kept_state_meta_ok [OF kept_state_prepare [OF Inr]] assms(2) by simp
  from pre_rules_ok [OF assms(1) this assms(3), of "rr_rules rt" 0 now firstPacket "m_Destination m"] show ?thesis
    by (simp add: PreMatch_def Inr)
qed

end
