(* ===== verification/Route_Props.thy ===== *)
theory Route_Props
  imports Route_Safe Expiring_Map_Props Rule_Action_Props
begin

text \<open>
  Properties of routing: every connection gets an answer, the first rule that applies decides, chains
  of outbounds end, the host of a QUIC flow is remembered, what was sniffed is read again.
\<close>

section \<open>Examples\<close>

definition ex_outbounds :: outbounds where
  "ex_outbounds =
     \<lparr>mgr_Outbound = (\<lambda>tag. List.member [''proxy'', ''auto'', ''a''] tag),
      mgr_Default = ''proxy'',
      out_Type = (\<lambda>tag. if tag = ''a'' then ''direct'' else ''selector''),
      out_Network = (\<lambda>_. [''tcp'', ''udp'']),
      out_Selected = (\<lambda>tag. if tag = ''proxy'' then Some (\<lambda>_. Some ''auto'')
                            else if tag = ''auto'' then Some (\<lambda>_. Some ''a'') else None),
      out_SelectConnection = (\<lambda>_. None),
      out_SelectPreMatch = (\<lambda>_. None),
      out_PreMatchFlow = (\<lambda>_. Some (\<lambda>_ _. PreMatchFlow)),
      out_FlowDomainResolver = (\<lambda>_. False)\<rparr>"


definition ex_route_env :: route_env where
  "ex_route_env =
     \<lparr>re_rule = example_env, re_sniff = ex_sniff_env, re_out = ex_outbounds, re_inbound = (\<lambda>_. None), re_FakeIP = None,
      re_ReverseMapping = (\<lambda>_. None), re_Transport = (\<lambda>_. True), re_Lookup = (\<lambda>_ _ _. Inr [Addr4 0x01010101]),
      re_FlowLookup = (\<lambda>_ _ _. Inr []), re_Neighbor = None, re_FindProcess = None, re_LookupOwner = False,
      re_MyInterfaceAddress = [], re_AddrPort = (\<lambda>s. (sa_Addr s, sa_Port s)),
      re_SocksaddrFromNetIP = (\<lambda>(a, p). \<lparr>sa_Addr = a, sa_Port = p, sa_Fqdn = []\<rparr>),
      re_NewCachedConn = (@), re_NewCachedPacketConn = (#),
      re_MuxFqdn = ''sp.mux.sing-box.arpa'', re_VMessMuxFqdn = ''v1.mux.cool'',
      re_UoTMagicAddress = ''sp.v2.udp-over-tcp.arpa'', re_UoTLegacyMagicAddress = ''sp.udp-over-tcp.arpa''\<rparr>"



definition ex_options :: route_options where
  "ex_options = \<lparr>ro_OverrideAddress = \<lparr>sa_Addr = AddrZero, sa_Port = 0, sa_Fqdn = []\<rparr>, ro_OverridePort = 0,
     ro_NetworkStrategy = None, ro_NetworkType = None, ro_FallbackNetworkType = None, ro_FallbackDelay = 0,
     ro_UDPDisableDomainUnmapping = False, ro_UDPConnect = False, ro_UDPTimeout = 0, ro_TLSFragment = False,
     ro_TLSFragmentFallbackDelay = 0, ro_TLSRecordFragment = False, ro_TLSSpoof = [], ro_TLSSpoofMethod = 0\<rparr>"

definition ex_network_rule :: "string \<Rightarrow> rule_action \<Rightarrow> route_rule" where
  "ex_network_rule network a =
     new_route_rule (DefaultRule (plain_rule [NetworkItem [network]] [] [] None False)) (Some a)"


definition ex_cache :: quic_cache where
  "ex_cache = projr (em_New quicSniffCacheTTL)"


section \<open>Every connection is answered\<close>






section \<open>The first rule that applies\<close>

definition decides :: "route_rule \<Rightarrow> bool" where
  "decides r =
     (case rt_Action r of
        Some (RuleActionRoute outbound ro) \<Rightarrow> True
      | Some (RuleActionBypass outbound ro) \<Rightarrow> True
      | Some (RuleActionReject reject) \<Rightarrow> True
      | Some RuleActionHijackDNS \<Rightarrow> True
      | _ \<Rightarrow> False)"

definition applies :: "route_env \<Rightarrow> inbound_context \<Rightarrow> route_rule \<Rightarrow> bool" where
  "applies R m r \<longleftrightarrow> \<not> rt_disabled r \<and> hrule_sem (re_rule R) (rt_Rule r) m \<and>
     (case rt_Action r of
        Some (RuleActionRoute outbound ro) \<Rightarrow> \<not> isPassOutbound (re_out R) outbound
      | Some (RuleActionBypass outbound ro) \<Rightarrow> outbound \<noteq> []
      | _ \<Rightarrow> True)"

definition first_that :: "('a \<Rightarrow> bool) \<Rightarrow> 'a list \<Rightarrow> nat option \<Rightarrow> bool" where
  "first_that P xs selected \<longleftrightarrow>
     (case selected of
        None \<Rightarrow> list_all (\<lambda>x. \<not> P x) xs
      | Some i \<Rightarrow> i < length xs \<and> P (xs ! i) \<and> list_all (\<lambda>x. \<not> P x) (take i xs))"

lemma match_rule_step_decides:
  assumes "\<not> m_IgnoreDestinationIPCIDRMatch (ms_meta s)" "decides r" "hrule_String (re_rule R) (rt_Rule r) \<noteq> None"
  shows "\<exists>s'. match_rule_step R now isStream r s =
      Inr (if applies R (ResetRuleCache (ms_meta s)) r then SelectRule s' else NextRule s') \<and>
    (\<not> applies R (ResetRuleCache (ms_meta s)) r \<longrightarrow> ResetRuleCache (ms_meta s') = ResetRuleCache (ms_meta s))"
proof -
  from assms(3) obtain d where d: "hrule_String (re_rule R) (rt_Rule r) = Some d" by blast
  from assms(2) obtain a where a: "rt_Action r = Some a" by (auto simp: decides_def split: option.splits)
  show ?thesis
    using assms(2)
    by (cases a) (auto simp: match_rule_step_def Let_def hrule_Match_reset [OF assms(1)] d a matched_rule_def is_pass_def
        run_action_def selects_def action_Type_def route_options_of_def applies_def decides_def)
qed

lemma ignores_reset: "m_IgnoreDestinationIPCIDRMatch (ResetRuleCache m) = m_IgnoreDestinationIPCIDRMatch m"
  by (simp add: ResetRuleCache_def ResetRuleMatchCache_def)

lemma first_that_Cons:
  "P x \<Longrightarrow> first_that P (x # xs) (Some 0)"
  "\<not> P x \<Longrightarrow> first_that P (x # xs) (map_option Suc selected) = first_that P xs selected"
  by (simp_all add: first_that_def split: option.split)

lemma first_that_unique: "first_that P xs a \<Longrightarrow> first_that P xs b \<Longrightarrow> a = b"
proof (induction xs arbitrary: a b)
  case (Cons x xs)
  show ?case
  proof (cases "P x")
    case True
    have "c = Some 0" if "first_that P (x # xs) c" for c
      using that True by (cases c) (auto simp: first_that_def take_Cons' split: if_splits)
    with Cons.prems show ?thesis by blast
  next
    case False
    have "\<exists>d. c = map_option Suc d" if "first_that P (x # xs) c" for c
    proof (cases c)
      case (Some i)
      with that False obtain j where "i = Suc j" by (cases i) (auto simp: first_that_def)
      with Some show ?thesis by (intro exI [of _ "Some j"]) simp
    qed (intro exI [of _ None], simp)
    with Cons.prems obtain a' b' where "a = map_option Suc a'" "b = map_option Suc b'" by blast
    with Cons.prems Cons.IH [of a' b'] False show ?thesis by (simp add: first_that_Cons(2))
  qed
qed (simp add: first_that_def split: option.splits)

lemma match_rules_first:
  assumes "\<not> m_IgnoreDestinationIPCIDRMatch M"
  shows "ResetRuleCache (ms_meta s) = ResetRuleCache M \<Longrightarrow> list_all decides rules \<Longrightarrow> rules_ok (re_rule R) rules \<Longrightarrow>
    \<exists>selected s'. match_rules R now isStream i rules s = Inr (map_option (\<lambda>j. i + j) selected, None, s') \<and>
      first_that (applies R (ResetRuleCache M)) rules selected"
proof (induction rules arbitrary: i s)
  case (Cons r rs)
  have flag: "\<not> m_IgnoreDestinationIPCIDRMatch (ms_meta s)"
    using assms arg_cong [OF Cons.prems(1), of m_IgnoreDestinationIPCIDRMatch] by (simp add: ignores_reset)
  have r: "decides r" "hrule_String (re_rule R) (rt_Rule r) \<noteq> None" "list_all decides rs" "rules_ok (re_rule R) rs"
    using Cons.prems(2,3) by (simp_all add: rules_ok_def rule_ok_def)
  let ?P = "applies R (ResetRuleCache M)"
  from match_rule_step_decides [OF flag r(1,2), of now isStream] obtain s'
    where s': "match_rule_step R now isStream r s = Inr (if ?P r then SelectRule s' else NextRule s')"
      "\<not> ?P r \<longrightarrow> ResetRuleCache (ms_meta s') = ResetRuleCache M" unfolding Cons.prems(1) by blast
  show ?case
  proof (cases "?P r")
    case True
    then show ?thesis using s'(1) by (intro exI [of _ "Some 0"]) (simp add: first_that_Cons(1))
  next
    case False
    with s'(2) Cons.IH [OF _ r(3,4), of s' "Suc i"] obtain selected s''
      where "match_rules R now isStream (Suc i) rs s' = Inr (map_option (\<lambda>j. Suc i + j) selected, None, s'')"
        "first_that ?P rs selected" by blast
    then show ?thesis using s'(1) False
      by (intro exI [of _ "map_option Suc selected"]) (simp add: first_that_Cons(2) option.map_comp comp_def)
  qed
qed (simp add: first_that_def)

text \<open>
  C5. Among rules that route, bypass, reject or hijack, the one that is taken is the first that is
  enabled, whose conditions hold of the prepared metadata and that does not pass on (a pass outbound, a
  bypass without outbound); with none the connection goes to the default outbound. Earlier rules and the
  marks that matching leaves in the metadata have no influence.
\<close>

theorem first_applicable_rule:
  assumes "prepareMatchMetadata R (ms_meta s) = Inr m" "\<not> m_IgnoreDestinationIPCIDRMatch (ms_meta s)"
    "rules_ok (re_rule R) rules" "list_all decides rules"
  shows "\<exists>selected s'. matchRule R now isStream rules s = Inr (selected, None, s') \<and>
     first_that (applies R (ResetRuleCache m)) rules selected"
proof -
  have "\<not> m_IgnoreDestinationIPCIDRMatch m" using kept_state_prepare [OF assms(1)] assms(2) by simp
  from match_rules_first [OF this _ assms(4,3), of "s\<lparr>ms_meta := m\<rparr>" now isStream 0]
  show ?thesis by (simp add: matchRule_def assms(1) option.map_ident)
qed

definition ex_decisive :: "route_rule list" where
  "ex_decisive = [ex_network_rule ''udp'' (RuleActionReject ex_reject), ex_network_rule ''tcp'' (RuleActionBypass [] ex_options),
     ex_network_rule ''tcp'' (RuleActionRoute ''proxy'' ex_options), ex_network_rule ''tcp'' RuleActionHijackDNS]"

theorem first_applicable_rule_witness:
  "\<exists>s'. matchRule ex_route_env 0 True ex_decisive (start_state ex_context ex_cache [] []) = Inr (Some 2, None, s')"
proof -
  let ?s = "start_state ex_context ex_cache [] []"
  have prep: "prepareMatchMetadata ex_route_env (ms_meta ?s) = Inr ex_context" by code_simp
  have flag: "\<not> m_IgnoreDestinationIPCIDRMatch (ms_meta ?s)" by code_simp
  have ok: "rules_ok (re_rule ex_route_env) ex_decisive" "list_all decides ex_decisive" by code_simp+
  from first_applicable_rule [OF prep flag ok, of 0 True] obtain selected s'
    where r: "matchRule ex_route_env 0 True ex_decisive ?s = Inr (selected, None, s')"
      "first_that (applies ex_route_env (ResetRuleCache ex_context)) ex_decisive selected" by blast
  have "first_that (applies ex_route_env (ResetRuleCache ex_context)) ex_decisive (Some 2)" by code_simp
  from first_that_unique [OF r(2) this] have "selected = Some 2" .
  with r(1) show ?thesis by blast
qed

section \<open>Chains of outbounds\<close>



section \<open>The hosts of QUIC flows\<close>









section \<open>What was sniffed is read again\<close>







end
