(* ===== verification/Outbound_Manager.thy ===== *)
theory Outbound_Manager
  imports SB_Prelude
begin

text \<open>
  The outbound manager (\<open>adapter/outbound/manager.go\<close>): outbounds by tag with a default one, created
  from the configuration, replaced and removed by providers, and started in the order of their
  dependencies. An outbound is a record with an identity (a pointer of the code); what its start,
  its end and its construction answer are arguments.
\<close>

section \<open>Data\<close>

datatype start_stage = StartStateInitialize | StartStateStart | StartStatePostStart | StartStateStarted

definition ListStartStages :: "start_stage list" where
  "ListStartStages = [StartStateInitialize, StartStateStart, StartStatePostStart, StartStateStarted]"

record outbound =
  ob_id :: nat
  ob_Tag :: string
  ob_Type :: string
  ob_Dependencies :: "string list"
  ob_isEndpoint :: bool
  ob_isLifecycle :: bool

record manager_env =
  me_Endpoints :: "outbound list"
  me_Get :: "string \<Rightarrow> outbound option"
  me_Start :: "outbound \<Rightarrow> start_stage \<Rightarrow> error option"
  me_Remove :: "outbound \<Rightarrow> error option"
  me_CreateOutbound :: "string \<Rightarrow> string \<Rightarrow> outbound res"
  me_fallback :: "outbound res"

text \<open>\<open>om_lifecycle\<close> is whether the life cycle group exists, which it does from the first stage on.\<close>

record manager =
  om_stage :: start_stage
  om_lifecycle :: bool
  om_defaultTag :: string
  om_outbounds :: "outbound list"
  om_outboundByTag :: "string \<rightharpoonup> outbound"
  om_defaultOutbound :: "outbound option"

definition NewManager :: "string \<Rightarrow> manager" where
  "NewManager defaultTag =
     \<lparr>om_stage = StartStateInitialize, om_lifecycle = False, om_defaultTag = defaultTag, om_outbounds = [],
      om_outboundByTag = (\<lambda>_. None), om_defaultOutbound = None\<rparr>"

section \<open>Starting in the order of dependencies\<close>

text \<open>What starting one outbound answers: endpoints go through the endpoint manager.\<close>

definition start_one :: "manager_env \<Rightarrow> outbound \<Rightarrow> error option" where
  "start_one E ob =
     (if ob_isEndpoint ob \<or> ob_isLifecycle ob then me_Start E ob StartStateStart else None)"

text \<open>One pass of the loop: the tags started so far (the latest first), and whether it started any.\<close>

fun start_pass :: "manager_env \<Rightarrow> outbound list \<Rightarrow> string list \<Rightarrow> bool \<Rightarrow> (string list \<times> bool) res" where
  "start_pass E [] started canContinue = Inr (started, canContinue)"
| "start_pass E (ob # obs) started canContinue =
     (if List.member started (ob_Tag ob) then start_pass E obs started canContinue
      else if \<not> list_all (List.member started) (ob_Dependencies ob) then start_pass E obs started canContinue
      else case start_one E ob of
        Some e \<Rightarrow> Inl e
      | None \<Rightarrow> start_pass E obs (ob_Tag ob # started) True)"

text \<open>\<open>common.Find\<close>, with the zero value for nothing.\<close>

definition first_unstarted :: "string list \<Rightarrow> string list \<Rightarrow> string" where
  "first_unstarted started tags = (case find (\<lambda>t. \<not> List.member started t) tags of None \<Rightarrow> [] | Some t \<Rightarrow> t)"

lemma find_SomeD: "find P xs = Some x \<Longrightarrow> x \<in> set xs \<and> P x"
  by (auto simp: find_Some_iff)

text \<open>\<open>lintOutbound\<close> follows dependencies that are not started until one repeats or is missing.\<close>

function lintOutbound :: "outbound list \<Rightarrow> string list \<Rightarrow> string list \<Rightarrow> outbound \<Rightarrow> error" where
  "lintOutbound outbounds started oTree oCurrent =
     (let problem = first_unstarted started (ob_Dependencies oCurrent) in
      if List.member oTree problem
      then E_New (''circular outbound dependency: '' @ strings_Join oTree '' -> '' @ '' -> '' @ problem)
      else case find (\<lambda>it. ob_Tag it = problem) outbounds of
        None \<Rightarrow> E_New (''dependency['' @ problem @ ''] not found for outbound['' @ ob_Tag oCurrent @ '']'')
      | Some ob \<Rightarrow> lintOutbound outbounds started (oTree @ [problem]) ob)"
  by pat_completeness auto
termination
proof (relation "measure (\<lambda>(outbounds, started, oTree, oCurrent). card (set (map ob_Tag outbounds) - set oTree))")
  fix outbounds started oTree oCurrent problem ob
  assume a: "\<not> List.member oTree problem" "find (\<lambda>it. ob_Tag it = problem) outbounds = Some ob"
  then have "problem \<in> set (map ob_Tag outbounds)" by (auto dest: find_SomeD)
  with a(1) have "set (map ob_Tag outbounds) - set (oTree @ [problem]) \<subset> set (map ob_Tag outbounds) - set oTree" by auto
  then show "((outbounds, started, oTree @ [problem], ob), outbounds, started, oTree, oCurrent)
    \<in> measure (\<lambda>(outbounds, started, oTree, oCurrent). card (set (map ob_Tag outbounds) - set oTree))"
    by (simp add: psubset_card_mono)
qed simp

declare lintOutbound.simps [simp del]

text \<open>A pass that goes on has started something, so the passes end.\<close>

lemma start_pass_mono:
  "start_pass E obs started can = Inr (started', can') \<Longrightarrow>
   (\<exists>new. started' = new @ started \<and> set new \<subseteq> set (map ob_Tag obs) \<and> distinct new \<and> set new \<inter> set started = {} \<and>
     can' = (can \<or> new \<noteq> []))"
proof (induction obs arbitrary: started can)
  case (Cons ob obs)
  show ?case
  proof (cases "List.member started (ob_Tag ob) \<or> \<not> list_all (List.member started) (ob_Dependencies ob)")
    case True
    with Cons.prems have "start_pass E obs started can = Inr (started', can')" by (auto split: if_splits)
    from Cons.IH [OF this] show ?thesis by auto
  next
    case False
    with Cons.prems have "start_pass E obs (ob_Tag ob # started) True = Inr (started', can')" by (auto split: option.splits)
    from Cons.IH [OF this] obtain new where new: "started' = new @ ob_Tag ob # started" "set new \<subseteq> set (map ob_Tag obs)"
      "distinct new" "set new \<inter> set (ob_Tag ob # started) = {}" "can'" by auto
    then show ?thesis using False by (intro exI [of _ "new @ [ob_Tag ob]"]) auto
  qed
qed auto

function start_loop_all :: "manager_env \<Rightarrow> outbound list \<Rightarrow> string list \<Rightarrow> string list res" where
  "start_loop_all E outbounds started =
     (case start_pass E outbounds started False of
        Inl e \<Rightarrow> Inl e
      | Inr (started', canContinue) \<Rightarrow>
          if length started' = length outbounds then Inr started'
          else if canContinue then start_loop_all E outbounds started'
          else case find (\<lambda>it. \<not> List.member started' (ob_Tag it)) outbounds of
            None \<Rightarrow> Inl (E_Panic ''nil outbound'')
          | Some currentOutbound \<Rightarrow> Inl (lintOutbound outbounds started' [ob_Tag currentOutbound] currentOutbound))"
  by pat_completeness auto
termination
proof (relation "measure (\<lambda>(E, outbounds, started). card (set (map ob_Tag outbounds) - set started))")
  fix E outbounds started p started' canContinue
  assume a: "start_pass E outbounds started False = Inr p" "(started', canContinue) = p" canContinue
  then obtain new where n: "started' = new @ started" "set new \<subseteq> set (map ob_Tag outbounds)" "set new \<inter> set started = {}" "new \<noteq> []"
    using start_pass_mono [of E outbounds started False started' canContinue] by auto
  then obtain x where "x \<in> set new" by (cases new) auto
  with n have "set (map ob_Tag outbounds) - set started' \<subset> set (map ob_Tag outbounds) - set started" by auto
  then show "((E, outbounds, started'), E, outbounds, started)
    \<in> measure (\<lambda>(E, outbounds, started). card (set (map ob_Tag outbounds) - set started))"
    by (simp add: psubset_card_mono)
qed simp

declare start_loop_all.simps [simp del]

definition startOutbounds :: "manager_env \<Rightarrow> outbound list \<Rightarrow> string list res" where
  "startOutbounds E outbounds = start_loop_all E outbounds []"

section \<open>The manager\<close>

definition mgr_Outbounds :: "manager \<Rightarrow> outbound list" where
  "mgr_Outbounds m = om_outbounds m"

definition mgr_Outbound_tag :: "manager_env \<Rightarrow> manager \<Rightarrow> string \<Rightarrow> outbound option" where
  "mgr_Outbound_tag E m tag = (case om_outboundByTag m tag of Some ob \<Rightarrow> Some ob | None \<Rightarrow> me_Get E tag)"

definition mgr_default :: "manager \<Rightarrow> outbound option" where
  "mgr_default m = om_defaultOutbound m"

definition add_outbound :: "outbound \<Rightarrow> manager \<Rightarrow> manager" where
  "add_outbound ob m =
     m\<lparr>om_outbounds := om_outbounds m @ [ob], om_outboundByTag := (om_outboundByTag m)(ob_Tag ob \<mapsto> ob)\<rparr>"

text \<open>The first stage settles the default outbound.\<close>

definition init_default :: "manager_env \<Rightarrow> manager \<Rightarrow> manager res" where
  "init_default E m =
     rbind (if om_defaultTag m \<noteq> [] \<and> om_defaultOutbound m = None then
              (case me_Get E (om_defaultTag m) of
                 None \<Rightarrow> Inl (E_New (''default outbound not found: '' @ om_defaultTag m))
               | Some ep \<Rightarrow> Inr (m\<lparr>om_defaultOutbound := Some ep\<rparr>))
            else Inr m) (\<lambda>m1.
       if om_defaultOutbound m1 = None then
         (case me_fallback E of
            Inl e \<Rightarrow> Inl (E_Cause e ''create direct outbound for fallback'')
          | Inr direct \<Rightarrow> Inr ((add_outbound direct m1)\<lparr>om_defaultOutbound := Some direct\<rparr>))
       else Inr m1)"

text \<open>The other stages start the outbounds one after the other.\<close>

fun start_stage_all :: "manager_env \<Rightarrow> start_stage \<Rightarrow> outbound list \<Rightarrow> error option" where
  "start_stage_all E stage [] = None"
| "start_stage_all E stage (ob # obs) =
     (if \<not> ob_isLifecycle ob then start_stage_all E stage obs
      else case me_Start E ob stage of Some e \<Rightarrow> Some e | None \<Rightarrow> start_stage_all E stage obs)"

definition mgr_Start :: "manager_env \<Rightarrow> start_stage \<Rightarrow> manager \<Rightarrow> manager res" where
  "mgr_Start E stage m =
     (let m1 = m\<lparr>om_stage := stage, om_lifecycle := om_lifecycle m \<or> stage = StartStateInitialize\<rparr> in
      rbind (if stage = StartStateInitialize then init_default E m1 else Inr m1) (\<lambda>m2.
        if stage = StartStateStart then
          rbind (startOutbounds E (om_outbounds m2 @ me_Endpoints E)) (\<lambda>_. Inr m2)
        else case start_stage_all E stage (om_outbounds m2) of Some e \<Rightarrow> Inl e | None \<Rightarrow> Inr m2))"

definition mgr_Create :: "manager_env \<Rightarrow> string \<Rightarrow> string \<Rightarrow> manager \<Rightarrow> manager res" where
  "mgr_Create E tag inboundType m =
     (if tag = [] then Inl (E_Ext ''invalid argument'')
      else rbind (me_CreateOutbound E tag inboundType) (\<lambda>ob.
        if om_outboundByTag m tag \<noteq> None then Inl (E_New (''duplicate outbound tag: '' @ tag))
        else
          let m1 = m\<lparr>om_outbounds := om_outbounds m @ [ob], om_outboundByTag := (om_outboundByTag m)(tag \<mapsto> ob)\<rparr> in
          Inr (if tag = om_defaultTag m \<or> (om_defaultTag m = [] \<and> om_defaultOutbound m = None)
               then m1\<lparr>om_defaultOutbound := Some ob\<rparr> else m1)))"

text \<open>Replacing and removing by identity touch the first entry that is the old outbound.\<close>

fun replace_first :: "outbound \<Rightarrow> outbound \<Rightarrow> outbound list \<Rightarrow> outbound list" where
  "replace_first old new [] = []"
| "replace_first old new (x # xs) = (if x = old then new # xs else x # replace_first old new xs)"

text \<open>
  The stages a new outbound goes through to catch up with the manager. The error of a failed start and
  that of the clean-up are joined.
\<close>

fun catch_up :: "manager_env \<Rightarrow> outbound \<Rightarrow> start_stage \<Rightarrow> start_stage list \<Rightarrow> error option" where
  "catch_up E ob current [] = None"
| "catch_up E ob current (stage # stages) =
     (case me_Start E ob stage of
        Some e \<Rightarrow> Some e
      | None \<Rightarrow> if stage = current then None else catch_up E ob current stages)"

definition mgr_Replace :: "manager_env \<Rightarrow> string \<Rightarrow> string \<Rightarrow> manager \<Rightarrow> manager res" where
  "mgr_Replace E tag outboundType m =
     rbind (me_CreateOutbound E tag outboundType) (\<lambda>node.
       case (if ob_isLifecycle node \<and> om_lifecycle m then catch_up E node (om_stage m) ListStartStages else None) of
         Some e \<Rightarrow> Inl (case me_Remove E node of None \<Rightarrow> e | Some e' \<Rightarrow> E_CauseErr e e')
       | None \<Rightarrow>
           let old = om_outboundByTag m tag in
           Inr (m\<lparr>om_outbounds := (case old of None \<Rightarrow> om_outbounds m @ [node] | Some o' \<Rightarrow> replace_first o' node (om_outbounds m)),
                  om_outboundByTag := (om_outboundByTag m)(tag \<mapsto> node),
                  om_defaultOutbound := (if old \<noteq> None \<and> om_defaultOutbound m = old then Some node else om_defaultOutbound m)\<rparr>))"

text \<open>\<open>Remove\<close> answers the error of closing, after the outbound is gone.\<close>

definition mgr_Remove :: "manager_env \<Rightarrow> string \<Rightarrow> manager \<Rightarrow> error option \<times> manager" where
  "mgr_Remove E tag m =
     (case om_outboundByTag m tag of
        None \<Rightarrow> (None, m)
      | Some old \<Rightarrow>
          let rest = remove1 old (om_outbounds m) in
          (if ob_isLifecycle old \<and> om_lifecycle m then me_Remove E old else None,
           m\<lparr>om_outbounds := rest, om_outboundByTag := (om_outboundByTag m)(tag := None),
             om_defaultOutbound := (if om_defaultOutbound m = Some old then (case rest of [] \<Rightarrow> None | ob # _ \<Rightarrow> Some ob)
                                    else om_defaultOutbound m)\<rparr>))"

section \<open>Tags of a configuration\<close>

text \<open>
  Outbounds and endpoints without a tag are known by their position (\<open>option/options.go\<close>, \<open>box.go\<close>).
  \<open>seen\<close> holds the tags so far.
\<close>

definition tag_or_index :: "nat \<Rightarrow> string \<Rightarrow> string" where
  "tag_or_index i tag = (if tag = [] then dec_string i else tag)"

fun check_tags :: "nat \<Rightarrow> string list \<Rightarrow> string list \<Rightarrow> string list res" where
  "check_tags i [] seen = Inr seen"
| "check_tags i (tag # tags) seen =
     (if List.member seen (tag_or_index i tag)
      then Inl (E_New (''duplicate outbound/endpoint tag: '' @ tag_or_index i tag))
      else check_tags (Suc i) tags (tag_or_index i tag # seen))"

definition checkOutbounds :: "string list \<Rightarrow> string list \<Rightarrow> error option" where
  "checkOutbounds outbounds endpoints =
     (case rbind (check_tags 0 outbounds []) (check_tags 0 endpoints) of Inl e \<Rightarrow> Some e | Inr _ \<Rightarrow> None)"

text \<open>
  \<open>box.New\<close> creates the configured outbounds, given by tag and type, and one it adds at the end.
\<close>

fun create_outbounds :: "manager_env \<Rightarrow> nat \<Rightarrow> (string \<times> string) list \<Rightarrow> manager \<Rightarrow> manager res" where
  "create_outbounds E i [] m = Inr m"
| "create_outbounds E i ((tag, outboundType) # options) m =
     (case mgr_Create E (tag_or_index i tag) outboundType m of
        Inl e \<Rightarrow> Inl (E_CauseAt e ''initialize outbound['' i)
      | Inr m' \<Rightarrow> create_outbounds E (Suc i) options m')"

definition box_outbounds :: "manager_env \<Rightarrow> (string \<times> string) list \<Rightarrow> manager \<Rightarrow> manager res" where
  "box_outbounds E options m = create_outbounds E 0 (options @ [(''Compatible'', ''direct'')]) m"

end
