(* ===== verification/Outbound_Facts.thy ===== *)
theory Outbound_Facts
  imports Outbound_Manager Rule_Action_Run
begin

text \<open>
  Facts of the outbound manager: the order in which outbounds are started, what the errors of the
  start mean, and the agreement of the list of outbounds with the map.
\<close>

section \<open>The order of the start\<close>

definition depends_on :: "outbound list \<Rightarrow> string \<Rightarrow> string \<Rightarrow> bool" where
  "depends_on obs a b \<longleftrightarrow> (\<exists>ob\<in>set obs. ob_Tag ob = a \<and> b \<in> set (ob_Dependencies ob))"

text \<open>Tags with the latest first, each after some outbound's dependencies.\<close>

fun started_ok :: "outbound list \<Rightarrow> string list \<Rightarrow> bool" where
  "started_ok obs [] \<longleftrightarrow> True"
| "started_ok obs (t # ts) \<longleftrightarrow>
     (\<exists>ob\<in>set obs. ob_Tag ob = t \<and> set (ob_Dependencies ob) \<subseteq> set ts) \<and> t \<notin> set ts \<and> started_ok obs ts"

lemma start_pass_ok:
  assumes "set obs' \<subseteq> set obs"
  shows "start_pass E obs' started can = Inr (started', can') \<Longrightarrow> started_ok obs started \<Longrightarrow> started_ok obs started'"
  using assms
proof (induction obs' arbitrary: started can)
  case (Cons ob obs')
  show ?case
  proof (cases "List.member started (ob_Tag ob) \<or> \<not> list_all (List.member started) (ob_Dependencies ob)")
    case True
    with Cons show ?thesis by (auto split: if_splits)
  next
    case False
    then have "set (ob_Dependencies ob) \<subseteq> set started" by (auto simp: list_all_iff)
    with False Cons.prems have "started_ok obs (ob_Tag ob # started)" by auto
    with False Cons show ?thesis by (auto split: option.splits)
  qed
qed auto

lemma start_pass_error:
  "start_pass E obs started can = Inl e \<Longrightarrow> \<exists>ob\<in>set obs. start_one E ob = Some e"
  by (induction obs arbitrary: started can) (auto split: if_splits option.splits)

lemma start_pass_stuck:
  "start_pass E obs started False = Inr (started', False) \<Longrightarrow>
   started' = started \<and> (\<forall>ob\<in>set obs. ob_Tag ob \<in> set started \<or> \<not> set (ob_Dependencies ob) \<subseteq> set started)"
proof (induction obs arbitrary: started)
  case (Cons ob obs)
  have "List.member started (ob_Tag ob) \<or> \<not> list_all (List.member started) (ob_Dependencies ob)"
  proof (rule ccontr)
    assume n: "\<not> ?thesis"
    with Cons.prems have "start_pass E obs (ob_Tag ob # started) True = Inr (started', False)" by (auto split: option.splits)
    from start_pass_mono [OF this] show False by simp
  qed
  then show ?case using Cons by (auto simp: list_all_iff split: if_splits)
qed auto

section \<open>The errors of the start\<close>

definition circular_error :: "string list \<Rightarrow> string \<Rightarrow> error" where
  "circular_error tree problem =
     E_New (''circular outbound dependency: '' @ strings_Join tree '' -> '' @ '' -> '' @ problem)"

definition missing_error :: "string \<Rightarrow> string \<Rightarrow> error" where
  "missing_error problem tag = E_New (''dependency['' @ problem @ ''] not found for outbound['' @ tag @ '']'')"

definition start_fault :: "outbound list \<Rightarrow> error \<Rightarrow> bool" where
  "start_fault obs e \<longleftrightarrow>
     (\<exists>tree problem. e = circular_error tree problem \<and> tree \<noteq> [] \<and> successively (depends_on obs) tree \<and>
        depends_on obs (last tree) problem \<and> problem \<in> set tree) \<or>
     (\<exists>tag problem. e = missing_error problem tag \<and> depends_on obs tag problem \<and> problem \<notin> ob_Tag ` set obs)"

lemma first_unstarted_dep:
  assumes "\<not> set deps \<subseteq> set started"
  shows "first_unstarted started deps \<in> set deps \<and> first_unstarted started deps \<notin> set started"
proof -
  from assms obtain d where "d \<in> set deps" "d \<notin> set started" by blast
  then obtain t where "find (\<lambda>t. \<not> List.member started t) deps = Some t"
    by (cases "find (\<lambda>t. \<not> List.member started t) deps") (auto simp: find_None_iff)
  with find_SomeD [OF this] show ?thesis by (simp add: first_unstarted_def)
qed

lemma lintOutbound_fault:
  "\<forall>ob\<in>set obs. ob_Tag ob \<in> set started \<or> \<not> set (ob_Dependencies ob) \<subseteq> set started \<Longrightarrow>
   cur \<in> set obs \<Longrightarrow> ob_Tag cur \<notin> set started \<Longrightarrow> tree \<noteq> [] \<Longrightarrow> last tree = ob_Tag cur \<Longrightarrow>
    successively (depends_on obs) tree \<Longrightarrow> start_fault obs (lintOutbound obs started tree cur)"
proof (induction obs started tree cur rule: lintOutbound.induct)
  case (1 obs started tree cur)
  let ?p = "first_unstarted started (ob_Dependencies cur)"
  have "\<not> set (ob_Dependencies cur) \<subseteq> set started" using 1(2-4) by blast
  from first_unstarted_dep [OF this] have p: "?p \<in> set (ob_Dependencies cur)" "?p \<notin> set started" by auto
  then have dep: "depends_on obs (ob_Tag cur) ?p" using 1(3) by (auto simp: depends_on_def)
  show ?case
  proof (cases "?p \<in> set tree")
    case True
    then have "lintOutbound obs started tree cur = circular_error tree ?p"
      by (simp add: lintOutbound.simps [of obs started tree cur] Let_def circular_error_def)
    with True dep 1(5-7) show ?thesis unfolding start_fault_def by (intro disjI1 exI [of _ tree] exI [of _ ?p]) simp
  next
    case False
    show ?thesis
    proof (cases "find (\<lambda>it. ob_Tag it = ?p) obs")
      case None
      then have "lintOutbound obs started tree cur = missing_error ?p (ob_Tag cur)"
        using False by (simp add: lintOutbound.simps [of obs started tree cur] Let_def missing_error_def)
      moreover have "?p \<notin> ob_Tag ` set obs" using None by (auto simp: find_None_iff)
      ultimately show ?thesis using dep unfolding start_fault_def by blast
    next
      case (Some ob)
      then have l: "lintOutbound obs started tree cur = lintOutbound obs started (tree @ [?p]) ob"
        using False by (simp add: lintOutbound.simps [of obs started tree cur] Let_def)
      have ob: "ob \<in> set obs" "ob_Tag ob = ?p" using find_SomeD [OF Some] by auto
      have "successively (depends_on obs) (tree @ [?p])" using 1(5-7) dep by (simp add: successively_append_iff)
      with 1(1) [OF refl _ Some] 1(2) False ob p(2) show ?thesis unfolding l by simp
    qed
  qed
qed

section \<open>The whole start\<close>

definition start_outcome :: "manager_env \<Rightarrow> outbound list \<Rightarrow> string list res \<Rightarrow> bool" where
  "start_outcome E obs r =
     (case r of
        Inr started \<Rightarrow> started_ok obs started \<and> set started = ob_Tag ` set obs
      | Inl e \<Rightarrow> (\<exists>ob\<in>set obs. start_one E ob = Some e) \<or> start_fault obs e)"

lemma started_ok_facts: "started_ok obs started \<Longrightarrow> distinct started \<and> set started \<subseteq> ob_Tag ` set obs"
  by (induction started) auto

lemma start_loop_all_outcome:
  "distinct (map ob_Tag obs) \<Longrightarrow> started_ok obs started \<Longrightarrow> start_outcome E obs (start_loop_all E obs started)"
proof (induction E obs started rule: start_loop_all.induct)
  case (1 E obs started)
  show ?case
  proof (cases "start_pass E obs started False")
    case (Inl e)
    from start_pass_error [OF Inl] show ?thesis by (simp add: start_loop_all.simps [of E obs started] Inl start_outcome_def)
  next
    case (Inr p)
    obtain started' can where p: "p = (started', can)" by (cases p)
    have ok: "started_ok obs started'" using start_pass_ok [OF _ Inr [unfolded p]] 1(3) by blast
    note f = started_ok_facts [OF ok]
    have card: "card (ob_Tag ` set obs) = length obs" using distinct_card [OF 1(2)] by simp
    show ?thesis
    proof (cases "length started' = length obs")
      case True
      then have "set started' = ob_Tag ` set obs"
        using f card card_subset_eq [of "ob_Tag ` set obs" "set started'"] distinct_card [of started'] by simp
      with True ok show ?thesis by (simp add: start_loop_all.simps [of E obs started] Inr p start_outcome_def)
    next
      case False
      show ?thesis
      proof (cases can)
        case True
        then have "start_loop_all E obs started = start_loop_all E obs started'"
          using False by (simp add: start_loop_all.simps [of E obs started] Inr p)
        with 1(1) [OF Inr p [symmetric] False True 1(2) ok] show ?thesis by simp
      next
        case stuck: False
        from start_pass_stuck [of E obs started started'] Inr p stuck
        have st: "started' = started" "\<forall>ob\<in>set obs. ob_Tag ob \<in> set started' \<or> \<not> set (ob_Dependencies ob) \<subseteq> set started'" by auto
        have "\<exists>ob\<in>set obs. ob_Tag ob \<notin> set started'"
        proof (rule ccontr)
          assume "\<not> ?thesis"
          with f have "set started' = ob_Tag ` set obs" by blast
          with f card distinct_card [of started'] False show False by simp
        qed
        then obtain cur where cur: "find (\<lambda>it. \<not> List.member started' (ob_Tag it)) obs = Some cur"
          by (cases "find (\<lambda>it. \<not> List.member started' (ob_Tag it)) obs") (auto simp: find_None_iff)
        then have c: "cur \<in> set obs" "ob_Tag cur \<notin> set started'" using find_SomeD [OF cur] by auto
        from lintOutbound_fault [OF st(2) c, of "[ob_Tag cur]"] show ?thesis
          using False stuck by (simp add: start_loop_all.simps [of E obs started] Inr p cur [simplified] start_outcome_def)
      qed
    qed
  qed
qed

lemma startOutbounds_outcome: "distinct (map ob_Tag obs) \<Longrightarrow> start_outcome E obs (startOutbounds E obs)"
  by (simp add: startOutbounds_def start_loop_all_outcome)

text \<open>An order gives a rank: dependencies have a smaller one.\<close>

fun start_rank :: "string list \<Rightarrow> string \<Rightarrow> nat" where
  "start_rank [] t = 0"
| "start_rank (s # ss) t = (if s = t then Suc (length ss) else start_rank ss t)"

lemma start_rank_le: "start_rank ss t \<le> length ss"
  by (induction ss) auto

lemma started_ok_rank:
  assumes "distinct (map ob_Tag obs)"
  shows "started_ok obs started \<Longrightarrow> ob \<in> set obs \<Longrightarrow> ob_Tag ob \<in> set started \<Longrightarrow> d \<in> set (ob_Dependencies ob) \<Longrightarrow>
    d \<in> set started \<and> start_rank started d < start_rank started (ob_Tag ob)"
proof (induction started)
  case (Cons t ts)
  have t: "t \<notin> set ts" using Cons.prems(1) by simp
  show ?case
  proof (cases "ob_Tag ob = t")
    case True
    from Cons.prems(1) obtain ob' where "ob' \<in> set obs" "ob_Tag ob' = t" "set (ob_Dependencies ob') \<subseteq> set ts" by auto
    with True assms Cons.prems(2) have "ob' = ob" by (metis distinct_map inj_onD)
    with \<open>set (ob_Dependencies ob') \<subseteq> set ts\<close> Cons.prems have "d \<in> set ts" "d \<noteq> t" by auto
    with start_rank_le [of ts d] True show ?thesis by simp
  next
    case False
    with Cons.prems have h: "ob_Tag ob \<in> set ts" "started_ok obs ts" by auto
    from Cons.IH [OF h(2) Cons.prems(2) h(1) Cons.prems(4)] t False show ?thesis by auto
  qed
qed simp

section \<open>List and map\<close>

definition manager_ok :: "manager \<Rightarrow> bool" where
  "manager_ok m \<longleftrightarrow> distinct (map ob_Tag (om_outbounds m)) \<and>
     om_outboundByTag m = map_of (map (\<lambda>ob. (ob_Tag ob, ob)) (om_outbounds m))"

lemma map_of_tags:
  "distinct (map ob_Tag obs) \<Longrightarrow>
   map_of (map (\<lambda>ob. (ob_Tag ob, ob)) obs) tag = Some ob \<longleftrightarrow> ob \<in> set obs \<and> ob_Tag ob = tag"
  by (induction obs) (auto, metis image_eqI)

lemma map_of_tags_None: "map_of (map (\<lambda>ob. (ob_Tag ob, ob)) obs) tag = None \<longleftrightarrow> tag \<notin> ob_Tag ` set obs"
  by (induction obs) auto

lemma map_of_tags_append:
  "ob_Tag ob \<notin> ob_Tag ` set obs \<Longrightarrow>
   map_of (map (\<lambda>ob. (ob_Tag ob, ob)) (obs @ [ob])) = (map_of (map (\<lambda>ob. (ob_Tag ob, ob)) obs))(ob_Tag ob \<mapsto> ob)"
  by (induction obs) (auto simp: fun_eq_iff)

lemma manager_ok_add:
  assumes "manager_ok m" "ob_Tag ob = tag" "om_outboundByTag m tag = None"
  shows "manager_ok (m\<lparr>om_outbounds := om_outbounds m @ [ob], om_outboundByTag := (om_outboundByTag m)(tag \<mapsto> ob)\<rparr>)"
  using assms map_of_tags_append [of ob "om_outbounds m"] by (auto simp: manager_ok_def map_of_tags_None)

lemma manager_ok_default: "manager_ok (m\<lparr>om_defaultOutbound := d\<rparr>) = manager_ok m"
  by (simp add: manager_ok_def)

lemma replace_first_tags: "ob_Tag new = ob_Tag old \<Longrightarrow> map ob_Tag (replace_first old new obs) = map ob_Tag obs"
  by (induction obs) auto

lemma replace_first_map:
  "ob_Tag new = ob_Tag old \<Longrightarrow> distinct (map ob_Tag obs) \<Longrightarrow> old \<in> set obs \<Longrightarrow>
   map_of (map (\<lambda>ob. (ob_Tag ob, ob)) (replace_first old new obs)) =
     (map_of (map (\<lambda>ob. (ob_Tag ob, ob)) obs))(ob_Tag old \<mapsto> new)"
  by (induction obs) (auto simp: fun_eq_iff, metis image_eqI)

lemma remove1_map:
  "distinct (map ob_Tag obs) \<Longrightarrow> old \<in> set obs \<Longrightarrow>
   map_of (map (\<lambda>ob. (ob_Tag ob, ob)) (remove1 old obs)) = (map_of (map (\<lambda>ob. (ob_Tag ob, ob)) obs))(ob_Tag old := None)"
proof (induction obs)
  case (Cons a obs)
  show ?case
  proof (cases "a = old")
    case True
    then have "map_of (map (\<lambda>ob. (ob_Tag ob, ob)) obs) (ob_Tag old) = None" using Cons.prems by (simp add: map_of_tags_None)
    with True show ?thesis by (auto simp: fun_eq_iff)
  next
    case False
    with Cons.prems have "old \<in> set obs" "ob_Tag old \<noteq> ob_Tag a" by (auto, metis image_eqI)
    with Cons False show ?thesis by (auto simp: fun_eq_iff)
  qed
qed simp

lemma distinct_tags_remove1: "distinct (map ob_Tag obs) \<Longrightarrow> distinct (map ob_Tag (remove1 old obs))"
  by (induction obs) (auto dest: set_remove1_subset [THEN subsetD])

end
