(* ===== verification/Group_Selector.thy ===== *)
theory Group_Selector
  imports Outbound_Manager
begin

text \<open>
  The selector group (\<open>protocol/group/selector.go\<close>, \<open>provider_members.go\<close>): its members come from the
  configuration and from providers, one of them is selected, and the choice is kept in the cache file.
  The outbound manager, the providers and the cache file are arguments; dialing is left out.
\<close>

section \<open>Data\<close>

record group_env =
  ge_Outbound :: "string \<Rightarrow> outbound option"
  ge_Providers :: "string list"
  ge_ProviderOutbounds :: "string \<Rightarrow> outbound list"
  ge_StoreSelected :: "string \<Rightarrow> string \<Rightarrow> error option"

text \<open>What the cache file holds, \<^const>\<open>None\<close> without one.\<close>

type_synonym selected_cache = "(string \<rightharpoonup> string) option"

record selector =
  se_Tag :: string
  se_Dependencies :: "string list"
  se_tags :: "string list"
  se_defaultTag :: string
  se_outbounds :: "string \<rightharpoonup> outbound"
  se_selected :: "outbound option"
  se_providers :: "string list"
  se_outboundsCache :: "string \<rightharpoonup> outbound list"
  se_providerTags :: "string list"
  se_exclude :: "(string \<Rightarrow> bool) option"
  se_include :: "(string \<Rightarrow> bool) option"
  se_useAllProviders :: bool

record selector_options =
  so_Outbounds :: "string list"
  so_Default :: string
  so_Providers :: "string list"
  so_Exclude :: "(string \<Rightarrow> bool) option"
  so_Include :: "(string \<Rightarrow> bool) option"
  so_UseAllProviders :: bool

definition NewSelector :: "string \<Rightarrow> selector_options \<Rightarrow> selector" where
  "NewSelector tag options =
     \<lparr>se_Tag = tag, se_Dependencies = so_Outbounds options, se_tags = so_Outbounds options,
      se_defaultTag = so_Default options, se_outbounds = (\<lambda>_. None), se_selected = None, se_providers = [],
      se_outboundsCache = (\<lambda>_. None), se_providerTags = so_Providers options, se_exclude = so_Exclude options,
      se_include = so_Include options, se_useAllProviders = so_UseAllProviders options\<rparr>"

section \<open>Choosing\<close>

definition LoadSelected :: "selected_cache \<Rightarrow> string \<Rightarrow> string" where
  "LoadSelected cache tag = (case cache of None \<Rightarrow> [] | Some c \<Rightarrow> (case c tag of None \<Rightarrow> [] | Some s \<Rightarrow> s))"

text \<open>\<open>outboundSelect\<close>: the cached choice, the current one, the default, the first. A nil outbound is \<^const>\<open>None\<close>.\<close>

definition outboundSelect ::
  "selected_cache \<Rightarrow> selector \<Rightarrow> (string \<rightharpoonup> outbound) \<Rightarrow> string list \<Rightarrow> outbound option res" where
  "outboundSelect cache s outbounds tags =
     (let cached = (if se_Tag s = [] then [] else LoadSelected cache (se_Tag s));
          fromCache = (if cached = [] then None else outbounds cached);
          current = (case se_selected s of None \<Rightarrow> None | Some previous \<Rightarrow> outbounds (ob_Tag previous)) in
      if fromCache \<noteq> None then Inr fromCache
      else if current \<noteq> None then Inr current
      else if se_defaultTag s \<noteq> [] then
        (case outbounds (se_defaultTag s) of
           None \<Rightarrow> Inl (E_New (''default outbound not found: '' @ se_defaultTag s))
         | Some detour \<Rightarrow> Inr (Some detour))
      else case tags of
        [] \<Rightarrow> Inl (E_Panic ''index out of range'')
      | tag # _ \<Rightarrow> Inr (outbounds tag))"

section \<open>Members\<close>

text \<open>The outbounds of the configured tags.\<close>

fun direct_outbounds :: "group_env \<Rightarrow> nat \<Rightarrow> string list \<Rightarrow> (string \<times> outbound) list res" where
  "direct_outbounds E i [] = Inr []"
| "direct_outbounds E i (tag # tags) =
     (case ge_Outbound E tag of
        None \<Rightarrow> Inl (E_New (''outbound '' @ dec_string i @ '' not found: '' @ tag))
      | Some detour \<Rightarrow> rbind (direct_outbounds E (Suc i) tags) (\<lambda>rest. Inr ((tag, detour) # rest)))"

definition compatible_fallback :: "group_env \<Rightarrow> (string \<times> outbound) list \<Rightarrow> (string \<times> outbound) list res" where
  "compatible_fallback E members =
     (if members \<noteq> [] then Inr members
      else case ge_Outbound E ''Compatible'' of
        None \<Rightarrow> Inl (E_New ''fallback outbound not found: Compatible'')
      | Some detour \<Rightarrow> Inr [(ob_Tag detour, detour)])"

definition allowed :: "(string \<Rightarrow> bool) option \<Rightarrow> (string \<Rightarrow> bool) option \<Rightarrow> outbound \<Rightarrow> bool" where
  "allowed exclude incl detour =
     (\<not> (case exclude of None \<Rightarrow> False | Some f \<Rightarrow> f (ob_Tag detour)) \<and>
      (case incl of None \<Rightarrow> True | Some f \<Rightarrow> f (ob_Tag detour)))"

text \<open>The providers in turn: what is known of one that was not updated comes from the cache.\<close>

fun provider_outbounds ::
  "group_env \<Rightarrow> selector \<Rightarrow> string \<Rightarrow> string list \<Rightarrow> (string \<rightharpoonup> outbound list) \<Rightarrow>
   (outbound list \<times> (string \<rightharpoonup> outbound list)) res" where
  "provider_outbounds E s updatedTag [] cache = Inr ([], cache)"
| "provider_outbounds E s updatedTag (p # ps) cache =
     (case (if p \<noteq> updatedTag then cache p else None) of
        Some cached \<Rightarrow> rbind (provider_outbounds E s updatedTag ps cache) (\<lambda>(rest, cache'). Inr (cached @ rest, cache'))
      | None \<Rightarrow>
          if \<not> List.member (se_providers s) p then Inl (E_New (''outbound provider not found: '' @ p))
          else
            let found = filter (allowed (se_exclude s) (se_include s)) (ge_ProviderOutbounds E p) in
            rbind (provider_outbounds E s updatedTag ps (cache(p \<mapsto> found))) (\<lambda>(rest, cache'). Inr (found @ rest, cache')))"

definition collectProviderOutbounds ::
  "group_env \<Rightarrow> selector \<Rightarrow> string \<Rightarrow> ((string \<times> outbound) list \<times> (string \<rightharpoonup> outbound list)) res" where
  "collectProviderOutbounds E s updatedTag =
     (if \<not> List.member (se_providers s) updatedTag then Inl (E_New (''outbound provider not found: '' @ updatedTag))
      else rbind (direct_outbounds E 0 (se_Dependencies s)) (\<lambda>direct.
        rbind (provider_outbounds E s updatedTag (se_providerTags s) (se_outboundsCache s)) (\<lambda>(provided, cache).
          rbind (compatible_fallback E (direct @ map (\<lambda>d. (ob_Tag d, d)) provided)) (\<lambda>members. Inr (members, cache)))))"

definition by_tag :: "outbound list \<Rightarrow> string \<rightharpoonup> outbound" where
  "by_tag obs = fold (\<lambda>d m. m(ob_Tag d \<mapsto> d)) obs (\<lambda>_. None)"

section \<open>Operations\<close>

fun load_providers :: "group_env \<Rightarrow> nat \<Rightarrow> string list \<Rightarrow> error option" where
  "load_providers E i [] = None"
| "load_providers E i (tag # tags) =
     (if List.member (ge_Providers E) tag then load_providers E (Suc i) tags
      else Some (E_New (''outbound provider '' @ dec_string i @ '' not found: '' @ tag)))"

definition selector_Start :: "group_env \<Rightarrow> selected_cache \<Rightarrow> selector \<Rightarrow> selector res" where
  "selector_Start E cache s =
     (let s1 = (if se_useAllProviders s then s\<lparr>se_providerTags := ge_Providers E, se_providers := ge_Providers E\<rparr>
                else s\<lparr>se_providers := se_providerTags s\<rparr>) in
      case (if se_useAllProviders s then None else load_providers E 0 (se_providerTags s)) of
        Some e \<Rightarrow> Inl e
      | None \<Rightarrow>
          if length (se_Dependencies s) + length (se_providerTags s1) = 0 then Inl (E_New ''missing outbound and provider tags'')
          else
            rbind (direct_outbounds E 0 (se_Dependencies s)) (\<lambda>direct.
              rbind (compatible_fallback E direct) (\<lambda>members.
                let outbounds = fold (\<lambda>(t, d) m. m(t \<mapsto> d)) members (\<lambda>_. None); tags = map fst members in
                rbind (outboundSelect cache s1 outbounds tags) (\<lambda>selected.
                  Inr (s1\<lparr>se_tags := tags, se_outbounds := outbounds, se_selected := selected\<rparr>)))))"

definition selector_Selected :: "selector \<Rightarrow> string \<Rightarrow> outbound option" where
  "selector_Selected s network = se_selected s"

definition selector_All :: "selector \<Rightarrow> string list" where
  "selector_All s = se_tags s"

definition selector_References :: "selector \<Rightarrow> string list" where
  "selector_References s = (case se_selected s of None \<Rightarrow> take 1 (se_tags s) | Some ob \<Rightarrow> [ob_Tag ob])"

text \<open>\<open>SelectOutbound\<close>: whether there is such a member, whether connections are interrupted, the new state.\<close>

definition SelectOutbound ::
  "group_env \<Rightarrow> string \<Rightarrow> selected_cache \<Rightarrow> selector \<Rightarrow> bool \<times> bool \<times> selected_cache \<times> selector" where
  "SelectOutbound E tag cache s =
     (case se_outbounds s tag of
        None \<Rightarrow> (False, False, cache, s)
      | Some detour \<Rightarrow>
          if se_selected s = Some detour then (True, False, cache, s)
          else
            (True, True,
             (case cache of
                None \<Rightarrow> None
              | Some c \<Rightarrow> if se_Tag s \<noteq> [] \<and> ge_StoreSelected E (se_Tag s) tag = None then Some (c(se_Tag s \<mapsto> tag)) else Some c),
             s\<lparr>se_selected := Some detour\<rparr>))"

definition onProviderUpdated :: "group_env \<Rightarrow> string \<Rightarrow> selected_cache \<Rightarrow> selector \<Rightarrow> (bool \<times> selector) res" where
  "onProviderUpdated E tag cache s =
     (case collectProviderOutbounds E s tag of
        Inl e \<Rightarrow> Inl (E_Cause e (se_Tag s))
      | Inr (members, outboundsCache) \<Rightarrow>
          let outbounds = by_tag (map snd members); tags = map fst members in
          rbind (outboundSelect cache s outbounds tags) (\<lambda>detour.
            Inr (se_selected s \<noteq> detour,
                 s\<lparr>se_tags := tags, se_outbounds := outbounds, se_outboundsCache := outboundsCache, se_selected := detour\<rparr>)))"

end
