(* ===== verification/Outbound_Props.thy ===== *)
theory Outbound_Props
  imports Outbound_Facts Group_Selector Route_Props
begin

text \<open>
  Properties of the outbound manager and the selector group, and what they mean for routing.
\<close>

section \<open>Selections\<close>

definition group_env_ok :: "group_env \<Rightarrow> bool" where
  "group_env_ok E \<longleftrightarrow> (\<forall>tag ob. ge_Outbound E tag = Some ob \<longrightarrow> ob_Tag ob = tag)"

definition selector_ok :: "selector \<Rightarrow> bool" where
  "selector_ok s \<longleftrightarrow>
     (\<forall>t ob. se_outbounds s t = Some ob \<longrightarrow> ob_Tag ob = t \<and> t \<in> set (se_tags s)) \<and>
     (\<exists>ob. se_selected s = Some ob \<and> se_outbounds s (ob_Tag ob) = Some ob)"

lemma direct_outbounds_tags:
  "direct_outbounds E i tags = Inr members \<Longrightarrow> group_env_ok E \<Longrightarrow> \<forall>(t, d)\<in>set members. ob_Tag d = t"
  by (induction tags arbitrary: i members) (fastforce simp: group_env_ok_def split: option.splits)+

lemma direct_outbounds_lookup:
  "direct_outbounds E i tags = Inr members \<Longrightarrow> \<forall>(t, d)\<in>set members. ge_Outbound E t = Some d"
  by (induction tags arbitrary: i members) (fastforce split: option.splits)+

lemma direct_outbounds_map: "direct_outbounds E i tags = Inr members \<Longrightarrow> map fst members = tags"
  by (induction tags arbitrary: i members) (auto split: option.splits)

lemma compatible_fallback_ok:
  assumes "compatible_fallback E members = Inr members'" "\<forall>(t, d)\<in>set members. ob_Tag d = t"
  shows "members' \<noteq> [] \<and> (\<forall>(t, d)\<in>set members'. ob_Tag d = t)"
  using assms by (auto simp: compatible_fallback_def split: if_splits option.splits)

lemma fold_members:
  "fold (\<lambda>(t, d) m. m(t \<mapsto> d)) members m t = (case map_of (rev members) t of None \<Rightarrow> m t | Some d \<Rightarrow> Some d)"
  by (induction members arbitrary: m) (auto simp: map_add_def split: option.split)

lemma by_tag_members:
  assumes "\<forall>(t, d)\<in>set members. ob_Tag d = t"
  shows "by_tag (map snd members) = fold (\<lambda>(t, d) m. m(t \<mapsto> d)) members (\<lambda>_. None)"
proof -
  have "fold (\<lambda>d m. m(ob_Tag d \<mapsto> d)) (map snd members) m = fold (\<lambda>(t, d) m. m(t \<mapsto> d)) members m" for m
    using assms by (induction members arbitrary: m) auto
  then show ?thesis by (simp add: by_tag_def)
qed

lemma members_map:
  fixes members :: "(string \<times> outbound) list"
  assumes "\<forall>(t, d)\<in>set members. ob_Tag d = t"
  defines "f \<equiv> fold (\<lambda>(t, d) m. m(t \<mapsto> d)) members (\<lambda>_. None)"
  shows "\<forall>t ob. f t = Some ob \<longrightarrow> ob_Tag ob = t \<and> t \<in> set (map fst members)" and "\<forall>t\<in>set (map fst members). f t \<noteq> None"
proof -
  have f: "f t = map_of (rev members) t" for t by (simp add: f_def fold_members split: option.split)
  show "\<forall>t ob. f t = Some ob \<longrightarrow> ob_Tag ob = t \<and> t \<in> set (map fst members)"
    using assms(1) by (auto simp: f intro: rev_image_eqI dest!: map_of_SomeD)
  show "\<forall>t\<in>set (map fst members). f t \<noteq> None"
    by (auto simp: f map_of_eq_None_iff)
qed

lemma outboundSelect_member:
  assumes "\<forall>t\<in>set tags. obs t \<noteq> None" "tags \<noteq> []"
  shows "case outboundSelect cache s obs tags of Inl e \<Rightarrow> \<not> is_panic (Inl e :: 'a res) | Inr sel \<Rightarrow> \<exists>t ob. sel = Some ob \<and> obs t = Some ob"
  using assms by (cases tags) (auto simp: outboundSelect_def Let_def is_panic_def split: option.split)

lemma selector_settled:
  assumes "\<forall>(t, d)\<in>set members. ob_Tag d = t" "members \<noteq> []"
    "outboundSelect cache s (fold (\<lambda>(t, d) m. m(t \<mapsto> d)) members (\<lambda>_. None)) (map fst members) = Inr sel"
    "se_tags s' = map fst members" "se_outbounds s' = fold (\<lambda>(t, d) m. m(t \<mapsto> d)) members (\<lambda>_. None)" "se_selected s' = sel"
  shows "selector_ok s'"
proof -
  note m = members_map [OF assms(1)]
  from outboundSelect_member [OF m(2), of cache s, where ?'a = unit] assms(2,3) obtain t ob
    where "sel = Some ob" "fold (\<lambda>(t, d) m. m(t \<mapsto> d)) members (\<lambda>_. None) t = Some ob" by auto
  with m(1) assms(4-6) show ?thesis unfolding selector_ok_def by auto
qed

lemma selector_Start_ok:
  assumes "selector_Start E cache s = Inr s'" "group_env_ok E"
  shows "selector_ok s'"
proof -
  from assms(1) obtain direct members selected s1 where
    d: "direct_outbounds E 0 (se_Dependencies s) = Inr direct" and
    m: "compatible_fallback E direct = Inr members" and
    o': "outboundSelect cache s1 (fold (\<lambda>(t, d) m. m(t \<mapsto> d)) members (\<lambda>_. None)) (map fst members) = Inr selected" and
    s': "s' = s1\<lparr>se_tags := map fst members, se_outbounds := fold (\<lambda>(t, d) m. m(t \<mapsto> d)) members (\<lambda>_. None), se_selected := selected\<rparr>"
    by (auto simp: selector_Start_def Let_def split: option.splits if_splits)
  note c = compatible_fallback_ok [OF m direct_outbounds_tags [OF d assms(2)]]
  show ?thesis by (rule selector_settled [OF _ _ o']) (use c in \<open>simp_all add: s'\<close>)
qed

lemma onProviderUpdated_ok:
  assumes "group_env_ok E"
  shows "case onProviderUpdated E tag cache s of Inl e \<Rightarrow> \<not> is_panic (Inl e :: 'a res) | Inr (i, s') \<Rightarrow> selector_ok s'"
proof (cases "collectProviderOutbounds E s tag")
  case (Inl e)
  then show ?thesis by (simp add: onProviderUpdated_def is_panic_def)
next
  case (Inr p)
  obtain members oc where p: "p = (members, oc)" by (cases p)
  from Inr p obtain direct provided where d: "direct_outbounds E 0 (se_Dependencies s) = Inr direct"
    and m: "compatible_fallback E (direct @ map (\<lambda>d. (ob_Tag d, d)) provided) = Inr members"
    by (auto simp: collectProviderOutbounds_def split: if_splits)
  have t: "\<forall>(t, d)\<in>set (direct @ map (\<lambda>d. (ob_Tag d, d)) provided). ob_Tag d = t"
    using direct_outbounds_tags [OF d assms] by auto
  have c: "members \<noteq> []" "\<forall>(t, d)\<in>set members. ob_Tag d = t" using compatible_fallback_ok [OF m t] by auto
  let ?f = "fold (\<lambda>(t, d) m. m(t \<mapsto> d)) members (\<lambda>_. None)"
  note mm = members_map [OF c(2)]
  have up: "onProviderUpdated E tag cache s =
      rbind (outboundSelect cache s ?f (map fst members)) (\<lambda>detour. Inr (se_selected s \<noteq> detour,
        s\<lparr>se_tags := map fst members, se_outbounds := ?f, se_outboundsCache := oc, se_selected := detour\<rparr>))"
    by (simp add: onProviderUpdated_def Inr p Let_def by_tag_members [OF c(2)])
  show ?thesis
  proof (cases "outboundSelect cache s ?f (map fst members)")
    case (Inl e)
    with outboundSelect_member [OF mm(2), of cache s, where ?'a = 'a] c(1) show ?thesis by (simp add: up)
  next
    case (Inr sel)
    have "selector_ok (s\<lparr>se_tags := map fst members, se_outbounds := ?f, se_outboundsCache := oc, se_selected := sel\<rparr>)"
      by (rule selector_settled [OF c(2,1) Inr]) simp_all
    with Inr show ?thesis by (simp add: up)
  qed
qed

lemma SelectOutbound_ok: "selector_ok s \<Longrightarrow> selector_ok (snd (snd (snd (SelectOutbound E tag cache s))))"
  by (auto simp: SelectOutbound_def selector_ok_def split: option.split)

text \<open>What happens to a selector while it runs: choices and updates of providers, each in its surroundings.\<close>

datatype selector_op = SelectOp group_env string | UpdateOp group_env string

fun op_env :: "selector_op \<Rightarrow> group_env" where
  "op_env (SelectOp E tag) = E"
| "op_env (UpdateOp E tag) = E"

fun selector_run :: "selector_op list \<Rightarrow> selected_cache \<Rightarrow> selector \<Rightarrow> (selected_cache \<times> selector) res" where
  "selector_run [] cache s = Inr (cache, s)"
| "selector_run (SelectOp E tag # ops) cache s =
     (case SelectOutbound E tag cache s of (_, _, cache', s') \<Rightarrow> selector_run ops cache' s')"
| "selector_run (UpdateOp E tag # ops) cache s =
     (case onProviderUpdated E tag cache s of
        Inl e \<Rightarrow> if is_panic (Inl e :: unit res) then Inl e else selector_run ops cache s
      | Inr (_, s') \<Rightarrow> selector_run ops cache s')"

lemma selector_run_ok:
  "selector_ok s \<Longrightarrow> list_all (\<lambda>oper. group_env_ok (op_env oper)) ops \<Longrightarrow>
   \<exists>cache' s'. selector_run ops cache s = Inr (cache', s') \<and> selector_ok s'"
proof (induction ops arbitrary: cache s)
  case (Cons oper ops)
  show ?case
  proof (cases oper)
    case (SelectOp E tag)
    obtain a b c s' where "SelectOutbound E tag cache s = (a, b, c, s')" by (cases "SelectOutbound E tag cache s") auto
    with SelectOutbound_ok [OF Cons.prems(1), of E tag cache] Cons.IH [of s' c] Cons.prems(2) SelectOp show ?thesis by simp
  next
    case (UpdateOp E tag)
    with Cons.prems have E: "group_env_ok E" by simp
    show ?thesis
    proof (cases "onProviderUpdated E tag cache s")
      case (Inl e)
      with onProviderUpdated_ok [OF E, of tag cache s, where ?'a = unit] Cons UpdateOp show ?thesis by simp
    next
      case (Inr p)
      with onProviderUpdated_ok [OF E, of tag cache s, where ?'a = unit] Cons UpdateOp show ?thesis by (cases p) simp
    qed
  qed
qed simp

text \<open>
  C12. From its start on, whatever is chosen and whatever providers bring or take away, a selector has
  one of its current members selected, and nothing of this panics. The manager must answer outbounds
  under their own tags.
\<close>

theorem selection_is_member:
  assumes "selector_Start E cache s0 = Inr s" "group_env_ok E" "list_all (\<lambda>oper. group_env_ok (op_env oper)) ops"
  shows "\<exists>cache' s' ob. selector_run ops cache s = Inr (cache', s') \<and> selector_Selected s' network = Some ob \<and>
    se_outbounds s' (ob_Tag ob) = Some ob \<and> ob_Tag ob \<in> set (selector_All s')"
proof -
  from selector_run_ok [OF selector_Start_ok [OF assms(1,2)] assms(3), of cache] obtain cache' s'
    where r: "selector_run ops cache s = Inr (cache', s')" "selector_ok s'" by blast
  from r(2) obtain ob where "se_selected s' = Some ob" "se_outbounds s' (ob_Tag ob) = Some ob" "ob_Tag ob \<in> set (se_tags s')"
    unfolding selector_ok_def by blast
  with r(1) show ?thesis by (auto simp: selector_Selected_def selector_All_def)
qed

definition ex_ob :: "string \<Rightarrow> string list \<Rightarrow> outbound" where
  "ex_ob tag deps = \<lparr>ob_id = 0, ob_Tag = tag, ob_Type = (if deps = [] then ''direct'' else ''selector''), ob_Dependencies = deps,
     ob_isEndpoint = False, ob_isLifecycle = True\<rparr>"

definition ex_group_env :: group_env where
  "ex_group_env = \<lparr>ge_Outbound = (\<lambda>tag. if List.member [''a'', ''b'', ''Compatible''] tag then Some (ex_ob tag []) else None),
     ge_Providers = [''sub''], ge_ProviderOutbounds = (\<lambda>_. [ex_ob ''x'' [], ex_ob ''y'' []]), ge_StoreSelected = (\<lambda>_ _. None)\<rparr>"

lemma ex_group_env_ok: "group_env_ok ex_group_env"
  by (auto simp: group_env_ok_def ex_group_env_def ex_ob_def split: if_splits)

definition ex_selector :: selector where
  "ex_selector = NewSelector ''proxy'' \<lparr>so_Outbounds = [''a'', ''b''], so_Default = ''b'', so_Providers = [''sub''],
     so_Exclude = None, so_Include = Some (\<lambda>t. t = ''x''), so_UseAllProviders = False\<rparr>"

theorem selection_is_member_witness:
  "\<exists>s cache' s' ob. selector_Start ex_group_env (Some (\<lambda>_. None)) ex_selector = Inr s \<and>
     selector_run [UpdateOp ex_group_env ''sub'', SelectOp ex_group_env ''x'', UpdateOp ex_group_env ''sub''] (Some (\<lambda>_. None)) s =
       Inr (cache', s') \<and> selector_Selected s' ''tcp'' = Some ob \<and> ob_Tag ob \<in> set (selector_All s')"
proof -
  have "is_ok (selector_Start ex_group_env (Some (\<lambda>_. None)) ex_selector)" by code_simp
  then obtain s where s: "selector_Start ex_group_env (Some (\<lambda>_. None)) ex_selector = Inr s" by (auto simp: is_ok_iff)
  have e: "list_all (\<lambda>oper. group_env_ok (op_env oper))
      [UpdateOp ex_group_env ''sub'', SelectOp ex_group_env ''x'', UpdateOp ex_group_env ''sub'']"
    by (simp add: ex_group_env_ok)
  from selection_is_member [OF s ex_group_env_ok e, of "''tcp''"] s show ?thesis by blast
qed

text \<open>
  C13. A choice that changes the selection survives a restart: with the cache file it left behind, a
  fresh selector starts with the chosen member, as long as that is still configured.
\<close>

theorem selection_restored:
  assumes "SelectOutbound E tag (Some c) s = (True, True, cache, s1)" "ge_StoreSelected E (se_Tag s) tag = None"
    and "se_Tag s = name" "name \<noteq> []" "tag \<noteq> []"
    and "selector_Start E' cache (NewSelector name options) = Inr s2" "tag \<in> set (so_Outbounds options)"
  shows "selector_Selected s2 network = ge_Outbound E' tag \<and> ge_Outbound E' tag \<noteq> None"
proof -
  have cache: "cache = Some (c(name \<mapsto> tag))"
    using assms(1-4) by (auto simp: SelectOutbound_def split: option.splits if_splits)
  let ?s = "NewSelector name options"
  from assms(6) obtain direct members selected s' where
    d: "direct_outbounds E' 0 (so_Outbounds options) = Inr direct" and
    m: "compatible_fallback E' direct = Inr members" and
    sel: "outboundSelect cache s' (fold (\<lambda>(t, d) m. m(t \<mapsto> d)) members (\<lambda>_. None)) (map fst members) = Inr selected" and
    s': "se_Tag s' = name" "se_selected s2 = selected"
    by (auto simp: selector_Start_def Let_def NewSelector_def split: option.splits if_splits)
  have dm: "map fst direct = so_Outbounds options" by (rule direct_outbounds_map [OF d])
  with assms(7) have ne: "direct \<noteq> []" by auto
  with m have md: "members = direct" by (simp add: compatible_fallback_def)
  note all = direct_outbounds_lookup [OF d]
  let ?f = "fold (\<lambda>(t, d) m. m(t \<mapsto> d)) members (\<lambda>_. None)"
  have "tag \<in> fst ` set direct" using assms(7) dm by (metis list.set_map)
  then have "map_of (rev direct) tag \<noteq> None" by (simp add: map_of_eq_None_iff)
  then obtain ob where ob: "map_of (rev direct) tag = Some ob" by blast
  then have "ge_Outbound E' tag = Some ob" using all map_of_SomeD [OF ob] by auto
  moreover have f: "?f tag = Some ob" by (simp add: fold_members md ob)
  have "selected = Some ob"
    using sel f assms(4,5) s'(1) by (simp add: outboundSelect_def Let_def LoadSelected_def cache)
  ultimately show ?thesis using s'(2) by (simp add: selector_Selected_def)
qed

theorem selection_restored_witness:
  "\<exists>s s1 cache s2. selector_Start ex_group_env (Some (\<lambda>_. None)) ex_selector = Inr s \<and>
     SelectOutbound ex_group_env ''a'' (Some (\<lambda>_. None)) s = (True, True, cache, s1) \<and>
     selector_Start ex_group_env cache ex_selector = Inr s2 \<and> selector_Selected s2 ''tcp'' = Some (ex_ob ''a'' [])"
proof -
  define options where "options = \<lparr>so_Outbounds = [''a'', ''b''], so_Default = ''b'', so_Providers = [''sub''],
     so_Exclude = None, so_Include = Some (\<lambda>t. t = ''x''), so_UseAllProviders = False\<rparr>"
  have new: "ex_selector = NewSelector ''proxy'' options" by (simp add: ex_selector_def options_def)
  let ?c = "Some (\<lambda>_. None) :: selected_cache"
  have "case selector_Start ex_group_env ?c ex_selector of Inl e \<Rightarrow> False
    | Inr s \<Rightarrow> (case SelectOutbound ex_group_env ''a'' ?c s of (a, b, cache, s1) \<Rightarrow> a \<and> b \<and> se_Tag s = ''proxy'' \<and>
        is_ok (selector_Start ex_group_env cache ex_selector))" by code_simp
  then obtain s cache s1 s2 where r: "selector_Start ex_group_env ?c ex_selector = Inr s"
    "SelectOutbound ex_group_env ''a'' ?c s = (True, True, cache, s1)" "se_Tag s = ''proxy''"
    "selector_Start ex_group_env cache ex_selector = Inr s2"
    by (cases "SelectOutbound ex_group_env ''a'' ?c (projr (selector_Start ex_group_env ?c ex_selector))")
      (auto simp: is_ok_iff split: sum.splits)
  from selection_restored [OF r(2) _ r(3) _ _ r(4) [unfolded new], of "''tcp''"]
  have "selector_Selected s2 ''tcp'' = Some (ex_ob ''a'' [])"
    by (simp add: ex_group_env_def options_def)
  with r show ?thesis by blast
qed

section \<open>Starting a configuration\<close>

definition creates_tagged :: "manager_env \<Rightarrow> bool" where
  "creates_tagged E \<longleftrightarrow> (\<forall>tag t ob. me_CreateOutbound E tag t = Inr ob \<longrightarrow> ob_Tag ob = tag)"

definition config_tags :: "string list \<Rightarrow> string list" where
  "config_tags tags = map (\<lambda>i. tag_or_index i (tags ! i)) [0..<length tags]"

lemma check_tags_ok:
  "check_tags i tags tags0 = Inr tags1 \<Longrightarrow> distinct tags0 \<Longrightarrow>
   tags1 = rev (map (\<lambda>j. tag_or_index (i + j) (tags ! j)) [0..<length tags]) @ tags0 \<and> distinct tags1"
proof (induction tags arbitrary: i tags0)
  case (Cons tag tags)
  from Cons.prems have "check_tags (Suc i) tags (tag_or_index i tag # tags0) = Inr tags1" "distinct (tag_or_index i tag # tags0)"
    by (auto split: if_splits)
  note IH = Cons.IH [OF this]
  then have "tags1 = rev (map (\<lambda>j. tag_or_index (i + j) ((tag # tags) ! j)) [0..<length (tag # tags)]) @ tags0"
    by (simp add: upt_conv_Cons map_Suc_upt [symmetric] comp_def del: upt_Suc)
  with IH show ?case by blast
qed simp

lemma checkOutbounds_distinct:
  assumes "checkOutbounds outs eps = None"
  shows "distinct (config_tags outs @ config_tags eps)"
proof -
  from assms obtain tags0 tags1 where c: "check_tags 0 outs [] = Inr tags0" "check_tags 0 eps tags0 = Inr tags1"
    by (auto simp: checkOutbounds_def rbind_def split: sum.splits)
  have s: "tags0 = rev (config_tags outs)" using check_tags_ok [OF c(1)] by (simp add: config_tags_def)
  have "distinct ([] :: string list)" by simp
  from check_tags_ok [OF c(1) this] have d: "distinct tags0" ..
  note e = check_tags_ok [OF c(2) d]
  then have "tags1 = rev (config_tags outs @ config_tags eps)" by (simp add: s config_tags_def)
  with e show ?thesis by (metis distinct_rev)
qed

lemma mgr_Create_ok:
  assumes "mgr_Create E tag t m = Inr m'" "manager_ok m" "creates_tagged E"
  shows "manager_ok m'" "map ob_Tag (om_outbounds m') = map ob_Tag (om_outbounds m) @ [tag]" "om_defaultTag m' = om_defaultTag m"
    "om_defaultTag m' = [] \<Longrightarrow> om_defaultOutbound m' \<noteq> None"
proof -
  from assms(1,3) obtain ob where ob: "ob_Tag ob = tag" "om_outboundByTag m tag = None"
    and m': "m' = (let m1 = m\<lparr>om_outbounds := om_outbounds m @ [ob], om_outboundByTag := (om_outboundByTag m)(tag \<mapsto> ob)\<rparr> in
        if tag = om_defaultTag m \<or> (om_defaultTag m = [] \<and> om_defaultOutbound m = None)
        then m1\<lparr>om_defaultOutbound := Some ob\<rparr> else m1)"
    by (auto simp: mgr_Create_def creates_tagged_def Let_def rbind_def split: if_splits sum.splits)
  show "manager_ok m'" using manager_ok_add [OF assms(2) ob] by (simp add: m' Let_def manager_ok_default)
  show "map ob_Tag (om_outbounds m') = map ob_Tag (om_outbounds m) @ [tag]" "om_defaultTag m' = om_defaultTag m"
    by (simp_all add: m' Let_def ob(1))
  show "om_defaultTag m' = [] \<Longrightarrow> om_defaultOutbound m' \<noteq> None" by (auto simp: m' Let_def)
qed

lemma create_outbounds_ok:
  "create_outbounds E i options m = Inr m' \<Longrightarrow> creates_tagged E \<Longrightarrow> manager_ok m \<Longrightarrow>
   manager_ok m' \<and> map ob_Tag (om_outbounds m') = map ob_Tag (om_outbounds m) @
     map (\<lambda>j. tag_or_index (i + j) (fst (options ! j))) [0..<length options] \<and>
   (options \<noteq> [] \<and> om_defaultTag m' = [] \<longrightarrow> om_defaultOutbound m' \<noteq> None)"
proof (induction E i options m rule: create_outbounds.induct)
  case (2 E i tag t options m)
  from "2.prems"(1) obtain m1 where c: "mgr_Create E (tag_or_index i tag) t m = Inr m1"
    "create_outbounds E (Suc i) options m1 = Inr m'" by (auto split: sum.splits)
  note ok = mgr_Create_ok [OF c(1) "2.prems"(3,2)]
  from "2.IH" [OF c "2.prems"(2) ok(1)] have IH: "manager_ok m'"
    "map ob_Tag (om_outbounds m') = map ob_Tag (om_outbounds m1) @
       map (\<lambda>j. tag_or_index (Suc i + j) (fst (options ! j))) [0..<length options]"
    "options \<noteq> [] \<and> om_defaultTag m' = [] \<longrightarrow> om_defaultOutbound m' \<noteq> None" by auto
  show ?case
  proof (intro conjI impI)
    show "map ob_Tag (om_outbounds m') = map ob_Tag (om_outbounds m) @
        map (\<lambda>j. tag_or_index (i + j) (fst (((tag, t) # options) ! j))) [0..<length ((tag, t) # options)]"
      using IH(2) ok(2) by (simp add: upt_conv_Cons map_Suc_upt [symmetric] comp_def del: upt_Suc)
    show "om_defaultOutbound m' \<noteq> None" if "(tag, t) # options \<noteq> [] \<and> om_defaultTag m' = []"
      using that IH(3) ok(4) c(2) by (cases options) auto
  qed (rule IH(1))
qed simp

lemma init_default_outbounds:
  assumes "init_default E m = Inr m'" "om_defaultTag m = [] \<Longrightarrow> om_defaultOutbound m \<noteq> None"
  shows "om_outbounds m' = om_outbounds m \<and> om_outboundByTag m' = om_outboundByTag m"
  using assms by (auto simp: init_default_def rbind_def split: if_splits option.splits)

lemma create_outbounds_default_tag:
  "create_outbounds E i options m = Inr m' \<Longrightarrow> om_defaultTag m' = om_defaultTag m"
  by (induction E i options m rule: create_outbounds.induct)
    (auto simp: mgr_Create_def Let_def rbind_def split: sum.splits if_splits)

lemma manager_ok_new: "manager_ok (NewManager defaultTag)"
  by (simp add: manager_ok_def NewManager_def)

text \<open>
  C7. Starting the outbounds and endpoints of a configuration that passed the check of tags never
  panics and always ends: either everything is started, each after what it depends on, or the error is
  the one of a start that failed, names a chain of dependencies that comes back to itself, or names a
  dependency that does not exist. No endpoint may be called like the outbound that is added.
\<close>

theorem configuration_starts_in_order:
  assumes "checkOutbounds (map fst options) endpoints = None" "creates_tagged E"
    and "box_outbounds E options (NewManager defaultTag) = Inr m" "mgr_Start E StartStateInitialize m = Inr m'"
    and "map ob_Tag (me_Endpoints E) = config_tags endpoints" "''Compatible'' \<notin> set (config_tags endpoints)"
  shows "start_outcome E (mgr_Outbounds m' @ me_Endpoints E) (startOutbounds E (mgr_Outbounds m' @ me_Endpoints E))"
proof (rule startOutbounds_outcome)
  let ?o = "options @ [(''Compatible'', ''direct'')]"
  have c: "create_outbounds E 0 ?o (NewManager defaultTag) = Inr m" using assms(3) by (simp add: box_outbounds_def)
  note ok = create_outbounds_ok [OF c assms(2) manager_ok_new]
  have "map (\<lambda>j. tag_or_index j (fst (?o ! j))) [0..<length ?o] = config_tags (map fst options) @ [''Compatible'']"
    by (auto simp: config_tags_def nth_append tag_or_index_def)
  with ok have tags: "map ob_Tag (om_outbounds m) = config_tags (map fst options) @ [''Compatible'']"
    and d: "distinct (map ob_Tag (om_outbounds m))" by (auto simp: NewManager_def manager_ok_def)
  from assms(4) obtain m2 where i: "init_default E (m\<lparr>om_stage := StartStateInitialize, om_lifecycle := True\<rparr>) = Inr m2"
    and m2: "m' = m2" by (auto simp: mgr_Start_def rbind_def split: sum.splits option.splits)
  from init_default_outbounds [OF i] ok have "om_outbounds m' = om_outbounds m" by (auto simp: m2)
  then show "distinct (map ob_Tag (mgr_Outbounds m' @ me_Endpoints E))"
    using tags d checkOutbounds_distinct [OF assms(1)] assms(5,6) by (auto simp: mgr_Outbounds_def)
qed

definition ex_manager_env :: manager_env where
  "ex_manager_env =
     \<lparr>me_Endpoints = [ex_ob ''wg'' [''proxy'']], me_Get = (\<lambda>tag. if tag = ''wg'' then Some (ex_ob ''wg'' [''proxy'']) else None),
      me_Start = (\<lambda>_ _. None), me_Remove = (\<lambda>_. None),
      me_CreateOutbound = (\<lambda>tag t. Inr (ex_ob tag (if t = ''selector'' then [''1''] else []))),
      me_fallback = Inr (ex_ob ''direct'' [])\<rparr>"

theorem configuration_starts_in_order_witness:
  "\<exists>m m' order. box_outbounds ex_manager_env [(''proxy'', ''selector''), ([], ''direct'')] (NewManager []) = Inr m \<and>
     mgr_Start ex_manager_env StartStateInitialize m = Inr m' \<and>
     startOutbounds ex_manager_env (mgr_Outbounds m' @ me_Endpoints ex_manager_env) = Inr order \<and>
     started_ok (mgr_Outbounds m' @ me_Endpoints ex_manager_env) order \<and> length order = 4"
proof -
  let ?o = "[(''proxy'', ''selector''), ([], ''direct'')]" and ?E = ex_manager_env
  have "case rbind (box_outbounds ?E ?o (NewManager [])) (mgr_Start ?E StartStateInitialize) of
      Inl e \<Rightarrow> False | Inr m' \<Rightarrow> is_ok (startOutbounds ?E (mgr_Outbounds m' @ me_Endpoints ?E)) \<and>
        length (projr (startOutbounds ?E (mgr_Outbounds m' @ me_Endpoints ?E))) = 4" by code_simp
  then obtain m m' order where r: "box_outbounds ?E ?o (NewManager []) = Inr m" "mgr_Start ?E StartStateInitialize m = Inr m'"
      "startOutbounds ?E (mgr_Outbounds m' @ me_Endpoints ?E) = Inr order" "length order = 4"
    by (auto simp: is_ok_iff rbind_def split: sum.splits)
  have e: "checkOutbounds (map fst ?o) [''wg''] = None" by code_simp
  have c: "creates_tagged ?E" by (simp add: creates_tagged_def ex_manager_env_def ex_ob_def)
  have t: "map ob_Tag (me_Endpoints ?E) = config_tags [''wg'']" "''Compatible'' \<notin> set (config_tags [''wg''])" by code_simp+
  from configuration_starts_in_order [OF e c r(1,2) t] r show ?thesis by (auto simp: start_outcome_def)
qed

section \<open>The manager while it runs\<close>

datatype manager_op = CreateOp string string | ReplaceOp string string | RemoveOp string

text \<open>A failed operation leaves the manager as it is.\<close>

fun manager_step :: "manager_env \<Rightarrow> manager_op \<Rightarrow> manager \<Rightarrow> manager" where
  "manager_step E (CreateOp tag t) m = (case mgr_Create E tag t m of Inl e \<Rightarrow> m | Inr m' \<Rightarrow> m')"
| "manager_step E (ReplaceOp tag t) m = (case mgr_Replace E tag t m of Inl e \<Rightarrow> m | Inr m' \<Rightarrow> m')"
| "manager_step E (RemoveOp tag) m = snd (mgr_Remove E tag m)"

definition default_ok :: "manager_env \<Rightarrow> manager \<Rightarrow> bool" where
  "default_ok E m \<longleftrightarrow> (\<forall>ob. om_defaultOutbound m = Some ob \<longrightarrow> ob \<in> set (om_outbounds m) \<or> me_Get E (om_defaultTag m) = Some ob)"

lemma replace_first_set: "old \<in> set obs \<Longrightarrow> new \<in> set (replace_first old new obs)"
  by (induction obs) auto

lemma replace_first_other: "x \<in> set obs \<Longrightarrow> x \<noteq> old \<Longrightarrow> x \<in> set (replace_first old new obs)"
  by (induction obs) auto

lemma mgr_Replace_cases:
  assumes "mgr_Replace E tag t m = Inr m'" "creates_tagged E"
  obtains node where "ob_Tag node = tag"
    "m' = m\<lparr>om_outbounds := (case om_outboundByTag m tag of None \<Rightarrow> om_outbounds m @ [node]
                                | Some o' \<Rightarrow> replace_first o' node (om_outbounds m)),
            om_outboundByTag := (om_outboundByTag m)(tag \<mapsto> node),
            om_defaultOutbound := (if om_outboundByTag m tag \<noteq> None \<and> om_defaultOutbound m = om_outboundByTag m tag
                                   then Some node else om_defaultOutbound m)\<rparr>"
  using assms by (auto simp: mgr_Replace_def creates_tagged_def Let_def rbind_def split: sum.splits option.splits)

lemma mgr_Replace_ok:
  assumes "mgr_Replace E tag t m = Inr m'" "manager_ok m" "default_ok E m" "creates_tagged E"
  shows "manager_ok m' \<and> default_ok E m'"
proof -
  from assms(1,4) obtain node where n: "ob_Tag node = tag" and
    m': "m' = m\<lparr>om_outbounds := (case om_outboundByTag m tag of None \<Rightarrow> om_outbounds m @ [node]
                                | Some o' \<Rightarrow> replace_first o' node (om_outbounds m)),
            om_outboundByTag := (om_outboundByTag m)(tag \<mapsto> node),
            om_defaultOutbound := (if om_outboundByTag m tag \<noteq> None \<and> om_defaultOutbound m = om_outboundByTag m tag
                                   then Some node else om_defaultOutbound m)\<rparr>"
    by (rule mgr_Replace_cases)
  show ?thesis
  proof (cases "om_outboundByTag m tag")
    case None
    with manager_ok_add [OF assms(2) n None] assms(3) show ?thesis by (auto simp: m' manager_ok_default default_ok_def)
  next
    case (Some old)
    have d: "distinct (map ob_Tag (om_outbounds m))" and
      byTag: "om_outboundByTag m = map_of (map (\<lambda>ob. (ob_Tag ob, ob)) (om_outbounds m))"
      using assms(2) by (simp_all add: manager_ok_def)
    with Some have old: "old \<in> set (om_outbounds m)" "ob_Tag old = tag" using map_of_tags [OF d] by auto
    have "manager_ok m'" using old n d Some by (simp add: m' manager_ok_def byTag replace_first_tags replace_first_map)
    moreover have "default_ok E m'" using assms(3) old(1) Some
      by (auto simp: m' default_ok_def replace_first_set replace_first_other)
    ultimately show ?thesis ..
  qed
qed

lemma mgr_Remove_ok:
  assumes "manager_ok m" "default_ok E m"
  shows "manager_ok (snd (mgr_Remove E tag m)) \<and> default_ok E (snd (mgr_Remove E tag m))"
proof (cases "om_outboundByTag m tag")
  case None
  with assms show ?thesis by (simp add: mgr_Remove_def)
next
  case (Some old)
  have d: "distinct (map ob_Tag (om_outbounds m))" and
    byTag: "om_outboundByTag m = map_of (map (\<lambda>ob. (ob_Tag ob, ob)) (om_outbounds m))"
    using assms(1) by (simp_all add: manager_ok_def)
  with Some have old: "old \<in> set (om_outbounds m)" "ob_Tag old = tag" using map_of_tags [OF d] by auto
  have "manager_ok (snd (mgr_Remove E tag m))" using old d Some
    by (simp add: mgr_Remove_def Let_def manager_ok_def distinct_tags_remove1 byTag remove1_map)
  moreover have "default_ok E (snd (mgr_Remove E tag m))"
  proof -
    have "\<forall>ob\<in>set (om_outbounds m). ob \<noteq> old \<longrightarrow> ob \<in> set (remove1 old (om_outbounds m))" by (simp add: in_set_remove1)
    with assms(2) Some show ?thesis
      by (cases "remove1 old (om_outbounds m)") (auto simp: mgr_Remove_def Let_def default_ok_def)
  qed
  ultimately show ?thesis ..
qed

lemma mgr_Create_default:
  assumes "mgr_Create E tag t m = Inr m'" "default_ok E m"
  shows "default_ok E m'"
  using assms by (auto simp: mgr_Create_def default_ok_def Let_def rbind_def split: if_splits sum.splits)

lemma manager_step_ok:
  assumes "manager_ok m \<and> default_ok E m" "creates_tagged E"
  shows "manager_ok (manager_step E oper m) \<and> default_ok E (manager_step E oper m)"
proof (cases oper)
  case (CreateOp tag t)
  with assms mgr_Create_ok(1) [of E tag t m] mgr_Create_default [of E tag t m] show ?thesis by (auto split: sum.split)
next
  case (ReplaceOp tag t)
  with assms mgr_Replace_ok [of E tag t m] show ?thesis by (auto split: sum.split)
next
  case (RemoveOp tag)
  with assms mgr_Remove_ok [of m E tag] show ?thesis by simp
qed

lemma create_outbounds_default:
  "create_outbounds E i options m = Inr m' \<Longrightarrow> default_ok E m \<Longrightarrow> default_ok E m'"
  by (induction E i options m rule: create_outbounds.induct) (auto split: sum.splits dest: mgr_Create_default)

text \<open>
  C9. Whatever is created, replaced and removed after the start, the list of outbounds and the map
  from tags agree, every tag is there once under its own name, and the default outbound is one of the
  list or the endpoint of that name.
\<close>

theorem manager_consistent:
  assumes "creates_tagged E" "box_outbounds E options (NewManager defaultTag) = Inr m" "mgr_Start E StartStateInitialize m = Inr m'"
  shows "manager_ok (fold (manager_step E) ops m') \<and> default_ok E (fold (manager_step E) ops m')"
proof -
  let ?o = "options @ [(''Compatible'', ''direct'')]"
  have c: "create_outbounds E 0 ?o (NewManager defaultTag) = Inr m" using assms(2) by (simp add: box_outbounds_def)
  from create_outbounds_ok [OF c assms(1) manager_ok_new]
  have ok: "manager_ok m" "om_defaultTag m = [] \<longrightarrow> om_defaultOutbound m \<noteq> None" by simp_all
  have d: "default_ok E m" by (rule create_outbounds_default [OF c]) (simp add: default_ok_def NewManager_def)
  from assms(3) have i: "init_default E (m\<lparr>om_stage := StartStateInitialize, om_lifecycle := True\<rparr>) = Inr m'"
    by (auto simp: mgr_Start_def rbind_def split: sum.splits option.splits)
  from init_default_outbounds [OF i] ok have "manager_ok m'" by (auto simp: manager_ok_def)
  moreover have "default_ok E m'" using i d ok
    by (auto simp: init_default_def default_ok_def rbind_def add_outbound_def split: if_splits option.splits sum.splits)
  ultimately have "manager_ok m' \<and> default_ok E m'" ..
  then show ?thesis using assms(1) by (induction ops arbitrary: m') (auto simp: manager_step_ok)
qed

theorem manager_consistent_witness:
  "\<exists>m m'. box_outbounds ex_manager_env [(''proxy'', ''selector''), ([], ''direct'')] (NewManager ''wg'') = Inr m \<and>
     mgr_Start ex_manager_env StartStateInitialize m = Inr m' \<and>
     manager_ok (fold (manager_step ex_manager_env) [ReplaceOp ''x'' ''direct'', RemoveOp ''proxy'', ReplaceOp ''x'' ''selector''] m')"
proof -
  let ?o = "[(''proxy'', ''selector''), ([], ''direct'')]" and ?E = ex_manager_env
  have "is_ok (rbind (box_outbounds ?E ?o (NewManager ''wg'')) (mgr_Start ?E StartStateInitialize))" by code_simp
  then obtain m m' where r: "box_outbounds ?E ?o (NewManager ''wg'') = Inr m" "mgr_Start ?E StartStateInitialize m = Inr m'"
    by (auto simp: is_ok_iff rbind_def split: sum.splits)
  have c: "creates_tagged ?E" by (simp add: creates_tagged_def ex_manager_env_def ex_ob_def)
  from manager_consistent [OF c r, of "[ReplaceOp ''x'' ''direct'', RemoveOp ''proxy'', ReplaceOp ''x'' ''selector'']"] r
  show ?thesis by blast
qed

section \<open>Routing through groups that were started\<close>




end
