(* ===== verification/Dns_Mode.thy ===== *)
theory Dns_Mode
  imports Rule_Build_DNS Rule_Start
begin

text \<open>
  The rules of the DNS router (\<open>dns/router.go\<close>): which of its two modes a configuration needs, what the
  newer mode asks of the rules, building and starting them, and the check of new rule-set metadata
  against the running mode. \<open>router\<close> is the map of rule-sets, \<open>None\<close> where the context has no router
  service, and \<open>manager\<close> gives the type of each DNS server, \<open>None\<close> where there is no manager.
\<close>

section \<open>Actions\<close>

definition dnsRuleActionDisablesLegacyDNSMode :: "dns_rule_action_options \<Rightarrow> bool" where
  "dnsRuleActionDisablesLegacyDNSMode action =
     (if da_Race action then True
      else if da_Action action = [] \<or> da_Action action = ''route''
      then ado_DisableOptimisticCache (da_RouteOptions action) \<or> da_RouteSpeculative action
      else if da_Action action = ''evaluate''
      then ado_DisableOptimisticCache (da_EvaluateOptions action) \<or> da_EvaluateSpeculative action
      else if da_Action action = ''route-options'' then ado_DisableOptimisticCache (da_RouteOptionsOptions action)
      else False)"

definition dnsRuleActionHasStrategy :: "dns_rule_action_options \<Rightarrow> bool" where
  "dnsRuleActionHasStrategy action =
     (if da_Action action = [] \<or> da_Action action = ''route'' then ado_Strategy (da_RouteOptions action) \<noteq> 0
      else if da_Action action = ''evaluate'' then ado_Strategy (da_EvaluateOptions action) \<noteq> 0
      else if da_Action action = ''route-options'' then ado_Strategy (da_RouteOptionsOptions action) \<noteq> 0
      else False)"

text \<open>The action of a rule of a known type.\<close>

definition rule_action_of :: "dns_rule_options \<Rightarrow> dns_rule_action_options option" where
  "rule_action_of rule =
     (if dr_Type rule = [] \<or> dr_Type rule = ''default'' then Some (dr_DefaultAction rule)
      else if dr_Type rule = ''logical'' then Some (dlo_Action (dr_Logical rule))
      else None)"

definition dnsRuleActionType :: "dns_rule_options \<Rightarrow> string" where
  "dnsRuleActionType rule =
     (case rule_action_of rule of
        None \<Rightarrow> []
      | Some action \<Rightarrow> if da_Action action = [] then ''route'' else da_Action action)"

definition dnsRuleActionServer :: "dns_rule_options \<Rightarrow> string" where
  "dnsRuleActionServer rule =
     (case rule_action_of rule of
        None \<Rightarrow> []
      | Some action \<Rightarrow> if dnsRuleActionType rule = ''evaluate'' then da_EvaluateServer action else da_RouteServer action)"

definition dnsRuleActionEvaluateTag :: "dns_rule_options \<Rightarrow> string" where
  "dnsRuleActionEvaluateTag rule = (case rule_action_of rule of None \<Rightarrow> [] | Some action \<Rightarrow> da_EvaluateTag action)"

definition dnsRuleActionSpeculative :: "dns_rule_options \<Rightarrow> bool" where
  "dnsRuleActionSpeculative rule =
     (case rule_action_of rule of
        None \<Rightarrow> False
      | Some action \<Rightarrow>
          if dnsRuleActionType rule = ''evaluate'' then da_EvaluateSpeculative action else da_RouteSpeculative action)"

definition dnsRuleRace :: "dns_rule_options \<Rightarrow> bool" where
  "dnsRuleRace rule = (case rule_action_of rule of None \<Rightarrow> False | Some action \<Rightarrow> da_Race action)"

section \<open>The mode\<close>

text \<open>Decoding \<open>match_response\<close> from a JSON value.\<close>

datatype response_json = JBool bool | JString string | JOther

fun MatchResponse_UnmarshalJSON :: "response_json \<Rightarrow> (bool \<times> string) res" where
  "MatchResponse_UnmarshalJSON (JBool b) = Inr (b, [])"
| "MatchResponse_UnmarshalJSON (JString s) = (if s = [] then Inl (E_New ''empty match_response tag'') else Inr (True, s))"
| "MatchResponse_UnmarshalJSON JOther = Inl (E_New ''invalid match_response value'')"

definition defaultRuleNeedsLegacyDNSModeFromAddressFilter :: "dns_default_options \<Rightarrow> bool" where
  "defaultRuleNeedsLegacyDNSModeFromAddressFilter rule =
     (if dd_RuleSetIPCIDRAcceptEmpty rule then True
      else \<not> IsEnabled (dd_MatchResponse rule) \<and> (dd_IPAcceptAny rule \<or> mo_IPCIDR rule \<noteq> [] \<or> mo_IPIsPrivate rule))"

definition hasResponseMatchFields :: "dns_default_options \<Rightarrow> bool" where
  "hasResponseMatchFields rule =
     (dd_ResponseRcode rule \<noteq> None \<or> dd_ResponseAnswer rule \<noteq> [] \<or> dd_ResponseNs rule \<noteq> [] \<or>
      dd_ResponseExtra rule \<noteq> [])"

definition defaultRuleDisablesLegacyDNSMode :: "dns_default_options \<Rightarrow> dns_rule_action_options \<Rightarrow> bool" where
  "defaultRuleDisablesLegacyDNSMode rule action =
     (IsEnabled (dd_MatchResponse rule) \<or> hasResponseMatchFields rule \<or> da_Action action = ''evaluate'' \<or>
      da_Action action = ''respond'' \<or> mo_IPVersion rule > 0 \<or> dd_QueryType rule \<noteq> [])"

record dnsRuleModeFlags =
  fl_disabled :: bool
  fl_needed :: bool
  fl_neededFromStrategy :: bool

definition no_flags :: dnsRuleModeFlags where
  "no_flags = \<lparr>fl_disabled = False, fl_needed = False, fl_neededFromStrategy = False\<rparr>"

definition flags_merge :: "dnsRuleModeFlags \<Rightarrow> dnsRuleModeFlags \<Rightarrow> dnsRuleModeFlags" where
  "flags_merge f other =
     \<lparr>fl_disabled = (fl_disabled f \<or> fl_disabled other), fl_needed = (fl_needed f \<or> fl_needed other),
      fl_neededFromStrategy = (fl_neededFromStrategy f \<or> fl_neededFromStrategy other)\<rparr>"

definition lookupDNSRuleSetMetadata ::
  "(string \<rightharpoonup> rule_set) option \<Rightarrow> string \<Rightarrow> (string \<rightharpoonup> rule_set_metadata) \<Rightarrow> rule_set_metadata res" where
  "lookupDNSRuleSetMetadata router tag metadataOverrides =
     (case metadataOverrides tag of
        Some metadata \<Rightarrow> Inr metadata
      | None \<Rightarrow>
          (case router of
             None \<Rightarrow> Inl (E_Panic ''nil pointer dereference'')
           | Some sets \<Rightarrow>
               (case sets tag of
                  None \<Rightarrow> Inl (E_New (''rule-set not found: '' @ tag))
                | Some ruleSet \<Rightarrow> Inr (set_Metadata ruleSet))))"

text \<open>The loop over the rule-sets of a default rule.\<close>

fun rule_set_requirements ::
  "(string \<rightharpoonup> rule_set) option \<Rightarrow> (string \<rightharpoonup> rule_set_metadata) \<Rightarrow> bool \<Rightarrow> string list \<Rightarrow> dnsRuleModeFlags \<Rightarrow>
   dnsRuleModeFlags res" where
  "rule_set_requirements router metadataOverrides matchSource [] flags = Inr flags"
| "rule_set_requirements router metadataOverrides matchSource (tag # tags) flags =
     rbind (lookupDNSRuleSetMetadata router tag metadataOverrides) (\<lambda>metadata.
       rule_set_requirements router metadataOverrides matchSource tags
         (flags\<lparr>fl_disabled := fl_disabled flags \<or> ContainsDNSQueryTypeRule metadata,
                fl_needed := (if \<not> matchSource \<and> ContainsIPCIDRRule metadata then True else fl_needed flags)\<rparr>))"

definition dnsRuleModeRequirementsInDefaultRule ::
  "(string \<rightharpoonup> rule_set) option \<Rightarrow> dns_default_options \<Rightarrow> dns_rule_action_options \<Rightarrow> (string \<rightharpoonup> rule_set_metadata) \<Rightarrow>
   dnsRuleModeFlags res" where
  "dnsRuleModeRequirementsInDefaultRule router rule action metadataOverrides =
     (let strategy = dnsRuleActionHasStrategy action;
          flags = \<lparr>fl_disabled = (defaultRuleDisablesLegacyDNSMode rule action \<or> dnsRuleActionDisablesLegacyDNSMode action),
                   fl_needed = (defaultRuleNeedsLegacyDNSModeFromAddressFilter rule \<or> strategy),
                   fl_neededFromStrategy = strategy\<rparr>
      in if mo_RuleSet rule = [] then Inr flags
         else if router = None then Inl (E_New ''router service not found'')
         else rule_set_requirements router metadataOverrides (mo_RuleSetIPCIDRMatchSource rule) (mo_RuleSet rule) flags)"

fun dnsRuleModeRequirementsInRule ::
  "(string \<rightharpoonup> rule_set) option \<Rightarrow> dns_rule_options \<Rightarrow> (string \<rightharpoonup> rule_set_metadata) \<Rightarrow> dnsRuleModeFlags res"
  and logical_requirements ::
  "(string \<rightharpoonup> rule_set) option \<Rightarrow> dns_logical_rule_options \<Rightarrow> (string \<rightharpoonup> rule_set_metadata) \<Rightarrow> dnsRuleModeFlags res"
  and sub_requirements ::
  "(string \<rightharpoonup> rule_set) option \<Rightarrow> nat \<Rightarrow> dns_rule_options list \<Rightarrow> (string \<rightharpoonup> rule_set_metadata) \<Rightarrow> dnsRuleModeFlags \<Rightarrow>
   dnsRuleModeFlags res" where
  "dnsRuleModeRequirementsInRule router (DNSRuleOpts t d a l) metadataOverrides =
     (if t = [] \<or> t = ''default'' then dnsRuleModeRequirementsInDefaultRule router d a metadataOverrides
      else if t = ''logical'' then logical_requirements router l metadataOverrides
      else Inr no_flags)"
| "logical_requirements router (DNSLogicalOpts mode rules neg action) metadataOverrides =
     sub_requirements router 0 rules metadataOverrides
       \<lparr>fl_disabled = (da_Action action = ''evaluate'' \<or> da_Action action = ''respond'' \<or>
                       dnsRuleActionDisablesLegacyDNSMode action),
        fl_needed = dnsRuleActionHasStrategy action, fl_neededFromStrategy = dnsRuleActionHasStrategy action\<rparr>"
| "sub_requirements router i [] metadataOverrides flags = Inr flags"
| "sub_requirements router i (subRule # rules) metadataOverrides flags =
     (case dnsRuleModeRequirementsInRule router subRule metadataOverrides of
        Inl e \<Rightarrow> Inl (E_CauseAt e ''sub rule['' i)
      | Inr subFlags \<Rightarrow> sub_requirements router (Suc i) rules metadataOverrides (flags_merge flags subFlags))"

fun requirements_loop ::
  "(string \<rightharpoonup> rule_set) option \<Rightarrow> nat \<Rightarrow> dns_rule_options list \<Rightarrow> (string \<rightharpoonup> rule_set_metadata) \<Rightarrow> dnsRuleModeFlags \<Rightarrow>
   dnsRuleModeFlags res" where
  "requirements_loop router i [] metadataOverrides flags = Inr flags"
| "requirements_loop router i (rule # rules) metadataOverrides flags =
     (case dnsRuleModeRequirementsInRule router rule metadataOverrides of
        Inl e \<Rightarrow> Inl (E_CauseAt e ''dns rule['' i)
      | Inr ruleFlags \<Rightarrow> requirements_loop router (Suc i) rules metadataOverrides (flags_merge flags ruleFlags))"

definition dnsRuleModeRequirements ::
  "(string \<rightharpoonup> rule_set) option \<Rightarrow> dns_rule_options list \<Rightarrow> (string \<rightharpoonup> rule_set_metadata) \<Rightarrow> dnsRuleModeFlags res" where
  "dnsRuleModeRequirements router rules metadataOverrides = requirements_loop router 0 rules metadataOverrides no_flags"

definition migration_link :: string where
  "migration_link = '' is deprecated in sing-box 1.14.0 and will be removed in sing-box 1.16.0, checkout documentation for migration: https://sing-box.sagernet.org/migration/''"

definition rule_strategy_deprecated :: error where
  "rule_strategy_deprecated =
     E_New (''Legacy `strategy` DNS rule action option'' @ migration_link @ ''#migrate-dns-rule-action-strategy-to-rule-items'')"

definition address_filter_deprecated :: error where
  "address_filter_deprecated =
     E_New (''Legacy Address Filter Fields in DNS rules'' @ migration_link @
            ''#migrate-address-filter-fields-to-response-matching'')"

definition resolveLegacyDNSMode ::
  "(string \<rightharpoonup> rule_set) option \<Rightarrow> dns_rule_options list \<Rightarrow> (string \<rightharpoonup> rule_set_metadata) \<Rightarrow>
   (bool \<times> dnsRuleModeFlags) res" where
  "resolveLegacyDNSMode router rules metadataOverrides =
     rbind (dnsRuleModeRequirements router rules metadataOverrides) (\<lambda>flags.
       if fl_disabled flags \<and> fl_neededFromStrategy flags then Inl rule_strategy_deprecated
       else if fl_disabled flags then Inr (False, flags)
       else Inr (fl_needed flags, flags))"

section \<open>What the newer mode asks\<close>

record dnsRuleResponseUse =
  needsAnonymous :: bool
  referencedTags :: "string list"

definition no_use :: dnsRuleResponseUse where
  "no_use = \<lparr>needsAnonymous = False, referencedTags = []\<rparr>"

fun pure_ip_sets ::
  "(string \<rightharpoonup> rule_set) option \<Rightarrow> (string \<rightharpoonup> rule_set_metadata) \<Rightarrow> string list \<Rightarrow> error option" where
  "pure_ip_sets router metadataOverrides [] = None"
| "pure_ip_sets router metadataOverrides (tag # tags) =
     (case lookupDNSRuleSetMetadata router tag metadataOverrides of
        Inl e \<Rightarrow> Some e
      | Inr metadata \<Rightarrow>
          if ContainsIPCIDRRule metadata \<and> \<not> ContainsNonIPCIDRRule metadata then Some address_filter_deprecated
          else pure_ip_sets router metadataOverrides tags)"

definition validateLegacyDNSModeDisabledDefaultRule ::
  "(string \<rightharpoonup> rule_set) option \<Rightarrow> dns_default_options \<Rightarrow> dns_rule_action_options \<Rightarrow> (string \<rightharpoonup> rule_set_metadata) \<Rightarrow>
   dnsRuleResponseUse res" where
  "validateLegacyDNSModeDisabledDefaultRule router rule action metadataOverrides =
     (let enabled = IsEnabled (dd_MatchResponse rule); responseTag = ResponseTag (dd_MatchResponse rule) in
      if (hasResponseMatchFields rule \<or> mo_IPCIDR rule \<noteq> [] \<or> mo_IPIsPrivate rule \<or> dd_IPAcceptAny rule) \<and> \<not> enabled
      then Inl (E_New ''Response Match Fields (ip_cidr, ip_is_private, ip_accept_any, response_rcode, response_answer, response_ns, response_extra) require match_response to be enabled'')
      else
        case (if \<not> enabled \<and> mo_RuleSet rule \<noteq> [] then pure_ip_sets router metadataOverrides (mo_RuleSet rule) else None) of
          Some e \<Rightarrow> Inl e
        | None \<Rightarrow>
            if dd_RuleSetIPCIDRAcceptEmpty rule then Inl accept_empty_deprecated
            else
              let use = (if enabled
                         then if responseTag \<noteq> [] then no_use\<lparr>referencedTags := [responseTag]\<rparr>
                              else no_use\<lparr>needsAnonymous := True\<rparr>
                         else no_use)
              in Inr (if da_Action action = ''respond'' \<and> responseTag = [] then use\<lparr>needsAnonymous := True\<rparr> else use))"

fun validateLegacyDNSModeDisabledRuleTree ::
  "(string \<rightharpoonup> rule_set) option \<Rightarrow> dns_rule_options \<Rightarrow> (string \<rightharpoonup> rule_set_metadata) \<Rightarrow> dnsRuleResponseUse res"
  and validate_disabled_logical ::
  "(string \<rightharpoonup> rule_set) option \<Rightarrow> dns_logical_rule_options \<Rightarrow> (string \<rightharpoonup> rule_set_metadata) \<Rightarrow> dnsRuleResponseUse res"
  and validate_disabled_sub ::
  "(string \<rightharpoonup> rule_set) option \<Rightarrow> nat \<Rightarrow> dns_rule_options list \<Rightarrow> (string \<rightharpoonup> rule_set_metadata) \<Rightarrow> dnsRuleResponseUse \<Rightarrow>
   dnsRuleResponseUse res" where
  "validateLegacyDNSModeDisabledRuleTree router (DNSRuleOpts t d a l) metadataOverrides =
     (if t = [] \<or> t = ''default'' then validateLegacyDNSModeDisabledDefaultRule router d a metadataOverrides
      else if t = ''logical'' then validate_disabled_logical router l metadataOverrides
      else Inr no_use)"
| "validate_disabled_logical router (DNSLogicalOpts mode rules neg action) metadataOverrides =
     rbind (validate_disabled_sub router 0 rules metadataOverrides no_use) (\<lambda>use.
       if da_Action action = ''respond'' then
         if referencedTags use \<noteq> []
         then Inl (E_New ''respond on a logical rule cannot bind a `match_response` tag from its sub rules; use a non-logical rule'')
         else Inr (use\<lparr>needsAnonymous := True\<rparr>)
       else Inr use)"
| "validate_disabled_sub router i [] metadataOverrides use = Inr use"
| "validate_disabled_sub router i (subRule # rules) metadataOverrides use =
     (case validateLegacyDNSModeDisabledRuleTree router subRule metadataOverrides of
        Inl e \<Rightarrow> Inl (E_CauseAt e ''sub rule['' i)
      | Inr subUse \<Rightarrow> validate_disabled_sub router (Suc i) rules metadataOverrides
          \<lparr>needsAnonymous = (needsAnonymous use \<or> needsAnonymous subUse),
           referencedTags = referencedTags use @ referencedTags subUse\<rparr>)"

text \<open>
  The variables of the loop over the rules; the two sets of tags are lists, \<open>vs_definedTagOrder\<close> standing
  for \<open>definedTags\<close> as well, and \<open>vs_lastAnonymousEvaluate\<close> is \<open>None\<close> for -1.
\<close>

record validation =
  vs_warnings :: "string list"
  vs_seenAnonymousEvaluate :: bool
  vs_seenRace :: bool
  vs_definedTagOrder :: "string list"
  vs_referencedTags :: "string list"
  vs_lastAnonymousEvaluate :: "nat option"
  vs_anonymousReadSinceLast :: bool

definition new_validation :: validation where
  "new_validation =
     \<lparr>vs_warnings = [], vs_seenAnonymousEvaluate = False, vs_seenRace = False, vs_definedTagOrder = [],
      vs_referencedTags = [], vs_lastAnonymousEvaluate = None, vs_anonymousReadSinceLast = False\<rparr>"

definition at_rule :: "nat \<Rightarrow> string \<Rightarrow> string" where
  "at_rule i text = ''dns rule['' @ dec_string i @ '']: '' @ text"

definition note_race :: "nat \<Rightarrow> dns_rule_options \<Rightarrow> validation \<Rightarrow> validation" where
  "note_race i rule v =
     (let v1 = (if dnsRuleActionSpeculative rule \<and> \<not> vs_seenRace v
                then v\<lparr>vs_warnings := vs_warnings v @ [at_rule i ''`speculative` has no effect without a preceding `race` rule'']\<rparr>
                else v)
      in if dnsRuleRace rule then v1\<lparr>vs_seenRace := True\<rparr> else v1)"

definition validate_uses :: "nat \<Rightarrow> dnsRuleResponseUse \<Rightarrow> validation \<Rightarrow> validation res" where
  "validate_uses i use v =
     rbind
       (if needsAnonymous use then
          if \<not> vs_seenAnonymousEvaluate v then
            if vs_definedTagOrder v \<noteq> []
            then Inl (E_New (at_rule i ''response-based matching requires a preceding evaluate action without `tag`; use `match_response` with an evaluate tag to reference a tagged result''))
            else Inl (E_New (at_rule i ''response-based matching requires a preceding evaluate action''))
          else Inr (v\<lparr>vs_anonymousReadSinceLast := True\<rparr>)
        else Inr v)
       (\<lambda>v. case find (\<lambda>tag. \<not> List.member (vs_definedTagOrder v) tag) (referencedTags use) of
               Some tag \<Rightarrow> Inl (E_New (at_rule i (''undefined evaluate tag: '' @ tag)))
             | None \<Rightarrow> Inr (v\<lparr>vs_referencedTags := vs_referencedTags v @ referencedTags use\<rparr>))"

definition validate_defines :: "nat \<Rightarrow> dns_rule_options \<Rightarrow> validation \<Rightarrow> validation res" where
  "validate_defines i rule v =
     (if dnsRuleActionType rule = ''evaluate'' then
        let tag = dnsRuleActionEvaluateTag rule in
        if tag = [] then
          Inr (v\<lparr>vs_warnings := vs_warnings v @
                  (case vs_lastAnonymousEvaluate v of
                     Some j \<Rightarrow> if \<not> vs_anonymousReadSinceLast v
                               then [at_rule j (''evaluated response is overwritten by dns rule['' @ dec_string i @ ''] before any use'')]
                               else []
                   | None \<Rightarrow> []),
                vs_seenAnonymousEvaluate := True, vs_lastAnonymousEvaluate := Some i, vs_anonymousReadSinceLast := False\<rparr>)
        else if List.member (vs_definedTagOrder v) tag
        then Inl (E_New (at_rule i (''duplicate evaluate tag: '' @ tag)))
        else Inr (v\<lparr>vs_definedTagOrder := vs_definedTagOrder v @ [tag]\<rparr>)
      else Inr v)"

fun validate_loop ::
  "(string \<rightharpoonup> rule_set) option \<Rightarrow> (string \<rightharpoonup> rule_set_metadata) \<Rightarrow> nat \<Rightarrow> dns_rule_options list \<Rightarrow> validation \<Rightarrow>
   validation res" where
  "validate_loop router metadataOverrides i [] v = Inr v"
| "validate_loop router metadataOverrides i (rule # rules) v =
     (case validateLegacyDNSModeDisabledRuleTree router rule metadataOverrides of
        Inl e \<Rightarrow> Inl (E_CauseAt e ''validate dns rule['' i)
      | Inr use \<Rightarrow>
          rbind (validate_uses i use (note_race i rule v)) (\<lambda>v1.
            rbind (validate_defines i rule v1) (\<lambda>v2. validate_loop router metadataOverrides (Suc i) rules v2)))"

definition validateLegacyDNSModeDisabledRules ::
  "(string \<rightharpoonup> rule_set) option \<Rightarrow> dns_rule_options list \<Rightarrow> (string \<rightharpoonup> rule_set_metadata) \<Rightarrow> string list res" where
  "validateLegacyDNSModeDisabledRules router rules metadataOverrides =
     rbind (validate_loop router metadataOverrides 0 rules new_validation) (\<lambda>v.
       Inr (vs_warnings v @
            map (\<lambda>tag. ''evaluate tag is never referenced: '' @ tag)
              (filter (\<lambda>tag. \<not> List.member (vs_referencedTags v) tag) (vs_definedTagOrder v))))"

fun fakeip_loop :: "(string \<rightharpoonup> string) \<Rightarrow> nat \<Rightarrow> dns_rule_options list \<Rightarrow> error option" where
  "fakeip_loop types i [] = None"
| "fakeip_loop types i (rule # rules) =
     (if dnsRuleActionType rule \<noteq> ''evaluate'' \<or> dnsRuleActionServer rule = [] \<or>
         types (dnsRuleActionServer rule) \<noteq> Some ''fakeip''
      then fakeip_loop types (Suc i) rules
      else Some (E_New (at_rule i (''evaluate action cannot use fakeip server: '' @ dnsRuleActionServer rule))))"

definition validateEvaluateFakeIPRules :: "dns_rule_options list \<Rightarrow> (string \<rightharpoonup> string) option \<Rightarrow> error option" where
  "validateEvaluateFakeIPRules rules manager = (case manager of None \<Rightarrow> None | Some types \<Rightarrow> fakeip_loop types 0 rules)"

section \<open>The rules of the router\<close>

fun nested_actions :: "nat \<Rightarrow> dns_rule_options list \<Rightarrow> error option" where
  "nested_actions i [] = None"
| "nested_actions i (r # rs) =
     (case validateNoNestedDNSRuleActions r False of
        Some e \<Rightarrow> Some (E_CauseAt e ''parse dns rule['' i)
      | None \<Rightarrow> nested_actions (Suc i) rs)"

fun new_rules :: "rule_env \<Rightarrow> bool \<Rightarrow> nat \<Rightarrow> dns_rule_options list \<Rightarrow> dns_rule list res" where
  "new_rules E legacyDNSMode i [] = Inr []"
| "new_rules E legacyDNSMode i (r # rs) =
     (case NewDNSRule E r True legacyDNSMode of
        Inl e \<Rightarrow> Inl (E_CauseAt e ''parse dns rule['' i)
      | Inr rule \<Rightarrow> rbind (new_rules E legacyDNSMode (Suc i) rs) (\<lambda>rules. Inr (rule # rules)))"

fun start_rules :: "rule_env \<Rightarrow> (string \<rightharpoonup> rule_set) \<Rightarrow> nat \<Rightarrow> dns_rule list \<Rightarrow> dns_rule list res" where
  "start_rules E sets i [] = Inr []"
| "start_rules E sets i (r # rs) =
     (case hrule_Start E sets (dn_Rule r) of
        Inl e \<Rightarrow> Inl (E_CauseAt e ''initialize DNS rule['' i)
      | Inr r' \<Rightarrow> rbind (start_rules E sets (Suc i) rs) (\<lambda>rs'. Inr (r\<lparr>dn_Rule := r'\<rparr> # rs')))"

definition buildRules ::
  "rule_env \<Rightarrow> (string \<rightharpoonup> rule_set) option \<Rightarrow> (string \<rightharpoonup> string) option \<Rightarrow> dns_rule_options list \<Rightarrow> bool \<Rightarrow>
   (dns_rule list \<times> bool \<times> dnsRuleModeFlags) res" where
  "buildRules E router manager rawRules startRules =
     (case nested_actions 0 rawRules of
        Some e \<Rightarrow> Inl e
      | None \<Rightarrow>
          rbind (resolveLegacyDNSMode router rawRules (\<lambda>_. None)) (\<lambda>(legacyDNSMode, modeFlags).
            rbind (if \<not> legacyDNSMode then validateLegacyDNSModeDisabledRules router rawRules (\<lambda>_. None) else Inr [])
              (\<lambda>warnings.
                case validateEvaluateFakeIPRules rawRules manager of
                  Some e \<Rightarrow> Inl e
                | None \<Rightarrow>
                    rbind (new_rules E legacyDNSMode 0 rawRules) (\<lambda>newRules.
                      rbind (if startRules then start_rules E (case router of None \<Rightarrow> (\<lambda>_. None) | Some sets \<Rightarrow> sets) 0 newRules
                             else Inr newRules)
                        (\<lambda>newRules'. Inr (newRules', legacyDNSMode, modeFlags))))))"

text \<open>The router's rules and what \<open>rulesAccess\<close> guards.\<close>

record dns_router =
  dr_rawRules :: "dns_rule_options list"
  dr_rules :: "dns_rule list"
  dr_legacyDNSMode :: bool
  dr_started :: bool
  dr_closing :: bool

definition NewRouter :: dns_router where
  "NewRouter = \<lparr>dr_rawRules = [], dr_rules = [], dr_legacyDNSMode = False, dr_started = False, dr_closing = False\<rparr>"

text \<open>\<open>Initialize\<close> keeps the options even where building them fails.\<close>

definition dns_Initialize ::
  "rule_env \<Rightarrow> (string \<rightharpoonup> rule_set) option \<Rightarrow> (string \<rightharpoonup> string) option \<Rightarrow> dns_rule_options list \<Rightarrow> dns_router \<Rightarrow>
   error option \<times> dns_router" where
  "dns_Initialize E router manager rules r =
     ((case buildRules E router manager rules False of Inl e \<Rightarrow> Some e | Inr _ \<Rightarrow> None), r\<lparr>dr_rawRules := rules\<rparr>)"

definition dns_Start ::
  "rule_env \<Rightarrow> (string \<rightharpoonup> rule_set) option \<Rightarrow> (string \<rightharpoonup> string) option \<Rightarrow> dns_router \<Rightarrow> error option \<times> dns_router" where
  "dns_Start E router manager r =
     (case buildRules E router manager (dr_rawRules r) True of
        Inl e \<Rightarrow> (Some e, r)
      | Inr (newRules, legacyDNSMode, modeFlags) \<Rightarrow>
          if dr_closing r then (None, r)
          else (None, r\<lparr>dr_rules := newRules, dr_legacyDNSMode := legacyDNSMode, dr_started := True\<rparr>))"

text \<open>What \<open>Start\<close> leaves to the scope to run at the end.\<close>

definition dns_Close :: "dns_router \<Rightarrow> dns_router" where
  "dns_Close r = r\<lparr>dr_closing := True, dr_rules := []\<rparr>"

definition ValidateRuleSetMetadataUpdate ::
  "(string \<rightharpoonup> rule_set) option \<Rightarrow> dns_router \<Rightarrow> string \<Rightarrow> rule_set_metadata \<Rightarrow> error option" where
  "ValidateRuleSetMetadataUpdate router r tag metadata =
     (let overrides = [tag \<mapsto> metadata];
          validated = (case validateLegacyDNSModeDisabledRules router (dr_rawRules r) overrides of
                         Inl e \<Rightarrow> Some e | Inr _ \<Rightarrow> None)
      in if dr_rawRules r = [] then None
         else if router = None then Some (E_New ''router service not found'')
         else if dr_closing r then None
         else case resolveLegacyDNSMode router (dr_rawRules r) overrides of
           Inl e \<Rightarrow> Some e
         | Inr (candidateLegacyDNSMode, flags) \<Rightarrow>
             if \<not> dr_started r then (if \<not> candidateLegacyDNSMode then validated else None)
             else if dr_legacyDNSMode r then
               (if \<not> candidateLegacyDNSMode \<and> fl_disabled flags
                then (case validated of Some e \<Rightarrow> Some e | None \<Rightarrow> Some address_filter_deprecated)
                else None)
             else if candidateLegacyDNSMode then Some address_filter_deprecated
             else validated)"

end
