(* ===== verification/Dns_Mode_Facts.thy ===== *)
theory Dns_Mode_Facts
  imports Dns_Mode
begin

text \<open>
  Lemmas on the modes of the DNS router: what the checks of the options say about the rules that are
  built from them.
\<close>

section \<open>Options\<close>

text \<open>
  \<open>match_response\<close> names a tag only where it is enabled, which decoding ensures, throughout a rule tree.
\<close>

definition response_wf :: "(bool \<times> string) option \<Rightarrow> bool" where
  "response_wf m \<longleftrightarrow> (ResponseTag m \<noteq> [] \<longrightarrow> IsEnabled m)"

lemma decoded_response_wf: "MatchResponse_UnmarshalJSON j = Inr m \<Longrightarrow> response_wf (Some m)"
  by (cases j) (auto simp: response_wf_def IsEnabled_def ResponseTag_def split: if_splits)

fun responses_wf :: "dns_rule_options \<Rightarrow> bool"
  and logical_responses_wf :: "dns_logical_rule_options \<Rightarrow> bool" where
  "responses_wf (DNSRuleOpts t d a l) \<longleftrightarrow> response_wf (dd_MatchResponse d) \<and> logical_responses_wf l"
| "logical_responses_wf (DNSLogicalOpts mode rules neg a) \<longleftrightarrow> list_all responses_wf rules"

section \<open>Building\<close>

lemma rbind_Inr: "rbind r f = Inr b \<longleftrightarrow> (\<exists>a. r = Inr a \<and> f a = Inr b)"
  by (cases r) (auto simp: rbind_def)

lemma new_rules_all2:
  "new_rules E m i raw = Inr rules \<Longrightarrow> list_all2 (\<lambda>o' r. NewDNSRule E o' True m = Inr r) raw rules"
  by (induction raw arbitrary: i rules) (auto simp: rbind_Inr split: sum.splits)

lemma start_rules_all2:
  "start_rules E sets i rules = Inr rules' \<Longrightarrow> list_all2 (\<lambda>r r'. \<exists>h. r' = r\<lparr>dn_Rule := h\<rparr>) rules rules'"
  by (induction rules arbitrary: i rules') (auto simp: rbind_Inr split: sum.splits)

lemma NewDefaultDNSRule_fields:
  assumes "NewDefaultDNSRule E d a m = Inr r"
  shows "NewDNSRuleAction a = Inr (dn_Action r)" "dn_race r = da_Race a"
    "dn_matchResponseTags r = MatchResponseTags (ResponseTag (dd_MatchResponse d))"
    "dn_matchResponseAnonymous r = (IsEnabled (dd_MatchResponse d) \<and> ResponseTag (dd_MatchResponse d) = [])"
  using assms by (auto simp: NewDefaultDNSRule_def Let_def rbind_Inr)

lemma NewLogicalDNSRule_fields:
  assumes "NewLogicalDNSRule E l m = Inr r"
  obtains mode rules neg a rs where "l = DNSLogicalOpts mode rules neg a" "new_dns_sub_rules E m 0 rules = Inr rs"
    "NewDNSRuleAction a = Inr (dn_Action r)" "dn_race r = da_Race a"
    "set (dn_matchResponseTags r) = (\<Union>r'\<in>set rs. set (dn_matchResponseTags r'))"
    "dn_matchResponseAnonymous r = list_ex dn_matchResponseAnonymous rs"
  using assms by (cases l) (auto simp: rbind_Inr Let_def uniq_def split: if_splits)

lemma NewDNSRule_shape:
  assumes "NewDNSRule E (DNSRuleOpts t d a l) c m = Inr r"
  obtains "t = [] \<or> t = ''default''" "NewDefaultDNSRule E d a m = Inr r"
  | "t = ''logical''" "NewLogicalDNSRule E l m = Inr r"
  using assms by (auto simp: rbind_Inr split: if_splits option.splits simp del: NewLogicalDNSRule.simps)

lemma new_dns_sub_rules_all2:
  "new_dns_sub_rules E m i raw = Inr rules \<Longrightarrow> list_all2 (\<lambda>o' r. NewDNSRule E o' False m = Inr r) raw rules"
  by (induction raw arbitrary: i rules) (auto simp: rbind_Inr split: sum.splits option.splits simp del: NewDNSRule.simps)

lemma NewDNSRule_action:
  assumes "NewDNSRule E o' c m = Inr r"
  obtains a where "rule_action_of o' = Some a" "NewDNSRuleAction a = Inr (dn_Action r)" "dn_race r = da_Race a"
proof (cases o')
  case (DNSRuleOpts t d a l)
  from assms [unfolded DNSRuleOpts] show thesis
  proof (cases rule: NewDNSRule_shape)
    case 1
    then show ?thesis using that [of a] NewDefaultDNSRule_fields [OF 1(2)] by (auto simp: DNSRuleOpts rule_action_of_def)
  next
    case 2
    from 2(2) obtain mode rules neg a' where "l = DNSLogicalOpts mode rules neg a'"
      "NewDNSRuleAction a' = Inr (dn_Action r)" "dn_race r = da_Race a'"
      by (rule NewLogicalDNSRule_fields)
    with 2(1) show ?thesis using that [of a'] by (simp add: DNSRuleOpts rule_action_of_def)
  qed
qed

text \<open>The responses a built rule reads are among those its options were found to use.\<close>

definition reads_within :: "dns_rule \<Rightarrow> dnsRuleResponseUse \<Rightarrow> bool" where
  "reads_within r use \<longleftrightarrow> set (dn_matchResponseTags r) \<subseteq> set (referencedTags use) \<and>
     (dn_matchResponseAnonymous r \<longrightarrow> needsAnonymous use)"

definition use_within :: "dnsRuleResponseUse \<Rightarrow> dnsRuleResponseUse \<Rightarrow> bool" where
  "use_within u use \<longleftrightarrow> set (referencedTags u) \<subseteq> set (referencedTags use) \<and> (needsAnonymous u \<longrightarrow> needsAnonymous use)"

lemma default_reads:
  assumes "NewDefaultDNSRule E d a m = Inr r" "validateLegacyDNSModeDisabledDefaultRule router d a ov = Inr use"
    "response_wf (dd_MatchResponse d)"
  shows "reads_within r use"
  using assms(2,3) NewDefaultDNSRule_fields(3,4) [OF assms(1)]
  by (auto simp: validateLegacyDNSModeDisabledDefaultRule_def reads_within_def response_wf_def MatchResponseTags_def Let_def
      no_use_def split: if_splits option.splits)

lemma validate_disabled_sub_ConsE:
  assumes "validate_disabled_sub router i (r # rules) ov u = Inr use"
  obtains su where "validateLegacyDNSModeDisabledRuleTree router r ov = Inr su"
    "validate_disabled_sub router (Suc i) rules ov \<lparr>needsAnonymous = (needsAnonymous u \<or> needsAnonymous su),
       referencedTags = referencedTags u @ referencedTags su\<rparr> = Inr use"
proof (cases "validateLegacyDNSModeDisabledRuleTree router r ov")
  case (Inr su)
  with assms that [of su] show thesis by simp
qed (use assms in simp)

lemma validate_disabled_sub_mono: "validate_disabled_sub router i rules ov u = Inr use \<Longrightarrow> use_within u use"
proof (induction rules arbitrary: i u)
  case Nil
  then show ?case by (simp add: use_within_def)
next
  case (Cons r rules)
  from Cons.prems obtain su where "validateLegacyDNSModeDisabledRuleTree router r ov = Inr su"
    and v: "validate_disabled_sub router (Suc i) rules ov
      \<lparr>needsAnonymous = (needsAnonymous u \<or> needsAnonymous su),
       referencedTags = referencedTags u @ referencedTags su\<rparr> = Inr use"
    by (rule validate_disabled_sub_ConsE)
  from Cons.IH [OF v] show ?case by (auto simp: use_within_def)
qed

lemma built_reads:
  "NewDNSRule E o' c m = Inr r \<Longrightarrow> validateLegacyDNSModeDisabledRuleTree router o' ov = Inr use \<Longrightarrow> responses_wf o' \<Longrightarrow>
     reads_within r use"
  "NewLogicalDNSRule E l m = Inr r \<Longrightarrow> validate_disabled_logical router l ov = Inr use \<Longrightarrow> logical_responses_wf l \<Longrightarrow>
     reads_within r use"
  "list_all2 (\<lambda>o' r. NewDNSRule E o' False m = Inr r) raw rules \<Longrightarrow> validate_disabled_sub router i raw ov u = Inr use \<Longrightarrow>
     list_all responses_wf raw \<Longrightarrow> list_all (\<lambda>r. reads_within r use) rules"
proof (induction router o' ov and router l ov and router i raw ov u arbitrary: c r use and r use and rules use
    rule: validateLegacyDNSModeDisabledRuleTree_validate_disabled_logical_validate_disabled_sub.induct)
  case (1 router t d a l ov)
  from "1.prems"(1) show ?case
  proof (cases rule: NewDNSRule_shape)
    case 1
    then show ?thesis using "1.prems"(2,3) default_reads by auto
  next
    case 2
    then have "t \<noteq> [] \<and> t \<noteq> ''default''" by auto
    with 2 "1.IH" [of r use] "1.prems"(2,3) show ?thesis by simp
  qed
next
  case (2 router mode rules neg action ov)
  from "2.prems"(1) obtain rs where rs: "new_dns_sub_rules E m 0 rules = Inr rs"
    and f: "set (dn_matchResponseTags r) = (\<Union>r'\<in>set rs. set (dn_matchResponseTags r'))"
      "dn_matchResponseAnonymous r = list_ex dn_matchResponseAnonymous rs"
    by (rule NewLogicalDNSRule_fields) simp
  from "2.prems"(2) obtain use' where u: "validate_disabled_sub router 0 rules ov no_use = Inr use'" "use_within use' use"
    by (auto simp: rbind_Inr use_within_def split: if_splits)
  from "2.IH" [OF new_dns_sub_rules_all2 [OF rs] u(1)] "2.prems"(3)
  have "list_all (\<lambda>r. reads_within r use') rs" by simp
  with u(2) show ?case unfolding reads_within_def use_within_def f by (auto simp: list_all_iff list_ex_iff)
next
  case (3 router i ov u)
  then show ?case by simp
next
  case (4 router i subRule raw ov u)
  from "4.prems"(1) obtain r rs where rules: "rules = r # rs" "NewDNSRule E subRule False m = Inr r"
    "list_all2 (\<lambda>o' r. NewDNSRule E o' False m = Inr r) raw rs" by (auto simp: list_all2_Cons1)
  from "4.prems"(2) obtain su where s: "validateLegacyDNSModeDisabledRuleTree router subRule ov = Inr su"
    and v: "validate_disabled_sub router (Suc i) raw ov \<lparr>needsAnonymous = needsAnonymous u \<or> needsAnonymous su,
       referencedTags = referencedTags u @ referencedTags su\<rparr> = Inr use" by (rule validate_disabled_sub_ConsE)
  have "reads_within r su" using "4.IH"(1) [OF rules(2) s] "4.prems"(3) by simp
  with validate_disabled_sub_mono [OF v] have "reads_within r use" by (auto simp: reads_within_def use_within_def)
  with "4.IH"(2) [OF s rules(3) v] "4.prems"(3) rules(1) show ?case by simp
qed

section \<open>Rules of the legacy mode\<close>

definition reads_nothing :: "dns_rule \<Rightarrow> bool" where
  "reads_nothing r \<longleftrightarrow> dn_matchResponseTags r = [] \<and> \<not> dn_matchResponseAnonymous r"

lemma rule_set_requirements_mono:
  "rule_set_requirements router ov src tags f = Inr f' \<Longrightarrow> fl_disabled f \<Longrightarrow> fl_disabled f'"
  by (induction tags arbitrary: f) (auto simp: rbind_Inr)

lemma sub_requirements_ConsE:
  assumes "sub_requirements router i (r # rules) ov f = Inr f'"
  obtains sf where "dnsRuleModeRequirementsInRule router r ov = Inr sf"
    "sub_requirements router (Suc i) rules ov (flags_merge f sf) = Inr f'"
proof (cases "dnsRuleModeRequirementsInRule router r ov")
  case (Inr sf)
  with assms that [of sf] show thesis by simp
qed (use assms in simp)

lemma flags_merge_disabled [simp]: "fl_disabled (flags_merge f g) \<longleftrightarrow> fl_disabled f \<or> fl_disabled g"
  by (simp add: flags_merge_def)

lemma sub_requirements_mono:
  "sub_requirements router i rules ov f = Inr f' \<Longrightarrow> fl_disabled f \<Longrightarrow> fl_disabled f'"
  by (induction rules arbitrary: i f) (auto elim!: sub_requirements_ConsE simp del: sub_requirements.simps(2))

lemma requirements_loop_ConsE:
  assumes "requirements_loop router i (r # rules) ov f = Inr f'"
  obtains rf where "dnsRuleModeRequirementsInRule router r ov = Inr rf"
    "requirements_loop router (Suc i) rules ov (flags_merge f rf) = Inr f'"
proof (cases "dnsRuleModeRequirementsInRule router r ov")
  case (Inr rf)
  with assms that [of rf] show thesis by simp
qed (use assms in simp)

lemma requirements_loop_mono:
  "requirements_loop router i rules ov f = Inr f' \<Longrightarrow> fl_disabled f \<Longrightarrow> fl_disabled f'"
  by (induction rules arbitrary: i f) (auto elim!: requirements_loop_ConsE simp del: requirements_loop.simps(2))

lemma requirements_loop_each:
  "requirements_loop router i rules ov f = Inr f' \<Longrightarrow> \<not> fl_disabled f' \<Longrightarrow>
   list_all (\<lambda>r. \<exists>rf. dnsRuleModeRequirementsInRule router r ov = Inr rf \<and> \<not> fl_disabled rf) rules"
proof (induction rules arbitrary: i f)
  case (Cons r rules)
  from Cons.prems(1) obtain rf where rf: "dnsRuleModeRequirementsInRule router r ov = Inr rf"
    and l: "requirements_loop router (Suc i) rules ov (flags_merge f rf) = Inr f'" by (rule requirements_loop_ConsE)
  from requirements_loop_mono [OF l] Cons.prems(2) have "\<not> fl_disabled rf" by auto
  with rf Cons.IH [OF l Cons.prems(2)] show ?case by simp
qed simp

text \<open>The flag of a default rule is set by the rule itself.\<close>

lemma default_requirements_disabled:
  assumes "dnsRuleModeRequirementsInDefaultRule router d a ov = Inr f" "\<not> fl_disabled f"
  shows "\<not> defaultRuleDisablesLegacyDNSMode d a" "\<not> dnsRuleActionDisablesLegacyDNSMode a"
  using assms by (auto simp: dnsRuleModeRequirementsInDefaultRule_def Let_def split: if_splits
      dest!: rule_set_requirements_mono)

lemma legacy_reads:
  "NewDNSRule E o' c m = Inr r \<Longrightarrow> dnsRuleModeRequirementsInRule router o' ov = Inr f \<Longrightarrow> \<not> fl_disabled f \<Longrightarrow>
     responses_wf o' \<Longrightarrow> reads_nothing r"
  "NewLogicalDNSRule E l m = Inr r \<Longrightarrow> logical_requirements router l ov = Inr f \<Longrightarrow> \<not> fl_disabled f \<Longrightarrow>
     logical_responses_wf l \<Longrightarrow> reads_nothing r"
  "list_all2 (\<lambda>o' r. NewDNSRule E o' False m = Inr r) raw rules \<Longrightarrow> sub_requirements router i raw ov f0 = Inr f \<Longrightarrow>
     \<not> fl_disabled f \<Longrightarrow> list_all responses_wf raw \<Longrightarrow> list_all reads_nothing rules"
proof (induction router o' ov and router l ov and router i raw ov f0 arbitrary: c r f and r f and rules f
    rule: dnsRuleModeRequirementsInRule_logical_requirements_sub_requirements.induct)
  case (1 router t d a l ov)
  from "1.prems"(1) show ?case
  proof (cases rule: NewDNSRule_shape)
    case 1
    with "1.prems"(2,3) default_requirements_disabled(1) have "\<not> IsEnabled (dd_MatchResponse d)"
      by (auto simp: defaultRuleDisablesLegacyDNSMode_def)
    with 1 "1.prems"(4) NewDefaultDNSRule_fields(3,4) [OF 1(2)] show ?thesis
      by (auto simp: reads_nothing_def response_wf_def MatchResponseTags_def)
  next
    case 2
    then have "t \<noteq> [] \<and> t \<noteq> ''default''" by auto
    with 2 "1.IH" [of r f] "1.prems"(2-4) show ?thesis by simp
  qed
next
  case (2 router mode rules neg action ov)
  from "2.prems"(1) obtain rs where rs: "new_dns_sub_rules E m 0 rules = Inr rs"
    and f: "set (dn_matchResponseTags r) = (\<Union>r'\<in>set rs. set (dn_matchResponseTags r'))"
      "dn_matchResponseAnonymous r = list_ex dn_matchResponseAnonymous rs"
    by (rule NewLogicalDNSRule_fields) simp
  from "2.IH" [OF new_dns_sub_rules_all2 [OF rs], of f] "2.prems"(2-4)
  have "list_all reads_nothing rs" by simp
  then have "set (dn_matchResponseTags r) = {}" "\<not> dn_matchResponseAnonymous r" unfolding f
    by (auto simp: list_all_iff list_ex_iff reads_nothing_def)
  then show ?case by (simp add: reads_nothing_def)
next
  case (3 router i ov u)
  then show ?case by simp
next
  case (4 router i subRule raw ov f0)
  from "4.prems"(1) obtain r rs where rules: "rules = r # rs" "NewDNSRule E subRule False m = Inr r"
    "list_all2 (\<lambda>o' r. NewDNSRule E o' False m = Inr r) raw rs" by (auto simp: list_all2_Cons1)
  from "4.prems"(2) obtain sf where s: "dnsRuleModeRequirementsInRule router subRule ov = Inr sf"
    and v: "sub_requirements router (Suc i) raw ov (flags_merge f0 sf) = Inr f" by (rule sub_requirements_ConsE)
  from sub_requirements_mono [OF v] "4.prems"(3) have "\<not> fl_disabled sf" by auto
  with "4.IH"(1) [OF rules(2) s] "4.IH"(2) [OF s rules(3) v] "4.prems"(3,4) rules(1) show ?case by simp
qed

definition evaluates :: "string \<Rightarrow> dns_rule \<Rightarrow> bool" where
  "evaluates tag r \<longleftrightarrow> (case dn_Action r of Some (RuleActionEvaluate server tag' speculative options) \<Rightarrow> tag' = tag | _ \<Rightarrow> False)"

definition responds :: "dns_rule \<Rightarrow> bool" where
  "responds r \<longleftrightarrow> dn_Action r = Some RuleActionRespond"

lemma NewDNSRuleAction_kind:
  assumes "NewDNSRuleAction a = Inr x"
  shows "(case x of Some (RuleActionEvaluate server tag' speculative options) \<Rightarrow> tag' = tag | _ \<Rightarrow> False) \<longleftrightarrow>
      da_Action a = ''evaluate'' \<and> da_EvaluateTag a = tag"
    and "x = Some RuleActionRespond \<longleftrightarrow> da_Action a = ''respond''"
  using assms by (auto simp: NewDNSRuleAction_def split: if_splits)

lemma action_evaluates:
  assumes "NewDNSRule E o' c m = Inr r"
  shows "evaluates tag r \<longleftrightarrow> dnsRuleActionType o' = ''evaluate'' \<and> dnsRuleActionEvaluateTag o' = tag"
    and "responds r \<longleftrightarrow> dnsRuleActionType o' = ''respond''"
proof -
  from assms obtain a where a: "rule_action_of o' = Some a" "NewDNSRuleAction a = Inr (dn_Action r)" by (rule NewDNSRule_action)
  then show "evaluates tag r \<longleftrightarrow> dnsRuleActionType o' = ''evaluate'' \<and> dnsRuleActionEvaluateTag o' = tag"
    and "responds r \<longleftrightarrow> dnsRuleActionType o' = ''respond''"
    using NewDNSRuleAction_kind [OF a(2)]
    by (auto simp: evaluates_def responds_def dnsRuleActionType_def dnsRuleActionEvaluateTag_def)
qed

lemma legacy_actions:
  assumes "NewDNSRule E o' c m = Inr r" "dnsRuleModeRequirementsInRule router o' ov = Inr f" "\<not> fl_disabled f"
  shows "\<not> evaluates tag r \<and> \<not> responds r \<and> \<not> dn_race r"
proof -
  obtain t d a l where o': "o' = DNSRuleOpts t d a l" by (cases o')
  obtain mode rules neg a2 where l: "l = DNSLogicalOpts mode rules neg a2" by (cases l)
  from assms(1) obtain act where act: "rule_action_of o' = Some act" "dn_race r = da_Race act" by (rule NewDNSRule_action)
  have "da_Action act \<noteq> ''evaluate'' \<and> da_Action act \<noteq> ''respond'' \<and> \<not> dnsRuleActionDisablesLegacyDNSMode act"
  proof (cases "t = [] \<or> t = ''default''")
    case True
    with assms(2,3) act(1) default_requirements_disabled [of router d a ov f] show ?thesis
      by (auto simp: o' rule_action_of_def defaultRuleDisablesLegacyDNSMode_def)
  next
    case False
    with act(1) have t: "t = ''logical''" "act = a2" by (auto simp: o' l rule_action_of_def split: if_splits)
    with assms(2) have "sub_requirements router 0 rules ov
        \<lparr>fl_disabled = (da_Action a2 = ''evaluate'' \<or> da_Action a2 = ''respond'' \<or> dnsRuleActionDisablesLegacyDNSMode a2),
         fl_needed = dnsRuleActionHasStrategy a2, fl_neededFromStrategy = dnsRuleActionHasStrategy a2\<rparr> = Inr f"
      by (simp add: o' l)
    from sub_requirements_mono [OF this] assms(3) t(2) show ?thesis by auto
  qed
  with act show ?thesis
    by (auto simp: action_evaluates [OF assms(1)] dnsRuleActionType_def dnsRuleActionDisablesLegacyDNSMode_def split: if_splits)
qed

section \<open>Rules of the newer mode\<close>

definition defined_tags :: "dns_rule_options list \<Rightarrow> string list" where
  "defined_tags rules = filter (\<lambda>t. t \<noteq> []) (map dnsRuleActionEvaluateTag (filter (\<lambda>r. dnsRuleActionType r = ''evaluate'') rules))"

definition anonymous_evaluate :: "dns_rule_options \<Rightarrow> bool" where
  "anonymous_evaluate r \<longleftrightarrow> dnsRuleActionType r = ''evaluate'' \<and> dnsRuleActionEvaluateTag r = []"

lemma defined_tags_Cons:
  "defined_tags (r # rules) =
     (if dnsRuleActionType r = ''evaluate'' \<and> dnsRuleActionEvaluateTag r \<noteq> [] then [dnsRuleActionEvaluateTag r] else []) @ defined_tags rules"
  by (simp add: defined_tags_def)

lemma validate_uses_ok:
  assumes "validate_uses i use v = Inr v'"
  shows "vs_definedTagOrder v' = vs_definedTagOrder v" "vs_seenAnonymousEvaluate v' = vs_seenAnonymousEvaluate v"
    "set (referencedTags use) \<subseteq> set (vs_definedTagOrder v)" "needsAnonymous use \<longrightarrow> vs_seenAnonymousEvaluate v"
  using assms by (auto simp: validate_uses_def rbind_Inr find_None_iff split: if_splits option.splits)

lemma validate_defines_ok:
  assumes "validate_defines i rule v = Inr v'" "distinct (vs_definedTagOrder v)"
  shows "vs_definedTagOrder v' = vs_definedTagOrder v @ defined_tags [rule]"
    "vs_seenAnonymousEvaluate v' = (vs_seenAnonymousEvaluate v \<or> anonymous_evaluate rule)"
    "distinct (vs_definedTagOrder v')"
  using assms by (auto simp: validate_defines_def defined_tags_def anonymous_evaluate_def Let_def split: if_splits)

lemma validate_loop_ConsE:
  assumes "validate_loop router ov i (rule # rules) v = Inr v'" "distinct (vs_definedTagOrder v)"
  obtains use v4 where "validateLegacyDNSModeDisabledRuleTree router rule ov = Inr use"
    "set (referencedTags use) \<subseteq> set (vs_definedTagOrder v)" "needsAnonymous use \<longrightarrow> vs_seenAnonymousEvaluate v"
    "vs_definedTagOrder v4 = vs_definedTagOrder v @ defined_tags [rule]"
    "vs_seenAnonymousEvaluate v4 = (vs_seenAnonymousEvaluate v \<or> anonymous_evaluate rule)"
    "distinct (vs_definedTagOrder v4)" "validate_loop router ov (Suc i) rules v4 = Inr v'"
proof -
  let ?v2 = "note_race i rule v"
  have v2: "vs_definedTagOrder ?v2 = vs_definedTagOrder v" "vs_seenAnonymousEvaluate ?v2 = vs_seenAnonymousEvaluate v"
    by (simp_all add: note_race_def Let_def)
  from assms(1) obtain use v3 v4 where u: "validateLegacyDNSModeDisabledRuleTree router rule ov = Inr use"
    and v3: "validate_uses i use ?v2 = Inr v3" and v4: "validate_defines i rule v3 = Inr v4"
    and l: "validate_loop router ov (Suc i) rules v4 = Inr v'"
    by (auto simp: rbind_Inr split: sum.splits)
  note a = validate_uses_ok [OF v3]
  from a v2 assms(2) have "distinct (vs_definedTagOrder v3)" by simp
  from validate_defines_ok [OF v4 this] a v2 u l that [of use v4] show thesis by simp
qed

lemma validate_loop_ok:
  assumes "validate_loop router ov i rules v = Inr v'" "distinct (vs_definedTagOrder v)"
  shows "distinct (vs_definedTagOrder v @ defined_tags rules) \<and>
    (\<forall>k<length rules. \<exists>use. validateLegacyDNSModeDisabledRuleTree router (rules ! k) ov = Inr use \<and>
       set (referencedTags use) \<subseteq> set (vs_definedTagOrder v) \<union> set (defined_tags (take k rules)) \<and>
       (needsAnonymous use \<longrightarrow> vs_seenAnonymousEvaluate v \<or> list_ex anonymous_evaluate (take k rules)))"
  using assms
proof (induction rules arbitrary: i v)
  case Nil
  then show ?case by (simp add: defined_tags_def)
next
  case (Cons r rules)
  from Cons.prems obtain use v4 where
    u: "validateLegacyDNSModeDisabledRuleTree router r ov = Inr use" "set (referencedTags use) \<subseteq> set (vs_definedTagOrder v)"
       "needsAnonymous use \<longrightarrow> vs_seenAnonymousEvaluate v" and
    v4: "vs_definedTagOrder v4 = vs_definedTagOrder v @ defined_tags [r]"
      "vs_seenAnonymousEvaluate v4 = (vs_seenAnonymousEvaluate v \<or> anonymous_evaluate r)" "distinct (vs_definedTagOrder v4)"
      "validate_loop router ov (Suc i) rules v4 = Inr v'"
    by (rule validate_loop_ConsE)
  have tags: "defined_tags (r # rs) = defined_tags [r] @ defined_tags rs" for rs by (simp add: defined_tags_def)
  note IH = Cons.IH [OF v4(4,3)]
  show ?case
  proof (intro conjI allI impI)
    show "distinct (vs_definedTagOrder v @ defined_tags (r # rules))" using IH by (simp add: v4(1) tags [of rules])
  next
    fix k assume "k < length (r # rules)"
    then show "\<exists>use. validateLegacyDNSModeDisabledRuleTree router ((r # rules) ! k) ov = Inr use \<and>
       set (referencedTags use) \<subseteq> set (vs_definedTagOrder v) \<union> set (defined_tags (take k (r # rules))) \<and>
       (needsAnonymous use \<longrightarrow> vs_seenAnonymousEvaluate v \<or> list_ex anonymous_evaluate (take k (r # rules)))"
    proof (cases k)
      case 0
      with u show ?thesis by auto
    next
      case (Suc j)
      with IH \<open>k < length (r # rules)\<close> obtain use where
        "validateLegacyDNSModeDisabledRuleTree router (rules ! j) ov = Inr use"
        "set (referencedTags use) \<subseteq> set (vs_definedTagOrder v4) \<union> set (defined_tags (take j rules))"
        "needsAnonymous use \<longrightarrow> vs_seenAnonymousEvaluate v4 \<or> list_ex anonymous_evaluate (take j rules)" by auto
      with Suc v4(1,2) show ?thesis using tags [of "take j rules"] by (intro exI [of _ use]) auto
    qed
  qed
qed

end
