(* ===== verification/Dns_Mode_Props.thy ===== *)
theory Dns_Mode_Props
  imports Dns_Mode_Facts Rule_Examples
begin

text \<open>Properties of the rules the DNS router runs with and of its check of rule-set updates.\<close>

section \<open>Responses are asked for before they are read\<close>

text \<open>
  In the legacy mode rules neither ask for responses nor read any. In the newer mode each tag a rule
  reads is evaluated by exactly one rule, which comes before it, and the response without a tag is read
  only after a rule that evaluates one; so is the response a rule answers with.
\<close>

definition responses_defined :: "bool \<Rightarrow> dns_rule list \<Rightarrow> bool" where
  "responses_defined legacyDNSMode rules \<longleftrightarrow>
     (\<forall>i<length rules.
        if legacyDNSMode then
          reads_nothing (rules ! i) \<and> \<not> responds (rules ! i) \<and> \<not> dn_race (rules ! i) \<and> (\<forall>tag. \<not> evaluates tag (rules ! i))
        else
          (\<forall>tag\<in>set (dn_matchResponseTags (rules ! i)).
             tag \<noteq> [] \<and> (\<exists>j<i. evaluates tag (rules ! j) \<and> (\<forall>k<length rules. evaluates tag (rules ! k) \<longrightarrow> k = j))) \<and>
          (dn_matchResponseAnonymous (rules ! i) \<longrightarrow> (\<exists>j<i. evaluates [] (rules ! j))) \<and>
          (responds (rules ! i) \<longrightarrow>
             length (dn_matchResponseTags (rules ! i)) = 1 \<or> (\<exists>j<i. evaluates [] (rules ! j))))"

lemma in_defined_tags:
  "tag \<in> set (defined_tags rules) \<longleftrightarrow>
     tag \<noteq> [] \<and> (\<exists>j<length rules. dnsRuleActionType (rules ! j) = ''evaluate'' \<and> dnsRuleActionEvaluateTag (rules ! j) = tag)"
proof -
  have "tag \<in> set (defined_tags rules) \<longleftrightarrow>
      tag \<noteq> [] \<and> (\<exists>r\<in>set rules. dnsRuleActionType r = ''evaluate'' \<and> dnsRuleActionEvaluateTag r = tag)"
    by (auto simp: defined_tags_def)
  then show ?thesis by (metis in_set_conv_nth)
qed

lemma defined_tags_unique:
  assumes "distinct (defined_tags rules)" "tag \<noteq> []"
    "j < length rules" "dnsRuleActionType (rules ! j) = ''evaluate''" "dnsRuleActionEvaluateTag (rules ! j) = tag"
    "k < length rules" "dnsRuleActionType (rules ! k) = ''evaluate''" "dnsRuleActionEvaluateTag (rules ! k) = tag"
  shows "k = j"
  using assms
proof (induction rules arbitrary: j k)
  case (Cons r rules)
  have "tag \<in> set (defined_tags rules)" if "Suc i < length (r # rules)"
    "dnsRuleActionType (rules ! i) = ''evaluate''" "dnsRuleActionEvaluateTag (rules ! i) = tag" for i
    using that Cons.prems(2) by (auto simp: in_defined_tags)
  with Cons show ?case by (cases j; cases k) (auto simp: defined_tags_Cons split: if_splits)
qed simp

lemma respond_reads:
  assumes "NewDNSRule E o' c m = Inr r" "validateLegacyDNSModeDisabledRuleTree router o' ov = Inr use"
    "dnsRuleActionType o' = ''respond''"
  shows "needsAnonymous use \<or> length (dn_matchResponseTags r) = 1"
proof (cases o')
  case (DNSRuleOpts t d a l)
  from assms(1) [unfolded DNSRuleOpts] show ?thesis
  proof (cases rule: NewDNSRule_shape)
    case 1
    then have "da_Action a = ''respond''" using assms(3)
      by (auto simp: DNSRuleOpts dnsRuleActionType_def rule_action_of_def split: if_splits)
    with 1 assms(2) NewDefaultDNSRule_fields(3) [OF 1(2)] show ?thesis
      by (auto simp: DNSRuleOpts validateLegacyDNSModeDisabledDefaultRule_def MatchResponseTags_def Let_def split: if_splits option.splits)
  next
    case 2
    obtain mode rules neg a2 where l: "l = DNSLogicalOpts mode rules neg a2" by (cases l)
    with 2 assms(3) have "da_Action a2 = ''respond''"
      by (auto simp: DNSRuleOpts dnsRuleActionType_def rule_action_of_def split: if_splits)
    with 2 assms(2) l show ?thesis by (auto simp: DNSRuleOpts rbind_Inr split: if_splits)
  qed
qed

lemma buildRules_parts:
  assumes "buildRules E router manager raw start = Inr (rules, legacy, flags)"
  shows "resolveLegacyDNSMode router raw (\<lambda>_. None) = Inr (legacy, flags)"
    and "\<not> legacy \<Longrightarrow> \<exists>v. validate_loop router (\<lambda>_. None) 0 raw new_validation = Inr v"
    and "length rules = length raw"
    and "\<And>i. i < length raw \<Longrightarrow> \<exists>r h. NewDNSRule E (raw ! i) True legacy = Inr r \<and> rules ! i = r\<lparr>dn_Rule := h\<rparr>"
proof -
  from assms obtain news where m: "resolveLegacyDNSMode router raw (\<lambda>_. None) = Inr (legacy, flags)"
    and n: "new_rules E legacy 0 raw = Inr news"
    and s: "rules = news \<or> (\<exists>sets. start_rules E sets 0 news = Inr rules)"
    and v: "\<not> legacy \<Longrightarrow> \<exists>w. validateLegacyDNSModeDisabledRules router raw (\<lambda>_. None) = Inr w"
    by (auto simp: buildRules_def rbind_Inr split: option.splits if_splits)
  show "resolveLegacyDNSMode router raw (\<lambda>_. None) = Inr (legacy, flags)" by (rule m)
  show "\<not> legacy \<Longrightarrow> \<exists>v. validate_loop router (\<lambda>_. None) 0 raw new_validation = Inr v"
    using v by (auto simp: validateLegacyDNSModeDisabledRules_def rbind_Inr)
  have 1: "list_all2 (\<lambda>o' r. NewDNSRule E o' True legacy = Inr r) raw news" by (rule new_rules_all2 [OF n])
  have 2: "list_all2 (\<lambda>r r'. \<exists>h. r' = r\<lparr>dn_Rule := h\<rparr>) news rules"
    using s
  proof
    assume "rules = news"
    moreover have "\<exists>h. r = r\<lparr>dn_Rule := h\<rparr>" for r :: dns_rule by (rule exI [of _ "dn_Rule r"]) simp
    ultimately show ?thesis by (simp add: list_all2_same)
  qed (auto dest: start_rules_all2)
  show "length rules = length raw" using list_all2_lengthD [OF 1] list_all2_lengthD [OF 2] by simp
  fix i assume i: "i < length raw"
  with list_all2_lengthD [OF 1] have "i < length news" by simp
  from list_all2_nthD [OF 1 i] list_all2_nthD [OF 2 this]
  show "\<exists>r h. NewDNSRule E (raw ! i) True legacy = Inr r \<and> rules ! i = r\<lparr>dn_Rule := h\<rparr>" by blast
qed

lemma legacy_mode_flags:
  assumes "resolveLegacyDNSMode router raw ov = Inr (True, flags)"
  shows "requirements_loop router 0 raw ov no_flags = Inr flags" "\<not> fl_disabled flags"
  using assms by (auto simp: resolveLegacyDNSMode_def dnsRuleModeRequirements_def rbind_Inr split: if_splits)

text \<open>
  C6. In the rules the router builds and starts, every response a rule matches on or answers with is asked for
  by an earlier rule, and by only one where it has a tag; in the legacy mode no rule has to do with
  responses at all.
\<close>

theorem built_responses_defined:
  assumes "buildRules E router manager raw start = Inr (rules, legacy, flags)" "list_all responses_wf raw"
  shows "responses_defined legacy rules"
  unfolding responses_defined_def
proof (intro allI impI)
  note parts = buildRules_parts [OF assms(1)]
  have len: "length rules = length raw" by (rule parts(3))
  have ev: "evaluates tag (rules ! j) \<longleftrightarrow> dnsRuleActionType (raw ! j) = ''evaluate'' \<and> dnsRuleActionEvaluateTag (raw ! j) = tag"
    if "j < length raw" for j tag
    using parts(4) [OF that] action_evaluates(1) by (auto simp: evaluates_def)
  fix i assume "i < length rules"
  then have i: "i < length raw" by (simp add: len)
  from parts(4) [OF i] obtain r h where r: "NewDNSRule E (raw ! i) True legacy = Inr r" "rules ! i = r\<lparr>dn_Rule := h\<rparr>" by blast
  have wf: "responses_wf (raw ! i)" using assms(2) i by (simp add: list_all_length)
  have same: "reads_nothing (rules ! i) = reads_nothing r" "responds (rules ! i) = responds r" "dn_race (rules ! i) = dn_race r"
    "evaluates tag (rules ! i) = evaluates tag r" "dn_matchResponseTags (rules ! i) = dn_matchResponseTags r"
    "dn_matchResponseAnonymous (rules ! i) = dn_matchResponseAnonymous r" for tag
    by (simp_all add: r(2) reads_nothing_def responds_def evaluates_def)
  show "if legacy then reads_nothing (rules ! i) \<and> \<not> responds (rules ! i) \<and> \<not> dn_race (rules ! i) \<and> (\<forall>tag. \<not> evaluates tag (rules ! i))
        else (\<forall>tag\<in>set (dn_matchResponseTags (rules ! i)).
             tag \<noteq> [] \<and> (\<exists>j<i. evaluates tag (rules ! j) \<and> (\<forall>k<length rules. evaluates tag (rules ! k) \<longrightarrow> k = j))) \<and>
          (dn_matchResponseAnonymous (rules ! i) \<longrightarrow> (\<exists>j<i. evaluates [] (rules ! j))) \<and>
          (responds (rules ! i) \<longrightarrow> length (dn_matchResponseTags (rules ! i)) = 1 \<or> (\<exists>j<i. evaluates [] (rules ! j)))"
  proof (cases legacy)
    case True
    with parts(1) have "resolveLegacyDNSMode router raw (\<lambda>_. None) = Inr (True, flags)" by simp
    from requirements_loop_each [OF legacy_mode_flags [OF this]] i obtain rf
      where "dnsRuleModeRequirementsInRule router (raw ! i) (\<lambda>_. None) = Inr rf" "\<not> fl_disabled rf"
      by (auto simp: list_all_length)
    with legacy_reads(1) [OF r(1) _ _ wf] legacy_actions [OF r(1)] True show ?thesis unfolding same by auto
  next
    case False
    from parts(2) [OF False] obtain v where "validate_loop router (\<lambda>_. None) 0 raw new_validation = Inr v" ..
    from validate_loop_ok [OF this] i obtain use where d: "distinct (defined_tags raw)"
      and u: "validateLegacyDNSModeDisabledRuleTree router (raw ! i) (\<lambda>_. None) = Inr use"
      "set (referencedTags use) \<subseteq> set (defined_tags (take i raw))"
      "needsAnonymous use \<longrightarrow> list_ex anonymous_evaluate (take i raw)" by (auto simp: new_validation_def)
    have anon: "\<exists>j<i. evaluates [] (rules ! j)" if "needsAnonymous use"
    proof -
      from u(3) that i obtain j where "j < i" "anonymous_evaluate (raw ! j)" by (auto simp: list_ex_length)
      with i ev [of j "[]"] show ?thesis by (auto simp: anonymous_evaluate_def)
    qed
    have tags: "tag \<noteq> [] \<and> (\<exists>j<i. evaluates tag (rules ! j) \<and> (\<forall>k<length rules. evaluates tag (rules ! k) \<longrightarrow> k = j))"
      if "tag \<in> set (referencedTags use)" for tag
    proof -
      have "tag \<in> set (defined_tags (take i raw))" using that u(2) by blast
      with i obtain j where j: "j < i" "tag \<noteq> []" "evaluates tag (rules ! j)" by (auto simp: in_defined_tags ev)
      have "k = j" if "k < length rules" "evaluates tag (rules ! k)" for k
        using defined_tags_unique [OF d, of tag j k] that j i len by (simp add: ev)
      with j show ?thesis by blast
    qed
    note rw = built_reads(1) [OF r(1) u(1) wf]
    have "responds r \<longrightarrow> length (dn_matchResponseTags r) = 1 \<or> (\<exists>j<i. evaluates [] (rules ! j))"
      using respond_reads [OF r(1) u(1)] action_evaluates(2) [OF r(1)] anon by blast
    moreover have "\<forall>tag\<in>set (dn_matchResponseTags r). tag \<in> set (referencedTags use)"
      "dn_matchResponseAnonymous r \<longrightarrow> needsAnonymous use" using rw by (auto simp: reads_within_def)
    ultimately show ?thesis unfolding same using False tags anon by simp
  qed
qed

definition ex_dns_rule_options :: "(bool \<times> string) option \<Rightarrow> string list \<Rightarrow> dns_rule_action_options \<Rightarrow> dns_rule_options" where
  "ex_dns_rule_options response sets action =
     DNSRuleOpts ''default'' (zero_dns_default_options\<lparr>dd_MatchResponse := response, mo_RuleSet := sets\<rparr>) action
       (DNSLogicalOpts [] [] False zero_dns_rule_action)"

definition ex_evaluate_rules :: "dns_rule_options list" where
  "ex_evaluate_rules =
     [ex_dns_rule_options None []
        (zero_dns_rule_action\<lparr>da_Action := ''evaluate'', da_EvaluateServer := ''local'', da_EvaluateTag := ''a''\<rparr>),
      ex_dns_rule_options (Some (True, ''a'')) [] (zero_dns_rule_action\<lparr>da_Action := ''respond''\<rparr>)]"

theorem built_responses_defined_witness:
  "\<exists>rules flags. buildRules example_env None None ex_evaluate_rules True = Inr (rules, False, flags) \<and>
     responses_defined False rules \<and> length rules = 2"
proof -
  have "case buildRules example_env None None ex_evaluate_rules True of
      Inl e \<Rightarrow> False | Inr (rules, legacy, flags) \<Rightarrow> \<not> legacy \<and> length rules = 2" by code_simp
  then obtain rules flags where b: "buildRules example_env None None ex_evaluate_rules True = Inr (rules, False, flags)"
    and l: "length rules = 2"
    by (cases "buildRules example_env None None ex_evaluate_rules True") auto
  have "list_all responses_wf ex_evaluate_rules" by code_simp
  from built_responses_defined [OF b this] b l show ?thesis by blast
qed

section \<open>Updates of rule-sets\<close>

text \<open>The checks see rule-sets only through their metadata.\<close>

definition same_metadata ::
  "(string \<rightharpoonup> rule_set) option \<Rightarrow> (string \<rightharpoonup> rule_set_metadata) \<Rightarrow> (string \<rightharpoonup> rule_set) option \<Rightarrow> (string \<rightharpoonup> rule_set_metadata) \<Rightarrow> bool"
where
  "same_metadata router ov router' ov' \<longleftrightarrow> (router = None \<longleftrightarrow> router' = None) \<and>
     (\<forall>tag. lookupDNSRuleSetMetadata router tag ov = lookupDNSRuleSetMetadata router' tag ov')"

lemma rule_set_requirements_cong:
  "same_metadata router ov router' ov' \<Longrightarrow> rule_set_requirements router ov src tags f = rule_set_requirements router' ov' src tags f"
  by (induction tags arbitrary: f) (simp_all add: same_metadata_def)

lemma pure_ip_sets_cong:
  "same_metadata router ov router' ov' \<Longrightarrow> pure_ip_sets router ov tags = pure_ip_sets router' ov' tags"
  by (induction tags) (simp_all add: same_metadata_def split: sum.split)

lemma default_checks_cong:
  assumes "same_metadata router ov router' ov'"
  shows "dnsRuleModeRequirementsInDefaultRule router d a ov = dnsRuleModeRequirementsInDefaultRule router' d a ov'"
    and "validateLegacyDNSModeDisabledDefaultRule router d a ov = validateLegacyDNSModeDisabledDefaultRule router' d a ov'"
  using assms rule_set_requirements_cong [OF assms] pure_ip_sets_cong [OF assms]
  by (simp_all add: dnsRuleModeRequirementsInDefaultRule_def validateLegacyDNSModeDisabledDefaultRule_def same_metadata_def
      Let_def del: not_None_eq)

lemma requirements_cong:
  "same_metadata router ov router' ov' \<Longrightarrow> dnsRuleModeRequirementsInRule router r ov = dnsRuleModeRequirementsInRule router' r ov'"
  "same_metadata router ov router' ov' \<Longrightarrow> logical_requirements router l ov = logical_requirements router' l ov'"
  "same_metadata router ov router' ov' \<Longrightarrow> sub_requirements router i rs ov f = sub_requirements router' i rs ov' f"
  by (induction router r ov and router l ov and router i rs ov f
      rule: dnsRuleModeRequirementsInRule_logical_requirements_sub_requirements.induct)
    (auto simp: default_checks_cong split: sum.split)

lemma tree_cong:
  "same_metadata router ov router' ov' \<Longrightarrow>
     validateLegacyDNSModeDisabledRuleTree router r ov = validateLegacyDNSModeDisabledRuleTree router' r ov'"
  "same_metadata router ov router' ov' \<Longrightarrow> validate_disabled_logical router l ov = validate_disabled_logical router' l ov'"
  "same_metadata router ov router' ov' \<Longrightarrow> validate_disabled_sub router i rs ov u = validate_disabled_sub router' i rs ov' u"
  by (induction router r ov and router l ov and router i rs ov u
      rule: validateLegacyDNSModeDisabledRuleTree_validate_disabled_logical_validate_disabled_sub.induct)
    (auto simp: default_checks_cong split: sum.split)

lemma requirements_loop_cong:
  "same_metadata router ov router' ov' \<Longrightarrow> requirements_loop router i rs ov f = requirements_loop router' i rs ov' f"
  by (induction rs arbitrary: i f) (simp_all add: requirements_cong(1) split: sum.split)

lemma validate_loop_cong:
  "same_metadata router ov router' ov' \<Longrightarrow> validate_loop router ov i rs v = validate_loop router' ov' i rs v"
  by (induction rs arbitrary: i v) (simp_all add: tree_cong(1) rbind_def split: sum.split)

lemma mode_cong:
  assumes "same_metadata router ov router' ov'"
  shows "resolveLegacyDNSMode router rs ov = resolveLegacyDNSMode router' rs ov'"
    and "validateLegacyDNSModeDisabledRules router rs ov = validateLegacyDNSModeDisabledRules router' rs ov'"
  using requirements_loop_cong [OF assms] validate_loop_cong [OF assms]
  by (simp_all add: resolveLegacyDNSMode_def dnsRuleModeRequirements_def validateLegacyDNSModeDisabledRules_def)

text \<open>
  C11. A running router accepts the new content of a rule-set exactly where the rules still fit the
  mode it runs in with that content in place: in the legacy mode no rule may rule that mode out, and in
  the newer mode the rules must not need the legacy one and must pass its checks.
\<close>

theorem metadata_update_exact:
  assumes "dr_started r" "\<not> dr_closing r" "dr_rawRules r \<noteq> []" "set_Metadata ruleSet = metadata"
  shows "ValidateRuleSetMetadataUpdate (Some sets) r tag metadata = None \<longleftrightarrow>
    (case resolveLegacyDNSMode (Some (sets(tag \<mapsto> ruleSet))) (dr_rawRules r) (\<lambda>_. None) of
       Inl e \<Rightarrow> False
     | Inr (legacyDNSMode, flags) \<Rightarrow>
         if dr_legacyDNSMode r then \<not> fl_disabled flags
         else \<not> legacyDNSMode \<and>
           is_ok (validateLegacyDNSModeDisabledRules (Some (sets(tag \<mapsto> ruleSet))) (dr_rawRules r) (\<lambda>_. None)))"
proof -
  have "same_metadata (Some sets) [tag \<mapsto> metadata] (Some (sets(tag \<mapsto> ruleSet))) (\<lambda>_. None)"
    using assms(4) by (auto simp: same_metadata_def lookupDNSRuleSetMetadata_def)
  note c = mode_cong [OF this, of "dr_rawRules r", symmetric]
  have l: "\<not> fl_disabled flags" if "resolveLegacyDNSMode router rs ov = Inr (True, flags)" for router rs ov flags
    using that by (auto simp: resolveLegacyDNSMode_def rbind_Inr split: if_splits)
  show ?thesis unfolding c ValidateRuleSetMetadataUpdate_def Let_def using assms(1-3) l
    by (auto simp: is_ok_iff split: sum.splits option.splits if_splits)
qed

definition ex_update_router :: dns_router where
  "ex_update_router = NewRouter\<lparr>dr_rawRules := [ex_dns_rule_options None [''cn'']
     (zero_dns_rule_action\<lparr>da_Action := ''route'', da_RouteServer := ''local''\<rparr>)], dr_started := True\<rparr>"

theorem metadata_update_exact_witness:
  "ValidateRuleSetMetadataUpdate (Some (\<lambda>_. None)) ex_update_router ''cn''
     (set_Metadata (RuleSet ''cn'' [] (ex_set_metadata\<lparr>ContainsIPCIDRRule := False\<rparr>))) = None \<and>
   ValidateRuleSetMetadataUpdate (Some (\<lambda>_. None)) ex_update_router ''cn''
     (set_Metadata (RuleSet ''cn'' [] (ex_set_metadata\<lparr>ContainsIPCIDRRule := True, ContainsDNSQueryTypeRule := False\<rparr>))) \<noteq> None"
proof -
  have r: "dr_started ex_update_router" "\<not> dr_closing ex_update_router" "dr_rawRules ex_update_router \<noteq> []" by code_simp+
  show ?thesis unfolding metadata_update_exact [OF r refl] by code_simp
qed

end
