(* ===== verification/Dns_Client.thy ===== *)
theory Dns_Client
  imports Rule_Action_Run
begin

text \<open>
  The DNS client (\<open>dns/client.go\<close>): asking a server for a message with a cache in memory in front, the
  time responses live, refreshing stale ones, and the rejected responses it remembers. Exchanges come
  one after the other: joining concurrent ones and the cache in a file are left out. Times are in
  nanoseconds. Servers are known by their tags; the contents of EDNS0 options and of SOA records are
  behind arguments.
\<close>

section \<open>Data\<close>

definition TypeA :: "16 word" where "TypeA = 1"
definition TypeCNAME :: "16 word" where "TypeCNAME = 5"
definition TypeAAAA :: "16 word" where "TypeAAAA = 28"
definition TypeOPT :: "16 word" where "TypeOPT = 41"
definition TypeHTTPS :: "16 word" where "TypeHTTPS = 65"
definition RcodeFormatError :: int where "RcodeFormatError = 1"
definition RcodeNameError :: int where "RcodeNameError = 3"

definition DomainStrategyPreferIPv6 :: nat where "DomainStrategyPreferIPv6 = 2"
definition DomainStrategyIPv4Only :: nat where "DomainStrategyIPv4Only = 3"
definition DomainStrategyIPv6Only :: nat where "DomainStrategyIPv6Only = 4"

definition second :: int where "second = 1000000000"

record dns_query_options =
  qo_Transport :: "string option"
  qo_Strategy :: nat
  qo_LookupStrategy :: nat
  qo_DisableCache :: bool
  qo_DisableOptimisticCache :: bool
  qo_RewriteTTL :: "32 word option"
  qo_Timeout :: int
  qo_ClientSubnet :: prefix
  qo_RemoveClientSubnet :: bool

record client_env =
  ce_SOAMinttl :: "dns_rr \<Rightarrow> 32 word option"
  ce_SetClientSubnet :: "dns_msg \<Rightarrow> prefix \<Rightarrow> dns_msg"
  ce_removeClientSubnet :: "dns_msg \<Rightarrow> dns_msg"
  ce_clientSubnetFromMessage :: "dns_msg \<Rightarrow> prefix"
  ce_subnetOptionsOnly :: "dns_rr \<Rightarrow> bool"
  ce_stripDNSPadding :: "dns_msg \<Rightarrow> dns_msg"
  ce_environmentHash :: "string \<Rightarrow> 64 word"
  ce_AddrFromIP :: "byte list \<Rightarrow> addr"
  ce_RcodeToString :: "int \<Rightarrow> string"
  ce_IsFqdn :: "string \<Rightarrow> bool"
  ce_Fqdn :: "string \<Rightarrow> string"
  ce_CanonicalName :: "string \<Rightarrow> string"

record dnsCacheKey =
  ck_Question :: dns_question
  ck_transportTag :: string
  ck_clientSubnet :: prefix
  ck_environment :: "64 word"

record dnsMsg =
  dm_ipv4Index :: "32 word"
  dm_ipv6Index :: "32 word"
  dm_msg :: dns_msg

text \<open>
  An entry of the cache has the time it expires at, none if it was added without one. The rejections
  remembered are those of \<open>RDRC\<close>, where there is such a store.
\<close>

record client =
  cl_timeout :: int
  cl_disableCache :: bool
  cl_disableExpire :: bool
  cl_optimisticTimeout :: int
  cl_roundRobinCache :: bool
  cl_minCacheTTL :: "32 word"
  cl_maxCacheTTL :: "32 word"
  cl_clientSubnet :: prefix
  cl_rdrc :: "(string \<times> string \<times> 16 word) list option"
  cl_cache :: "(dnsCacheKey \<rightharpoonup> dnsMsg \<times> int option) option"
  cl_backgroundRefresh :: "dnsCacheKey list"

record client_options =
  co_Timeout :: int
  co_DisableCache :: bool
  co_DisableExpire :: bool
  co_OptimisticTimeout :: int
  co_RoundRobinCache :: bool
  co_MinCacheTTL :: "32 word"
  co_MaxCacheTTL :: "32 word"
  co_ClientSubnet :: prefix
  co_RDRC :: bool

definition DNSTimeout :: int where "DNSTimeout = 10 * second"

text \<open>\<open>NewClient\<close> and \<open>Start\<close>, without a cache file for responses.\<close>

definition NewClient :: "client_options \<Rightarrow> client" where
  "NewClient options =
     \<lparr>cl_timeout = (if co_Timeout options = 0 then DNSTimeout else co_Timeout options),
      cl_disableCache = co_DisableCache options, cl_disableExpire = co_DisableExpire options,
      cl_optimisticTimeout = co_OptimisticTimeout options, cl_roundRobinCache = co_RoundRobinCache options,
      cl_minCacheTTL = co_MinCacheTTL options,
      cl_maxCacheTTL = (if co_MaxCacheTTL options > 0 \<and> co_MinCacheTTL options > co_MaxCacheTTL options
                        then co_MinCacheTTL options else co_MaxCacheTTL options),
      cl_clientSubnet = co_ClientSubnet options, cl_rdrc = (if co_RDRC options then Some [] else None),
      cl_cache = (if co_DisableCache options then None else Some (\<lambda>_. None)), cl_backgroundRefresh = []\<rparr>"

section \<open>Round robin\<close>

definition reverseRotateSlice :: "'a list \<Rightarrow> nat \<Rightarrow> 'a list" where
  "reverseRotateSlice xs steps =
     (if length xs \<le> 1 then xs
      else let s = steps mod length xs in drop (length xs - s) xs @ take (length xs - s) xs)"

definition removeAnswersOfType :: "dns_rr list \<Rightarrow> 16 word \<Rightarrow> dns_rr list" where
  "removeAnswersOfType answers rrType = filter (\<lambda>ans. rh_Rrtype (rr_Header ans) \<noteq> rrType) answers"

definition nextRotation :: "32 word \<Rightarrow> nat \<Rightarrow> 32 word" where
  "nextRotation previous len = (previous mod of_nat len + 1) mod of_nat len"

fun is_A :: "dns_rr \<Rightarrow> bool" where
  "is_A (RR_A h ip) = True"
| "is_A _ = False"

fun is_AAAA :: "dns_rr \<Rightarrow> bool" where
  "is_AAAA (RR_AAAA h ip) = True"
| "is_AAAA _ = False"

definition applyRoundRobin :: "dnsMsg \<Rightarrow> dns_msg \<Rightarrow> dns_msg \<times> dnsMsg" where
  "applyRoundRobin dm msg =
     (let ipv4Answers = filter is_A (msg_Answer msg); ipv6Answers = filter is_AAAA (msg_Answer msg);
          index4 = nextRotation (dm_ipv4Index dm) (length ipv4Answers);
          index6 = nextRotation (dm_ipv6Index dm) (length ipv6Answers);
          (msg1, dm1) = (if length ipv4Answers > 1
            then (msg\<lparr>msg_Answer := removeAnswersOfType (msg_Answer msg) TypeA @ reverseRotateSlice ipv4Answers (unat index4)\<rparr>,
                  dm\<lparr>dm_ipv4Index := index4\<rparr>)
            else (msg, dm))
      in if length ipv6Answers > 1
         then (msg1\<lparr>msg_Answer := removeAnswersOfType (msg_Answer msg1) TypeAAAA @ reverseRotateSlice ipv6Answers (unat index6)\<rparr>,
               dm1\<lparr>dm_ipv6Index := index6\<rparr>)
         else (msg1, dm1))"

definition getRoundRobin :: "client \<Rightarrow> dnsMsg \<Rightarrow> dns_msg \<times> dnsMsg" where
  "getRoundRobin c dm = (if cl_roundRobinCache c then applyRoundRobin dm (dm_msg dm) else (dm_msg dm, dm))"

section \<open>The time to live\<close>

fun extractNegativeTTL :: "client_env \<Rightarrow> dns_rr list \<Rightarrow> 32 word option" where
  "extractNegativeTTL E [] = None"
| "extractNegativeTTL E (r # rs) =
     (case ce_SOAMinttl E r of
        Some soaMinimum \<Rightarrow> Some (if rh_Ttl (rr_Header r) < soaMinimum then rh_Ttl (rr_Header r) else soaMinimum)
      | None \<Rightarrow> extractNegativeTTL E rs)"

fun lower_ttl :: "dns_rr list \<Rightarrow> 32 word \<Rightarrow> 32 word" where
  "lower_ttl [] timeToLive = timeToLive"
| "lower_ttl (r # rs) timeToLive =
     lower_ttl rs
       (if rh_Rrtype (rr_Header r) = TypeOPT then timeToLive
        else if timeToLive = 0 \<or> rh_Ttl (rr_Header r) > 0 \<and> rh_Ttl (rr_Header r) < timeToLive then rh_Ttl (rr_Header r)
        else timeToLive)"

definition computeTimeToLive :: "client_env \<Rightarrow> dns_msg \<Rightarrow> 32 word" where
  "computeTimeToLive E response =
     (case (if msg_Answer response = [] then extractNegativeTTL E (msg_Ns response) else None) of
        Some soaTTL \<Rightarrow> soaTTL
      | None \<Rightarrow> lower_ttl (msg_Answer response @ msg_Ns response @ msg_Extra response) 0)"

definition set_ttl :: "32 word \<Rightarrow> dns_rr \<Rightarrow> dns_rr" where
  "set_ttl timeToLive r =
     (if rh_Rrtype (rr_Header r) = TypeOPT then r else rr_with_Header ((rr_Header r)\<lparr>rh_Ttl := timeToLive\<rparr>) r)"

definition normalizeTTL :: "dns_msg \<Rightarrow> 32 word \<Rightarrow> dns_msg" where
  "normalizeTTL response timeToLive =
     response\<lparr>msg_Answer := map (set_ttl timeToLive) (msg_Answer response),
              msg_Ns := map (set_ttl timeToLive) (msg_Ns response),
              msg_Extra := map (set_ttl timeToLive) (msg_Extra response)\<rparr>"

definition strip_hints :: "nat \<Rightarrow> dns_rr \<Rightarrow> dns_rr" where
  "strip_hints strategy r =
     (case r of
        RR_HTTPS h vs \<Rightarrow>
          RR_HTTPS h (filter (\<lambda>v. case v of
              SVCBIPv4Hint _ \<Rightarrow> strategy = DomainStrategyIPv4Only
            | SVCBIPv6Hint _ \<Rightarrow> strategy \<noteq> DomainStrategyIPv4Only
            | SVCBOther \<Rightarrow> True) vs)
      | _ \<Rightarrow> r)"

definition applyResponseOptions ::
  "client_env \<Rightarrow> client \<Rightarrow> dns_question \<Rightarrow> dns_msg \<Rightarrow> dns_query_options \<Rightarrow> dns_msg \<times> 32 word" where
  "applyResponseOptions E c question response options =
     (let response1 = (if q_Qtype question = TypeHTTPS \<and>
                          (qo_Strategy options = DomainStrategyIPv4Only \<or> qo_Strategy options = DomainStrategyIPv6Only)
                       then response\<lparr>msg_Answer := map (strip_hints (qo_Strategy options)) (msg_Answer response)\<rparr>
                       else response);
          ttl1 = max (computeTimeToLive E response1) (cl_minCacheTTL c);
          ttl2 = (if cl_maxCacheTTL c > 0 then min ttl1 (cl_maxCacheTTL c) else ttl1);
          ttl3 = (case qo_RewriteTTL options of Some ttl \<Rightarrow> ttl | None \<Rightarrow> ttl2)
      in (normalizeTTL response1 ttl3, ttl3))"

section \<open>The cache\<close>

definition newCacheKey :: "client_env \<Rightarrow> client \<Rightarrow> string \<Rightarrow> dns_question \<Rightarrow> dns_msg \<Rightarrow> dns_query_options \<Rightarrow> dnsCacheKey" where
  "newCacheKey E c transport question message options =
     \<lparr>ck_Question = question, ck_transportTag = transport,
      ck_clientSubnet =
        (if qo_RemoveClientSubnet options then PrefixZero
         else if prefix_IsValid (qo_ClientSubnet options) then qo_ClientSubnet options
         else if prefix_IsValid (cl_clientSubnet c) then cl_clientSubnet c
         else ce_clientSubnetFromMessage E message),
      ck_environment = ce_environmentHash E transport\<rparr>"

definition finishCacheKey :: "client_env \<Rightarrow> string \<Rightarrow> dnsCacheKey \<Rightarrow> dnsCacheKey option" where
  "finishCacheKey E transport key =
     (let environment = ce_environmentHash E transport in
      if environment = ck_environment key \<or> ck_environment key = 0 then Some (key\<lparr>ck_environment := environment\<rparr>) else None)"

definition storeCache :: "int \<Rightarrow> dnsCacheKey \<Rightarrow> dns_msg \<Rightarrow> 32 word \<Rightarrow> client \<Rightarrow> client" where
  "storeCache now key message timeToLive c =
     (if timeToLive = 0 then c
      else case cl_cache c of
        None \<Rightarrow> c
      | Some cache \<Rightarrow>
          c\<lparr>cl_cache := Some (cache(key \<mapsto> (\<lparr>dm_ipv4Index = 0, dm_ipv6Index = 0, dm_msg = message\<rparr>,
             if cl_disableExpire c then None else Some (now + uint timeToLive * second))))\<rparr>)"

text \<open>The cached response, the seconds it has left, and whether it is stale.\<close>

definition loadResponse :: "int \<Rightarrow> dnsCacheKey \<Rightarrow> client \<Rightarrow> (dns_msg \<times> int \<times> bool) option \<times> client" where
  "loadResponse now key c =
     (case cl_cache c of
        None \<Rightarrow> (None, c)
      | Some cache \<Rightarrow>
          (case cache key of
             None \<Rightarrow> (None, c)
           | Some (cached, expireAt) \<Rightarrow>
               let (response, cached') = getRoundRobin c cached;
                   c' = c\<lparr>cl_cache := Some (cache(key \<mapsto> (cached', expireAt)))\<rparr> in
               (case (if cl_disableExpire c then None else expireAt) of
                  None \<Rightarrow> (Some (response, 0, False), c')
                | Some t \<Rightarrow>
                    if now > t then
                      if cl_optimisticTimeout c > 0 \<and> now < t + cl_optimisticTimeout c
                      then (Some (normalizeTTL response 1, 0, True), c')
                      else (None, c\<lparr>cl_cache := Some (cache(key := None))\<rparr>)
                    else let nowTTL = max ((t - now) div second) 0
                         in (Some (normalizeTTL response (word_of_int nowTTL), nowTTL, False), c'))))"

definition ClearCache :: "client \<Rightarrow> client" where
  "ClearCache c = c\<lparr>cl_cache := map_option (\<lambda>_ _. None) (cl_cache c)\<rparr>"

section \<open>Exchange\<close>

text \<open>What a server answers: a message, an error that is a response code, or another error.\<close>

datatype transport_answer = Answered dns_msg | AnsweredRcode int | TransportFailed error

type_synonym checker = "dns_msg \<Rightarrow> bool"

record exchangeOperation =
  eo_message :: dns_msg
  eo_question :: dns_question
  eo_messageId :: "16 word"
  eo_options :: dns_query_options
  eo_responseChecker :: "checker option"
  eo_disableCache :: bool
  eo_cacheKey :: dnsCacheKey

text \<open>A refresh that was put in the background.\<close>

record refresh =
  rf_transport :: string
  rf_key :: dnsCacheKey
  rf_message :: dns_msg
  rf_options :: dns_query_options
  rf_responseChecker :: "checker option"

datatype exchange_begin =
    ExchangeReady exchangeOperation
  | ExchangeDone "dns_msg option" "error option" "refresh option"

definition ErrResponseRejected :: error where
  "ErrResponseRejected = E_New ''response rejected''"

definition ErrResponseRejectedCached :: error where
  "ErrResponseRejectedCached = E_Extend ErrResponseRejected ''cached''"

definition FixedResponseStatus :: "dns_msg \<Rightarrow> int \<Rightarrow> dns_msg" where
  "FixedResponseStatus message rcode =
     \<lparr>msg_Id = msg_Id message, msg_Response = True, msg_Authoritative = True, msg_RecursionDesired = True,
      msg_RecursionAvailable = True, msg_Rcode = rcode, msg_Question = msg_Question message, msg_Answer = [],
      msg_Ns = [], msg_Extra = []\<rparr>"

definition prepareExchangeMessage :: "client_env \<Rightarrow> client \<Rightarrow> dns_msg \<Rightarrow> dns_query_options \<Rightarrow> dns_msg" where
  "prepareExchangeMessage E c message options =
     (if qo_RemoveClientSubnet options then ce_removeClientSubnet E message
      else let clientSubnet = (if prefix_IsValid (qo_ClientSubnet options) then qo_ClientSubnet options else cl_clientSubnet c)
           in if prefix_IsValid clientSubnet then ce_SetClientSubnet E message clientSubnet else message)"

definition isSimpleRequest :: "client_env \<Rightarrow> dns_msg \<Rightarrow> bool" where
  "isSimpleRequest E message =
     (length (msg_Question message) = 1 \<and> msg_Ns message = [] \<and>
      (case msg_Extra message of
         [] \<Rightarrow> True
       | [opt] \<Rightarrow> rh_Rrtype (rr_Header opt) = TypeOPT \<and> rh_Class (rr_Header opt) > 0 \<and> rh_Ttl (rr_Header opt) = 0 \<and>
           ce_subnetOptionsOnly E opt
       | _ \<Rightarrow> False))"

text \<open>A response from the cache, a stale one with a refresh unless one is already under way.\<close>

definition serve_cached :: "refresh \<Rightarrow> dns_msg \<Rightarrow> bool \<Rightarrow> client \<Rightarrow> exchange_begin \<times> client" where
  "serve_cached r response isStale c =
     (let answer = Some (response\<lparr>msg_Id := msg_Id (rf_message r)\<rparr>) in
      if isStale \<and> \<not> List.member (cl_backgroundRefresh c) (rf_key r)
      then (ExchangeDone answer None (Some r), c\<lparr>cl_backgroundRefresh := rf_key r # cl_backgroundRefresh c\<rparr>)
      else (ExchangeDone answer None None, c))"

text \<open>\<open>within\<close> is the server in whose name the question is asked.\<close>

definition go_on :: "string option \<Rightarrow> string \<Rightarrow> exchangeOperation \<Rightarrow> client \<Rightarrow> exchange_begin" where
  "go_on within transport operation c =
     (if within = Some transport
      then ExchangeDone None (Some (E_New (''DNS query loopback in transport['' @ transport @ '']''))) None
      else if \<not> eo_disableCache operation \<and> eo_responseChecker operation \<noteq> None \<and>
        (case cl_rdrc c of
           None \<Rightarrow> False
         | Some rejected \<Rightarrow>
             List.member rejected (transport, q_Name (eo_question operation), q_Qtype (eo_question operation)))
      then ExchangeDone None (Some ErrResponseRejectedCached) None
      else ExchangeReady operation)"

text \<open>\<open>beginExchange\<close>; \<open>cancelled\<close> is the error of a context that ended.\<close>

definition beginExchange ::
  "client_env \<Rightarrow> int \<Rightarrow> error option \<Rightarrow> string option \<Rightarrow> string \<Rightarrow> dns_msg \<Rightarrow> dns_query_options \<Rightarrow> checker option \<Rightarrow> client \<Rightarrow>
   exchange_begin \<times> client" where
  "beginExchange E now cancelled within transport message options responseChecker c =
     (if cancelled \<noteq> None then (ExchangeDone None cancelled None, c)
      else case msg_Question message of
        [] \<Rightarrow> (ExchangeDone (Some (FixedResponseStatus message RcodeFormatError)) None None, c)
      | question # _ \<Rightarrow>
          if q_Qtype question = TypeA \<and> qo_Strategy options = DomainStrategyIPv6Only \<or>
             q_Qtype question = TypeAAAA \<and> qo_Strategy options = DomainStrategyIPv4Only
          then (ExchangeDone (Some (FixedResponseStatus message RcodeSuccess)) None None, c)
          else
            let message' = prepareExchangeMessage E c message options;
                disableCache = (\<not> isSimpleRequest E message \<or> cl_disableCache c \<or> qo_DisableCache options);
                cacheKey = newCacheKey E c transport question message' options;
                operation = \<lparr>eo_message = message', eo_question = question, eo_messageId = msg_Id message', eo_options = options,
                  eo_responseChecker = responseChecker, eo_disableCache = disableCache, eo_cacheKey = cacheKey\<rparr>;
                (loaded, c1) = (if disableCache then (None, c) else loadResponse now cacheKey c)
            in case loaded of
                 None \<Rightarrow> (go_on within transport operation c1, c1)
               | Some (response, ttl, isStale) \<Rightarrow>
                   if isStale \<and> qo_DisableOptimisticCache options then (go_on within transport operation c1, c1)
                   else serve_cached \<lparr>rf_transport = transport, rf_key = cacheKey, rf_message = message', rf_options = options,
                          rf_responseChecker = responseChecker\<rparr> response isStale c1)"

definition cacheable :: "dns_msg \<Rightarrow> bool" where
  "cacheable response = (msg_Rcode response = RcodeSuccess \<or> msg_Rcode response = RcodeNameError)"

definition is_rejected :: "checker option \<Rightarrow> dns_msg \<Rightarrow> bool" where
  "is_rejected responseChecker response =
     (case responseChecker of None \<Rightarrow> False | Some check \<Rightarrow> \<not> cacheable response \<or> \<not> check response)"

definition SaveRDRC :: "string \<Rightarrow> dns_question \<Rightarrow> client \<Rightarrow> client" where
  "SaveRDRC transport question c =
     c\<lparr>cl_rdrc := map_option (\<lambda>rejected. (transport, q_Name question, q_Qtype question) # rejected) (cl_rdrc c)\<rparr>"

text \<open>The last \<open>OPT\<close> record of a message, its version, and one made of a size and the \<open>DO\<close> bit.\<close>

definition IsEdns0 :: "dns_msg \<Rightarrow> rr_header option" where
  "IsEdns0 m = map_option rr_Header (find (\<lambda>r. rh_Rrtype (rr_Header r) = TypeOPT) (rev (msg_Extra m)))"

definition edns_version :: "rr_header \<Rightarrow> nat" where
  "edns_version h = unat (rh_Ttl h) div 65536 mod 256"

definition edns_do :: "rr_header \<Rightarrow> bool" where
  "edns_do h = (unat (rh_Ttl h) div 32768 mod 2 = 1)"

definition edns_record :: "16 word \<Rightarrow> bool \<Rightarrow> dns_rr" where
  "edns_record udpsize dnssec =
     RR_Other \<lparr>rh_Name = ''.'', rh_Rrtype = TypeOPT, rh_Class = udpsize, rh_Ttl = (if dnssec then 32768 else 0)\<rparr> []"

definition match_edns :: "dns_msg \<Rightarrow> dns_msg \<Rightarrow> dns_msg" where
  "match_edns request response =
     (case IsEdns0 response of
        None \<Rightarrow> response
      | Some opt \<Rightarrow>
          let stripped = filter (\<lambda>r. rh_Rrtype (rr_Header r) \<noteq> TypeOPT) (msg_Extra response) in
          (case IsEdns0 request of
             None \<Rightarrow> response\<lparr>msg_Extra := stripped\<rparr>
           | Some requested \<Rightarrow>
               if edns_version requested < edns_version opt
               then response\<lparr>msg_Extra := stripped @ [edns_record (rh_Class opt) (edns_do opt)]\<rparr>
               else response))"

definition finishExchange ::
  "client_env \<Rightarrow> int \<Rightarrow> string \<Rightarrow> exchangeOperation \<Rightarrow> dns_msg \<Rightarrow> client \<Rightarrow> (dns_msg option \<times> error option) \<times> client" where
  "finishExchange E now transport operation response c =
     (let disableCache = (eo_disableCache operation \<or> \<not> cacheable response) in
      if is_rejected (eo_responseChecker operation) response
      then ((Some response, Some ErrResponseRejected),
            if \<not> disableCache then SaveRDRC transport (eo_question operation) c else c)
      else
        let (response1, timeToLive) = applyResponseOptions E c (eo_question operation) response (eo_options operation);
            c1 = (if disableCache then c
                  else case finishCacheKey E transport (eo_cacheKey operation) of
                    None \<Rightarrow> c
                  | Some key \<Rightarrow> storeCache now key response1 timeToLive c)
        in ((Some (match_edns (eo_message operation) (response1\<lparr>msg_Id := eo_messageId operation\<rparr>)), None), c1))"

definition exchangeToTransport :: "client_env \<Rightarrow> dns_msg \<Rightarrow> transport_answer \<Rightarrow> dns_msg res" where
  "exchangeToTransport E message answer =
     (case answer of
        Answered response \<Rightarrow> Inr (ce_stripDNSPadding E response)
      | AnsweredRcode rcode \<Rightarrow> Inr (FixedResponseStatus message rcode)
      | TransportFailed e \<Rightarrow> Inl e)"

text \<open>
  \<open>Exchange\<close>, and with it \<open>ExchangeAsync\<close>, whose callback gets the same: begun at \<open>now\<close>, answered at
  \<open>later\<close>.
\<close>

definition client_Exchange ::
  "client_env \<Rightarrow> int \<Rightarrow> int \<Rightarrow> (string \<Rightarrow> dns_msg \<Rightarrow> transport_answer) \<Rightarrow> error option \<Rightarrow> string option \<Rightarrow> string \<Rightarrow> dns_msg \<Rightarrow>
   dns_query_options \<Rightarrow> checker option \<Rightarrow> client \<Rightarrow> (dns_msg option \<times> error option) \<times> refresh option \<times> client" where
  "client_Exchange E now later ask cancelled within transport message options responseChecker c =
     (let options' = (if qo_Timeout options = 0 then options\<lparr>qo_Timeout := cl_timeout c\<rparr> else options) in
      case beginExchange E now cancelled within transport message options' responseChecker c of
        (ExchangeDone response err r, c1) \<Rightarrow> ((response, err), r, c1)
      | (ExchangeReady operation, c1) \<Rightarrow>
          (case exchangeToTransport E (eo_message operation) (ask transport (eo_message operation)) of
             Inl e \<Rightarrow> ((None, Some e), None, c1)
           | Inr response \<Rightarrow>
               (case finishExchange E later transport operation response c1 of (answer, c2) \<Rightarrow> (answer, None, c2))))"

text \<open>The refresh in the background, once the server has answered.\<close>

definition backgroundRefreshDNS ::
  "client_env \<Rightarrow> int \<Rightarrow> (string \<Rightarrow> dns_msg \<Rightarrow> transport_answer) \<Rightarrow> refresh \<Rightarrow> client \<Rightarrow> client" where
  "backgroundRefreshDNS E later ask r c =
     (let c0 = c\<lparr>cl_backgroundRefresh := remove1 (rf_key r) (cl_backgroundRefresh c)\<rparr> in
      case exchangeToTransport E (rf_message r) (ask (rf_transport r) (rf_message r)) of
        Inl e \<Rightarrow> c0
      | Inr response \<Rightarrow>
          if is_rejected (rf_responseChecker r) response then SaveRDRC (rf_transport r) (ck_Question (rf_key r)) c0
          else if rf_responseChecker r = None \<and> \<not> cacheable response then c0
          else case finishCacheKey E (rf_transport r) (rf_key r) of
            None \<Rightarrow> c0
          | Some key \<Rightarrow>
              (case applyResponseOptions E c (ck_Question (rf_key r)) response (rf_options r) of
                 (response1, timeToLive) \<Rightarrow> storeCache later key response1 timeToLive c0))"

section \<open>Lookup\<close>

definition option_list :: "'a option \<Rightarrow> 'a list" where
  "option_list x = (case x of None \<Rightarrow> [] | Some a \<Rightarrow> [a])"

definition sortAddresses :: "addr list \<Rightarrow> addr list \<Rightarrow> nat \<Rightarrow> addr list" where
  "sortAddresses response4 response6 strategy =
     (if strategy = DomainStrategyPreferIPv6 then response6 @ response4 else response4 @ response6)"

definition FqdnToDomain :: "client_env \<Rightarrow> string \<Rightarrow> string" where
  "FqdnToDomain E fqdn = (if ce_IsFqdn E fqdn then butlast fqdn else fqdn)"

definition RcodeError :: "client_env \<Rightarrow> int \<Rightarrow> error" where
  "RcodeError E rcode = E_New (ce_RcodeToString E rcode)"

definition question_message :: "string \<Rightarrow> 16 word \<Rightarrow> dns_msg" where
  "question_message name qType =
     \<lparr>msg_Id = 0, msg_Response = False, msg_Authoritative = False, msg_RecursionDesired = True, msg_RecursionAvailable = False,
      msg_Rcode = 0, msg_Question = [\<lparr>q_Name = name, q_Qtype = qType, q_Qclass = 1\<rparr>], msg_Answer = [], msg_Ns = [], msg_Extra = []\<rparr>"

definition response_addresses :: "client_env \<Rightarrow> dns_msg \<Rightarrow> addr list \<times> error option" where
  "response_addresses E response =
     (if msg_Rcode response \<noteq> RcodeSuccess then ([], Some (RcodeError E (msg_Rcode response)))
      else (DNSResponseAddresses (ce_AddrFromIP E) (Some response), None))"

text \<open>\<open>questionCache\<close>; \<open>None\<close> where the code answers \<open>ErrNotCached\<close>.\<close>

definition questionCache ::
  "client_env \<Rightarrow> int \<Rightarrow> string \<Rightarrow> dns_msg \<Rightarrow> dns_question \<Rightarrow> dns_query_options \<Rightarrow> checker option \<Rightarrow> client \<Rightarrow>
   (addr list \<times> error option) option \<times> refresh option \<times> client" where
  "questionCache E now transport message question options responseChecker c =
     (let cacheKey = newCacheKey E c transport question message options;
          (loaded, c1) = loadResponse now cacheKey c
      in case loaded of
           None \<Rightarrow> (None, None, c1)
         | Some (response, ttl, isStale) \<Rightarrow>
             if isStale \<and> qo_DisableOptimisticCache options then (None, None, c1)
             else if isStale \<and> \<not> List.member (cl_backgroundRefresh c1) cacheKey
             then (Some (response_addresses E response),
                   Some \<lparr>rf_transport = transport, rf_key = cacheKey, rf_message = prepareExchangeMessage E c1 message options,
                         rf_options = options, rf_responseChecker = responseChecker\<rparr>,
                   c1\<lparr>cl_backgroundRefresh := cacheKey # cl_backgroundRefresh c1\<rparr>)
             else (Some (response_addresses E response), None, c1))"

definition lookupToExchange ::
  "client_env \<Rightarrow> int \<Rightarrow> int \<Rightarrow> (string \<Rightarrow> dns_msg \<Rightarrow> transport_answer) \<Rightarrow> error option \<Rightarrow> string option \<Rightarrow> string \<Rightarrow> string \<Rightarrow>
   16 word \<Rightarrow> dns_query_options \<Rightarrow> checker option \<Rightarrow> client \<Rightarrow> (addr list \<times> error option) \<times> refresh option \<times> client" where
  "lookupToExchange E now later ask cancelled within transport name qType options responseChecker c =
     (let message = question_message name qType;
          (cached, r, c1) = (if cl_disableCache c \<or> qo_DisableCache options then (None, None, c)
            else questionCache E now transport message (hd (msg_Question message)) options responseChecker c)
      in case cached of
           Some answer \<Rightarrow> (answer, r, c1)
         | None \<Rightarrow>
             (case client_Exchange E now later ask cancelled within transport message options responseChecker c1 of
                ((_, Some e), r', c2) \<Rightarrow> (([], Some e), r', c2)
              | ((None, None), r', c2) \<Rightarrow> (([], Some (E_Panic ''nil pointer dereference'')), r', c2)
              | ((Some response, None), r', c2) \<Rightarrow> (response_addresses E response, r', c2)))"

text \<open>The errors of two tasks are joined.\<close>

definition lookup_errors :: "error option \<Rightarrow> error option \<Rightarrow> error option" where
  "lookup_errors e1 e2 =
     (case (e1, e2) of (Some a, Some b) \<Rightarrow> Some (E_CauseErr a b) | (Some a, None) \<Rightarrow> Some a | (None, e) \<Rightarrow> e)"

text \<open>\<open>Lookup\<close>; the two questions of the group are asked one after the other.\<close>

definition client_Lookup ::
  "client_env \<Rightarrow> int \<Rightarrow> int \<Rightarrow> (string \<Rightarrow> dns_msg \<Rightarrow> transport_answer) \<Rightarrow> error option \<Rightarrow> string option \<Rightarrow> string \<Rightarrow> string \<Rightarrow>
   dns_query_options \<Rightarrow> checker option \<Rightarrow> client \<Rightarrow> (addr list \<times> error option) \<times> refresh list \<times> client" where
  "client_Lookup E now later ask cancelled within transport domain options responseChecker c =
     (let dnsName = ce_Fqdn E (FqdnToDomain E domain);
          strategy = (if qo_LookupStrategy options \<noteq> 0 then qo_LookupStrategy options else qo_Strategy options);
          lookupOptions = (if qo_LookupStrategy options \<noteq> 0 then options\<lparr>qo_Strategy := strategy\<rparr> else options);
          one = (\<lambda>qType c. lookupToExchange E now later ask cancelled within transport dnsName qType lookupOptions responseChecker c)
      in if strategy = DomainStrategyIPv4Only then (case one TypeA c of (answer, r, c1) \<Rightarrow> (answer, option_list r, c1))
         else if strategy = DomainStrategyIPv6Only then (case one TypeAAAA c of (answer, r, c1) \<Rightarrow> (answer, option_list r, c1))
         else case one TypeA c of ((as4, e4), r4, c1) \<Rightarrow>
           (case one TypeAAAA c1 of ((as6, e6), r6, c2) \<Rightarrow>
              let response4 = (if e4 = None then as4 else []); response6 = (if e6 = None then as6 else []) in
              (if response4 = [] \<and> response6 = [] then ([], lookup_errors e4 e6)
               else (sortAddresses response4 response6 strategy, None), option_list r4 @ option_list r6, c2)))"

definition ContextWithAliasResolution :: "client_env \<Rightarrow> string list \<Rightarrow> string \<Rightarrow> string \<Rightarrow> string list option" where
  "ContextWithAliasResolution E chain source target =
     (let s = ce_CanonicalName E source; t = ce_CanonicalName E target in
      if s = t \<or> List.member chain t then None else Some (t # s # chain))"

end
