(* ===== verification/Dns_Client_Props.thy ===== *)
theory Dns_Client_Props
  imports Dns_Client Rule_Examples
begin

text \<open>Properties of the DNS client: where its answers come from, how long they live, and their rotation.\<close>

section \<open>Where answers come from\<close>

text \<open>What servers answered: when, who, to which question, and what.\<close>

type_synonym answer_log = "(int \<times> string \<times> dns_question \<times> dns_msg) list"

definition same_config :: "client \<Rightarrow> client \<Rightarrow> bool" where
  "same_config c c' \<longleftrightarrow> cl_minCacheTTL c' = cl_minCacheTTL c \<and> cl_maxCacheTTL c' = cl_maxCacheTTL c \<and>
     cl_disableExpire c' = cl_disableExpire c \<and> cl_roundRobinCache c' = cl_roundRobinCache c \<and>
     cl_optimisticTimeout c' = cl_optimisticTimeout c"

definition entry_ok :: "client_env \<Rightarrow> client \<Rightarrow> answer_log \<Rightarrow> dnsCacheKey \<Rightarrow> dnsMsg \<times> int option \<Rightarrow> bool" where
  "entry_ok E c log key entry \<longleftrightarrow>
     (\<exists>t response options. (t, ck_transportTag key, ck_Question key, response) \<in> set log \<and> cacheable response \<and>
        dm_msg (fst entry) = fst (applyResponseOptions E c (ck_Question key) response options) \<and>
        snd entry = (if cl_disableExpire c then None
                     else Some (t + uint (snd (applyResponseOptions E c (ck_Question key) response options)) * second)))"

definition cache_ok :: "client_env \<Rightarrow> answer_log \<Rightarrow> client \<Rightarrow> bool" where
  "cache_ok E log c \<longleftrightarrow> (\<forall>cache key entry. cl_cache c = Some cache \<longrightarrow> cache key = Some entry \<longrightarrow> entry_ok E c log key entry)"

lemma applyResponseOptions_config:
  "same_config c c' \<Longrightarrow> applyResponseOptions E c' q r options = applyResponseOptions E c q r options"
  unfolding applyResponseOptions_def same_config_def by (elim conjE) (simp only:)

lemma entry_ok_config: "same_config c c' \<Longrightarrow> entry_ok E c' log key entry = entry_ok E c log key entry"
  using applyResponseOptions_config [of c c' E] by (auto simp: entry_ok_def same_config_def)

lemma entry_ok_mono: "entry_ok E c log key entry \<Longrightarrow> set log \<subseteq> set log' \<Longrightarrow> entry_ok E c log' key entry"
  unfolding entry_ok_def by blast

lemma entry_ok_msg: "dm_msg dm' = dm_msg dm \<Longrightarrow> entry_ok E c log key (dm', t) = entry_ok E c log key (dm, t)"
  by (simp add: entry_ok_def)

lemma cache_ok_mono: "cache_ok E log c \<Longrightarrow> set log \<subseteq> set log' \<Longrightarrow> cache_ok E log' c"
  unfolding cache_ok_def using entry_ok_mono by blast

lemma same_config_refl [simp]: "same_config c c"
  by (simp add: same_config_def)

lemma same_config_trans: "same_config a b \<Longrightarrow> same_config b c \<Longrightarrow> same_config a c"
  by (simp add: same_config_def)

lemma cache_ok_same: "cl_cache c' = cl_cache c \<Longrightarrow> same_config c c' \<Longrightarrow> cache_ok E log c' = cache_ok E log c"
  by (simp add: cache_ok_def entry_ok_config)

lemma getRoundRobin_msg: "dm_msg (snd (getRoundRobin c dm)) = dm_msg dm"
  by (auto simp: getRoundRobin_def applyRoundRobin_def Let_def)

lemma loadResponse_cases:
  assumes "loadResponse now key c = (loaded, c')"
  shows "same_config c c' \<and> cl_rdrc c' = cl_rdrc c \<and> cl_backgroundRefresh c' = cl_backgroundRefresh c \<and> (cache_ok E log c \<longrightarrow> cache_ok E log c')"
proof -
  have "same_config c c' \<and> cl_rdrc c' = cl_rdrc c \<and> cl_backgroundRefresh c' = cl_backgroundRefresh c"
    using assms by (auto simp: loadResponse_def same_config_def Let_def split: option.splits prod.splits if_splits)
  moreover have "cache_ok E log c'" if ok: "cache_ok E log c"
  proof (cases "cl_cache c")
    case None
    with assms ok show ?thesis by (simp add: loadResponse_def)
  next
    case (Some cache)
    show ?thesis
    proof (cases "cache key")
      case None
      with assms ok Some show ?thesis by (simp add: loadResponse_def)
    next
      case (Some entry)
      obtain dm e where entry: "entry = (dm, e)" by (cases entry)
      from assms \<open>cl_cache c = Some cache\<close> Some entry
      consider "c' = c\<lparr>cl_cache := Some (cache(key \<mapsto> (snd (getRoundRobin c dm), e)))\<rparr>" | "c' = c\<lparr>cl_cache := Some (cache(key := None))\<rparr>"
        by (auto simp: loadResponse_def Let_def split: option.splits prod.splits if_splits)
      then show ?thesis
      proof cases
        case 1
        have "same_config c c'" by (simp add: 1 same_config_def)
        moreover have "entry_ok E c log key (snd (getRoundRobin c dm), e)"
          using ok \<open>cl_cache c = Some cache\<close> Some entry entry_ok_msg [OF getRoundRobin_msg]
          by (auto simp: cache_ok_def)
        ultimately show ?thesis using ok \<open>cl_cache c = Some cache\<close>
          by (auto simp: cache_ok_def 1 entry_ok_config)
      next
        case 2
        have "same_config c c'" by (simp add: 2 same_config_def)
        then show ?thesis using ok \<open>cl_cache c = Some cache\<close> by (auto simp: cache_ok_def 2 entry_ok_config)
      qed
    qed
  qed
  ultimately show ?thesis by blast
qed

text \<open>A loaded response is one a server gave, within its time.\<close>

definition from_cache ::
  "client_env \<Rightarrow> client \<Rightarrow> answer_log \<Rightarrow> int \<Rightarrow> string \<Rightarrow> dns_question \<Rightarrow> bool \<Rightarrow> dns_msg \<Rightarrow> bool" where
  "from_cache E c log now transport question isStale r \<longleftrightarrow>
     (\<exists>t response options dm. (t, transport, question, response) \<in> set log \<and> cacheable response \<and>
        dm_msg dm = fst (applyResponseOptions E c question response options) \<and>
        (let expireAt = t + uint (snd (applyResponseOptions E c question response options)) * second;
             served = fst (getRoundRobin c dm)
         in if cl_disableExpire c then r = served \<and> \<not> isStale
            else if now \<le> expireAt then r = normalizeTTL served (word_of_int ((expireAt - now) div second)) \<and> \<not> isStale
            else now < expireAt + cl_optimisticTimeout c \<and> r = normalizeTTL served 1 \<and> isStale))"

lemma loadResponse_origin:
  assumes "loadResponse now key c = (Some (r, ttl, isStale), c')" "cache_ok E log c"
  shows "from_cache E c log now (ck_transportTag key) (ck_Question key) isStale r"
proof -
  from assms(1) obtain cache dm e where c: "cl_cache c = Some cache" "cache key = Some (dm, e)"
    by (auto simp: loadResponse_def split: option.splits)
  with assms(2) have "entry_ok E c log key (dm, e)" by (simp add: cache_ok_def)
  then obtain t response options where e: "(t, ck_transportTag key, ck_Question key, response) \<in> set log" "cacheable response"
    "dm_msg dm = fst (applyResponseOptions E c (ck_Question key) response options)"
    "e = (if cl_disableExpire c then None
          else Some (t + uint (snd (applyResponseOptions E c (ck_Question key) response options)) * second))"
    by (auto simp: entry_ok_def)
  show ?thesis
    unfolding from_cache_def Let_def
    by (rule exI [of _ t], rule exI [of _ response], rule exI [of _ options], rule exI [of _ dm])
      (use assms(1) c e in \<open>auto simp: loadResponse_def Let_def second_def pos_imp_zdiv_nonneg_iff split: prod.splits if_splits\<close>)
qed

lemma storeCache_ok:
  assumes "cache_ok E log c" "(t, ck_transportTag key, ck_Question key, response) \<in> set log" "cacheable response"
    "applyResponseOptions E c (ck_Question key) response options = (m, ttl)"
  shows "cache_ok E log (storeCache t key m ttl c) \<and> same_config c (storeCache t key m ttl c)"
proof (cases "ttl = 0 \<or> cl_cache c = None")
  case True
  with assms(1) show ?thesis by (auto simp: storeCache_def)
next
  case False
  then obtain cache where cache: "cl_cache c = Some cache" by auto
  let ?e = "(\<lparr>dm_ipv4Index = 0, dm_ipv6Index = 0, dm_msg = m\<rparr>, if cl_disableExpire c then None else Some (t + uint ttl * second))"
  have s: "storeCache t key m ttl c = c\<lparr>cl_cache := Some (cache(key \<mapsto> ?e))\<rparr>" using False cache by (simp add: storeCache_def)
  have "entry_ok E c log key ?e" unfolding entry_ok_def using assms(2-4) by (intro exI [of _ t] exI [of _ response] exI [of _ options]) simp
  moreover have "same_config c (storeCache t key m ttl c)" by (simp add: s same_config_def)
  ultimately show ?thesis using assms(1) cache entry_ok_config [of c "storeCache t key m ttl c"]
    by (auto simp: cache_ok_def s)
qed

section \<open>Exchanges\<close>

lemma finishCacheKey_same:
  "finishCacheKey E transport key = Some key' \<Longrightarrow> ck_transportTag key' = ck_transportTag key \<and> ck_Question key' = ck_Question key"
  by (auto simp: finishCacheKey_def Let_def split: if_splits)

text \<open>Beginning: a fixed response, one from the cache, an error, or the operation to carry out.\<close>

definition fixed_response :: "dns_msg \<Rightarrow> dns_msg \<Rightarrow> bool" where
  "fixed_response message r \<longleftrightarrow> r = FixedResponseStatus message RcodeFormatError \<or> r = FixedResponseStatus message RcodeSuccess"

lemma serve_cached_outcome:
  assumes "serve_cached r response isStale c = (b, c')"
  shows "same_config c c'" "cl_cache c' = cl_cache c" "\<exists>rf id. b = ExchangeDone (Some (response\<lparr>msg_Id := id\<rparr>)) None rf"
  using assms by (auto simp: serve_cached_def Let_def same_config_def split: if_splits)

lemma go_on_outcome:
  "go_on within transport operation c = b \<Longrightarrow>
   (\<exists>e. b = ExchangeDone None (Some e) None \<and> e \<noteq> ErrResponseRejected) \<or> b = ExchangeReady operation"
  by (auto simp: go_on_def ErrResponseRejectedCached_def ErrResponseRejected_def split: if_splits)

definition begun ::
  "client_env \<Rightarrow> client \<Rightarrow> answer_log \<Rightarrow> int \<Rightarrow> string \<Rightarrow> dns_msg \<Rightarrow> dns_query_options \<Rightarrow> checker option \<Rightarrow> exchange_begin \<Rightarrow> bool" where
  "begun E c log now transport message options check b \<longleftrightarrow>
     (\<exists>e rf. b = ExchangeDone None (Some e) rf) \<or>
     (\<exists>r. b = ExchangeDone (Some r) None None \<and> fixed_response message r) \<or>
     (\<exists>q qs r id stale rf. msg_Question message = q # qs \<and> b = ExchangeDone (Some (r\<lparr>msg_Id := id\<rparr>)) None rf \<and>
        from_cache E c log now transport q stale r \<and> (stale \<longrightarrow> \<not> qo_DisableOptimisticCache options)) \<or>
     (\<exists>q qs oper. msg_Question message = q # qs \<and> b = ExchangeReady oper \<and> eo_question oper = q \<and>
        eo_responseChecker oper = check \<and> ck_transportTag (eo_cacheKey oper) = transport \<and> ck_Question (eo_cacheKey oper) = q)"

lemma beginExchange_outcome:
  assumes "beginExchange E now cancelled within transport message options check c = (b, c')" "cache_ok E log c"
  shows "same_config c c' \<and> cache_ok E log c' \<and> begun E c log now transport message options check b"
proof (cases "cancelled = None \<and> msg_Question message \<noteq> []")
  case False
  with assms show ?thesis
    by (auto simp: beginExchange_def begun_def fixed_response_def split: list.splits if_splits)
next
  case True
  then obtain q qs where q: "msg_Question message = q # qs" by (cases "msg_Question message") auto
  let ?m = "prepareExchangeMessage E c message options"
  let ?d = "\<not> isSimpleRequest E message \<or> cl_disableCache c \<or> qo_DisableCache options"
  let ?k = "newCacheKey E c transport q ?m options"
  let ?fixed = "q_Qtype q = TypeA \<and> qo_Strategy options = DomainStrategyIPv6Only \<or>
    q_Qtype q = TypeAAAA \<and> qo_Strategy options = DomainStrategyIPv4Only"
  let ?op = "\<lparr>eo_message = ?m, eo_question = q, eo_messageId = msg_Id ?m, eo_options = options,
     eo_responseChecker = check, eo_disableCache = ?d, eo_cacheKey = ?k\<rparr>"
  let ?rf = "\<lparr>rf_transport = transport, rf_key = ?k, rf_message = ?m, rf_options = options, rf_responseChecker = check\<rparr>"
  obtain loaded c1 where l: "(if ?d then (None, c) else loadResponse now ?k c) = (loaded, c1)"
    by (cases "if ?d then (None, c) else loadResponse now ?k c")
  have c1: "same_config c c1" "cache_ok E log c1"
    using l loadResponse_cases [of now ?k c loaded c1 E log] assms(2) by (auto split: if_splits)
  have k: "ck_transportTag ?k = transport" "ck_Question ?k = q" by (simp_all add: newCacheKey_def)
  show ?thesis
  proof (cases ?fixed)
    case True
    with assms \<open>cancelled = None \<and> _\<close> q show ?thesis
      by (auto simp: beginExchange_def begun_def fixed_response_def)
  next
    case False
    have u: "(b, c') = (case loaded of None \<Rightarrow> (go_on within transport ?op c1, c1)
       | Some (response, ttl, isStale) \<Rightarrow>
           if isStale \<and> qo_DisableOptimisticCache options then (go_on within transport ?op c1, c1)
           else serve_cached ?rf response isStale c1)"
      using assms(1) True False unfolding beginExchange_def Let_def q list.case l prod.case by simp
    have ask: "same_config c c1 \<and> cache_ok E log c1 \<and> begun E c log now transport message options check (go_on within transport ?op c1)"
      using c1 go_on_outcome [OF refl, of within transport ?op c1] q k by (auto simp: begun_def)
    show ?thesis
    proof (cases loaded)
      case None
      with u ask show ?thesis by simp
    next
      case (Some p)
      obtain response ttl isStale where p: "p = (response, ttl, isStale)" by (cases p)
      show ?thesis
      proof (cases "isStale \<and> qo_DisableOptimisticCache options")
        case True
        with u ask Some p show ?thesis by simp
      next
        case False
        with u Some p have s: "serve_cached ?rf response isStale c1 = (b, c')" by auto
        note sc = serve_cached_outcome [OF this]
        from l Some p have "loadResponse now ?k c = (Some (response, ttl, isStale), c1)" by (auto split: if_splits)
        from loadResponse_origin [OF this assms(2)] k have o': "from_cache E c log now transport q isStale response" by simp
        have "cache_ok E log c'" using cache_ok_same [OF sc(2,1)] c1(2) by simp
        moreover have "same_config c c'" by (rule same_config_trans [OF c1(1) sc(1)])
        moreover have "begun E c log now transport message options check b"
          using sc(3) o' False q unfolding begun_def by blast
        ultimately show ?thesis by blast
      qed
    qed
  qed
qed

text \<open>Finishing: the response was not rejected, or it is not an answer.\<close>

lemma finishExchange_outcome:
  assumes "finishExchange E now transport oper response c = ((r, e), c')" "cache_ok E log c"
    "(now, transport, eo_question oper, response) \<in> set log"
    "ck_transportTag (eo_cacheKey oper) = transport" "ck_Question (eo_cacheKey oper) = eo_question oper"
  shows "same_config c c' \<and> cache_ok E log c' \<and> (e = None \<longrightarrow> \<not> is_rejected (eo_responseChecker oper) response) \<and>
    (e \<noteq> None \<longrightarrow> is_rejected (eo_responseChecker oper) response)"
proof (cases "is_rejected (eo_responseChecker oper) response")
  case True
  let ?s = "SaveRDRC transport (eo_question oper) c"
  have s: "same_config c ?s" "cl_cache ?s = cl_cache c" by (simp_all add: SaveRDRC_def same_config_def)
  from assms(1) True have c': "c' = (if eo_disableCache oper \<or> \<not> cacheable response then c else ?s)" "e \<noteq> None"
    by (auto simp: finishExchange_def Let_def)
  have "cache_ok E log ?s" using cache_ok_same [OF s(2,1)] assms(2) by simp
  with c' s(1) assms(2) True show ?thesis by simp
next
  case False
  obtain m ttl where a: "applyResponseOptions E c (eo_question oper) response (eo_options oper) = (m, ttl)"
    by (cases "applyResponseOptions E c (eo_question oper) response (eo_options oper)")
  from assms(1) False a have c': "e = None"
    "c' = (if eo_disableCache oper \<or> \<not> cacheable response then c
           else case finishCacheKey E transport (eo_cacheKey oper) of None \<Rightarrow> c | Some key \<Rightarrow> storeCache now key m ttl c)"
    by (simp_all add: finishExchange_def Let_def)
  have "cache_ok E log c' \<and> same_config c c'"
  proof (cases "finishCacheKey E transport (eo_cacheKey oper)")
    case None
    with c' assms(2) show ?thesis by (auto split: if_splits)
  next
    case (Some key)
    from finishCacheKey_same [OF this] assms(4,5) have k: "ck_transportTag key = transport" "ck_Question key = eo_question oper" by simp_all
    show ?thesis
    proof (cases "eo_disableCache oper \<or> \<not> cacheable response")
      case True
      with c'(2) assms(2) show ?thesis by simp
    next
      case False
      then have "c' = storeCache now key m ttl c" by (simp add: c'(2) Some)
      then show ?thesis using storeCache_ok [of E log c now key response "eo_options oper" m ttl] assms(2,3) k a False by simp
    qed
  qed
  with False c'(1) show ?thesis by blast
qed

section \<open>Runs\<close>

text \<open>
  What happens to a client: exchanges, refreshes in the background, entries pushed out of the full cache,
  and clearing it. A run also lists what servers answered, the latest first.
\<close>

datatype client_op =
    ExchangeOp int int "string \<Rightarrow> dns_msg \<Rightarrow> transport_answer" "error option" "string option" string dns_msg dns_query_options "checker option"
  | RefreshOp int "string \<Rightarrow> dns_msg \<Rightarrow> transport_answer" refresh
  | EvictOp dnsCacheKey
  | ClearOp

definition exchange_log ::
  "client_env \<Rightarrow> int \<Rightarrow> int \<Rightarrow> (string \<Rightarrow> dns_msg \<Rightarrow> transport_answer) \<Rightarrow> error option \<Rightarrow> string option \<Rightarrow> string \<Rightarrow> dns_msg \<Rightarrow>
   dns_query_options \<Rightarrow> checker option \<Rightarrow> client \<Rightarrow> answer_log" where
  "exchange_log E now later ask cancelled within transport message options check c =
     (let options' = (if qo_Timeout options = 0 then options\<lparr>qo_Timeout := cl_timeout c\<rparr> else options) in
      case beginExchange E now cancelled within transport message options' check c of
        (ExchangeReady oper, _) \<Rightarrow>
          (case exchangeToTransport E (eo_message oper) (ask transport (eo_message oper)) of
             Inr response \<Rightarrow> [(later, transport, eo_question oper, response)]
           | Inl _ \<Rightarrow> [])
      | _ \<Rightarrow> [])"

fun client_step :: "client_env \<Rightarrow> client_op \<Rightarrow> client \<times> answer_log \<Rightarrow> client \<times> answer_log" where
  "client_step E (ExchangeOp now later ask cancelled within transport message options check) (c, log) =
     (snd (snd (client_Exchange E now later ask cancelled within transport message options check c)),
      exchange_log E now later ask cancelled within transport message options check c @ log)"
| "client_step E (RefreshOp later ask r) (c, log) =
     (backgroundRefreshDNS E later ask r c,
      (case exchangeToTransport E (rf_message r) (ask (rf_transport r) (rf_message r)) of
         Inr response \<Rightarrow> [(later, rf_transport r, ck_Question (rf_key r), response)]
       | Inl _ \<Rightarrow> []) @ log)"
| "client_step E (EvictOp key) (c, log) = (c\<lparr>cl_cache := map_option (\<lambda>m. m(key := None)) (cl_cache c)\<rparr>, log)"
| "client_step E ClearOp (c, log) = (ClearCache c, log)"

fun refresh_wf :: "client_op \<Rightarrow> bool" where
  "refresh_wf (RefreshOp later ask r) \<longleftrightarrow> ck_transportTag (rf_key r) = rf_transport r"
| "refresh_wf _ \<longleftrightarrow> True"

definition fresh_answer ::
  "client_env \<Rightarrow> client \<Rightarrow> (string \<Rightarrow> dns_msg \<Rightarrow> transport_answer) \<Rightarrow> string \<Rightarrow> dns_question \<Rightarrow> checker option \<Rightarrow> dns_msg \<Rightarrow> bool" where
  "fresh_answer E c ask transport question check r \<longleftrightarrow>
     (\<exists>sent response options. exchangeToTransport E sent (ask transport sent) = Inr response \<and> \<not> is_rejected check response \<and>
        msg_Rcode r = msg_Rcode response \<and> msg_Answer r = msg_Answer (fst (applyResponseOptions E c question response options)))"

definition cached_answer ::
  "client_env \<Rightarrow> client \<Rightarrow> answer_log \<Rightarrow> int \<Rightarrow> string \<Rightarrow> dns_question \<Rightarrow> dns_query_options \<Rightarrow> dns_msg \<Rightarrow> bool" where
  "cached_answer E c log now transport question options r \<longleftrightarrow>
     (\<exists>stale r' id. r = r'\<lparr>msg_Id := id\<rparr> \<and> from_cache E c log now transport question stale r' \<and>
        (stale \<longrightarrow> \<not> qo_DisableOptimisticCache options))"

lemma applyResponseOptions_rcode: "msg_Rcode (fst (applyResponseOptions E c q r options)) = msg_Rcode r"
  by (simp add: applyResponseOptions_def Let_def normalizeTTL_def)

lemma match_edns_same: "msg_Rcode (match_edns m r) = msg_Rcode r" "msg_Answer (match_edns m r) = msg_Answer r"
  by (simp_all add: match_edns_def Let_def split: option.split)

lemma finishExchange_answer:
  assumes "finishExchange E now transport oper response c = ((r, None), c')"
  shows "\<exists>r'. r = Some r' \<and> msg_Rcode r' = msg_Rcode response \<and>
    msg_Answer r' = msg_Answer (fst (applyResponseOptions E c (eo_question oper) response (eo_options oper)))"
proof -
  have nr: "\<not> is_rejected (eo_responseChecker oper) response"
    using assms by (auto simp: finishExchange_def Let_def)
  obtain m ttl where a: "applyResponseOptions E c (eo_question oper) response (eo_options oper) = (m, ttl)"
    by (cases "applyResponseOptions E c (eo_question oper) response (eo_options oper)")
  with assms nr have "r = Some (match_edns (eo_message oper) (m\<lparr>msg_Id := eo_messageId oper\<rparr>))"
    by (simp add: finishExchange_def Let_def)
  then show ?thesis using a applyResponseOptions_rcode [of E c "eo_question oper" response "eo_options oper"]
    by (simp add: match_edns_same)
qed

lemma client_Exchange_outcome:
  assumes "client_Exchange E now later ask cancelled within transport message options check c = ((r, e), rf, c')" "cache_ok E log c"
  shows "same_config c c' \<and> cache_ok E (exchange_log E now later ask cancelled within transport message options check c @ log) c' \<and>
    (e = None \<longrightarrow> (\<exists>r'. r = Some r' \<and> (fixed_response message r' \<or>
       (\<exists>q qs. msg_Question message = q # qs \<and>
         (cached_answer E c log now transport q options r' \<or> fresh_answer E c ask transport q check r')))))"
proof -
  define options' where "options' = (if qo_Timeout options = 0 then options\<lparr>qo_Timeout := cl_timeout c\<rparr> else options)"
  have opt: "qo_DisableOptimisticCache options' = qo_DisableOptimisticCache options" by (simp add: options'_def)
  obtain b c1 where b: "beginExchange E now cancelled within transport message options' check c = (b, c1)"
    by (cases "beginExchange E now cancelled within transport message options' check c")
  note bo = beginExchange_outcome [OF b assms(2)]
  then have beg: "begun E c log now transport message options' check b" by blast
  have x: "client_Exchange E now later ask cancelled within transport message options check c =
      (case b of ExchangeDone response err r \<Rightarrow> ((response, err), r, c1)
       | ExchangeReady operation \<Rightarrow>
          (case exchangeToTransport E (eo_message operation) (ask transport (eo_message operation)) of
             Inl e \<Rightarrow> ((None, Some e), None, c1)
           | Inr response \<Rightarrow>
               (case finishExchange E later transport operation response c1 of (answer, c2) \<Rightarrow> (answer, None, c2))))"
    unfolding client_Exchange_def Let_def options'_def [symmetric] b by (simp split: exchange_begin.split)
  have lg: "exchange_log E now later ask cancelled within transport message options check c =
      (case b of ExchangeDone _ _ _ \<Rightarrow> []
       | ExchangeReady oper \<Rightarrow> (case exchangeToTransport E (eo_message oper) (ask transport (eo_message oper)) of
             Inr response \<Rightarrow> [(later, transport, eo_question oper, response)] | Inl _ \<Rightarrow> []))"
    unfolding exchange_log_def Let_def options'_def [symmetric] b by (simp split: exchange_begin.split)
  show ?thesis
  proof (cases b)
    case (ExchangeDone response err rf')
    with x assms(1) have eq: "r = response" "e = err" "c' = c1" by simp_all
    have "e = None \<longrightarrow> (\<exists>r'. r = Some r' \<and> (fixed_response message r' \<or>
       (\<exists>q qs. msg_Question message = q # qs \<and>
         cached_answer E c log now transport q options r')))"
      using beg ExchangeDone unfolding begun_def eq opt cached_answer_def by blast
    with bo eq lg ExchangeDone show ?thesis by auto
  next
    case (ExchangeReady oper)
    with beg obtain q qs where q: "msg_Question message = q # qs" "eo_question oper = q" "eo_responseChecker oper = check"
      "ck_transportTag (eo_cacheKey oper) = transport" "ck_Question (eo_cacheKey oper) = q" unfolding begun_def by blast
    show ?thesis
    proof (cases "exchangeToTransport E (eo_message oper) (ask transport (eo_message oper))")
      case (Inl err)
      with x lg assms(1) bo ExchangeReady show ?thesis by simp
    next
      case (Inr response)
      let ?log = "(later, transport, q, response) # log"
      have l: "exchange_log E now later ask cancelled within transport message options check c @ log = ?log"
        using lg ExchangeReady Inr q(2) by simp
      from x assms(1) ExchangeReady Inr have f: "finishExchange E later transport oper response c1 = ((r, e), c')"
        by (simp split: prod.splits)
      have "cache_ok E ?log c1" by (rule cache_ok_mono [of E log]) (use bo in auto)
      from finishExchange_outcome [OF f this] q
      have fo: "same_config c1 c'" "cache_ok E ?log c'" "e = None \<longrightarrow> \<not> is_rejected check response" by auto
      have "fresh_answer E c ask transport q check r'" if "e = None" "r = Some r'" for r'
      proof -
        from finishExchange_answer [of E later transport oper response c1 r c'] f that
        have "msg_Rcode r' = msg_Rcode response"
          "msg_Answer r' = msg_Answer (fst (applyResponseOptions E c1 q response (eo_options oper)))" by (auto simp: q(2))
        moreover have "same_config c c1" using bo by blast
        ultimately show ?thesis using fo(3) that(1) Inr applyResponseOptions_config [of c c1]
          unfolding fresh_answer_def by auto
      qed
      moreover have "e = None \<longrightarrow> (\<exists>r'. r = Some r')" using finishExchange_answer [of E later transport oper response c1 r c'] f by auto
      moreover have "same_config c c'" using bo fo(1) same_config_trans by blast
      ultimately show ?thesis using fo(2) q(1) l by auto
    qed
  qed
qed

lemma backgroundRefreshDNS_ok:
  fixes ask :: "string \<Rightarrow> dns_msg \<Rightarrow> transport_answer" and later :: int
  assumes "cache_ok E log c" "ck_transportTag (rf_key r) = rf_transport r"
  defines "log' \<equiv> (case exchangeToTransport E (rf_message r) (ask (rf_transport r) (rf_message r)) of
      Inr response \<Rightarrow> [(later, rf_transport r, ck_Question (rf_key r), response)] | Inl _ \<Rightarrow> []) @ log"
  shows "cache_ok E log' (backgroundRefreshDNS E later ask r c)"
proof -
  let ?c = "c\<lparr>cl_backgroundRefresh := remove1 (rf_key r) (cl_backgroundRefresh c)\<rparr>"
  have c0: "same_config c ?c" "cl_cache ?c = cl_cache c" by (simp_all add: same_config_def)
  have ok: "cache_ok E log ?c" using cache_ok_same [OF c0(2,1)] assms(1) by simp
  show ?thesis
  proof (cases "exchangeToTransport E (rf_message r) (ask (rf_transport r) (rf_message r))")
    case (Inl e)
    with ok show ?thesis by (simp add: backgroundRefreshDNS_def log'_def)
  next
    case (Inr response)
    have l: "log' = (later, rf_transport r, ck_Question (rf_key r), response) # log" by (simp add: log'_def Inr)
    have ok': "cache_ok E log' ?c" by (rule cache_ok_mono [OF ok]) (auto simp: l)
    have s: "cache_ok E log' (SaveRDRC t q ?c)" for t q
      using cache_ok_same [of "SaveRDRC t q ?c" ?c E log'] ok' by (simp add: SaveRDRC_def same_config_def)
    obtain m ttl where a: "applyResponseOptions E c (ck_Question (rf_key r)) response (rf_options r) = (m, ttl)"
      by (cases "applyResponseOptions E c (ck_Question (rf_key r)) response (rf_options r)")
    show ?thesis
    proof (cases "is_rejected (rf_responseChecker r) response \<or> rf_responseChecker r = None \<and> \<not> cacheable response")
      case True
      with s ok' Inr show ?thesis by (auto simp: backgroundRefreshDNS_def Let_def)
    next
      case False
      then have "cacheable response" by (auto simp: is_rejected_def split: option.splits)
      show ?thesis
      proof (cases "finishCacheKey E (rf_transport r) (rf_key r)")
        case None
        with False ok' Inr show ?thesis by (simp add: backgroundRefreshDNS_def Let_def)
      next
        case (Some key)
        from finishCacheKey_same [OF this] assms(2) have k: "ck_transportTag key = rf_transport r" "ck_Question key = ck_Question (rf_key r)" by simp_all
        have "cache_ok E log' (storeCache later key m ttl ?c)"
          using storeCache_ok [of E log' ?c later key response "rf_options r" m ttl] ok' \<open>cacheable response\<close> k a l
            applyResponseOptions_config [OF c0(1)] by simp
        with False Inr Some a show ?thesis by (auto simp: backgroundRefreshDNS_def Let_def)
      qed
    qed
  qed
qed

lemma client_step_ok:
  assumes "cache_ok E log c" "refresh_wf oper" "client_step E oper (c, log) = (c', log')"
  shows "cache_ok E log' c'"
proof (cases oper)
  case (ExchangeOp now later ask cancelled within transport message options check)
  obtain r e rf c2 where x: "client_Exchange E now later ask cancelled within transport message options check c = ((r, e), rf, c2)"
    by (metis surj_pair)
  from client_Exchange_outcome [OF x assms(1)] x assms(3) ExchangeOp show ?thesis by auto
next
  case (RefreshOp later ask r)
  with assms backgroundRefreshDNS_ok [where ask = ask and later = later] show ?thesis by auto
next
  case (EvictOp key)
  with assms have c': "c' = c\<lparr>cl_cache := map_option (\<lambda>m. m(key := None)) (cl_cache c)\<rparr>" "log' = log" by auto
  then have "same_config c c'" by (simp add: same_config_def)
  with assms(1) show ?thesis using entry_ok_config [of c c'] by (auto simp: cache_ok_def c' split: if_splits)
next
  case ClearOp
  with assms(3) show ?thesis by (auto simp: cache_ok_def ClearCache_def)
qed

lemma client_run_ok:
  "cache_ok E log c \<Longrightarrow> list_all refresh_wf ops \<Longrightarrow> fold (client_step E) ops (c, log) = (c', log') \<Longrightarrow> cache_ok E log' c'"
proof (induction ops arbitrary: c log)
  case (Cons oper ops)
  obtain c1 log1 where s: "client_step E oper (c, log) = (c1, log1)" by (cases "client_step E oper (c, log)")
  with Cons client_step_ok [OF Cons.prems(1) _ s] show ?case by simp
qed simp

text \<open>
  C8. However a client was used before, a response it answers with is a fixed one (a message without
  question, or a kind of address the strategy excludes), or it comes from the server just now and the
  caller's check accepts it, or the same server gave it to the same question before, as the time it may live
  says, with what is left of that as its time to live; after that only as a stale response.
\<close>

theorem answers_have_origin:
  assumes "fold (client_step E) ops (NewClient o', []) = (c, log)" "list_all refresh_wf ops"
    "client_Exchange E now later ask cancelled within transport message options check c = ((answer, None), rf, c')"
  shows "\<exists>r. answer = Some r \<and> (fixed_response message r \<or> (\<exists>q qs. msg_Question message = q # qs \<and>
    (cached_answer E c log now transport q options r \<or> fresh_answer E c ask transport q check r)))"
proof -
  have "cache_ok E [] (NewClient o')" by (auto simp: cache_ok_def NewClient_def split: if_splits)
  from client_Exchange_outcome [OF assms(3) client_run_ok [OF this assms(2,1)]] show ?thesis by blast
qed

definition ex_client_env :: client_env where
  "ex_client_env =
     \<lparr>ce_SOAMinttl = (\<lambda>_. None), ce_SetClientSubnet = (\<lambda>m _. m), ce_removeClientSubnet = (\<lambda>m. m),
      ce_clientSubnetFromMessage = (\<lambda>_. PrefixZero), ce_subnetOptionsOnly = (\<lambda>_. True), ce_stripDNSPadding = (\<lambda>m. m),
      ce_environmentHash = (\<lambda>_. 0), ce_AddrFromIP = AddrFromIP example_env, ce_RcodeToString = (\<lambda>_. []),
      ce_IsFqdn = (\<lambda>s. s \<noteq> [] \<and> last s = CHR ''.''), ce_Fqdn = (\<lambda>s. if s \<noteq> [] \<and> last s = CHR ''.'' then s else s @ ''.''),
      ce_CanonicalName = (\<lambda>s. s)\<rparr>"

definition ex_client_options :: client_options where
  "ex_client_options = \<lparr>co_Timeout = 0, co_DisableCache = False, co_DisableExpire = False, co_OptimisticTimeout = 0,
     co_RoundRobinCache = False, co_MinCacheTTL = 0, co_MaxCacheTTL = 0, co_ClientSubnet = PrefixZero, co_RDRC = True\<rparr>"

definition ex_query_options :: dns_query_options where
  "ex_query_options = \<lparr>qo_Transport = None, qo_Strategy = 0, qo_LookupStrategy = 0, qo_DisableCache = False,
     qo_DisableOptimisticCache = False, qo_RewriteTTL = None, qo_Timeout = 0, qo_ClientSubnet = PrefixZero, qo_RemoveClientSubnet = False\<rparr>"

definition ex_A :: "byte \<Rightarrow> 32 word \<Rightarrow> dns_rr" where
  "ex_A b ttl = RR_A \<lparr>rh_Name = ''a.test.'', rh_Rrtype = TypeA, rh_Class = 1, rh_Ttl = ttl\<rparr> [b, 0, 0, 1]"

definition ex_ask :: "string \<Rightarrow> dns_msg \<Rightarrow> transport_answer" where
  "ex_ask transport m = Answered ((FixedResponseStatus m RcodeSuccess)\<lparr>msg_Answer := [ex_A 10 60]\<rparr>)"

definition ex_question :: dns_msg where
  "ex_question = question_message ''a.test.'' TypeA"

text \<open>The second question is answered from the cache, half a minute later.\<close>

theorem answers_have_origin_witness:
  "\<exists>c log r rf c'. fold (client_step ex_client_env) [ExchangeOp 0 0 ex_ask None None ''dns'' ex_question ex_query_options None]
       (NewClient ex_client_options, []) = (c, log) \<and>
     client_Exchange ex_client_env (30 * second) (30 * second) ex_ask None None ''dns'' ex_question ex_query_options None c =
       ((Some r, None), rf, c') \<and> map (rh_Ttl \<circ> rr_Header) (msg_Answer r) = [30] \<and>
     (fixed_response ex_question r \<or> (\<exists>q qs. msg_Question ex_question = q # qs \<and>
        (cached_answer ex_client_env c log (30 * second) ''dns'' q ex_query_options r \<or> fresh_answer ex_client_env c ex_ask ''dns'' q None r)))"
proof -
  let ?ops = "[ExchangeOp 0 0 ex_ask None None ''dns'' ex_question ex_query_options None]"
  obtain c log where r: "fold (client_step ex_client_env) ?ops (NewClient ex_client_options, []) = (c, log)"
    by (cases "fold (client_step ex_client_env) ?ops (NewClient ex_client_options, [])")
  let ?x = "\<lambda>c. client_Exchange ex_client_env (30 * second) (30 * second) ex_ask None None ''dns'' ex_question ex_query_options None c"
  have "case ?x (fst (fold (client_step ex_client_env) ?ops (NewClient ex_client_options, []))) of
      ((Some r, None), _, _) \<Rightarrow> map (rh_Ttl \<circ> rr_Header) (msg_Answer r) = [30] | _ \<Rightarrow> False" by code_simp
  then obtain a rf c' where x: "?x c = ((Some a, None), rf, c')" "map (rh_Ttl \<circ> rr_Header) (msg_Answer a) = [30]"
    unfolding r fst_conv by (auto split: prod.splits option.splits)
  have "list_all refresh_wf ?ops" by simp
  from answers_have_origin [OF r this x(1)] have "fixed_response ex_question a \<or> (\<exists>q qs. msg_Question ex_question = q # qs \<and>
     (cached_answer ex_client_env c log (30 * second) ''dns'' q ex_query_options a \<or> fresh_answer ex_client_env c ex_ask ''dns'' q None a))"
    by simp
  with r x show ?thesis by (intro exI conjI) assumption+
qed


section \<open>The time to live\<close>

definition ttls :: "dns_rr list \<Rightarrow> 32 word set" where
  "ttls rs = rh_Ttl ` {h \<in> rr_Header ` set rs. rh_Rrtype h \<noteq> TypeOPT}"

definition positive_ttls :: "dns_msg \<Rightarrow> 32 word set" where
  "positive_ttls m = ttls (msg_Answer m @ msg_Ns m @ msg_Extra m) - {0}"

lemma ttls_Cons: "ttls (r # rs) = (if rh_Rrtype (rr_Header r) = TypeOPT then {} else {rh_Ttl (rr_Header r)}) \<union> ttls rs"
  by (auto simp: ttls_def)

lemma ttls_Nil: "ttls [] = {}"
  by (simp add: ttls_def)

lemma lower_ttl_le: "x \<in> insert t (ttls rs) \<Longrightarrow> x \<noteq> 0 \<Longrightarrow> lower_ttl rs t \<noteq> 0 \<and> lower_ttl rs t \<le> x"
proof (induction rs arbitrary: t x)
  case Nil
  then show ?case by (simp add: ttls_def)
next
  case (Cons r rs)
  define t' where "t' = (if rh_Rrtype (rr_Header r) = TypeOPT then t
    else if t = 0 \<or> rh_Ttl (rr_Header r) > 0 \<and> rh_Ttl (rr_Header r) < t then rh_Ttl (rr_Header r) else t)"
  have l: "lower_ttl (r # rs) t = lower_ttl rs t'" by (simp add: t'_def)
  show ?case
  proof (cases "x \<in> ttls rs")
    case True
    with Cons.IH [of x t'] Cons.prems(2) show ?thesis unfolding l by blast
  next
    case False
    with Cons.prems(1) have "x = t \<or> rh_Rrtype (rr_Header r) \<noteq> TypeOPT \<and> x = rh_Ttl (rr_Header r)"
      by (auto simp: ttls_Cons split: if_splits)
    then have "t' \<noteq> 0 \<and> t' \<le> x" using Cons.prems(2) by (auto simp: t'_def word_gt_0 not_less)
    with Cons.IH [of t' t'] show ?thesis unfolding l by (blast intro: order.trans)
  qed
qed

lemma lower_ttl_in: "lower_ttl rs t \<noteq> 0 \<Longrightarrow> lower_ttl rs t \<in> insert t (ttls rs)"
proof (induction rs arbitrary: t)
  case (Cons r rs)
  then show ?case by (auto simp: ttls_Cons split: if_splits)
qed simp

lemma lower_ttl_positive:
  "lower_ttl (msg_Answer m @ msg_Ns m @ msg_Extra m) 0 = (if positive_ttls m = {} then 0 else Min (positive_ttls m))"
proof -
  let ?rs = "msg_Answer m @ msg_Ns m @ msg_Extra m"
  have le: "lower_ttl ?rs 0 \<noteq> 0 \<and> lower_ttl ?rs 0 \<le> x" if "x \<in> positive_ttls m" for x
    using that lower_ttl_le [of x 0 ?rs] by (simp add: positive_ttls_def)
  have in_: "lower_ttl ?rs 0 \<in> positive_ttls m" if "lower_ttl ?rs 0 \<noteq> 0"
    using lower_ttl_in [OF that] that by (simp add: positive_ttls_def)
  have fin: "finite (positive_ttls m)" by (simp add: positive_ttls_def ttls_def)
  show ?thesis
  proof (cases "positive_ttls m = {}")
    case True
    with in_ show ?thesis by auto
  next
    case False
    then obtain x where "x \<in> positive_ttls m" by blast
    with le have "lower_ttl ?rs 0 \<in> positive_ttls m" using in_ by blast
    with le fin have "Min (positive_ttls m) = lower_ttl ?rs 0" by (intro Min_eqI) auto
    with False show ?thesis by simp
  qed
qed

lemma strip_hints_header: "rr_Header (strip_hints strategy r) = rr_Header r"
  by (cases r) (simp_all add: strip_hints_def)

lemma set_ttl_ttl: "rh_Rrtype (rr_Header (set_ttl t r)) \<noteq> TypeOPT \<Longrightarrow> rh_Ttl (rr_Header (set_ttl t r)) = t"
  by (cases "rh_Rrtype (rr_Header r) = TypeOPT"; cases r) (simp_all add: set_ttl_def)

text \<open>
  C14. The time a response with answers lives is the smallest positive time to live of its records,
  raised to the configured minimum and cut at the configured maximum, unless the rule rewrites it, and
  it is the time every record of the response is given, EDNS0 apart.
\<close>

theorem response_ttl_exact:
  assumes "applyResponseOptions E (NewClient o') question response options = (m, ttl)" "msg_Answer response \<noteq> []"
  shows "ttl = (case qo_RewriteTTL options of
       Some t \<Rightarrow> t
     | None \<Rightarrow>
         let lowest = (if positive_ttls response = {} then 0 else Min (positive_ttls response));
             raised = max lowest (co_MinCacheTTL o')
         in if co_MaxCacheTTL o' = 0 then raised else min raised (max (co_MinCacheTTL o') (co_MaxCacheTTL o'))) \<and>
    (\<forall>r\<in>set (msg_Answer m @ msg_Ns m @ msg_Extra m). rh_Rrtype (rr_Header r) \<noteq> TypeOPT \<longrightarrow> rh_Ttl (rr_Header r) = ttl)"
proof -
  let ?c = "NewClient o'"
  define r1 where "r1 = (if q_Qtype question = TypeHTTPS \<and>
      (qo_Strategy options = DomainStrategyIPv4Only \<or> qo_Strategy options = DomainStrategyIPv6Only)
    then response\<lparr>msg_Answer := map (strip_hints (qo_Strategy options)) (msg_Answer response)\<rparr> else response)"
  have ne: "msg_Answer r1 \<noteq> []" using assms(2) by (simp add: r1_def)
  have p: "positive_ttls r1 = positive_ttls response"
    unfolding positive_ttls_def ttls_def r1_def by (simp add: image_Un image_image strip_hints_header)
  have low: "computeTimeToLive E r1 = (if positive_ttls response = {} then 0 else Min (positive_ttls response))"
    using ne by (simp add: computeTimeToLive_def lower_ttl_positive p)
  have mm: "(if cl_maxCacheTTL ?c > 0 then min t (cl_maxCacheTTL ?c) else t) =
      (if co_MaxCacheTTL o' = 0 then t else min t (max (co_MinCacheTTL o') (co_MaxCacheTTL o')))" for t
    by (auto simp: NewClient_def max_def word_gt_0 not_less)
  have eq: "applyResponseOptions E ?c question response options =
      (normalizeTTL r1 (snd (applyResponseOptions E ?c question response options)), snd (applyResponseOptions E ?c question response options))"
    "snd (applyResponseOptions E ?c question response options) = (case qo_RewriteTTL options of Some t \<Rightarrow> t
      | None \<Rightarrow> (if cl_maxCacheTTL ?c > 0 then min (max (computeTimeToLive E r1) (cl_minCacheTTL ?c)) (cl_maxCacheTTL ?c)
                 else max (computeTimeToLive E r1) (cl_minCacheTTL ?c)))"
    unfolding applyResponseOptions_def r1_def [symmetric] Let_def by simp_all
  have t: "ttl = snd (applyResponseOptions E ?c question response options)" "m = normalizeTTL r1 ttl"
    using eq(1) assms(1) by simp_all
  have min: "cl_minCacheTTL ?c = co_MinCacheTTL o'" by (simp add: NewClient_def)
  show ?thesis
  proof (intro conjI ballI impI)
    fix r assume "r \<in> set (msg_Answer m @ msg_Ns m @ msg_Extra m)" "rh_Rrtype (rr_Header r) \<noteq> TypeOPT"
    then show "rh_Ttl (rr_Header r) = ttl" by (auto simp: t(2) normalizeTTL_def set_ttl_ttl)
  qed (unfold t(1) eq(2) mm low min Let_def, rule refl)
qed

theorem response_ttl_exact_witness:
  "snd (applyResponseOptions ex_client_env (NewClient (ex_client_options\<lparr>co_MinCacheTTL := 30, co_MaxCacheTTL := 20\<rparr>))
     (hd (msg_Question ex_question)) ((FixedResponseStatus ex_question 0)\<lparr>msg_Answer := [ex_A 1 60, ex_A 2 0, ex_A 3 10]\<rparr>) ex_query_options) = 30"
proof -
  let ?r = "(FixedResponseStatus ex_question 0)\<lparr>msg_Answer := [ex_A 1 60, ex_A 2 0, ex_A 3 10]\<rparr>"
  let ?o = "ex_client_options\<lparr>co_MinCacheTTL := 30, co_MaxCacheTTL := 20\<rparr>"
  have p: "positive_ttls ?r = {60, 10}"
    by (auto simp: positive_ttls_def ttls_Cons ttls_Nil FixedResponseStatus_def ex_A_def TypeA_def TypeOPT_def)
  have "msg_Answer ?r \<noteq> []" by simp
  from response_ttl_exact [OF surjective_pairing this, of ex_client_env ?o "hd (msg_Question ex_question)" ex_query_options]
  show ?thesis unfolding p by (simp add: ex_query_options_def ex_client_options_def Let_def)
qed

end
