(* ===== verification/Dns_Round_Robin.thy ===== *)
theory Dns_Round_Robin
  imports Dns_Client "HOL-Library.Multiset"
begin

text \<open>The rotation of cached addresses: nothing is lost and every address comes first equally often.\<close>

section \<open>Round robin\<close>

text \<open>Records whose type is that of their header.\<close>

definition rr_wf :: "dns_rr \<Rightarrow> bool" where
  "rr_wf r \<longleftrightarrow> (is_A r \<longleftrightarrow> rh_Rrtype (rr_Header r) = TypeA) \<and> (is_AAAA r \<longleftrightarrow> rh_Rrtype (rr_Header r) = TypeAAAA)"

lemma reverseRotateSlice_mset: "mset (reverseRotateSlice xs n) = mset xs"
proof -
  have "mset (drop k xs @ take k xs) = mset xs" for k
  proof -
    have "mset (drop k xs @ take k xs) = mset (take k xs @ drop k xs)" by (simp only: mset_append add.commute)
    then show ?thesis by simp
  qed
  then show ?thesis by (simp add: reverseRotateSlice_def Let_def)
qed

lemma removeAnswers_mset:
  "list_all (\<lambda>r. P r \<longleftrightarrow> rh_Rrtype (rr_Header r) = t) xs \<Longrightarrow> mset (removeAnswersOfType xs t) + mset (filter P xs) = mset xs"
  by (induction xs) (auto simp: removeAnswersOfType_def)

definition rotate_type :: "(dns_rr \<Rightarrow> bool) \<Rightarrow> 16 word \<Rightarrow> dns_rr list \<Rightarrow> nat \<Rightarrow> dns_rr list \<Rightarrow> dns_rr list" where
  "rotate_type P t picked n xs = (if length picked > 1 then removeAnswersOfType xs t @ reverseRotateSlice picked n else xs)"

lemma rotate_type_mset:
  assumes "list_all (\<lambda>r. P r \<longleftrightarrow> rh_Rrtype (rr_Header r) = t) xs" "mset picked = mset (filter P xs)"
  shows "mset (rotate_type P t picked n xs) = mset xs"
proof -
  have "mset (removeAnswersOfType xs t @ reverseRotateSlice picked n) = mset (removeAnswersOfType xs t) + mset picked"
    by (simp only: mset_append reverseRotateSlice_mset)
  also have "\<dots> = mset xs" unfolding assms(2) by (rule removeAnswers_mset [OF assms(1)])
  finally show ?thesis by (simp only: rotate_type_def split: if_split) blast
qed

lemma applyRoundRobin_answers:
  fixes dm msg
  defines "xs \<equiv> msg_Answer msg"
  defines "ys \<equiv> rotate_type is_A TypeA (filter is_A xs) (unat (nextRotation (dm_ipv4Index dm) (length (filter is_A xs)))) xs"
  shows "msg_Answer (fst (applyRoundRobin dm msg)) =
    rotate_type is_AAAA TypeAAAA (filter is_AAAA xs) (unat (nextRotation (dm_ipv6Index dm) (length (filter is_AAAA xs)))) ys"
  unfolding xs_def ys_def
  by (cases "length (filter is_A (msg_Answer msg)) > 1"; cases "length (filter is_AAAA (msg_Answer msg)) > 1")
    (simp_all add: applyRoundRobin_def Let_def rotate_type_def)

lemma applyRoundRobin_mset:
  assumes "list_all rr_wf (msg_Answer msg)"
  shows "mset (msg_Answer (fst (applyRoundRobin dm msg))) = mset (msg_Answer msg)"
proof -
  define xs where "xs = msg_Answer msg"
  define ys where "ys = rotate_type is_A TypeA (filter is_A xs) (unat (nextRotation (dm_ipv4Index dm) (length (filter is_A xs)))) xs"
  have wf: "list_all rr_wf xs" using assms by (simp add: xs_def)
  have w4: "list_all (\<lambda>r. is_A r \<longleftrightarrow> rh_Rrtype (rr_Header r) = TypeA) xs" using wf by (simp add: list_all_iff rr_wf_def)
  have ys: "mset ys = mset xs" unfolding ys_def by (rule rotate_type_mset [OF w4 refl])
  have wys: "list_all rr_wf ys" using wf mset_eq_setD [OF ys] by (simp add: list_all_iff)
  have w6: "list_all (\<lambda>r. is_AAAA r \<longleftrightarrow> rh_Rrtype (rr_Header r) = TypeAAAA) ys" using wys by (simp add: list_all_iff rr_wf_def)
  have f6: "mset (filter is_AAAA xs) = mset (filter is_AAAA ys)" by (simp only: mset_filter ys)
  show ?thesis unfolding applyRoundRobin_answers xs_def [symmetric] ys_def [symmetric]
    using rotate_type_mset [OF w6 f6] ys by simp
qed

section \<open>Fairness\<close>

text \<open>The responses that come out of an entry of the cache, one after the other.\<close>

fun served :: "nat \<Rightarrow> dnsMsg \<Rightarrow> dns_msg list" where
  "served 0 dm = []"
| "served (Suc n) dm = (case applyRoundRobin dm (dm_msg dm) of (msg, dm') \<Rightarrow> msg # served n dm')"

definition first_A :: "dns_msg \<Rightarrow> dns_rr" where
  "first_A msg = hd (filter is_A (msg_Answer msg))"

lemma unat_nextRotation:
  assumes "0 < n" "n < 2 ^ 32"
  shows "unat (nextRotation i n) = (unat i mod n + 1) mod n"
proof -
  have n: "unat (of_nat n :: 32 word) = n" using assms(2) by (simp add: unat_of_nat)
  have "unat i mod n < n" using assms(1) by simp
  then have "unat i mod n + 1 < 2 ^ 32" using assms(2) by linarith
  then have "unat (i mod of_nat n + 1) = unat i mod n + 1"
    by (simp add: unat_word_ariths unat_mod n)
  then show ?thesis by (simp add: nextRotation_def unat_mod n)
qed

lemma filter_rotated:
  assumes "list_all rr_wf xs"
  shows "filter is_A (removeAnswersOfType xs TypeA) = []" "filter is_A (removeAnswersOfType xs TypeAAAA) = filter is_A xs"
proof -
  show "filter is_A (removeAnswersOfType xs TypeA) = []"
    using assms by (induction xs) (auto simp: removeAnswersOfType_def rr_wf_def)
  have "\<not> is_AAAA r" if "is_A r" for r using that by (cases r) auto
  then show "filter is_A (removeAnswersOfType xs TypeAAAA) = filter is_A xs"
    using assms by (induction xs) (auto simp: removeAnswersOfType_def rr_wf_def)
qed

lemma filter_A_rotate:
  "filter is_A (reverseRotateSlice (filter is_A xs) n) = reverseRotateSlice (filter is_A xs) n"
  "filter is_A (reverseRotateSlice (filter is_AAAA xs) n) = []"
proof -
  have a: "r \<in> set (reverseRotateSlice ys n) \<Longrightarrow> r \<in> set ys" for r ys
    by (metis mset_eq_setD reverseRotateSlice_mset)
  show "filter is_A (reverseRotateSlice (filter is_A xs) n) = reverseRotateSlice (filter is_A xs) n"
    by (rule filter_True) (auto dest: a)
  have "\<not> is_A r" if "is_AAAA r" for r using that by (cases r) auto
  then show "filter is_A (reverseRotateSlice (filter is_AAAA xs) n) = []" by (auto simp: filter_empty_conv dest: a)
qed

lemma hd_rotate:
  assumes "1 < length xs" "s < length xs"
  shows "hd (reverseRotateSlice xs s) = xs ! ((length xs - s) mod length xs)"
  using assms by (cases "s = 0") (auto simp: reverseRotateSlice_def Let_def hd_append hd_drop_conv_nth hd_conv_nth)

lemma applyRoundRobin_first:
  fixes dm :: dnsMsg
  defines "As \<equiv> filter is_A (msg_Answer (dm_msg dm))"
  assumes "list_all rr_wf (msg_Answer (dm_msg dm))" "1 < length As" "length As < 2 ^ 32"
    "applyRoundRobin dm (dm_msg dm) = (msg, dm')"
  shows "first_A msg = As ! ((length As - (unat (dm_ipv4Index dm) + 1) mod length As) mod length As)"
    "dm_msg dm' = dm_msg dm" "unat (dm_ipv4Index dm') = (unat (dm_ipv4Index dm) + 1) mod length As"
proof -
  let ?i = "unat (dm_ipv4Index dm)" and ?n = "length As"
  let ?s = "unat (nextRotation (dm_ipv4Index dm) ?n)"
  have "0 < ?n" using assms(3) by linarith
  from unat_nextRotation [OF this assms(4), of "dm_ipv4Index dm"] have s: "?s = (?i + 1) mod ?n" by (simp add: mod_Suc_eq)
  define xs where "xs = msg_Answer (dm_msg dm)"
  have As: "As = filter is_A xs" by (simp add: As_def xs_def)
  have wf: "list_all rr_wf xs" using assms(2) by (simp add: xs_def)
  let ?y = "removeAnswersOfType xs TypeA @ reverseRotateSlice As ?s"
  have ys: "rotate_type is_A TypeA As ?s xs = ?y" using assms(3) by (simp add: rotate_type_def)
  have msg: "msg_Answer msg = rotate_type is_AAAA TypeAAAA (filter is_AAAA xs) (unat (nextRotation (dm_ipv6Index dm) (length (filter is_AAAA xs)))) ?y"
    using applyRoundRobin_answers [of dm "dm_msg dm"] assms(5) ys by (simp add: As xs_def)
  have wy: "list_all rr_wf ?y"
  proof -
    have "set (reverseRotateSlice As ?s) = set As" by (rule mset_eq_setD) (rule reverseRotateSlice_mset)
    with wf show ?thesis by (auto simp: list_all_iff removeAnswersOfType_def As)
  qed
  have fy: "filter is_A ?y = reverseRotateSlice As ?s"
    using filter_rotated(1) [OF wf] filter_A_rotate(1) [of xs ?s] by (simp add: As)
  have "filter is_A (msg_Answer msg) = reverseRotateSlice As ?s"
    unfolding msg rotate_type_def using fy filter_rotated(2) [OF wy] filter_A_rotate(2) [of xs] by simp
  then show "first_A msg = As ! ((?n - (?i + 1) mod ?n) mod ?n)"
    using hd_rotate [OF assms(3), of ?s] \<open>0 < ?n\<close> unfolding first_A_def s by simp
  have d: "dm_msg (snd (applyRoundRobin dm (dm_msg dm))) = dm_msg dm"
    "dm_ipv4Index (snd (applyRoundRobin dm (dm_msg dm))) = nextRotation (dm_ipv4Index dm) ?n"
    using assms(3) by (simp_all add: applyRoundRobin_def Let_def As_def)
  show "dm_msg dm' = dm_msg dm" using d(1) assms(5) by simp
  show "unat (dm_ipv4Index dm') = (?i + 1) mod ?n" using d(2) assms(5) s by simp
qed

lemma served_firsts:
  fixes dm0 :: dnsMsg
  defines "As \<equiv> filter is_A (msg_Answer (dm_msg dm0))"
  assumes "list_all rr_wf (msg_Answer (dm_msg dm0))" "1 < length As" "length As < 2 ^ 32"
  shows "dm_msg dm = dm_msg dm0 \<Longrightarrow> map first_A (served k dm) =
    map (\<lambda>j. As ! ((length As - (unat (dm_ipv4Index dm) + j) mod length As) mod length As)) [1..<Suc k]"
proof (induction k arbitrary: dm)
  case (Suc k)
  obtain msg dm' where a: "applyRoundRobin dm (dm_msg dm) = (msg, dm')" by (cases "applyRoundRobin dm (dm_msg dm)")
  have As: "As = filter is_A (msg_Answer (dm_msg dm))" by (simp add: As_def Suc.prems)
  note f = applyRoundRobin_first [of dm msg dm', folded As, OF _ assms(3,4) a]
  have wf: "list_all rr_wf (msg_Answer (dm_msg dm))" using assms(2) Suc.prems by simp
  let ?n = "length As" and ?i = "unat (dm_ipv4Index dm)"
  have m: "((?i + 1) mod ?n + j) mod ?n = (?i + Suc j) mod ?n" for j
    by (metis add_Suc_right add_Suc mod_add_left_eq Suc_eq_plus1)
  have "map first_A (served k dm') =
      map (\<lambda>j. As ! ((?n - (?i + Suc j) mod ?n) mod ?n)) [1..<Suc k]"
    using Suc.IH [of dm'] f(2,3) [OF wf] Suc.prems by (simp only: m)
  also have "\<dots> = map (\<lambda>j. As ! ((?n - (?i + j) mod ?n) mod ?n)) [2..<Suc (Suc k)]"
    unfolding map_Suc_upt [symmetric, of 1 "Suc k"] numeral_2_eq_2 One_nat_def by (simp add: comp_def map_Suc_upt [symmetric] del: upt_Suc)
  finally have r: "map first_A (served k dm') = map (\<lambda>j. As ! ((?n - (?i + j) mod ?n) mod ?n)) [2..<Suc (Suc k)]" .
  have u: "[1..<Suc (Suc k)] = 1 # [2..<Suc (Suc k)]" using upt_conv_Cons [of 1 "Suc (Suc k)"] by (simp add: numeral_2_eq_2)
  show ?case unfolding u using r f(1) [OF wf] a by simp
qed simp

lemma residues_bij:
  assumes "0 < (n::nat)"
  shows "bij_betw (\<lambda>j. (n - (i + j) mod n) mod n) {1..n} {0..<n}"
proof -
  have inj: "inj_on (\<lambda>j. (n - (i + j) mod n) mod n) {1..n}"
  proof (rule inj_onI)
    fix a b assume ab: "a \<in> {1..n}" "b \<in> {1..n}" "(n - (i + a) mod n) mod n = (n - (i + b) mod n) mod n"
    have r: "(n - x) mod n = (if x = 0 then 0 else n - x)" if "x < n" for x using that by auto
    have l: "(i + a) mod n < n" "(i + b) mod n < n" using assms by simp_all
    have g: "x = y" if "(if x = 0 then 0 else n - x) = (if y = 0 then 0 else n - y)" "x < n" "y < n" for x y
      using that by (auto split: if_splits)
    have eq: "(i + a) mod n = (i + b) mod n" by (rule g) (use ab(3) l in \<open>simp_all only: r [OF l(1)] r [OF l(2)]\<close>)
    show "a = b"
    proof (cases "a \<le> b")
      case True
      with eq have "n dvd b - a" using mod_eq_dvd_iff_nat [of "i + a" "i + b" n] by simp
      moreover have "b - a < n" using ab(1,2) by auto
      ultimately have "b - a = 0" using nat_dvd_not_less by blast
      with True show ?thesis by simp
    next
      case False
      with eq have "n dvd a - b" using mod_eq_dvd_iff_nat [of "i + b" "i + a" n] by simp
      moreover have "a - b < n" using ab(1,2) by auto
      ultimately have "a - b = 0" using nat_dvd_not_less by blast
      with False show ?thesis by simp
    qed
  qed
  let ?f = "\<lambda>j. (n - (i + j) mod n) mod n"
  have sub: "?f ` {1..n} \<subseteq> {0..<n}" using assms by auto
  have "card (?f ` {1..n}) = card {0..<n}" using card_image [OF inj] by simp
  with sub have "?f ` {1..n} = {0..<n}" by (intro card_subset_eq) simp_all
  with inj show ?thesis by (simp add: bij_betw_def)
qed

text \<open>
  C15. With round robin, no address of a cached response is lost, and of as many responses in a row as
  the response has IPv4 addresses each of them is the first one exactly once.
\<close>

theorem round_robin_fair:
  assumes "list_all rr_wf (msg_Answer (dm_msg dm))" "n = length (filter is_A (msg_Answer (dm_msg dm)))" "1 < n" "n < 2 ^ 32"
  shows "mset (map first_A (served n dm)) = mset (filter is_A (msg_Answer (dm_msg dm))) \<and>
    list_all (\<lambda>msg. mset (msg_Answer msg) = mset (msg_Answer (dm_msg dm))) (served k dm)"
proof
  define As where "As = filter is_A (msg_Answer (dm_msg dm))"
  have n: "n = length As" by (simp add: As_def assms(2))
  let ?g = "\<lambda>j. (n - (unat (dm_ipv4Index dm) + j) mod n) mod n"
  have "map first_A (served n dm) = map (\<lambda>j. As ! ?g j) [1..<Suc n]"
    using served_firsts [of dm dm n, folded As_def] assms n by simp
  then have "mset (map first_A (served n dm)) = image_mset (\<lambda>j. As ! ?g j) (mset_set {1..n})"
    by (simp add: atLeastLessThanSuc_atLeastAtMost del: upt_Suc)
  also have "\<dots> = image_mset ((!) As) (image_mset ?g (mset_set {1..n}))" by (simp add: multiset.map_comp comp_def)
  also have "image_mset ?g (mset_set {1..n}) = mset_set {0..<n}"
    using residues_bij [of n "unat (dm_ipv4Index dm)"] assms(3)
    by (subst image_mset_mset_set) (auto simp: bij_betw_def)
  also have "image_mset ((!) As) (mset_set {0..<n}) = mset (map ((!) As) [0..<n])" by simp
  also have "map ((!) As) [0..<n] = As" unfolding n by (rule map_nth)
  finally show "mset (map first_A (served n dm)) = mset (filter is_A (msg_Answer (dm_msg dm)))" by (simp add: As_def)
next
  show "list_all (\<lambda>msg. mset (msg_Answer msg) = mset (msg_Answer (dm_msg dm))) (served k dm)"
    using assms(1)
  proof (induction k arbitrary: dm)
    case (Suc k)
    have "dm_msg (snd (applyRoundRobin dm (dm_msg dm))) = dm_msg dm" by (simp add: applyRoundRobin_def Let_def)
    with Suc.IH [of "snd (applyRoundRobin dm (dm_msg dm))"] applyRoundRobin_mset [OF Suc.prems, of dm] Suc.prems show ?case
      by (simp add: split_beta)
  qed simp
qed

definition ex_entry :: dnsMsg where
  "ex_entry = \<lparr>dm_ipv4Index = 0, dm_ipv6Index = 0,
     dm_msg = (FixedResponseStatus (question_message ''a.test.'' TypeA) 0)\<lparr>msg_Answer :=
       map (\<lambda>b. RR_A \<lparr>rh_Name = ''a.test.'', rh_Rrtype = TypeA, rh_Class = 1, rh_Ttl = 60\<rparr> [b]) [1, 2, 3]\<rparr>\<rparr>"

theorem round_robin_fair_witness:
  "mset (map first_A (served 3 ex_entry)) = mset (filter is_A (msg_Answer (dm_msg ex_entry)))"
proof -
  have "list_all rr_wf (msg_Answer (dm_msg ex_entry))" by code_simp
  moreover have "3 = length (filter is_A (msg_Answer (dm_msg ex_entry)))" by code_simp
  ultimately show ?thesis using round_robin_fair [of ex_entry 3] by simp
qed

end
