(* ===== verification/Dns_Query.thy ===== *)
theory Dns_Query
  imports Dns_Client Dns_Mode Rule_PreMatch
begin

text \<open>
  What both modes of the DNS router share (\<open>dns/router.go\<close>): the options of a query, the query's metadata,
  rejections, following the CNAME of a predefined answer, and the addresses remembered for names. Asking
  a server is an argument with a state of its own, for the client in \<open>Dns_Client\<close>. The text of a CNAME
  record is its target.
\<close>

section \<open>Surroundings\<close>

record dns_env =
  ne_rule :: rule_env
  ne_client :: client_env
  ne_Transport :: "string \<rightharpoonup> string"
  ne_Default :: string
  ne_defaultDomainStrategy :: nat
  ne_defaultRejectRcode :: int
  ne_allowResolverDiscovery :: bool
  ne_reverseMapping :: bool
  ne_EqualFold :: "string \<Rightarrow> string \<Rightarrow> bool"

type_synonym 's exchanger =
  "'s \<Rightarrow> string \<Rightarrow> dns_msg \<Rightarrow> dns_query_options \<Rightarrow> checker option \<Rightarrow> (dns_msg option \<times> error option) \<times> 's"

definition ErrDrop :: error where
  "ErrDrop = E_New ''packet dropped''"

definition TypeSVCB :: "16 word" where "TypeSVCB = 64"
definition RcodeRefused :: int where "RcodeRefused = 5"

section \<open>Options and answers\<close>

definition resolveRejectRcode :: "int \<Rightarrow> int \<Rightarrow> int" where
  "resolveRejectRcode actionRcode defaultRcode =
     (if actionRcode \<noteq> -1 then actionRcode else if defaultRcode \<noteq> -1 then defaultRcode else RcodeRefused)"

definition dnsRejectResponse :: "dns_msg \<Rightarrow> int \<Rightarrow> int \<Rightarrow> dns_msg res" where
  "dnsRejectResponse message actionRcode defaultRcode =
     (case msg_Question message of
        [] \<Rightarrow> Inl (E_Panic ''index out of range'')
      | q # _ \<Rightarrow> Inr
          \<lparr>msg_Id = msg_Id message, msg_Response = True, msg_Authoritative = False, msg_RecursionDesired = False,
           msg_RecursionAvailable = False, msg_Rcode = resolveRejectRcode actionRcode defaultRcode, msg_Question = [q],
           msg_Answer = [], msg_Ns = [], msg_Extra = []\<rparr>)"

definition finalizeExchangeOptions :: "dns_env \<Rightarrow> dns_query_options \<Rightarrow> dns_query_options" where
  "finalizeExchangeOptions N options =
     (if qo_Strategy options = 0 then options\<lparr>qo_Strategy := ne_defaultDomainStrategy N\<rparr> else options)"

text \<open>The part of the options that both modes take over alike.\<close>

definition take_options :: "dns_route_options \<Rightarrow> dns_query_options \<Rightarrow> dns_query_options" where
  "take_options r options =
     (let o1 = (if do_DisableCache r then options\<lparr>qo_DisableCache := True\<rparr> else options);
          o2 = (if do_RewriteTTL r \<noteq> None then o1\<lparr>qo_RewriteTTL := do_RewriteTTL r\<rparr> else o1);
          o3 = (if do_Timeout r > 0 then o2\<lparr>qo_Timeout := do_Timeout r\<rparr> else o2);
          o4 = (if prefix_IsValid (do_ClientSubnet r)
                then o3\<lparr>qo_ClientSubnet := do_ClientSubnet r, qo_RemoveClientSubnet := False\<rparr> else o3)
      in if do_RemoveClientSubnet r then o4\<lparr>qo_ClientSubnet := PrefixZero, qo_RemoveClientSubnet := True\<rparr> else o4)"

definition applyDNSRouteOptions :: "dns_route_options \<Rightarrow> dns_query_options \<Rightarrow> dns_query_options" where
  "applyDNSRouteOptions r options =
     take_options r (if do_DisableOptimisticCache r then options\<lparr>qo_DisableOptimisticCache := True\<rparr> else options)"

datatype dnsRouteStatus = dnsRouteStatusMissing | dnsRouteStatusSkipped | dnsRouteStatusResolved

definition resolveDNSRoute ::
  "dns_env \<Rightarrow> string \<Rightarrow> dns_route_options \<Rightarrow> bool \<Rightarrow> dns_query_options \<Rightarrow> dnsRouteStatus \<times> dns_query_options" where
  "resolveDNSRoute N server routeOptions allowFakeIP options =
     (case ne_Transport N server of
        None \<Rightarrow> (dnsRouteStatusMissing, options)
      | Some t \<Rightarrow>
          if t = ''fakeip'' \<and> \<not> allowFakeIP then (dnsRouteStatusSkipped, options)
          else let o1 = applyDNSRouteOptions routeOptions options
               in (dnsRouteStatusResolved, if t = ''fakeip'' then o1\<lparr>qo_DisableCache := True\<rparr> else o1))"

section \<open>Metadata of a query\<close>

definition ip_version_of :: "16 word \<Rightarrow> 8 word \<Rightarrow> 8 word" where
  "ip_version_of qType v = (if qType = TypeA then 4 else if qType = TypeAAAA then 6 else v)"

definition withLookupQueryMetadata :: "16 word \<Rightarrow> inbound_context \<Rightarrow> inbound_context" where
  "withLookupQueryMetadata qType m =
     m\<lparr>m_QueryType := qType, m_QueryClientSubnet := PrefixZero, m_QueryDNSSEC := False, m_IPVersion := ip_version_of qType 0\<rparr>"

definition isAddressQuery :: "dns_msg \<Rightarrow> bool" where
  "isAddressQuery message =
     list_ex (\<lambda>q. q_Qtype q = TypeA \<or> q_Qtype q = TypeAAAA \<or> q_Qtype q = TypeHTTPS) (msg_Question message)"

definition isResolverDiscoveryQuery :: "dns_env \<Rightarrow> dns_question \<Rightarrow> bool" where
  "isResolverDiscoveryQuery N question =
     (q_Qtype question = TypeSVCB \<and> length (q_Name question) > 5 \<and> ne_EqualFold N (take 5 (q_Name question)) ''_dns.'')"

text \<open>The early response, an error, or the metadata to go on with.\<close>

datatype prepared = EarlyResponse dns_msg | PrepareFailed error | Prepared inbound_context

definition prepareExchange :: "dns_env \<Rightarrow> bool \<Rightarrow> inbound_context \<Rightarrow> dns_msg \<Rightarrow> prepared" where
  "prepareExchange N closing m message =
     (case msg_Question message of
        [question] \<Rightarrow>
          if \<not> ne_allowResolverDiscovery N \<and> isResolverDiscoveryQuery N question then
            EarlyResponse \<lparr>msg_Id = msg_Id message, msg_Response = True, msg_Authoritative = False,
              msg_RecursionDesired = msg_RecursionDesired message, msg_RecursionAvailable = True, msg_Rcode = RcodeSuccess,
              msg_Question = msg_Question message, msg_Answer = [], msg_Ns = [], msg_Extra = []\<rparr>
          else if closing then PrepareFailed (E_New ''dns router closed'')
          else Prepared
            (m\<lparr>m_Destination := empty_socksaddr, m_SniffHost := [], m_CacheIPs := [], m_QueryType := q_Qtype question,
               m_DNSResponse := None, m_NamedDNSResponses := [], m_DestinationAddressMatchFromResponse := False,
               m_IPVersion := ip_version_of (q_Qtype question) (m_IPVersion m),
               m_Domain := FqdnToDomain (ne_client N) (q_Name question),
               m_QueryClientSubnet := ce_clientSubnetFromMessage (ne_client N) message,
               m_QueryDNSSEC := (case IsEdns0 message of None \<Rightarrow> False | Some opt \<Rightarrow> edns_do opt)\<rparr>)
      | _ \<Rightarrow>
          EarlyResponse \<lparr>msg_Id = msg_Id message, msg_Response = True, msg_Authoritative = False, msg_RecursionDesired = False,
            msg_RecursionAvailable = False, msg_Rcode = RcodeFormatError, msg_Question = msg_Question message,
            msg_Answer = [], msg_Ns = [], msg_Extra = []\<rparr>)"

text \<open>What is remembered for later reverse lookups: addresses, the names they answer and seconds to keep them.\<close>

definition reverse_record :: "dns_env \<Rightarrow> dns_rr \<Rightarrow> (addr \<times> string \<times> 32 word) list" where
  "reverse_record N r =
     (case r of
        RR_A h ip \<Rightarrow> [(ce_AddrFromIP (ne_client N) ip, FqdnToDomain (ne_client N) (rh_Name h), rh_Ttl h)]
      | RR_AAAA h ip \<Rightarrow> [(ce_AddrFromIP (ne_client N) ip, FqdnToDomain (ne_client N) (rh_Name h), rh_Ttl h)]
      | _ \<Rightarrow> [])"

definition recordReverseMapping ::
  "dns_env \<Rightarrow> dns_msg \<Rightarrow> dns_msg option \<Rightarrow> string option \<Rightarrow> (addr \<times> string \<times> 32 word) list" where
  "recordReverseMapping N message response transport =
     (case response of
        None \<Rightarrow> []
      | Some r \<Rightarrow>
          if ne_reverseMapping N \<and> msg_Question message \<noteq> [] \<and>
             (case transport of None \<Rightarrow> True | Some t \<Rightarrow> ne_Transport N t \<noteq> Some ''fakeip'')
          then concat (map (reverse_record N) (msg_Answer r)) else [])"

section \<open>The CNAME of a predefined answer\<close>

definition cname_target :: "dns_rr \<Rightarrow> string option" where
  "cname_target r =
     (case r of RR_Other h target \<Rightarrow> if rh_Rrtype h = TypeCNAME then Some target else None | _ \<Rightarrow> None)"

definition cname_targets :: "client_env \<Rightarrow> dns_rr list \<Rightarrow> string set" where
  "cname_targets E records = (\<lambda>r. ce_CanonicalName E (the (cname_target r))) ` {r \<in> set records. cname_target r \<noteq> None}"

definition cname_of :: "client_env \<Rightarrow> dns_rr list \<Rightarrow> string \<Rightarrow> string option" where
  "cname_of E records current =
     map_option (\<lambda>r. ce_CanonicalName E (the (cname_target r)))
       (find (\<lambda>r. cname_target r \<noteq> None \<and> ce_CanonicalName E (rh_Name (rr_Header r)) = current) records)"

lemma cname_of_target: "cname_of E records current = Some t \<Longrightarrow> t \<in> cname_targets E records"
  by (auto simp: cname_of_def cname_targets_def find_Some_iff)

lemma finite_cname_targets [simp]: "finite (cname_targets E records)"
  by (simp add: cname_targets_def)

text \<open>The loop of \<open>findLastCNAMETarget\<close>; \<open>None\<close> where a name comes back.\<close>

function cname_chase :: "client_env \<Rightarrow> dns_rr list \<Rightarrow> string list \<Rightarrow> string \<Rightarrow> string option" where
  "cname_chase E records visited current =
     (case cname_of E records current of
        None \<Rightarrow> Some current
      | Some target \<Rightarrow> if List.member visited target then None else cname_chase E records (target # visited) target)"
  by pat_completeness auto
termination
proof (relation "measure (\<lambda>(E, records, visited, current). card (cname_targets E records - set visited))")
  fix E records visited current target
  assume a: "cname_of E records current = Some target" "\<not> List.member visited target"
  then have "cname_targets E records - set (target # visited) \<subset> cname_targets E records - set visited"
    using cname_of_target [OF a(1)] by auto
  then show "((E, records, target # visited, target), E, records, visited, current)
    \<in> measure (\<lambda>(E, records, visited, current). card (cname_targets E records - set visited))"
    by (simp add: psubset_card_mono)
qed simp

declare cname_chase.simps [simp del]

definition address_at :: "client_env \<Rightarrow> string \<Rightarrow> 16 word \<Rightarrow> dns_rr \<Rightarrow> bool" where
  "address_at E current qType r =
     (ce_CanonicalName E (rh_Name (rr_Header r)) = current \<and>
      (is_A r \<and> (qType = 0 \<or> qType = TypeA) \<or> is_AAAA r \<and> (qType = 0 \<or> qType = TypeAAAA)))"

definition findLastCNAMETarget :: "client_env \<Rightarrow> string \<Rightarrow> dns_rr list \<Rightarrow> 16 word \<Rightarrow> string" where
  "findLastCNAMETarget E name records qType =
     (let start = ce_CanonicalName E name in
      case cname_chase E records [start] start of
        None \<Rightarrow> []
      | Some current \<Rightarrow>
          if current = start \<or> list_ex (address_at E current qType) records then [] else current)"

text \<open>The target to follow, if any: the answers are for an address, and no name comes back.\<close>

definition follow_target :: "client_env \<Rightarrow> bool \<Rightarrow> string list \<Rightarrow> dns_msg \<Rightarrow> dns_msg \<Rightarrow> (string \<times> string list) option" where
  "follow_target E closing chain message response =
     (case msg_Question message of
        [] \<Rightarrow> None
      | q # _ \<Rightarrow>
          let target = findLastCNAMETarget E (q_Name q) (msg_Answer response) (q_Qtype q) in
          if q_Qtype q \<noteq> TypeA \<and> q_Qtype q \<noteq> TypeAAAA \<or> target = [] \<or> closing then None
          else map_option (Pair target) (ContextWithAliasResolution E chain (q_Name q) target))"

definition follow_metadata :: "dns_env \<Rightarrow> 16 word \<Rightarrow> string \<Rightarrow> inbound_context \<Rightarrow> inbound_context" where
  "follow_metadata N qtype target m = (withLookupQueryMetadata qtype m)\<lparr>m_Domain := FqdnToDomain (ne_client N) target\<rparr>"

definition merge_followed :: "16 word \<Rightarrow> dns_msg \<Rightarrow> dns_msg option \<times> error option \<Rightarrow> dns_msg" where
  "merge_followed qtype response followed =
     (case followed of
        (Some r, None) \<Rightarrow>
          if msg_Rcode r \<noteq> RcodeSuccess \<or> msg_Answer r = [] then response
          else response\<lparr>msg_Answer := msg_Answer response @
            filter (\<lambda>rr. rh_Rrtype (rr_Header rr) = qtype \<or> rh_Rrtype (rr_Header rr) = TypeCNAME) (msg_Answer r)\<rparr>
      | _ \<Rightarrow> response)"

end
