(* ===== verification/Dns_Legacy.thy ===== *)
theory Dns_Legacy
  imports Dns_Query
begin

text \<open>
  The legacy mode of the DNS router (\<open>dns/router.go\<close>): the first rule whose pre-match accepts the query
  decides, and where its server's response fails the rule's address limit the search goes on after it.
\<close>

section \<open>Matching\<close>

definition rule_LegacyPreMatch :: "rule_env \<Rightarrow> dns_rule \<Rightarrow> matcher" where
  "rule_LegacyPreMatch E rule m =
     (case dn_Rule rule of
        DefaultDNSRule d mr tag \<Rightarrow> DefaultDNSRule_LegacyPreMatch E d mr m
      | LogicalRule rules mode neg n \<Rightarrow> LogicalDNSRule_LegacyPreMatch E rules mode neg m
      | _ \<Rightarrow> (False, m))"

definition rule_MatchAddressLimit :: "rule_env \<Rightarrow> dns_rule \<Rightarrow> inbound_context \<Rightarrow> dns_msg \<Rightarrow> bool" where
  "rule_MatchAddressLimit E rule m response =
     (case dn_Rule rule of
        DefaultDNSRule d mr tag \<Rightarrow> DefaultDNSRule_MatchAddressLimit E d m (Some response)
      | LogicalRule rules mode neg n \<Rightarrow> LogicalDNSRule_MatchAddressLimit E rules mode neg m (Some response)
      | _ \<Rightarrow> False)"

definition addressLimitResponseCheck :: "rule_env \<Rightarrow> dns_rule option \<Rightarrow> inbound_context \<Rightarrow> checker option" where
  "addressLimitResponseCheck E rule m =
     (case rule of
        None \<Rightarrow> None
      | Some r \<Rightarrow> if \<not> WithAddressLimit (dn_Rule r) then None else Some (rule_MatchAddressLimit E r m))"

definition legacy_options :: "dns_route_options \<Rightarrow> dns_query_options \<Rightarrow> dns_query_options" where
  "legacy_options r options =
     take_options r (if do_Strategy r \<noteq> 0 then options\<lparr>qo_Strategy := do_Strategy r\<rparr> else options)"

text \<open>
  \<open>matchDNS\<close> over the rules from number \<open>i\<close> on: the server, the rule that decided, and the metadata and
  options it leaves.
\<close>

fun matchDNS ::
  "dns_env \<Rightarrow> bool \<Rightarrow> bool \<Rightarrow> nat \<Rightarrow> dns_rule list \<Rightarrow> inbound_context \<Rightarrow> dns_query_options \<Rightarrow>
   (string option \<times> (nat \<times> dns_rule) option) \<times> inbound_context \<times> dns_query_options" where
  "matchDNS N allowFakeIP addressQuery i [] m options = ((Some (ne_Default N), None), m, options)"
| "matchDNS N allowFakeIP addressQuery i (rule # rules) m options =
     (if dn_disabled rule \<or> WithAddressLimit (dn_Rule rule) \<and> \<not> addressQuery
      then matchDNS N allowFakeIP addressQuery (Suc i) rules m options
      else case rule_LegacyPreMatch (ne_rule N) rule ((ResetRuleCache m)\<lparr>m_DestinationAddressMatchFromResponse := False\<rparr>) of
        (matched, m1) \<Rightarrow>
          if \<not> matched then matchDNS N allowFakeIP addressQuery (Suc i) rules m1 options
          else case dn_Action rule of
            Some (RuleActionDNSRoute server speculative r) \<Rightarrow>
              (case ne_Transport N server of
                 None \<Rightarrow> matchDNS N allowFakeIP addressQuery (Suc i) rules m1 options
               | Some t \<Rightarrow>
                   if t = ''fakeip'' \<and> \<not> allowFakeIP then matchDNS N allowFakeIP addressQuery (Suc i) rules m1 options
                   else let o1 = legacy_options r options
                        in ((Some server, Some (i, rule)), m1, if t = ''fakeip'' then o1\<lparr>qo_DisableCache := True\<rparr> else o1))
          | Some (RuleActionDNSRouteOptions r) \<Rightarrow>
              matchDNS N allowFakeIP addressQuery (Suc i) rules m1 (legacy_options r options)
          | Some (RuleActionReject _) \<Rightarrow> ((None, Some (i, rule)), m1, options)
          | Some (RuleActionPredefined _) \<Rightarrow> ((None, Some (i, rule)), m1, options)
          | _ \<Rightarrow> matchDNS N allowFakeIP addressQuery (Suc i) rules m1 options)"

lemma matchDNS_matched:
  "matchDNS N af aq i rules m options = ((t, Some (j, r)), m', o') \<Longrightarrow> i \<le> j \<and> j < i + length rules \<and> r = rules ! (j - i)"
proof (induction rules arbitrary: i m options)
  case (Cons rule rules)
  consider "(t, Some (j, r)) = (t, Some (i, rule))" | m2 o2 where "matchDNS N af aq (Suc i) rules m2 o2 = ((t, Some (j, r)), m', o')"
    using Cons.prems by (auto simp: Let_def split: if_splits prod.splits option.splits rule_action.splits)
  then show ?case
  proof cases
    case 2
    from Cons.IH [OF this] show ?thesis by (auto simp: nth_Cons' Suc_diff_le)
  qed simp
qed simp

section \<open>Exchange\<close>

text \<open>Names that predefined answers of the rules can lead to.\<close>

definition followed_names :: "dns_env \<Rightarrow> dns_rule list \<Rightarrow> string set" where
  "followed_names N rules =
     ce_CanonicalName (ne_client N) `
       (\<Union>rule\<in>set rules. case dn_Action rule of
          Some (RuleActionPredefined a) \<Rightarrow> cname_targets (ne_client N) (pd_Answer a) | _ \<Rightarrow> {})"

lemma finite_followed_names [simp]: "finite (followed_names N rules)"
  by (auto simp: followed_names_def split: option.split rule_action.split)

lemma cname_chase_target:
  "cname_chase E records visited current = Some c \<Longrightarrow> c = current \<or> c \<in> cname_targets E records"
proof (induction E records visited current rule: cname_chase.induct)
  case (1 E records visited current)
  then show ?case
    by (subst (asm) (2) cname_chase.simps) (auto split: option.splits if_splits dest: cname_of_target)
qed

lemma findLastCNAMETarget_target:
  "findLastCNAMETarget E name records qType \<noteq> [] \<Longrightarrow> findLastCNAMETarget E name records qType \<in> cname_targets E records"
  by (auto simp: findLastCNAMETarget_def Let_def split: option.splits if_splits dest: cname_chase_target)

lemma cname_target_rewrite: "cname_target (rewrite_record q r) = cname_target r"
  by (cases r) (auto simp: rewrite_record_def cname_target_def)

lemma cname_targets_rewrite: "cname_targets E (rewriteRecords records q) = cname_targets E records"
  unfolding cname_targets_def rewriteRecords_def
  by (force simp: cname_target_rewrite image_iff)

lemma follow_target_new:
  assumes "follow_target (ne_client N) closing chain message response = Some (target, chain')"
    "RuleActionPredefined_Response a message = Inr response" "rule \<in> set rules" "dn_Action rule = Some (RuleActionPredefined a)"
  shows "card (followed_names N rules - set chain') < card (followed_names N rules - set chain)"
proof -
  from assms(1) obtain q qs where q: "msg_Question message = q # qs"
    "target = findLastCNAMETarget (ne_client N) (q_Name q) (msg_Answer response) (q_Qtype q)" "target \<noteq> []"
    "ContextWithAliasResolution (ne_client N) chain (q_Name q) target = Some chain'"
    by (auto simp: follow_target_def Let_def split: list.splits if_splits)
  let ?t = "ce_CanonicalName (ne_client N) target"
  have "msg_Answer response = rewriteRecords (pd_Answer a) q"
    using assms(2) q(1) by (auto simp: RuleActionPredefined_Response_def)
  with q(2,3) findLastCNAMETarget_target have "target \<in> cname_targets (ne_client N) (pd_Answer a)"
    by (metis cname_targets_rewrite)
  with assms(3,4) have t: "?t \<in> followed_names N rules" unfolding followed_names_def by force
  from q(4) have "?t \<notin> set chain" "set chain \<subseteq> set chain'" "?t \<in> set chain'"
    by (auto simp: ContextWithAliasResolution_def Let_def split: if_splits)
  with t have "followed_names N rules - set chain' \<subset> followed_names N rules - set chain" by auto
  then show ?thesis by (simp add: psubset_card_mono)
qed

type_synonym legacy_result = "(dns_msg option \<times> string option \<times> error option) res"

definition is_rejection :: "error option \<Rightarrow> bool" where
  "is_rejection e = (e = Some ErrResponseRejectedCached \<or> e = Some ErrResponseRejected)"

text \<open>
  What the rules from number \<open>start\<close> on decide: an answer at once, a predefined answer whose alias is followed,
  or a server to ask, with the number of the deciding rule and the check of its response.
\<close>

datatype legacy_decision =
    LegacyEnds legacy_result
  | LegacyFollows dns_msg string "string list" dns_query_options inbound_context
  | LegacyAsks string "nat option" "checker option" dns_query_options inbound_context

definition legacy_ask ::
  "dns_env \<Rightarrow> string option \<Rightarrow> (nat \<times> dns_rule) option \<Rightarrow> dns_query_options \<Rightarrow> inbound_context \<Rightarrow> legacy_decision" where
  "legacy_ask N transport matched dnsOptions m =
     (case transport of
        None \<Rightarrow> LegacyEnds (Inl (E_Panic ''nil pointer dereference''))
      | Some t \<Rightarrow> LegacyAsks t (map_option fst matched)
                   (addressLimitResponseCheck (ne_rule N) (map_option snd matched) m) (finalizeExchangeOptions N dnsOptions) m)"

definition legacy_reject :: "dns_env \<Rightarrow> reject_action \<Rightarrow> dns_msg \<Rightarrow> legacy_result" where
  "legacy_reject N a message =
     (if rj_Method a = ''default''
      then rbind (dnsRejectResponse message (rj_Rcode a) (ne_defaultRejectRcode N)) (\<lambda>r. Inr (Some r, None, None))
      else if rj_Method a = ''drop'' then Inr (None, None, Some ErrDrop)
      else Inl (E_Panic ''nil pointer dereference''))"

definition legacy_predefined ::
  "dns_env \<Rightarrow> bool \<Rightarrow> string list \<Rightarrow> predefined_action \<Rightarrow> dns_msg \<Rightarrow> dns_query_options \<Rightarrow> inbound_context \<Rightarrow> legacy_decision" where
  "legacy_predefined N closing chain a message dnsOptions m =
     (case RuleActionPredefined_Response a message of
        Inl e \<Rightarrow> LegacyEnds (Inl e)
      | Inr response \<Rightarrow>
          (case follow_target (ne_client N) closing chain message response of
             None \<Rightarrow> LegacyEnds (Inr (Some response, None, None))
           | Some (target, chain') \<Rightarrow> LegacyFollows response target chain' dnsOptions m))"

definition legacy_step ::
  "dns_env \<Rightarrow> bool \<Rightarrow> dns_rule list \<Rightarrow> string list \<Rightarrow> dns_msg \<Rightarrow> dns_query_options \<Rightarrow> inbound_context \<Rightarrow> nat \<Rightarrow> legacy_decision" where
  "legacy_step N closing rules chain message options m start =
     (case matchDNS N True (isAddressQuery message) start (drop start rules) m options of
        ((transport, matched), m1, dnsOptions) \<Rightarrow>
          (case Option.bind matched (dn_Action \<circ> snd) of
             Some (RuleActionReject a) \<Rightarrow> LegacyEnds (legacy_reject N a message)
           | Some (RuleActionPredefined a) \<Rightarrow> legacy_predefined N closing chain a message dnsOptions m1
           | _ \<Rightarrow> legacy_ask N transport matched dnsOptions m1))"

lemma legacy_step_follows:
  assumes "legacy_step N closing rules chain message options m start = LegacyFollows response target chain' dnsOptions m1"
  shows "card (followed_names N rules - set chain') < card (followed_names N rules - set chain)"
proof -
  obtain t matched m2 o2 where md:
    "matchDNS N True (isAddressQuery message) start (drop start rules) m options = ((t, matched), m2, o2)" by (metis surj_pair)
  from assms md obtain a where a: "Option.bind matched (dn_Action \<circ> snd) = Some (RuleActionPredefined a)"
    "legacy_predefined N closing chain a message o2 m2 = LegacyFollows response target chain' dnsOptions m1"
    by (auto simp: legacy_step_def legacy_ask_def split: option.splits rule_action.splits)
  then obtain i rule where r: "matched = Some (i, rule)" "dn_Action rule = Some (RuleActionPredefined a)"
    by (cases matched) auto
  from matchDNS_matched [OF md [unfolded r(1)]] have "rule \<in> set rules" by (auto intro: nth_mem)
  with a(2) r(2) show ?thesis
    by (auto simp: legacy_predefined_def split: sum.splits option.splits intro: follow_target_new)
qed

lemma legacy_step_asks:
  assumes "legacy_step N closing rules chain message options m start = LegacyAsks t (Some i) check dnsOptions m1"
  shows "start \<le> i \<and> i < length rules"
proof -
  obtain tr matched m2 o2 where md:
    "matchDNS N True (isAddressQuery message) start (drop start rules) m options = ((tr, matched), m2, o2)" by (metis surj_pair)
  from assms md obtain rule where "matched = Some (i, rule)"
    by (auto simp: legacy_step_def legacy_ask_def legacy_predefined_def
        split: option.splits rule_action.splits sum.splits)
  from matchDNS_matched [OF md [unfolded this]] show ?thesis by auto
qed

text \<open>
  \<open>exchangeLegacy\<close> with \<open>followPredefinedCNAME\<close>; \<open>chain\<close> holds the names an alias has led through. Each retry
  starts behind the rule whose response was refused, and each alias leads to a name of a predefined
  answer that the chain does not hold yet.
\<close>

function exchangeLegacy ::
  "dns_env \<Rightarrow> 's exchanger \<Rightarrow> bool \<Rightarrow> dns_rule list \<Rightarrow> string list \<Rightarrow> dns_msg \<Rightarrow> dns_query_options \<Rightarrow> inbound_context \<Rightarrow> nat \<Rightarrow> 's \<Rightarrow>
   legacy_result \<times> 's" where
  "exchangeLegacy N exchange closing rules chain message options m start s =
     (case legacy_step N closing rules chain message options m start of
        LegacyEnds r \<Rightarrow> (r, s)
      | LegacyFollows response target chain' dnsOptions m1 \<Rightarrow>
          let qtype = q_Qtype (hd (msg_Question message)) in
          (case exchangeLegacy N exchange closing rules chain' (question_message target qtype)
                  (dnsOptions\<lparr>qo_DisableOptimisticCache := True\<rparr>) (follow_metadata N qtype target m1) 0 s of
             (Inl e, s1) \<Rightarrow> (Inl e, s1)
           | (Inr (r, t, e), s1) \<Rightarrow> (Inr (Some (merge_followed qtype response (r, e)), None, None), s1))
      | LegacyAsks t i check dnsOptions m1 \<Rightarrow>
          (case exchange s t message dnsOptions check of
             ((response, e), s1) \<Rightarrow>
               (case i of
                  Some j \<Rightarrow>
                    if check \<noteq> None \<and> is_rejection e
                    then exchangeLegacy N exchange closing rules chain message options m1 (Suc j) s1
                    else (Inr (response, Some t, e), s1)
                | None \<Rightarrow> (Inr (response, Some t, e), s1))))"
  by pat_completeness auto
termination
proof (relation "inv_image (less_than <*lex*> less_than) (\<lambda>(N, exchange, closing, rules, chain, message, options, m, start, s).
    (card (followed_names N rules - set chain), length rules - start))", goal_cases)
  case 1
  then show ?case by (intro wf_inv_image wf_lex_prod wf_less_than)
next
  case 2
  then show ?case by (auto dest!: legacy_step_follows)
next
  case 3
  then show ?case by (auto dest!: legacy_step_asks)
qed

declare exchangeLegacy.simps [simp del]

section \<open>The router's Exchange\<close>

text \<open>
  \<open>Exchange\<close>, with the mode's own exchange as an argument: an explicit transport bypasses the rules, an error
  replaces the answer, and an answer is remembered for reverse lookups.
\<close>

definition dns_Exchange ::
  "dns_env \<Rightarrow> 's exchanger \<Rightarrow> bool \<Rightarrow> (dns_msg \<Rightarrow> dns_query_options \<Rightarrow> inbound_context \<Rightarrow> 's \<Rightarrow> legacy_result \<times> 's) \<Rightarrow>
   dns_msg \<Rightarrow> dns_query_options \<Rightarrow> inbound_context \<Rightarrow> 's \<Rightarrow>
   (dns_msg option \<times> (addr \<times> string \<times> 32 word) list) res \<times> 's" where
  "dns_Exchange N exchange closing byRules message options m s =
     (case prepareExchange N closing m message of
        PrepareFailed e \<Rightarrow> (Inl e, s)
      | EarlyResponse response \<Rightarrow> (Inr (Some response, []), s)
      | Prepared m1 \<Rightarrow>
          (case (case qo_Transport options of
                   Some t \<Rightarrow>
                     (case exchange s t message (finalizeExchangeOptions N options) None of
                        ((r, e), s1) \<Rightarrow> (Inr (r, Some t, e), s1))
                 | None \<Rightarrow> byRules message options m1 s) of
             (Inl e, s1) \<Rightarrow> (Inl e, s1)
           | (Inr (response, t, Some e), s1) \<Rightarrow> (Inl e, s1)
           | (Inr (response, t, None), s1) \<Rightarrow> (Inr (response, recordReverseMapping N message response t), s1)))"

definition dns_Exchange_legacy ::
  "dns_env \<Rightarrow> 's exchanger \<Rightarrow> bool \<Rightarrow> dns_rule list \<Rightarrow> dns_msg \<Rightarrow> dns_query_options \<Rightarrow> inbound_context \<Rightarrow> 's \<Rightarrow>
   (dns_msg option \<times> (addr \<times> string \<times> 32 word) list) res \<times> 's" where
  "dns_Exchange_legacy N exchange closing rules =
     dns_Exchange N exchange closing (\<lambda>message options m. exchangeLegacy N exchange closing rules [] message options m 0)"

end
