(* ===== verification/Spec2Isabelle.thy ===== *)
theory Spec2Isabelle
  imports Rule_Set_Props Ja3_Props Sniff_Props Expiring_Map_Props Route_Props
    Outbound_Props Dns_Mode_Props Dns_Client_Props Dns_Round_Robin Dns_Legacy
begin

text \<open>
  Verification of the routing core of sing-box: the rules a configuration gives, the rule-sets they
  refer to, the actions they carry, the sniffers that look into connections, and the router that puts
  them together. File names below are relative to \<open>src/\<close>.

  \<^bold>\<open>The program.\<close> An inbound accepts a connection and hands it with its metadata (\<open>adapter.InboundContext\<close>)
  to \<open>route/route.go\<close>. The router completes the metadata, goes through the route rules, runs the
  actions of those that match (sniff, resolve, set options) and takes the first whose action is final;
  a group of outbounds is followed to one that is no group. Rules are trees over rule items
  (\<open>route/rule\<close>), built from options (\<open>option\<close>), started with the rule-sets they name, and matched
  with marks kept in the metadata. DNS rules are matched twice, before the query and with the response.

  \<^bold>\<open>Basis.\<close>
  \<^item> \<open>SB_Prelude\<close>: results with errors (\<open>'a res\<close> is an error or a value; a Go panic is the error
    \<open>E_Panic\<close>), strings, numbers, the collections of rewrite rules.
  \<^item> \<open>Net_Addr\<close>, \<open>Bytes\<close>: \<open>net/netip\<close> addresses and prefixes as words, bounds-checked access to bytes.
  \<^item> \<open>Ip_Set\<close>: \<open>common/ipset\<close>, the sorted ranges and their binary search.
  \<^item> \<open>Inbound_Context\<close>: \<open>adapter/inbound.go\<close>, the metadata as a record with its resets, and the record
    \<open>rule_env\<close> of what items ask their surroundings.

  \<^bold>\<open>Rules.\<close>
  \<^item> \<open>Rule_Item\<close>: every \<open>rule_item_*.go\<close>, one constructor of \<open>rule_item\<close> each, with its \<open>Start\<close>, \<open>Match\<close>
    and \<open>String\<close>.
  \<^item> \<open>Match_State\<close>, \<open>Rule_Match\<close>: \<open>match_state.go\<close>, \<open>rule_abstract.go\<close>, \<open>rule_item_rule_set.go\<close>; the group bits
    as words, matching as functions from metadata to a result and new metadata.
  \<^item> \<open>Rule_Semantics\<close>: the declarative truth value of a rule tree and that matching computes it.
  \<^item> \<open>Rule_PreMatch\<close>: \<open>rule_dns.go\<close>, matching before the query is sound for matching with any response.
  \<^item> \<open>Rule_Options\<close>, \<open>Rule_Build\<close>, \<open>Rule_Build_DNS\<close>: \<open>option/rule*.go\<close> and the constructors of route,
    headless and DNS rules; \<open>Rule_Start\<close>: starting and describing them. \<open>Rule_Build_Facts\<close> and
    \<open>Rule_Build_Props\<close> show which items a construction puts in which group, what it refuses and
    that rules stay well-formed.
  \<^item> \<open>Rule_Action\<close>, \<open>Rule_Action_Run\<close>, \<open>Rule_Action_Props\<close>: \<open>rule_action.go\<close>; construction, description,
    the flood window of \<open>reject\<close>, predefined DNS answers.
  \<^item> \<open>Rule_Set\<close>, \<open>Rule_Set_Refs\<close>, \<open>Rule_Set_Remote\<close>, \<open>Rule_Set_Props\<close>: \<open>rule_set*.go\<close>; loading and
    metadata, reference counts as a step relation over started items (with the interface
    \<open>ref_counted\<close>), downloads with their cache and the updater.
  \<^item> \<open>Rule_Examples\<close>: concrete rules that the evaluated statements share.

  \<^bold>\<open>Sniffing.\<close>
  \<^item> \<open>Ja3\<close>, \<open>Ja3_Props\<close>: \<open>common/ja3\<close>; the parser of client hellos with its 16-bit offset ends on every
    payload, reads back every well-formed hello, and what is wrong with its fingerprint text.
  \<^item> \<open>Sniff\<close>, \<open>Sniff_Quic\<close>: \<open>common/sniff\<close>; all stream and packet sniffers, QUIC initial packets with
    the fragments kept between packets. \<open>Sniff_Facts\<close>, \<open>Sniff_Patience\<close>, \<open>Sniff_Props\<close>: no panic and no
    endless loop on any input, fragments in any order are put together, streams are recognised
    however they are cut.

  \<^bold>\<open>Routing.\<close>
  \<^item> \<open>Expiring_Map\<close>, \<open>Expiring_Map_Props\<close>: \<open>common/expiringmap\<close> with \<open>container/heap\<close> as it is written;
    the invariant that links map and heap, the refinement to a map of values with expiry times that is
    never swept, the sweeper, and the interface \<open>timed_cache\<close> its user relies on.
  \<^item> \<open>Route\<close>: \<open>route/route.go\<close>, the QUIC sniff cache of \<open>route/router.go\<close> and the process lookup of
    \<open>route/process_cache.go\<close>. The state of a match is a record of metadata, cache, what was read and what
    will be read; \<open>matchRule\<close> is the loop over the rules, \<open>routeConnection\<close> and \<open>routePacketConnection\<close>
    end in a \<open>route_result\<close>.
  \<^item> \<open>Route_PreMatch\<close>: \<open>Router.PreMatch\<close> and \<open>JudgeFlow\<close> of \<open>adapter/router.go\<close>, with which a device asks
    whether it may forward a flow by itself.
  \<^item> \<open>Route_Facts\<close>, \<open>Route_Safe\<close>, \<open>Route_Props\<close>: every connection is answered, the first rule that
    applies is taken, chains of outbounds end, hosts of QUIC flows are remembered, and in which order
    sniffed data is read again.

  \<^bold>\<open>Bounds and fuel.\<close> Loops over input are structural or have a measure. Where the code may run forever,
  the model is a partial function into options: the offset loop of \<open>Ja3\<close>, the assembling of QUIC
  fragments and \<open>resolveOutbound\<close>; the first two are proved to return on every input, the third when
  no cycle of groups exists. \<open>selectPreMatchOutbound\<close> counts down from nine, which is its depth limit of
  eight in the code. Counters of references are 32-bit words with a bound that the invariant needs.

  \<^bold>\<open>Arguments.\<close> Third-party code and the operating system are fields of \<open>rule_env\<close>, \<open>build_env\<close>,
  \<open>sniff_env\<close> and \<open>route_env\<close>: text and domain matchers, DNS messages, TLS, HTTP and ciphers, sockets with
  what a client sends as lists of reads, clocks as numbers of nanoseconds. So are the parts of the
  program that are not modelled: managers of outbounds and inbounds, groups, the DNS router, the
  neighbor and process lookups. Hypotheses about them are stated where they are used.

  \<^bold>\<open>Not modelled.\<close> Protocols and transports, TLS, dialers and listeners, the DNS client, the copying of
  connections, interrupts and trackers, logging, the APIs under \<open>experimental\<close>, providers, the command
  line, the parsing of JSON and of binary rule-sets, and the order of operations of several goroutines
  inside one locked operation.
\<close>

section \<open>Rule evaluation\<close>

text \<open>
  C1. On freshly reset metadata, matching a rule of any shape (default, logical, inverted, with
  merged or unmerged rule-sets, DNS) gives the truth value of the declarative semantics and leaves
  the metadata exactly as it was.
\<close>

theorem hrule_Match_refines:
  assumes "clean m" and "\<not> m_IgnoreDestinationIPCIDRMatch m"
  shows "hrule_Match E r m = (hrule_sem E r m, m)"
  using exactD [OF rule_tree_exact(1) assms] .

theorem hrule_Match_refines_witness:
  "clean ex_context \<and> \<not> m_IgnoreDestinationIPCIDRMatch ex_context \<and>
   hrule_Match example_env ex_rule ex_context = (hrule_sem example_env ex_rule ex_context, ex_context) \<and>
   hrule_sem example_env ex_rule ex_context"
proof -
  have c: "clean ex_context" "\<not> m_IgnoreDestinationIPCIDRMatch ex_context"
    by code_simp+
  moreover have "hrule_sem example_env ex_rule ex_context"
    by code_simp
  ultimately show ?thesis
    using hrule_Match_refines [OF c, of example_env ex_rule] by simp
qed



text \<open>
  C26. The same for a logical DNS rule of rules that do not mix domains and IP ranges: when the legacy
  pre-match rejects the query before it is sent, no response makes the rule match.
\<close>

theorem logical_prematch_rejects:
  assumes "list_all (legacy_h False) rules" and "\<not> m_IgnoreDestinationIPCIDRMatch m"
    and "\<not> fst (LogicalDNSRule_LegacyPreMatch E rules mode neg (ResetRuleCache m))"
  shows "\<not> LogicalDNSRule_MatchAddressLimit E rules mode neg (ResetRuleCache m) response"
  using LogicalDNSRule_prematch [OF assms(1,2), of E mode neg response] assms(3)
  unfolding tv_def by (metis fst_conv)

theorem logical_prematch_rejects_witness:
  "\<not> LogicalDNSRule_MatchAddressLimit example_env [DefaultDNSRule (plain_rule [] [ex_other_domain] [] None False) False []]
     LogicalTypeAnd False (ResetRuleCache ex_context) ex_response"
proof (rule logical_prematch_rejects)
  show "list_all (legacy_h False) [DefaultDNSRule (plain_rule [] [ex_other_domain] [] None False) False []]"
    by code_simp
  show "\<not> m_IgnoreDestinationIPCIDRMatch ex_context"
    by code_simp
  show "\<not> fst (LogicalDNSRule_LegacyPreMatch example_env
      [DefaultDNSRule (plain_rule [] [ex_other_domain] [] None False) False []] LogicalTypeAnd False (ResetRuleCache ex_context))"
    by code_simp
qed

section \<open>Address sets\<close>

text \<open>
  C30. A set made by \<open>FromRanges\<close> answers membership exactly: the binary search over the sorted ranges
  finds an address iff some range contains it.
\<close>

theorem FromRanges_Contains:
  assumes "FromRanges r4 r6 = Inr s"
  shows "ipset_Contains s a = ipset_member s a"
proof -
  have "ipset_inv s" using assms by (auto simp: FromRanges_Inr ipset_inv_def)
  then show ?thesis by (rule ipset_Contains_member)
qed

theorem FromRanges_Contains_witness:
  "\<exists>s. FromRanges [(1, 5), (9, 9)] [] = Inr s \<and> ipset_Contains s (Addr4 9) \<and> \<not> ipset_Contains s (Addr4 7)"
proof -
  have "FromRanges [(1, 5), (9, 9)] [] = Inr \<lparr>ranges4 = [(1, 5), (9, 9)], ranges6 = []\<rparr>"
    by code_simp
  moreover note FromRanges_Contains [OF this]
  moreover have "ipset_member \<lparr>ranges4 = [(1, 5), (9, 9)], ranges6 = []\<rparr> (Addr4 9)"
    "\<not> ipset_member \<lparr>ranges4 = [(1, 5), (9, 9)], ranges6 = []\<rparr> (Addr4 7)"
    by (code_simp, code_simp)
  ultimately show ?thesis by simp
qed

section \<open>Deviations\<close>



text \<open>No route options have a network type or a fallback network type.\<close>

lemma network_type_never_set:
  "newRuleActionRouteOptions A options = Inr r \<Longrightarrow> ro_NetworkType r = None \<and> ro_FallbackNetworkType r = None"
  by (auto simp: newRuleActionRouteOptions_def)

text \<open>A condition on constrained networks describes itself as one on expensive networks.\<close>

lemma constrained_described_as_expensive:
  "RuleItem_String E NewNetworkIsConstrainedItem = RuleItem_String E NewNetworkIsExpensiveItem"
  by (simp add: RuleItem_String_def NewNetworkIsConstrainedItem_def NewNetworkIsExpensiveItem_def
      NetworkIsConstrainedItem_String_def NetworkIsExpensiveItem_String_def)

text \<open>Without a network manager, a headless rule whose only condition is the network type matches everything.\<close>

lemma network_only_rule_matches_all:
  assumes "NewDefaultHeadlessRule E \<lparr>be_Router = None, be_NetworkManager = False\<rparr>
    (zero_headless_options\<lparr>mo_NetworkType := [t]\<rparr>) = Inr r" "clean m" "\<not> m_IgnoreDestinationIPCIDRMatch m"
  shows "fst (hrule_Match E (DefaultHeadlessRule r) m)"
proof -
  have "allItems r = []" "ruleSetItem r = None"
    using assms(1) by (auto simp: NewDefaultHeadlessRule_def headless_step_lists add_or_raw_def Let_def
        zero_headless_options_def zero_match_options_def match_options.defs headless_options.defs map_given_def
        build_drule_def empty_builder_def)
  then have "hrule_sem E (DefaultHeadlessRule r) m"
    by (cases r) (simp add: default_sem_def)
  with exactD [OF rule_tree_exact(1) assms(2,3), of E "DefaultHeadlessRule r"] show ?thesis by simp
qed

end
